(* ===== verification/Prelude.thy ===== *)
theory Prelude
  imports Complex_Main "HOL-Library.Multiset"
begin

text \<open>
  Shared vocabulary of the development: the exceptions the services throw, actions (programs
  that read and write a world and may throw after having written), loops over lists of awaited
  calls, tables as lists of rows with their lemmas, and the two generic ways in which the
  component theories speak about an action: \<open>keeps P m\<close> (an invariant is preserved, also on
  the error paths) and \<open>leaves f m\<close> (an observation is not touched).
\<close>

section \<open>Collections of rules\<close>

named_theorems act_defs \<open>definitions of the action combinators\<close>
named_theorems keeps_intros \<open>compositional rules for preservation of an invariant\<close>
named_theorems leaves_intros \<open>compositional rules for observations that do not change\<close>
named_theorems total_intros \<open>compositional rules for actions that never throw\<close>
named_theorems atomic_intros \<open>compositional rules for actions that throw before they write\<close>
named_theorems table_simps \<open>lookup, filter and uniqueness facts about updated tables\<close>

section \<open>Exceptions and base types\<close>

text \<open>
  The exception classes of \<open>@nestjs/common\<close> that the services throw, the Prisma errors the code
  distinguishes (P2025 record not found, P2002 unique constraint, P2003 foreign key), and the
  two kinds of foreign failure: an external service (IPFS, RPC) and a JavaScript runtime error.
  The texts of the messages are not modelled.
\<close>

datatype exn =
    NotFoundException
  | ForbiddenException
  | ConflictException
  | BadRequestException
  | PreconditionFailedException
  | InternalServerErrorException
  | UnauthorizedException
  | ServiceUnavailableException
  | PayloadTooLargeException
  | UnsupportedMediaTypeException
  | GoneException
  | TooManyRequestsException
  | BadGatewayException
  | PrismaP2025
  | PrismaP2002
  | PrismaP2003
  | ExternalError
  | RuntimeError

type_synonym uuid = nat
type_synonym time = int
type_synonym address = string
type_synonym 'a result = "exn + 'a"
type_synonym ('w, 'a) action = "'w \<Rightarrow> 'a result \<times> 'w"

section \<open>Actions\<close>

definition ret :: "'a \<Rightarrow> ('w, 'a) action" where
  "ret x = (\<lambda>w. (Inr x, w))"

definition throw :: "exn \<Rightarrow> ('w, 'a) action" where
  "throw e = (\<lambda>w. (Inl e, w))"

text \<open>Sequencing: an exception of the first action ends the whole, keeping what it has written.\<close>

definition andThen :: "('w, 'a) action \<Rightarrow> ('a \<Rightarrow> ('w, 'b) action) \<Rightarrow> ('w, 'b) action" where
  "andThen m k = (\<lambda>w. case m w of (Inl e, w') \<Rightarrow> (Inl e, w') | (Inr x, w') \<Rightarrow> k x w')"

text \<open>\<open>if (!cond) throw e;\<close> followed by the rest of the body.\<close>

definition require :: "bool \<Rightarrow> exn \<Rightarrow> ('w, 'a) action \<Rightarrow> ('w, 'a) action" where
  "require c e m = (if c then m else throw e)"

text \<open>\<open>if (x == null) throw e;\<close> followed by the rest of the body, which may use the value.\<close>

definition requireSome :: "'x option \<Rightarrow> exn \<Rightarrow> ('x \<Rightarrow> ('w, 'a) action) \<Rightarrow> ('w, 'a) action" where
  "requireSome v e k = (case v of None \<Rightarrow> throw e | Some x \<Rightarrow> k x)"

definition reads :: "('w \<Rightarrow> 'a) \<Rightarrow> ('w, 'a) action" where
  "reads f = (\<lambda>w. (Inr (f w), w))"

definition modify :: "('w \<Rightarrow> 'w) \<Rightarrow> ('w, unit) action" where
  "modify f = (\<lambda>w. (Inr (), f w))"

text \<open>\<open>try { m } catch { h }\<close>.\<close>

definition attempt :: "('w, 'a) action \<Rightarrow> (exn \<Rightarrow> ('w, 'a) action) \<Rightarrow> ('w, 'a) action" where
  "attempt m h = (\<lambda>w. case m w of (Inl e, w') \<Rightarrow> h e w' | (Inr x, w') \<Rightarrow> (Inr x, w'))"

text \<open>\<open>for (const x of xs) await f(x);\<close>\<close>

fun forEach :: "'x list \<Rightarrow> ('x \<Rightarrow> ('w, unit) action) \<Rightarrow> ('w, unit) action" where
  "forEach [] f = ret ()"
| "forEach (x # xs) f = andThen (f x) (\<lambda>_. forEach xs f)"

text \<open>A call whose result is discarded.\<close>

definition ignore :: "('w, 'a) action \<Rightarrow> ('w, unit) action" where
  "ignore m = (\<lambda>w. case m w of (r, w') \<Rightarrow> (map_sum id (\<lambda>_. ()) r, w'))"

definition whenA :: "bool \<Rightarrow> ('w, unit) action \<Rightarrow> ('w, unit) action" where
  "whenA c m = (if c then m else ret ())"

text \<open>A synchronous helper that may throw, followed by the rest of the body.\<close>

definition liftResult :: "'x result \<Rightarrow> ('x \<Rightarrow> ('w, 'a) action) \<Rightarrow> ('w, 'a) action" where
  "liftResult r k = (case r of Inl e \<Rightarrow> throw e | Inr x \<Rightarrow> k x)"

declare ret_def [act_defs] throw_def [act_defs] andThen_def [act_defs] require_def [act_defs]
  requireSome_def [act_defs] reads_def [act_defs] modify_def [act_defs] attempt_def [act_defs]
  whenA_def [act_defs] ignore_def [act_defs]

abbreviation succeeds :: "'a result \<times> 'w \<Rightarrow> bool" where
  "succeeds r \<equiv> \<exists>v w'. r = (Inr v, w')"

subsection \<open>Running composed actions\<close>

lemma run_ret [simp]: "ret x w = (Inr x, w)"
  by (simp add: ret_def)

lemma run_throw [simp]: "throw e w = (Inl e, w)"
  by (simp add: throw_def)

lemma run_reads [simp]: "reads f w = (Inr (f w), w)"
  by (simp add: reads_def)

lemma run_modify [simp]: "modify f w = (Inr (), f w)"
  by (simp add: modify_def)

lemma run_andThen_Inr [simp]: "m w = (Inr x, w') \<Longrightarrow> andThen m k w = k x w'"
  by (simp add: andThen_def)

lemma run_andThen_Inl [simp]: "m w = (Inl e, w') \<Longrightarrow> andThen m k w = (Inl e, w')"
  by (simp add: andThen_def)

lemma run_andThen_reads [simp]: "andThen (reads f) k w = k (f w) w"
  by (simp add: andThen_def)

lemma run_andThen_ret [simp]: "andThen (ret x) k w = k x w"
  by (simp add: andThen_def)

lemma run_require [simp]: "require c e m w = (if c then m w else (Inl e, w))"
  by (simp add: require_def)

lemma run_requireSome_None [simp]: "requireSome None e k w = (Inl e, w)"
  by (simp add: requireSome_def)

lemma run_requireSome_Some [simp]: "requireSome (Some x) e k w = k x w"
  by (simp add: requireSome_def)

lemma run_liftResult_Inl [simp]: "liftResult (Inl e) k w = (Inl e, w)"
  by (simp add: liftResult_def)

lemma run_liftResult_Inr [simp]: "liftResult (Inr x) k w = k x w"
  by (simp add: liftResult_def)

lemma run_whenA [simp]: "whenA c m w = (if c then m w else (Inr (), w))"
  by (simp add: whenA_def)

lemma run_ignore [simp]: "m w = (r, w') \<Longrightarrow> ignore m w = (map_sum id (\<lambda>_. ()) r, w')"
  by (simp add: ignore_def)

lemma snd_ignore [simp]: "snd (ignore m w) = snd (m w)"
  by (simp add: ignore_def split: prod.splits)

lemma run_attempt_Inr [simp]: "m w = (Inr x, w') \<Longrightarrow> attempt m h w = (Inr x, w')"
  by (simp add: attempt_def)

lemma run_attempt_Inl [simp]: "m w = (Inl e, w') \<Longrightarrow> attempt m h w = h e w'"
  by (simp add: attempt_def)

lemma andThen_success_iff:
  "andThen m k w = (Inr y, w2) \<longleftrightarrow> (\<exists>x w1. m w = (Inr x, w1) \<and> k x w1 = (Inr y, w2))"
  by (auto simp: andThen_def split: prod.splits sum.splits)

lemma require_success_iff: "require c e m w = (Inr y, w2) \<longleftrightarrow> c \<and> m w = (Inr y, w2)"
  by simp

lemma requireSome_success_iff:
  "requireSome v e k w = (Inr y, w2) \<longleftrightarrow> (\<exists>x. v = Some x \<and> k x w = (Inr y, w2))"
  by (cases v) auto

lemma liftResult_success_iff:
  "liftResult r k w = (Inr y, w2) \<longleftrightarrow> (\<exists>x. r = Inr x \<and> k x w = (Inr y, w2))"
  by (cases r) auto

lemma if_success_iff:
  "(if c then r else (Inl e, w)) = (Inr y, w2) \<longleftrightarrow> c \<and> r = (Inr y, w2)"
  by auto

lemmas success_iffs = if_success_iff andThen_success_iff require_success_iff requireSome_success_iff liftResult_success_iff

lemma forEach_append: "forEach (xs @ ys) f = andThen (forEach xs f) (\<lambda>_. forEach ys f)"
  by (induction xs) (auto simp: fun_eq_iff andThen_def split: prod.splits sum.splits)

section \<open>Preservation and frames\<close>

definition keeps :: "('w \<Rightarrow> bool) \<Rightarrow> ('w, 'a) action \<Rightarrow> bool" where
  "keeps P m \<longleftrightarrow> (\<forall>w. P w \<longrightarrow> P (snd (m w)))"

definition leaves :: "('w \<Rightarrow> 'o) \<Rightarrow> ('w, 'a) action \<Rightarrow> bool" where
  "leaves f m \<longleftrightarrow> (\<forall>w. f (snd (m w)) = f w)"

lemma keepsI [intro?]: "(\<And>w. P w \<Longrightarrow> P (snd (m w))) \<Longrightarrow> keeps P m"
  by (simp add: keeps_def)

lemma keepsD: "keeps P m \<Longrightarrow> P w \<Longrightarrow> P (snd (m w))"
  by (simp add: keeps_def)

lemma leavesI [intro?]: "(\<And>w. f (snd (m w)) = f w) \<Longrightarrow> leaves f m"
  by (simp add: leaves_def)

lemma leavesD: "leaves f m \<Longrightarrow> f (snd (m w)) = f w"
  by (simp add: leaves_def)

lemma leaves_run: "leaves f m \<Longrightarrow> m w = (r, w') \<Longrightarrow> f w' = f w"
  by (metis leavesD snd_conv)

lemma keeps_run: "keeps P m \<Longrightarrow> m w = (r, w') \<Longrightarrow> P w \<Longrightarrow> P w'"
  by (metis keepsD snd_conv)

lemma leaves_keeps: "leaves f m \<Longrightarrow> keeps (\<lambda>w. P (f w)) m"
  by (simp add: leaves_def keeps_def)

lemma leaves_comp: "leaves f m \<Longrightarrow> leaves (\<lambda>w. g (f w)) m"
  by (simp add: leaves_def)

lemma leaves_ret [leaves_intros]: "leaves f (ret x)"
  by (simp add: leaves_def)

lemma leaves_throw [leaves_intros]: "leaves f (throw e)"
  by (simp add: leaves_def)

lemma leaves_reads [leaves_intros]: "leaves f (reads g)"
  by (simp add: leaves_def)

lemma leaves_andThen [leaves_intros]:
  "leaves f m \<Longrightarrow> (\<And>x. leaves f (k x)) \<Longrightarrow> leaves f (andThen m k)"
  unfolding leaves_def andThen_def
  by (metis (mono_tags, lifting) case_prod_beta snd_conv sum.case_eq_if)

lemma leaves_require [leaves_intros]: "leaves f m \<Longrightarrow> leaves f (require c e m)"
  by (simp add: leaves_def)

lemma leaves_requireSome [leaves_intros]:
  "(\<And>x. leaves f (k x)) \<Longrightarrow> leaves f (requireSome v e k)"
  by (cases v) (simp_all add: leaves_def)

lemma leaves_liftResult [leaves_intros]:
  "(\<And>x. leaves f (k x)) \<Longrightarrow> leaves f (liftResult r k)"
  by (cases r) (simp_all add: leaves_def)

lemma leaves_whenA [leaves_intros]: "leaves f m \<Longrightarrow> leaves f (whenA c m)"
  by (simp add: leaves_def)

lemma leaves_ignore [leaves_intros]: "leaves f m \<Longrightarrow> leaves f (ignore m)"
  by (simp add: leaves_def)

lemma leaves_if [leaves_intros]: "leaves f m \<Longrightarrow> leaves f m' \<Longrightarrow> leaves f (if c then m else m')"
  by simp

lemma leaves_attempt [leaves_intros]:
  "leaves f m \<Longrightarrow> (\<And>e. leaves f (h e)) \<Longrightarrow> leaves f (attempt m h)"
  unfolding leaves_def attempt_def
  by (metis (mono_tags, lifting) case_prod_beta snd_conv sum.case_eq_if)

lemma leaves_forEach [leaves_intros]: "(\<And>x. leaves f (g x)) \<Longrightarrow> leaves f (forEach xs g)"
  by (induction xs) (auto intro: leaves_intros)

lemma keeps_ret [keeps_intros]: "keeps P (ret x)"
  by (simp add: keeps_def)

lemma keeps_throw [keeps_intros]: "keeps P (throw e)"
  by (simp add: keeps_def)

lemma keeps_reads [keeps_intros]: "keeps P (reads g)"
  by (simp add: keeps_def)

lemma keeps_andThen [keeps_intros]:
  "keeps P m \<Longrightarrow> (\<And>x. keeps P (k x)) \<Longrightarrow> keeps P (andThen m k)"
  unfolding keeps_def andThen_def
  by (fastforce split: prod.splits sum.splits)

lemma keeps_require [keeps_intros]: "keeps P m \<Longrightarrow> keeps P (require c e m)"
  by (simp add: keeps_def)

lemma keeps_requireSome [keeps_intros]:
  "(\<And>x. keeps P (k x)) \<Longrightarrow> keeps P (requireSome v e k)"
  by (cases v) (simp_all add: keeps_def)

lemma keeps_liftResult [keeps_intros]:
  "(\<And>x. keeps P (k x)) \<Longrightarrow> keeps P (liftResult r k)"
  by (cases r) (simp_all add: keeps_def)

lemma keeps_whenA [keeps_intros]: "keeps P m \<Longrightarrow> keeps P (whenA c m)"
  by (simp add: keeps_def)

lemma keeps_ignore [keeps_intros]: "keeps P m \<Longrightarrow> keeps P (ignore m)"
  by (simp add: keeps_def)

lemma keeps_if [keeps_intros]: "keeps P m \<Longrightarrow> keeps P m' \<Longrightarrow> keeps P (if c then m else m')"
  by simp

lemma keeps_attempt [keeps_intros]:
  "keeps P m \<Longrightarrow> (\<And>e. keeps P (h e)) \<Longrightarrow> keeps P (attempt m h)"
  unfolding keeps_def attempt_def
  by (fastforce split: prod.splits sum.splits)

lemma keeps_forEach [keeps_intros]: "(\<And>x. keeps P (g x)) \<Longrightarrow> keeps P (forEach xs g)"
  by (induction xs) (auto intro: keeps_intros)

lemma leaves_case_option [leaves_intros]:
  "leaves f m \<Longrightarrow> (\<And>x. leaves f (k x)) \<Longrightarrow> leaves f (case v of None \<Rightarrow> m | Some x \<Rightarrow> k x)"
  by (cases v) simp_all

lemma keeps_case_option [keeps_intros]:
  "keeps P m \<Longrightarrow> (\<And>x. keeps P (k x)) \<Longrightarrow> keeps P (case v of None \<Rightarrow> m | Some x \<Rightarrow> k x)"
  by (cases v) simp_all

section \<open>Failing without a trace\<close>

text \<open>
  \<open>neverFails m\<close>: the action always returns a value. \<open>atomic m\<close>: whenever the action throws, the
  world is exactly as before, so the caller may retry. An action that first only looks (it leaves
  the whole world alone), then writes, and cannot throw after its first write is atomic.
\<close>

definition neverFails :: "('w, 'a) action \<Rightarrow> bool" where
  "neverFails m \<longleftrightarrow> (\<forall>w. \<exists>v w'. m w = (Inr v, w'))"

definition atomic :: "('w, 'a) action \<Rightarrow> bool" where
  "atomic m \<longleftrightarrow> (\<forall>w x w'. m w = (Inl x, w') \<longrightarrow> w' = w)"

abbreviation readOnly :: "('w, 'a) action \<Rightarrow> bool" where
  "readOnly m \<equiv> leaves (\<lambda>w. w) m"

lemma neverFailsI: "(\<And>w. \<exists>v w'. m w = (Inr v, w')) \<Longrightarrow> neverFails m"
  by (simp add: neverFails_def)

lemma total_ret [total_intros]: "neverFails (ret x)"
  by (simp add: neverFails_def)

lemma total_reads [total_intros]: "neverFails (reads f)"
  by (simp add: neverFails_def)

lemma total_modify [total_intros]: "neverFails (modify f)"
  by (simp add: neverFails_def)

lemma total_andThen [total_intros]: "neverFails m \<Longrightarrow> (\<And>x. neverFails (k x)) \<Longrightarrow> neverFails (andThen m k)"
  unfolding neverFails_def by (metis run_andThen_Inr)

lemma total_if [total_intros]: "neverFails m \<Longrightarrow> neverFails m' \<Longrightarrow> neverFails (if c then m else m')"
  by simp

lemma total_case_option [total_intros]:
  "neverFails m \<Longrightarrow> (\<And>x. neverFails (k x)) \<Longrightarrow> neverFails (case v of None \<Rightarrow> m | Some x \<Rightarrow> k x)"
  by (cases v) simp_all

lemma total_whenA [total_intros]: "neverFails m \<Longrightarrow> neverFails (whenA c m)"
  by (simp add: neverFails_def)

lemma total_ignore [total_intros]: "neverFails m \<Longrightarrow> neverFails (ignore m)"
  unfolding neverFails_def by (metis map_sum.simps(2) run_ignore)

lemma total_attempt [total_intros]: "(\<And>e. neverFails (h e)) \<Longrightarrow> neverFails (attempt m h)"
  unfolding neverFails_def attempt_def by (metis (mono_tags, lifting) case_prod_conv surj_pair sum.exhaust sum.simps(5,6))

lemma total_forEach [total_intros]: "(\<And>x. neverFails (g x)) \<Longrightarrow> neverFails (forEach xs g)"
  by (induction xs) (auto intro: total_intros)

lemma atomic_total: "neverFails m \<Longrightarrow> atomic m"
  unfolding neverFails_def atomic_def by (metis Inl_Inr_False prod.inject)

lemma atomic_readOnly: "readOnly m \<Longrightarrow> atomic m"
  unfolding leaves_def atomic_def by (metis snd_conv)

lemma atomic_readOnly_then [atomic_intros]:
  assumes "readOnly m" and "\<And>x. atomic (k x)"
  shows "atomic (andThen m k)"
  unfolding atomic_def
proof (intro allI impI)
  fix w x w' assume run: "andThen m k w = (Inl x, w')"
  obtain r w1 where m: "m w = (r, w1)" by fastforce
  with leaves_run [OF assms(1) m] have "w1 = w" by simp
  with m run assms(2) show "w' = w" by (cases r) (auto simp: atomic_def)
qed

lemma atomic_then_total:
  assumes "atomic m" and "\<And>x. neverFails (k x)"
  shows "atomic (andThen m k)"
  unfolding atomic_def
proof (intro allI impI)
  fix w x w' assume run: "andThen m k w = (Inl x, w')"
  obtain r w1 where m: "m w = (r, w1)" by fastforce
  show "w' = w"
  proof (cases r)
    case (Inl y)
    with m run assms(1) show ?thesis by (auto simp: atomic_def)
  next
    case (Inr y)
    obtain v w2 where "k y w1 = (Inr v, w2)" using assms(2) by (fastforce simp: neverFails_def)
    with m run Inr show ?thesis by simp
  qed
qed

lemma atomic_reads_then [atomic_intros]: "(\<And>x. atomic (k x)) \<Longrightarrow> atomic (andThen (reads f) k)"
  by (simp add: atomic_def)

lemma atomic_require [atomic_intros]: "atomic m \<Longrightarrow> atomic (require c e m)"
  by (simp add: atomic_def)

lemma atomic_requireSome [atomic_intros]: "(\<And>x. atomic (k x)) \<Longrightarrow> atomic (requireSome v e k)"
  by (cases v) (simp_all add: atomic_def)

lemma atomic_liftResult [atomic_intros]: "(\<And>x. atomic (k x)) \<Longrightarrow> atomic (liftResult r k)"
  by (cases r) (simp_all add: atomic_def)

lemma atomic_throw [atomic_intros]: "atomic (throw e)"
  by (simp add: atomic_def)

lemma atomic_if [atomic_intros]: "atomic m \<Longrightarrow> atomic m' \<Longrightarrow> atomic (if c then m else m')"
  by simp

section \<open>Interfaces shared by the components\<close>

text \<open>
  A side channel of the services: something that is told about an event (a notification, an
  audit entry, a cache invalidation), never makes its caller fail and never touches the
  observed part \<open>core\<close> of the world.
\<close>

locale side_channel =
  fixes send :: "'m \<Rightarrow> ('w, 'a) action"
    and core :: "'w \<Rightarrow> 'c"
  assumes send_succeeds: "\<exists>v. fst (send m w) = Inr v"
    and send_frame: "core (snd (send m w)) = core w"
begin

lemma sent: "\<exists>v w'. send m w = (Inr v, w') \<and> core w' = core w"
  using send_succeeds [of m w] send_frame [of m w] by (metis prod.collapse)

lemma send_leaves: "leaves core (send m)"
  by (simp add: leaves_def send_frame)

lemma send_total: "neverFails (send m)"
  unfolding neverFails_def using sent by blast

lemma send_all: "\<exists>w'. forEach ms (\<lambda>m. ignore (send m)) w = (Inr (), w') \<and> core w' = core w"
proof (induction ms arbitrary: w)
  case Nil
  show ?case by simp
next
  case (Cons m ms)
  obtain v w1 where 1: "send m w = (Inr v, w1)" "core w1 = core w"
    using sent by blast
  obtain w2 where 2: "forEach ms (\<lambda>m. ignore (send m)) w1 = (Inr (), w2)" "core w2 = core w1"
    using Cons.IH by blast
  from 1 2 show ?case by simp
qed

end

text \<open>A transition function with an invariant: the invariant holds after every sequence of steps.\<close>

locale step_system =
  fixes step :: "'l \<Rightarrow> 's \<Rightarrow> 's"
    and inv :: "'s \<Rightarrow> bool"
  assumes step_inv: "inv s \<Longrightarrow> inv (step l s)"
begin

lemma run_inv: "inv s \<Longrightarrow> inv (fold step ls s)"
  by (induction ls arbitrary: s) (simp_all add: step_inv)

end

section \<open>Tables\<close>

text \<open>
  A database table is the list of its rows in order of insertion. \<open>updateWhere p f\<close> is
  \<^verbatim>\<open>UPDATE ... SET f WHERE p\<close>; \<open>find p\<close> is \<open>findUnique\<close> or \<open>findFirst\<close>.
\<close>

definition updateWhere :: "('r \<Rightarrow> bool) \<Rightarrow> ('r \<Rightarrow> 'r) \<Rightarrow> 'r list \<Rightarrow> 'r list" where
  "updateWhere p f rows = map (\<lambda>r. if p r then f r else r) rows"

lemma updateWhere_Nil [simp]: "updateWhere p f [] = []"
  by (simp add: updateWhere_def)

lemma updateWhere_Cons [simp]:
  "updateWhere p f (r # rows) = (if p r then f r else r) # updateWhere p f rows"
  by (simp add: updateWhere_def)

lemma updateWhere_append [table_simps]:
  "updateWhere p f (xs @ ys) = updateWhere p f xs @ updateWhere p f ys"
  by (simp add: updateWhere_def)

lemma length_updateWhere [simp]: "length (updateWhere p f rows) = length rows"
  by (simp add: updateWhere_def)

lemma map_updateWhere: "(\<And>r. p r \<Longrightarrow> g (f r) = g r) \<Longrightarrow> map g (updateWhere p f rows) = map g rows"
  by (induction rows) auto

lemma find_updateWhere:
  "(\<And>r. p r \<Longrightarrow> q (f r) = q r) \<Longrightarrow>
    find q (updateWhere p f rows) = map_option (\<lambda>r. if p r then f r else r) (find q rows)"
  by (induction rows) auto

lemma filter_updateWhere:
  "(\<And>r. p r \<Longrightarrow> q (f r) = q r) \<Longrightarrow>
    filter q (updateWhere p f rows) = updateWhere p f (filter q rows)"
  by (induction rows) auto

lemma updateWhere_none: "(\<And>r. r \<in> set rows \<Longrightarrow> \<not> p r) \<Longrightarrow> updateWhere p f rows = rows"
  by (induction rows) auto

lemma updateWhere_cong:
  "(\<And>r. r \<in> set rows \<Longrightarrow> p r = p' r) \<Longrightarrow> (\<And>r. r \<in> set rows \<Longrightarrow> p r \<Longrightarrow> f r = f' r) \<Longrightarrow>
    updateWhere p f rows = updateWhere p' f' rows"
  by (induction rows) auto

lemma in_set_updateWhere:
  "r \<in> set (updateWhere p f rows) \<longleftrightarrow> (\<exists>r0 \<in> set rows. r = (if p r0 then f r0 else r0))"
  by (auto simp: updateWhere_def)

lemma ball_updateWhere: "(\<forall>r \<in> set (updateWhere p f rows). Q r) \<longleftrightarrow> (\<forall>r \<in> set rows. Q (if p r then f r else r))"
  by (induction rows) auto

lemma find_refine: "find p xs = Some x \<Longrightarrow> q x \<Longrightarrow> (\<And>y. q y \<Longrightarrow> p y) \<Longrightarrow> find q xs = Some x"
  by (induction xs) (auto split: if_splits)

text \<open>A sequence of updates acts on every row on its own.\<close>

lemma fold_updateWhere:
  "fold (\<lambda>u. updateWhere (p u) (f u)) us rows = map (\<lambda>r. fold (\<lambda>u r. if p u r then f u r else r) us r) rows"
  by (induction us arbitrary: rows) (simp_all add: updateWhere_def comp_def)

text \<open>A guarded update whose effect falsifies its guard leaves no row to update again.\<close>

lemma updateWhere_falsifies:
  "(\<And>r. p r \<Longrightarrow> \<not> p (f r)) \<Longrightarrow> r \<in> set (updateWhere p f rows) \<Longrightarrow> \<not> p r"
  by (induction rows) (auto split: if_splits)

lemma find_Some_prop: "find p xs = Some x \<Longrightarrow> p x \<and> x \<in> set xs"
  by (induction xs) (auto split: if_splits)

lemma find_append: "find p (xs @ ys) = (case find p xs of None \<Rightarrow> find p ys | Some x \<Rightarrow> Some x)"
  by (induction xs) auto

lemma find_key_unique:
  assumes "distinct (map key rows)" and "r \<in> set rows"
  shows "find (\<lambda>x. key x = key r) rows = Some r"
  using assms by (induction rows) (auto simp: image_iff)

lemma find_eq_Some_unique:
  assumes "distinct (map key rows)"
  shows "find (\<lambda>x. key x = k) rows = Some r \<longleftrightarrow> r \<in> set rows \<and> key r = k"
  using find_key_unique [OF assms] find_Some_prop [of "\<lambda>x. key x = k" rows r] by auto

lemma find_None_iff_ball: "find p xs = None \<longleftrightarrow> (\<forall>x \<in> set xs. \<not> p x)"
  by (auto simp: find_None_iff)

text \<open>Looking up an association list whose values are a function of the key.\<close>

lemma map_of_functional:
  "(\<And>j v. (j, v) \<in> set xs \<Longrightarrow> v = h j) \<Longrightarrow> map_of xs i = (if i \<in> fst ` set xs then Some (h i) else None)"
  by (induction xs) fastforce+

lemma forEach_map: "forEach (map g xs) f = forEach xs (\<lambda>x. f (g x))"
  by (induction xs) auto

lemma those_length: "those xs = Some ys \<Longrightarrow> length ys = length xs"
  by (induction xs arbitrary: ys) (auto split: option.splits)

lemma sum_list_sort_key: "sum_list (map f (sort_key k xs)) = sum_list (map f (xs :: 'a list))" for f :: "'a \<Rightarrow> 'b :: comm_monoid_add"
  by (metis mset_map mset_sort sum_mset_sum_list)

section \<open>Text\<close>

text \<open>Decimal rendering of a number in a string template.\<close>

fun digits :: "nat \<Rightarrow> string" where
  "digits n = (if n < 10 then [char_of (48 + n)] else digits (n div 10) @ [char_of (48 + n mod 10)])"

declare digits.simps [simp del]

definition showInt :: "int \<Rightarrow> string" where
  "showInt i = (if i < 0 then ''-'' @ digits (nat (- i)) else digits (nat i))"

text \<open>ASCII case conversion: \<open>toLowerCase\<close> and \<open>toUpperCase\<close> on the characters of addresses and tags.\<close>

definition toLowerCase :: "string \<Rightarrow> string" where
  "toLowerCase s = map (\<lambda>c. if 65 \<le> (of_char c :: nat) \<and> (of_char c :: nat) \<le> 90
     then char_of ((of_char c :: nat) + 32) else c) s"

definition toUpperCase :: "string \<Rightarrow> string" where
  "toUpperCase s = map (\<lambda>c. if 97 \<le> (of_char c :: nat) \<and> (of_char c :: nat) \<le> 122
     then char_of ((of_char c :: nat) - 32) else c) s"

text \<open>\<open>String.prototype.trim\<close> on ASCII white space.\<close>

definition isSpace :: "char \<Rightarrow> bool" where
  "isSpace c \<longleftrightarrow> (of_char c :: nat) = 32 \<or> (9 \<le> (of_char c :: nat) \<and> (of_char c :: nat) \<le> 13)"

definition trim :: "string \<Rightarrow> string" where
  "trim s = rev (dropWhile isSpace (rev (dropWhile isSpace s)))"

lemma length_toLowerCase [simp]: "length (toLowerCase s) = length s"
  by (simp add: toLowerCase_def)

lemma length_trim_le: "length (trim s) \<le> length s"
  by (metis trim_def length_dropWhile_le length_rev le_trans)

text \<open>\<open>[...new Set(xs)]\<close>: the elements in the order of their first occurrence.\<close>

definition setOf :: "'x list \<Rightarrow> 'x list" where
  "setOf xs = rev (remdups (rev xs))"

lemma set_setOf [simp]: "set (setOf xs) = set xs" "distinct (setOf xs)"
  by (simp_all add: setOf_def)

text \<open>\<open>String.prototype.split\<close> on one character, and decimal digits.\<close>

fun splitOn :: "char \<Rightarrow> string \<Rightarrow> string list" where
  "splitOn c [] = [[]]"
| "splitOn c (x # xs) = (if x = c then [] # splitOn c xs
     else (case splitOn c xs of [] \<Rightarrow> [[x]] | p # ps \<Rightarrow> (x # p) # ps))"

definition digitVal :: "char \<Rightarrow> int option" where
  "digitVal c = (let n = (of_char c :: nat) in if 48 \<le> n \<and> n \<le> 57 then Some (int n - 48) else None)"

lemma splitOn_single: "c \<notin> set xs \<Longrightarrow> splitOn c xs = [xs]"
  by (induction xs) auto

lemma splitOn_two: "c \<notin> set xs \<Longrightarrow> c \<notin> set ys \<Longrightarrow> splitOn c (xs @ c # ys) = [xs, ys]"
  by (induction xs) (auto simp: splitOn_single)

text \<open>Reading decimal digits from left to right.\<close>

fun readNat :: "nat \<Rightarrow> string \<Rightarrow> nat option" where
  "readNat acc [] = Some acc"
| "readNat acc (c # cs) = (case digitVal c of None \<Rightarrow> None | Some v \<Rightarrow> readNat (10 * acc + nat v) cs)"

text \<open>
  \<open>BigInt(text)\<close> on decimal text: surrounding white space is dropped, the empty text is zero, a
  sign is allowed; any other character is a \<open>SyntaxError\<close>. (The binary, octal and hexadecimal
  prefixes are outside the texts the services pass.)
\<close>

definition parseBigInt :: "string \<Rightarrow> int option" where
  "parseBigInt s = (case trim s of
      [] \<Rightarrow> Some 0
    | c # cs \<Rightarrow>
        if c = CHR ''-'' \<and> cs \<noteq> [] then map_option (\<lambda>n. - int n) (readNat 0 cs)
        else if c = CHR ''+'' \<and> cs \<noteq> [] then map_option int (readNat 0 cs)
        else map_option int (readNat 0 (c # cs)))"

lemma readNat_append: "readNat acc (xs @ ys) = Option.bind (readNat acc xs) (\<lambda>a. readNat a ys)"
  by (induction xs arbitrary: acc) (auto split: option.splits)

lemma digitVal_char_of: "n < 10 \<Longrightarrow> digitVal (char_of (48 + n)) = Some (int n)"
  by (simp add: digitVal_def of_char_of)

lemma readNat_digits: "readNat 0 (digits n) = Some n"
proof (induction n rule: digits.induct)
  case (1 n)
  then show ?case
    by (cases "n < 10")
      (simp_all add: digits.simps [of n] readNat_append digitVal_char_of digitVal_char_of [of "n mod 10"])
qed

lemma readNat_zeros: "readNat 0 (replicate k CHR ''0'' @ s) = readNat 0 s"
proof (induction k)
  case (Suc k)
  have "digitVal CHR ''0'' = Some 0" by (simp add: digitVal_def)
  with Suc show ?case by simp
qed simp

lemma digit_chars: "c \<in> set (digits n) \<Longrightarrow> 48 \<le> (of_char c :: nat) \<and> (of_char c :: nat) \<le> 57"
proof (induction n arbitrary: c rule: digits.induct)
  case (1 n)
  then show ?case
    by (cases "n < 10") (auto simp: digits.simps [of n] of_char_of)
qed

lemma digits_nonempty [simp]: "digits n \<noteq> []"
  by (simp add: digits.simps [of n])

lemma length_digits_le: "0 < d \<Longrightarrow> n < 10 ^ d \<Longrightarrow> length (digits n) \<le> d"
proof (induction d arbitrary: n)
  case (Suc d)
  show ?case
  proof (cases "n < 10")
    case False
    with Suc.prems have "0 < d" by (cases d) auto
    moreover have "n div 10 < 10 ^ d" using Suc.prems(2) by (simp add: less_mult_imp_div_less)
    ultimately show ?thesis using Suc.IH False by (simp add: digits.simps [of n])
  qed (simp add: digits.simps [of n])
qed simp

lemma trim_id: "s \<noteq> [] \<Longrightarrow> \<not> isSpace (hd s) \<Longrightarrow> \<not> isSpace (last s) \<Longrightarrow> trim s = s"
proof -
  assume s: "s \<noteq> []" "\<not> isSpace (hd s)" "\<not> isSpace (last s)"
  then have "dropWhile isSpace s = s" by (cases s) auto
  moreover have "dropWhile isSpace (rev s) = rev s" using s by (cases s rule: rev_cases) auto
  ultimately show ?thesis by (simp add: trim_def)
qed

lemma parseBigInt_numeral:
  assumes s: "s \<noteq> []" "\<And>c. c \<in> set s \<Longrightarrow> 48 \<le> (of_char c :: nat) \<and> (of_char c :: nat) \<le> 57"
    and v: "readNat 0 s = Some n"
  shows "parseBigInt s = Some (int n)"
proof -
  obtain c cs where c: "s = c # cs" using s(1) by (cases s) auto
  have "\<not> isSpace x" if "x \<in> set s" for x using s(2) [OF that] by (auto simp: isSpace_def)
  then have "trim s = s" using s(1) by (intro trim_id) auto
  moreover have "c \<noteq> CHR ''-''" "c \<noteq> CHR ''+''" using s(2) [of c] c by auto
  ultimately show ?thesis using v c by (simp add: parseBigInt_def)
qed

text \<open>
  \<open>Date.prototype.toISOString\<close>: the civil date of a day number in the proleptic Gregorian calendar
  (years of 365.2425 days counted from March), with the extended form outside the years 0 to 9999.
\<close>

definition zeroPad :: "nat \<Rightarrow> int \<Rightarrow> string" where
  "zeroPad n i = (let s = digits (nat i) in replicate (n - length s) CHR ''0'' @ s)"

definition civilFromDays :: "int \<Rightarrow> int \<times> int \<times> int" where
  "civilFromDays days =
     (let z = days + 719468;
          era = z div 146097;
          doe = z mod 146097;
          yoe = (doe - doe div 1460 + doe div 36524 - doe div 146096) div 365;
          doy = doe - (365 * yoe + yoe div 4 - yoe div 100);
          mp = (5 * doy + 2) div 153;
          d = doy - (153 * mp + 2) div 5 + 1;
          m = (if mp < 10 then mp + 3 else mp - 9)
      in (yoe + era * 400 + (if m \<le> 2 then 1 else 0), m, d))"

definition isoString :: "time \<Rightarrow> string" where
  "isoString t =
     (let (y, m, d) = civilFromDays (t div 86400000);
          ms = t mod 86400000;
          year = (if 0 \<le> y \<and> y \<le> 9999 then zeroPad 4 y
                  else (if y < 0 then ''-'' else ''+'') @ zeroPad 6 \<bar>y\<bar>)
      in year @ ''-'' @ zeroPad 2 m @ ''-'' @ zeroPad 2 d @ ''T'' @
         zeroPad 2 (ms div 3600000) @ '':'' @ zeroPad 2 (ms div 60000 mod 60) @ '':'' @
         zeroPad 2 (ms div 1000 mod 60) @ ''.'' @ zeroPad 3 (ms mod 1000) @ ''Z'')"

text \<open>JSON values, as stored in \<open>Json\<close> columns and carried by chain events.\<close>

datatype json =
    JNull
  | JBool bool
  | JNum int
  | JStr string
  | JArr "json list"
  | JObj "(string \<times> json) list"

definition jsonGet :: "string \<Rightarrow> json \<Rightarrow> json option" where
  "jsonGet k j = (case j of JObj kvs \<Rightarrow> map_of kvs k | _ \<Rightarrow> None)"

end
