(* ===== verification/Redis.thy ===== *)
theory Redis
  imports Prelude
begin

text \<open>
  The Redis keyspace and \<open>RedisService\<close> (\<open>src/src/common/redis/redis.service.ts\<close>). The keyspace is
  an explicit store: a map from keys to values with an optional expiry instant, read at the
  clock of the caller. The service's methods, its two Lua scripts included, are functions on it.
  The distributed lock satisfies the interface \<open>lock_service\<close>, on which the event poller's
  leader election rests.
\<close>

section \<open>Keyspace\<close>

datatype rvalue = Text string | JsonText json | Members "string list"

record entry =
  content :: rvalue
  expiresAt :: "time option"

type_synonym keyspace = "string \<rightharpoonup> entry"

definition liveEntry :: "time \<Rightarrow> entry \<Rightarrow> bool" where
  "liveEntry now e \<longleftrightarrow> (case expiresAt e of None \<Rightarrow> True | Some t \<Rightarrow> now < t)"

definition lookupKey :: "time \<Rightarrow> keyspace \<Rightarrow> string \<Rightarrow> rvalue option" where
  "lookupKey now r key = (case r key of None \<Rightarrow> None
     | Some e \<Rightarrow> if liveEntry now e then Some (content e) else None)"

section \<open>RedisService\<close>

definition setKey :: "time \<Rightarrow> string \<Rightarrow> rvalue \<Rightarrow> int option \<Rightarrow> keyspace \<Rightarrow> keyspace" where
  "setKey now key v ttlSeconds r =
     (case ttlSeconds of
        Some t \<Rightarrow> if t \<noteq> 0 then r(key \<mapsto> \<lparr>content = v, expiresAt = Some (now + t * 1000)\<rparr>)
                  else r(key \<mapsto> \<lparr>content = v, expiresAt = None\<rparr>)
      | None \<Rightarrow> r(key \<mapsto> \<lparr>content = v, expiresAt = None\<rparr>))"

definition setPx :: "time \<Rightarrow> string \<Rightarrow> string \<Rightarrow> int \<Rightarrow> keyspace \<Rightarrow> keyspace" where
  "setPx now key v ttlMs r = r(key \<mapsto> \<lparr>content = Text v, expiresAt = Some (now + ttlMs)\<rparr>)"

definition setJson :: "time \<Rightarrow> string \<Rightarrow> json \<Rightarrow> int option \<Rightarrow> keyspace \<Rightarrow> keyspace" where
  "setJson now key v ttlSeconds r = setKey now key (JsonText v) ttlSeconds r"

text \<open>A text value that was not written by \<open>setJson\<close> is read through the given \<open>JSON.parse\<close>.\<close>

definition getJson :: "(string \<Rightarrow> json option) \<Rightarrow> time \<Rightarrow> string \<Rightarrow> keyspace \<Rightarrow> json option" where
  "getJson parse now key r = (case lookupKey now r key of
      Some (JsonText j) \<Rightarrow> Some j
    | Some (Text s) \<Rightarrow> parse s
    | _ \<Rightarrow> None)"

definition del :: "string \<Rightarrow> keyspace \<Rightarrow> keyspace" where
  "del key r = r(key := None)"

definition existsKey :: "time \<Rightarrow> string \<Rightarrow> keyspace \<Rightarrow> bool" where
  "existsKey now key r \<longleftrightarrow> lookupKey now r key \<noteq> None"

fun startsWith :: "string \<Rightarrow> string \<Rightarrow> bool" where
  "startsWith [] s = True"
| "startsWith (p # ps) [] = False"
| "startsWith (p # ps) (c # cs) = (p = c \<and> startsWith ps cs)"

text \<open>The SCAN loop deletes every key that matches the prefix.\<close>

definition delByPrefix :: "string \<Rightarrow> keyspace \<Rightarrow> keyspace" where
  "delByPrefix prefix r = (\<lambda>k. if startsWith prefix k then None else r k)"

definition smembers :: "time \<Rightarrow> string \<Rightarrow> keyspace \<Rightarrow> string list" where
  "smembers now key r = (case lookupKey now r key of Some (Members ms) \<Rightarrow> ms | _ \<Rightarrow> [])"

definition sadd :: "time \<Rightarrow> string \<Rightarrow> string list \<Rightarrow> keyspace \<Rightarrow> keyspace" where
  "sadd now key ms r = (case lookupKey now r key of
      Some (Members old) \<Rightarrow>
        (case r key of Some e \<Rightarrow> r(key \<mapsto> e\<lparr>content := Members (old @ filter (\<lambda>m. m \<notin> set old) (remdups ms))\<rparr>)
         | None \<Rightarrow> r)
    | Some _ \<Rightarrow> r
    | None \<Rightarrow> r(key \<mapsto> \<lparr>content = Members (remdups ms), expiresAt = None\<rparr>))"

definition srem :: "time \<Rightarrow> string \<Rightarrow> string list \<Rightarrow> keyspace \<Rightarrow> keyspace" where
  "srem now key ms r = (case lookupKey now r key of
      Some (Members old) \<Rightarrow>
        (let rest = filter (\<lambda>m. m \<notin> set ms) old in
         if rest = [] then r(key := None)
         else (case r key of Some e \<Rightarrow> r(key \<mapsto> e\<lparr>content := Members rest\<rparr>) | None \<Rightarrow> r))
    | _ \<Rightarrow> r)"

text \<open>\<open>SET key token PX ttl NX\<close>.\<close>

definition acquireLock :: "time \<Rightarrow> string \<Rightarrow> string \<Rightarrow> int \<Rightarrow> keyspace \<Rightarrow> bool \<times> keyspace" where
  "acquireLock now key token ttlMs r =
     (if lookupKey now r key = None
      then (True, r(key \<mapsto> \<lparr>content = Text token, expiresAt = Some (now + ttlMs)\<rparr>))
      else (False, r))"

text \<open>The compare-and-delete script.\<close>

definition releaseLock :: "time \<Rightarrow> string \<Rightarrow> string \<Rightarrow> keyspace \<Rightarrow> keyspace" where
  "releaseLock now key token r =
     (if lookupKey now r key = Some (Text token) then r(key := None) else r)"

text \<open>The compare-and-\<open>pexpire\<close> script.\<close>

definition renewLock :: "time \<Rightarrow> string \<Rightarrow> string \<Rightarrow> int \<Rightarrow> keyspace \<Rightarrow> bool \<times> keyspace" where
  "renewLock now key token ttlMs r =
     (if lookupKey now r key = Some (Text token)
      then (True, r(key \<mapsto> \<lparr>content = Text token, expiresAt = Some (now + ttlMs)\<rparr>))
      else (False, r))"

section \<open>The lock interface\<close>

text \<open>
  \<open>held n\<close> is the instant at which client \<open>n\<close> was last granted the lock, if it still believes to hold
  it. The belief is justified as long as the lease lasts: then the store names \<open>n\<close> as the owner.
\<close>

definition leasesOk :: "(time \<Rightarrow> 's \<Rightarrow> 't option) \<Rightarrow> time \<Rightarrow> time \<Rightarrow> 's \<Rightarrow> ('t \<rightharpoonup> time) \<Rightarrow> bool" where
  "leasesOk owner lease now s held \<longleftrightarrow>
     (\<forall>n a t. held n = Some a \<longrightarrow> now \<le> t \<longrightarrow> t < a + lease \<longrightarrow> owner t s = Some n)"

text \<open>
  What a client of the lock relies on: \<open>owner\<close> is the token that holds the lock at an instant;
  a lock is granted only when free, renewed and released only by its owner, and time alone can
  end an ownership but never start one.
\<close>

locale lock_service =
  fixes owner :: "time \<Rightarrow> 's \<Rightarrow> 't option"
    and acquire :: "time \<Rightarrow> 't \<Rightarrow> 's \<Rightarrow> bool \<times> 's"
    and renew :: "time \<Rightarrow> 't \<Rightarrow> 's \<Rightarrow> bool \<times> 's"
    and release :: "time \<Rightarrow> 't \<Rightarrow> 's \<Rightarrow> 's"
    and lease :: time
  assumes acquire_granted: "acquire now t s = (True, s') \<Longrightarrow> owner now s = None"
    and acquire_held: "now \<le> now' \<Longrightarrow> now' < now + lease \<Longrightarrow> acquire now t s = (True, s') \<Longrightarrow>
      owner now' s' = Some t"
    and acquire_refused: "acquire now t s = (False, s') \<Longrightarrow> s' = s"
    and renew_granted: "renew now t s = (True, s') \<Longrightarrow> owner now s = Some t"
    and renew_held: "now \<le> now' \<Longrightarrow> now' < now + lease \<Longrightarrow> renew now t s = (True, s') \<Longrightarrow>
      owner now' s' = Some t"
    and renew_refused: "renew now t s = (False, s') \<Longrightarrow> s' = s \<and> owner now s \<noteq> Some t"
    and release_frees: "now \<le> now' \<Longrightarrow> owner now s = Some t \<Longrightarrow> owner now' (release now t s) = None"
    and release_foreign: "owner now s \<noteq> Some t \<Longrightarrow> release now t s = s"
begin

lemma acquire_keeps_foreign:
  "owner now s = Some u \<Longrightarrow> acquire now t s = (b, s') \<Longrightarrow> s' = s \<and> \<not> b"
  using acquire_granted acquire_refused by (cases b) (metis option.distinct(1))+

lemma renew_keeps_foreign:
  "owner now s = Some u \<Longrightarrow> u \<noteq> t \<Longrightarrow> renew now t s = (b, s') \<Longrightarrow> s' = s \<and> \<not> b"
  using renew_granted renew_refused by (cases b) (metis option.inject)+

lemma release_keeps_foreign: "owner now s = Some u \<Longrightarrow> u \<noteq> t \<Longrightarrow> release now t s = s"
  by (simp add: release_foreign)

text \<open>The protocol of clients that remember when they were last granted the lock.\<close>

lemma leases_exclusive:
  assumes "leasesOk owner lease now s held" "held n = Some a" "held m = Some b" "now < a + lease" "now < b + lease"
  shows "n = m"
  using assms unfolding leasesOk_def by (metis option.inject order_refl)

lemma leases_time: "leasesOk owner lease now s held \<Longrightarrow> now \<le> now' \<Longrightarrow> leasesOk owner lease now' s held"
  unfolding leasesOk_def by force

lemma leases_other_store:
  "leasesOk owner lease now s held \<Longrightarrow> (\<And>t. owner t s' = owner t s) \<Longrightarrow> leasesOk owner lease now s' held"
  unfolding leasesOk_def by simp

lemma leases_drop: "leasesOk owner lease now s held \<Longrightarrow> leasesOk owner lease now s (held(n := None))"
  unfolding leasesOk_def by simp

lemma leases_granted:
  assumes ok: "leasesOk owner lease now s held"
    and free: "owner now s \<in> {None, Some n}"
    and got: "\<And>t. now \<le> t \<Longrightarrow> t < now + lease \<Longrightarrow> owner t s' = Some n"
  shows "leasesOk owner lease now s' (held(n \<mapsto> now))"
proof -
  have "\<not> (now \<le> t \<and> t < a + lease)" if "held m = Some a" "m \<noteq> n" for m a t
  proof
    assume t: "now \<le> t \<and> t < a + lease"
    then have "owner now s = Some m" using ok that(1) unfolding leasesOk_def by force
    with free that(2) show False by auto
  qed
  then show ?thesis using got unfolding leasesOk_def by auto
qed

lemma leases_acquire:
  assumes "leasesOk owner lease now s held" "acquire now n s = (True, s')"
  shows "leasesOk owner lease now s' (held(n \<mapsto> now))"
  using acquire_granted [OF assms(2)] acquire_held [OF _ _ assms(2)] by (intro leases_granted [OF assms(1)]) auto

lemma leases_renew:
  assumes "leasesOk owner lease now s held" "renew now n s = (True, s')"
  shows "leasesOk owner lease now s' (held(n \<mapsto> now))"
  using renew_granted [OF assms(2)] renew_held [OF _ _ assms(2)] by (intro leases_granted [OF assms(1)]) auto

lemma leases_release:
  assumes ok: "leasesOk owner lease now s held"
  shows "leasesOk owner lease now (release now n s) (held(n := None))"
proof (cases "owner now s = Some n")
  case False
  then show ?thesis using leases_drop [OF ok] by (simp add: release_foreign)
next
  case True
  have "\<not> (now \<le> t \<and> t < a + lease)" if "held m = Some a" "m \<noteq> n" for m a t
    using ok that True unfolding leasesOk_def by force
  then show ?thesis unfolding leasesOk_def by auto
qed

end

definition lockOwner :: "string \<Rightarrow> time \<Rightarrow> keyspace \<Rightarrow> string option" where
  "lockOwner key now r = (case lookupKey now r key of Some (Text t) \<Rightarrow> Some t | _ \<Rightarrow> None)"

lemma lookupKey_other [simp]: "k \<noteq> key \<Longrightarrow> lookupKey now (r(key := v)) k = lookupKey now r k"
  by (simp add: lookupKey_def)

lemma lookupKey_same [simp]:
  "lookupKey now (r(key := v)) key =
    (case v of None \<Rightarrow> None | Some e \<Rightarrow> if liveEntry now e then Some (content e) else None)"
  by (simp add: lookupKey_def split: option.splits)

lemma lockOwner_Some_iff: "lockOwner key now r = Some t \<longleftrightarrow> lookupKey now r key = Some (Text t)"
  by (auto simp: lockOwner_def split: option.splits rvalue.splits)

interpretation redisLock: lock_service "lockOwner key" "\<lambda>now t. acquireLock now key t ttl"
  "\<lambda>now t. renewLock now key t ttl" "\<lambda>now t. releaseLock now key t" ttl
  by unfold_locales
    (auto simp: acquireLock_def renewLock_def releaseLock_def lockOwner_def liveEntry_def
      split: if_splits option.splits rvalue.splits)

lemma lookupKey_mono:
  "lookupKey now r key = None \<Longrightarrow> now \<le> now' \<Longrightarrow> lookupKey now' r key = None"
  by (auto simp: lookupKey_def liveEntry_def split: option.splits if_splits)

lemma lookupKey_later:
  "lookupKey now' r key = Some v \<Longrightarrow> now \<le> now' \<Longrightarrow> lookupKey now r key = Some v"
  by (auto simp: lookupKey_def liveEntry_def split: option.splits if_splits)

section \<open>Keys under a prefix\<close>

lemma startsWith_iff: "startsWith p s \<longleftrightarrow> (\<exists>t. s = p @ t)"
  by (induction p s rule: startsWith.induct) auto

lemma lookupKey_delByPrefix:
  "lookupKey now (delByPrefix p r) k = (if startsWith p k then None else lookupKey now r k)"
  by (simp add: delByPrefix_def lookupKey_def)

end
