(* ===== verification/Domain.thy ===== *)
theory Domain
  imports Redis
begin

text \<open>
  The persistent state the services share: the enumerations and models of
  \<open>src/prisma/schema.prisma\<close> as datatypes and records, the database as a record of tables, the
  mailbox of the notification service, the audit log, the metrics and the Redis keyspace; the
  environment of a call (clock, configuration and the answers of the external services); and
  the Prisma calls the services share.

  Field names are those of the schema; a letter and an underscore in front distinguish columns
  that several models have (\<open>s_status\<close> of a shipment, \<open>m_status\<close> of a milestone). Generated
  identifiers (\<open>@default(uuid())\<close>) are natural numbers drawn from a counter; instants are
  milliseconds.
\<close>

section \<open>Enumerations\<close>

datatype shipmentStatus = ACTIVE | COMPLETED | CANCELLED

datatype milestoneStatus = PENDING | PROOF_SUBMITTED | CONFIRMED | DISPUTED | RESOLVED

datatype arbiterStatus = PENDING_ACCEPTANCE | ACCEPTED | DECLINED

datatype userRole = BUYER | SUPPLIER | LOGISTICS | ARBITER | ADMIN

datatype kycStatus = UNVERIFIED | KYC_PENDING | VERIFIED | KYC_REJECTED

datatype extensionRequestStatus = EXT_PENDING | EXT_APPROVED | EXT_DENIED

datatype disputeRole = D_BUYER | D_SUPPLIER

datatype commentVisibility = VIS_ALL | VIS_BUYER_SUPPLIER | VIS_INTERNAL

datatype recurringInterval = WEEKLY | MONTHLY

datatype organizationRole = ORG_OWNER | ORG_ADMIN | ORG_MEMBER | ORG_VIEWER

datatype announcementSeverity = INFO | WARNING | CRITICAL

datatype emailSuppressionReason = BOUNCE | COMPLAINT

datatype settlementProposalStatus = SP_PENDING | SP_ACCEPTED | SP_REJECTED | SP_WITHDRAWN

text \<open>
  The values of \<open>NotificationType\<close>, with the two that the migration of the KYC expiry adds to the database
  and the job uses.
\<close>

datatype notificationType =
    N_SHIPMENT_CREATED | N_PROOF_SUBMITTED | N_MILESTONE_CONFIRMED | N_DISPUTE_RAISED
  | N_DISPUTE_RESOLVED | N_DISPUTE_EVIDENCE_SUBMITTED | N_SHIPMENT_CANCELLED | N_PAYMENT_RELEASED
  | N_MILESTONE_OVERDUE | N_COMMENT_ADDED | N_COMMENT_MENTION | N_SYSTEM_ALERT | N_ARBITER_INVITED
  | N_ARBITER_ACCEPTED | N_ARBITER_DECLINED | N_TRACKING_UPDATED | N_PROOF_REJECTED
  | N_DEADLINE_EXTENSION_REQUESTED | N_DEADLINE_EXTENSION_DECIDED | N_DELIVERY_DELAYED
  | N_SHIPMENT_COMMENT_CREATED | N_KYC_EXPIRING | N_KYC_EXPIRED

text \<open>\<open>Object.values(NotificationType)\<close>.\<close>

definition notificationTypes :: "notificationType list" where
  "notificationTypes =
     [N_SHIPMENT_CREATED, N_PROOF_SUBMITTED, N_MILESTONE_CONFIRMED, N_DISPUTE_RAISED,
      N_DISPUTE_RESOLVED, N_DISPUTE_EVIDENCE_SUBMITTED, N_SHIPMENT_CANCELLED, N_PAYMENT_RELEASED,
      N_MILESTONE_OVERDUE, N_COMMENT_ADDED, N_COMMENT_MENTION, N_SYSTEM_ALERT, N_ARBITER_INVITED,
      N_ARBITER_ACCEPTED, N_ARBITER_DECLINED, N_TRACKING_UPDATED, N_PROOF_REJECTED,
      N_DEADLINE_EXTENSION_REQUESTED, N_DEADLINE_EXTENSION_DECIDED, N_DELIVERY_DELAYED,
      N_SHIPMENT_COMMENT_CREATED, N_KYC_EXPIRING, N_KYC_EXPIRED]"

instantiation notificationType :: enum
begin

definition enum_notificationType :: "notificationType list" where
  "enum_notificationType = notificationTypes"

definition enum_all_notificationType :: "(notificationType \<Rightarrow> bool) \<Rightarrow> bool" where
  "enum_all_notificationType P \<longleftrightarrow> list_all P notificationTypes"

definition enum_ex_notificationType :: "(notificationType \<Rightarrow> bool) \<Rightarrow> bool" where
  "enum_ex_notificationType P \<longleftrightarrow> list_ex P notificationTypes"

instance
proof
  have all: "t \<in> set notificationTypes" for t :: notificationType
    by (cases t) (simp_all add: notificationTypes_def)
  show "(UNIV :: notificationType set) = set enum_class.enum"
    using all by (auto simp: enum_notificationType_def)
  show "distinct (enum_class.enum :: notificationType list)"
    by (simp add: enum_notificationType_def notificationTypes_def)
  show "enum_class.enum_all P \<longleftrightarrow> Ball UNIV P" for P :: "notificationType \<Rightarrow> bool"
    using all by (auto simp: enum_all_notificationType_def list_all_iff)
  show "enum_class.enum_ex P \<longleftrightarrow> Bex UNIV P" for P :: "notificationType \<Rightarrow> bool"
    using all by (auto simp: enum_ex_notificationType_def list_ex_iff)
qed

end

lemma notificationTypes_complete: "t \<in> set notificationTypes"
  by (cases t) (simp_all add: notificationTypes_def)

section \<open>Models\<close>

record user =
  u_id :: uuid
  stellarAddress :: address
  email :: "string option"
  u_role :: userRole
  u_kycStatus :: kycStatus
  kycReference :: "string option"
  kycVerifiedAt :: "time option"
  kycExpiresAt :: "time option"
  kycSubmittedAt :: "time option"
  kycReminder30dSentAt :: "time option"
  kycReminder7dSentAt :: "time option"
  phoneNumber :: "string option"
  phoneVerified :: bool
  pendingPhone :: "string option"
  arbiterAwayUntil :: "time option"
  emailVerified :: bool
  pendingEmail :: "string option"
  u_name :: "string option"
  deactivatedAt :: "time option"
  avatarCid :: "string option"
  displayCurrency :: string
  u_locale :: string
  awayMessage :: "string option"
  listedInDirectory :: bool
  arbiterAvailable :: bool
  u_organization :: "string option"

record shipment =
  s_id :: string
  buyerAddress :: address
  supplierAddress :: address
  logisticsAddress :: address
  arbiterAddress :: address
  tokenAddress :: address
  totalAmount :: int
  releasedAmount :: int
  s_status :: shipmentStatus
  arbiterStatus :: arbiterStatus
  s_txHash :: "string option"
  tokenDecimals :: nat
  tokenSymbol :: string
  description :: "string option"
  referenceNumber :: "string option"
  s_metadata :: "json option"
  tags :: "string list"
  expectedDeliveryAt :: "time option"
  cancelledAt :: "time option"
  refundTxHash :: "string option"
  archivedAt :: "time option"
  requiredApprovals :: "int option"
  isDraft :: bool
  s_createdAt :: time
  s_updatedAt :: time

record milestone =
  m_id :: uuid
  m_shipmentId :: string
  milestoneIndex :: int
  m_name :: string
  paymentPercent :: int
  proofHash :: "string option"
  m_status :: milestoneStatus
  paymentReleased :: "int option"
  confirmedAt :: "time option"
  dueAt :: "time option"
  overdueNotifiedAt :: "time option"
  overdueReminder3dAt :: "time option"
  disputeEscalatedAt :: "time option"
  disputedAt :: "time option"
  deletedAt :: "time option"
  m_createdAt :: time
  m_updatedAt :: time

record approval =
  ap_shipmentId :: string
  approverAddress :: address
  ap_note :: "string option"
  ap_createdAt :: time

record proofSubmission =
  p_id :: uuid
  p_milestoneId :: uuid
  p_ipfsCid :: string
  p_submittedBy :: address
  p_sha256 :: "string option"
  p_fileSize :: "nat option"
  p_createdAt :: time

record evidence =
  e_id :: uuid
  e_milestoneId :: uuid
  e_submittedBy :: address
  e_role :: disputeRole
  e_description :: string
  e_ipfsCid :: "string option"
  e_fileName :: "string option"
  e_fileSize :: "nat option"
  e_mimeType :: "string option"
  e_createdAt :: time

record checklistItem =
  c_id :: uuid
  c_milestoneId :: uuid
  c_label :: string
  c_required :: bool
  c_completedAt :: "time option"
  c_completedBy :: "address option"
  c_createdAt :: time

record extensionRequest =
  x_id :: uuid
  x_milestoneId :: uuid
  requestedBy :: address
  proposedDueAt :: time
  previousDueAt :: "time option"
  x_reason :: string
  x_status :: extensionRequestStatus
  decidedAt :: "time option"
  decidedBy :: "address option"
  x_createdAt :: time

record chainEvent =
  ce_shipmentId :: "string option"
  ce_eventName :: string
  ce_ledger :: int
  ce_txHash :: string
  ce_payload :: json

record failedEvent =
  fe_id :: uuid
  fe_eventName :: string
  fe_ledger :: int
  fe_txHash :: string
  fe_payload :: json
  fe_error :: exn
  attemptCount :: int
  lastAttemptAt :: time
  resolvedAt :: "time option"

record milestoneInput =
  mi_name :: string
  mi_paymentPercent :: int
  mi_dueAt :: "time option"
  mi_dueDays :: "int option"
  mi_checklist :: "(string \<times> bool option) list"

record shipmentTemplate =
  t_id :: uuid
  t_ownerId :: uuid
  t_name :: string
  t_description :: "string option"
  t_supplierAddress :: "address option"
  t_logisticsAddress :: "address option"
  t_arbiterAddress :: "address option"
  t_tokenAddress :: "address option"
  t_milestones :: "milestoneInput list option"
  t_isPublic :: bool
  t_deletedAt :: "time option"
  t_createdAt :: time

record watcher =
  w_shipmentId :: string
  w_userId :: uuid

record favorite =
  f_shipmentId :: string
  f_userId :: uuid

record shipmentNote =
  sn_id :: uuid
  sn_shipmentId :: string
  sn_authorId :: uuid
  sn_body :: string
  sn_createdAt :: time

text \<open>Coordinates are kept as the numbers of the request body.\<close>

record trackingUpdate =
  tr_id :: uuid
  tr_shipmentId :: string
  tr_submittedBy :: address
  location :: string
  latitude :: "json option"
  longitude :: "json option"
  tr_status :: string
  estimatedArrival :: "time option"
  tr_notes :: "string option"
  tr_createdAt :: time

datatype backfillStatus = BF_PENDING | BF_RUNNING | BF_COMPLETED | BF_FAILED

record backfillError =
  be_ledger :: int
  be_txHash :: string
  be_eventName :: string
  be_error :: exn

record backfillRun =
  bf_id :: uuid
  bf_status :: backfillStatus
  bf_fromLedger :: int
  bf_toLedger :: int
  bf_processedCount :: nat
  bf_errorCount :: nat
  bf_currentLedger :: "int option"
  bf_errorSummary :: "backfillError list"
  bf_startedAt :: time
  bf_completedAt :: "time option"
  bf_initiatedBy :: "address option"

record reconciliationRun =
  rc_id :: uuid
  rc_startedAt :: time
  rc_completedAt :: "time option"
  rc_checkedCount :: nat
  rc_mismatchCount :: nat
  rc_errors :: "exn list"

record apiKey =
  ak_id :: uuid
  ak_userId :: uuid
  keyHash :: string
  ak_name :: string
  scopes :: "string list"
  lastUsedAt :: "time option"
  ak_expiresAt :: "time option"
  expiryWarningSentAt :: "time option"
  ak_createdAt :: time
  revokedAt :: "time option"
  rotatedFromId :: "uuid option"
  gracePeriodEndsAt :: "time option"

record webhookEndpoint =
  we_id :: uuid
  we_userId :: uuid
  we_url :: string
  we_secret :: string
  we_events :: "string list"
  we_headers :: "(string \<times> string) list option"
  we_active :: bool
  we_createdAt :: time

record webhookDelivery =
  wd_id :: uuid
  wd_endpointId :: uuid
  wd_eventType :: string
  wd_payload :: json
  statusCode :: "int option"
  responseBody :: "string option"
  deliveredAt :: "time option"
  nextRetryAt :: "time option"
  wd_attemptCount :: int
  permanentlyFailedAt :: "time option"
  wd_createdAt :: time

record shipmentComment =
  cm_id :: uuid
  cm_shipmentId :: string
  cm_authorId :: uuid
  cm_body :: string
  cm_visibility :: commentVisibility
  cm_attachmentCid :: "string option"
  pinnedAt :: "time option"
  parentCommentId :: "uuid option"
  cm_milestoneIndex :: "int option"
  cm_createdAt :: time
  cm_deletedAt :: "time option"

record savedFilter =
  sf_id :: uuid
  sf_userId :: uuid
  sf_name :: string
  sf_filter :: "(string \<times> json) list"
  sf_createdAt :: time

record shipmentReminder =
  sr_id :: uuid
  sr_shipmentId :: string
  sr_userId :: uuid
  remindAt :: time
  sr_message :: string
  sentAt :: "time option"
  sr_createdAt :: time

text \<open>
  The \<open>payload\<close> of an archived shipment: the row with the relations the archival job includes.
\<close>

record shipmentSnapshot =
  snap_shipment :: shipment
  snap_milestones :: "milestone list"
  snap_evidence :: "evidence list"
  snap_proofs :: "proofSubmission list"
  snap_events :: "chainEvent list"
  snap_comments :: "shipmentComment list"
  snap_notes :: "shipmentNote list"
  snap_tracking :: "trackingUpdate list"
  snap_watchers :: "watcher list"

record archivedShipment =
  as_id :: string
  as_status :: shipmentStatus
  as_buyerAddress :: address
  as_supplierAddress :: address
  as_logisticsAddress :: address
  as_arbiterAddress :: address
  as_referenceNumber :: "string option"
  as_terminalAt :: time
  as_archivedAt :: time
  as_payload :: shipmentSnapshot

record recurringSchedule =
  rs_id :: uuid
  rs_ownerId :: uuid
  rs_templateId :: uuid
  rs_interval :: recurringInterval
  rs_totalAmount :: int
  nextRunAt :: time
  lastRunAt :: "time option"
  rs_active :: bool
  rs_createdAt :: time

record invitation =
  inv_id :: uuid
  inv_shipmentId :: "string option"
  inv_templateId :: "uuid option"
  inv_email :: string
  inv_role :: userRole
  inv_tokenHash :: string
  invitedById :: uuid
  acceptedById :: "uuid option"
  acceptedAt :: "time option"
  inv_expiresAt :: time
  inv_createdAt :: time

record organization =
  org_id :: uuid
  org_name :: string
  org_createdBy :: uuid
  org_createdAt :: time

record organizationMember =
  om_id :: uuid
  om_orgId :: uuid
  om_userId :: uuid
  om_role :: organizationRole
  om_createdAt :: time

record announcement =
  an_id :: uuid
  an_title :: string
  an_body :: string
  an_severity :: announcementSeverity
  startsAt :: time
  endsAt :: "time option"
  audienceRoles :: "userRole list"
  createdById :: "uuid option"
  an_createdAt :: time

record announcementDismissal =
  dm_announcementId :: uuid
  dm_userId :: uuid
  dismissedAt :: time

record contact =
  ct_id :: uuid
  ct_ownerId :: uuid
  ct_stellarAddress :: address
  ct_label :: string
  defaultRole :: "userRole option"
  ct_notes :: "string option"
  ct_createdAt :: time

record settlementProposal =
  sp_id :: uuid
  sp_milestoneId :: uuid
  sp_proposedBy :: address
  supplierPercent :: int
  sp_message :: "string option"
  sp_status :: settlementProposalStatus
  respondedAt :: "time option"
  sp_createdAt :: time

section \<open>The state\<close>

record db =
  users :: "user list"
  shipments :: "shipment list"
  milestones :: "milestone list"
  approvals :: "approval list"
  proofSubmissions :: "proofSubmission list"
  disputeEvidence :: "evidence list"
  checklistItems :: "checklistItem list"
  extensionRequests :: "extensionRequest list"
  chainEvents :: "chainEvent list"
  failedEvents :: "failedEvent list"
  eventCursor :: "int option"
  templates :: "shipmentTemplate list"
  watchers :: "watcher list"
  favorites :: "favorite list"
  shipmentNotes :: "shipmentNote list"
  trackingUpdates :: "trackingUpdate list"
  backfillRuns :: "backfillRun list"
  reconciliationRuns :: "reconciliationRun list"
  apiKeys :: "apiKey list"
  webhookEndpoints :: "webhookEndpoint list"
  webhookDeliveries :: "webhookDelivery list"
  shipmentComments :: "shipmentComment list"
  savedFilters :: "savedFilter list"
  shipmentReminders :: "shipmentReminder list"
  archivedShipments :: "archivedShipment list"
  recurringSchedules :: "recurringSchedule list"
  shipmentInvitations :: "invitation list"
  organizations :: "organization list"
  organizationMembers :: "organizationMember list"
  announcements :: "announcement list"
  announcementDismissals :: "announcementDismissal list"
  contacts :: "contact list"
  settlementProposals :: "settlementProposal list"
  nextId :: uuid

record channelPrefs =
  inApp :: "bool option"
  emailPref :: "bool option"
  slackPref :: "bool option"
  smsPref :: "bool option"
  discordPref :: "bool option"
  pushPref :: "bool option"

record quietHours =
  qh_enabled :: bool
  qh_start :: string
  qh_end :: string
  qh_timezone :: string

datatype digestFrequency = DF_instant | DF_daily | DF_weekly

record preference =
  np_userId :: uuid
  np_types :: "(notificationType \<times> channelPrefs) list"
  np_quietHours :: "quietHours option"
  np_digest :: "digestFrequency option"
  slackWebhookUrl :: "string option"
  discordWebhookUrl :: "string option"
  smsSentCount :: int
  smsWindowStart :: time

record notification =
  n_id :: uuid
  n_userId :: uuid
  n_type :: notificationType
  n_title :: string
  n_data :: json
  n_read :: bool
  emailSent :: bool
  deliverAfter :: "time option"
  snoozedUntil :: "time option"
  n_createdAt :: time

datatype outgoing =
    Mail string notificationType string
  | Slack string notificationType
  | Sms string notificationType
  | Discord string notificationType
  | SocketPush uuid uuid
  | WebPush uuid notificationType
  | WebhookDispatch notificationType uuid
  | GqlShipment string
  | GqlMilestone string int
  | VerificationMail string string
  | PlainMail string string string
  | WebhookPost string string "(string \<times> string) list"

record emailSuppression =
  es_id :: uuid
  es_email :: string
  es_reason :: emailSuppressionReason
  es_createdAt :: time

record mailbox =
  notifications :: "notification list"
  preferences :: "preference list"
  suppressions :: "emailSuppression list"
  outbox :: "outgoing list"
  nextNotification :: uuid

datatype resourceRef = ByUuid uuid | ByName string

record auditEntry =
  au_actorId :: "uuid option"
  au_actorAddress :: address
  au_action :: string
  au_resourceType :: string
  au_resourceId :: resourceRef
  au_metadata :: json

datatype metric =
    EventsProcessed string
  | EventsFailed
  | ShipmentsCreated
  | ActiveShipmentsUp
  | ActiveShipmentsDown
  | DisputeResolutionMs int
  | JobRun string string
  | WebhookDelivered bool "int option"

record world =
  db :: db
  mail :: mailbox
  audit :: "auditEntry list"
  metrics :: "metric list"
  redis :: keyspace

type_synonym 'a act = "(world, 'a) action"

text \<open>A file received by an upload endpoint, and the answer of the contract's \<open>get_shipment\<close>.\<close>

record upload =
  buffer :: string
  originalname :: string
  mimetype :: string
  fsize :: nat

datatype chainReply =
    ChainFails
  | ChainNull
  | ChainShipment string "int option"

record tokenInfo =
  tk_symbol :: string
  tk_decimals :: nat
  tk_enabled :: "bool option"
  tk_displayName :: "string option"
  tk_minValue :: "int option"
  tk_maxValue :: "int option"

text \<open>
  The environment of one call: the instant at which it runs, the configuration it reads and the
  answers the external services give it.
\<close>

record env =
  now :: time
  chainGetShipment :: "string \<Rightarrow> chainReply"
  latestLedger :: "int result"
  oldestLedger :: "int result"
  ipfsUpload :: "upload \<Rightarrow> string result"
  sha256Hex :: "string \<Rightarrow> string"
  sha1Hex :: "string \<Rightarrow> string"
  tzOffset :: "string \<Rightarrow> time \<Rightarrow> int"
  smsSend :: "(string \<Rightarrow> bool) option"
  tokenRegistry :: "string \<rightharpoonup> tokenInfo"
  multisigThreshold :: int
  kycThreshold :: int
  kycEnhancedThreshold :: int
  kycValidityDays :: int
  randomUuid :: string
  reminder1Days :: int
  reminder3Days :: int
  disputeEscalationDays :: int
  requireIfMatch :: bool
  repeatBuyerThreshold :: "rat option"

section \<open>Prisma calls shared by the services\<close>

definition modifyDb :: "(db \<Rightarrow> db) \<Rightarrow> unit act" where
  "modifyDb f = modify (\<lambda>w. w\<lparr>db := f (db w)\<rparr>)"

definition freshId :: "uuid act" where
  "freshId = andThen (reads (\<lambda>w. nextId (db w))) (\<lambda>i.
     andThen (modifyDb (\<lambda>d. d\<lparr>nextId := Suc i\<rparr>)) (\<lambda>_. ret i))"

text \<open>A field of an update that may be absent (\<open>undefined\<close>), in which case the column is left as it is.\<close>

abbreviation given :: "'x option \<Rightarrow> 'x \<Rightarrow> 'x" where
  "given v d \<equiv> case v of None \<Rightarrow> d | Some x \<Rightarrow> x"

abbreviation mKey :: "milestone \<Rightarrow> string \<times> int" where
  "mKey m \<equiv> (m_shipmentId m, milestoneIndex m)"

definition findShipment :: "string \<Rightarrow> world \<Rightarrow> shipment option" where
  "findShipment sid w = find (\<lambda>s. s_id s = sid) (shipments (db w))"

definition findUser :: "address \<Rightarrow> world \<Rightarrow> user option" where
  "findUser a w = find (\<lambda>u. stellarAddress u = a) (users (db w))"

text \<open>\<open>milestone.findUnique\<close> on the compound key, without and with \<open>deletedAt: null\<close>.\<close>

definition findMilestone :: "string \<Rightarrow> int \<Rightarrow> world \<Rightarrow> milestone option" where
  "findMilestone sid i w = find (\<lambda>m. mKey m = (sid, i)) (milestones (db w))"

definition findLiveMilestone :: "string \<Rightarrow> int \<Rightarrow> world \<Rightarrow> milestone option" where
  "findLiveMilestone sid i w =
     find (\<lambda>m. mKey m = (sid, i) \<and> deletedAt m = None) (milestones (db w))"

text \<open>\<open>milestone.findMany({ where: { shipmentId, deletedAt: null } })\<close>.\<close>

definition liveMilestones :: "string \<Rightarrow> db \<Rightarrow> milestone list" where
  "liveMilestones sid d = filter (\<lambda>m. m_shipmentId m = sid \<and> deletedAt m = None) (milestones d)"

text \<open>\<open>milestone.update\<close> by compound key and by id: P2025 when there is no such row.\<close>

definition updateMilestone :: "time \<Rightarrow> string \<Rightarrow> int \<Rightarrow> (milestone \<Rightarrow> milestone) \<Rightarrow> milestone act" where
  "updateMilestone t sid i f =
     andThen (reads (findMilestone sid i)) (\<lambda>found.
     requireSome found PrismaP2025 (\<lambda>m.
     andThen (modifyDb (\<lambda>d. d\<lparr>milestones :=
        updateWhere (\<lambda>r. mKey r = (sid, i)) (\<lambda>r. (f r)\<lparr>m_updatedAt := t\<rparr>) (milestones d)\<rparr>)) (\<lambda>_.
     ret ((f m)\<lparr>m_updatedAt := t\<rparr>))))"

definition updateMilestoneById :: "time \<Rightarrow> uuid \<Rightarrow> (milestone \<Rightarrow> milestone) \<Rightarrow> milestone act" where
  "updateMilestoneById t mid f =
     andThen (reads (\<lambda>w. find (\<lambda>m. m_id m = mid) (milestones (db w)))) (\<lambda>found.
     requireSome found PrismaP2025 (\<lambda>m.
     andThen (modifyDb (\<lambda>d. d\<lparr>milestones :=
        updateWhere (\<lambda>r. m_id r = mid) (\<lambda>r. (f r)\<lparr>m_updatedAt := t\<rparr>) (milestones d)\<rparr>)) (\<lambda>_.
     ret ((f m)\<lparr>m_updatedAt := t\<rparr>))))"

text \<open>\<open>shipment.update\<close> by id.\<close>

definition updateShipment :: "time \<Rightarrow> string \<Rightarrow> (shipment \<Rightarrow> shipment) \<Rightarrow> shipment act" where
  "updateShipment t sid f =
     andThen (reads (findShipment sid)) (\<lambda>found.
     requireSome found PrismaP2025 (\<lambda>s.
     andThen (modifyDb (\<lambda>d. d\<lparr>shipments :=
        updateWhere (\<lambda>r. s_id r = sid) (\<lambda>r. (f r)\<lparr>s_updatedAt := t\<rparr>) (shipments d)\<rparr>)) (\<lambda>_.
     ret ((f s)\<lparr>s_updatedAt := t\<rparr>))))"

text \<open>\<open>$transaction([...])\<close>: all of the writes or none.\<close>

definition transaction :: "'a act \<Rightarrow> 'a act" where
  "transaction m = (\<lambda>w. case m w of (Inl x, _) \<Rightarrow> (Inl x, w) | (Inr v, w') \<Rightarrow> (Inr v, w'))"

text \<open>\<open>AuditLogService.record\<close>: insert-only, never throws.\<close>

definition auditRecord :: "auditEntry \<Rightarrow> unit act" where
  "auditRecord e = modify (\<lambda>w. w\<lparr>audit := audit w @ [e]\<rparr>)"

definition count :: "metric \<Rightarrow> unit act" where
  "count m = modify (\<lambda>w. w\<lparr>metrics := metrics w @ [m]\<rparr>)"

interpretation auditLog: side_channel auditRecord db
  by unfold_locales (simp_all add: auditRecord_def)

interpretation metricsSink: side_channel count db
  by unfold_locales (simp_all add: count_def)

section \<open>Well-formed databases\<close>

text \<open>
  The unique constraints of the schema on the tables the services write: primary keys, the
  compound keys of milestones, approvals and events, identifiers drawn from the counter, and the
  foreign key from milestones to shipments.
\<close>

definition wf_db :: "db \<Rightarrow> bool" where
  "wf_db d \<longleftrightarrow>
     distinct (map s_id (shipments d)) \<and>
     distinct (map mKey (milestones d)) \<and>
     distinct (map m_id (milestones d)) \<and>
     (\<forall>m \<in> set (milestones d). m_id m < nextId d) \<and>
     (\<forall>m \<in> set (milestones d). \<exists>s \<in> set (shipments d). s_id s = m_shipmentId m) \<and>
     distinct (map (\<lambda>a. (ap_shipmentId a, approverAddress a)) (approvals d)) \<and>
     distinct (map (\<lambda>e. (ce_txHash e, ce_eventName e)) (chainEvents d)) \<and>
     distinct (map (\<lambda>e. (fe_txHash e, fe_eventName e)) (failedEvents d)) \<and>
     distinct (map fe_id (failedEvents d)) \<and>
     (\<forall>e \<in> set (failedEvents d). fe_id e < nextId d)"

subsection \<open>Running the Prisma calls\<close>

lemma total_modifyDb [total_intros]: "neverFails (modifyDb f)"
  by (simp add: modifyDb_def total_modify)

lemma total_freshId [total_intros]: "neverFails freshId"
  by (simp add: freshId_def total_intros)

lemma total_auditRecord [total_intros]: "neverFails (auditRecord e)"
  by (rule auditLog.send_total)

lemma total_count [total_intros]: "neverFails (count m)"
  by (rule metricsSink.send_total)

lemma atomic_transaction: "atomic (transaction m)"
  by (auto simp: atomic_def transaction_def split: prod.splits sum.splits)

lemma run_transaction_Inr [simp]: "m w = (Inr v, w') \<Longrightarrow> transaction m w = (Inr v, w')"
  by (simp add: transaction_def)

lemma transaction_success_iff: "transaction m w = (Inr v, w') \<longleftrightarrow> m w = (Inr v, w')"
  by (auto simp: transaction_def split: prod.splits sum.splits)

lemma atomic_updateShipment: "atomic (updateShipment t sid f)"
  unfolding updateShipment_def by (intro atomic_intros atomic_total total_intros)

lemma atomic_updateMilestone: "atomic (updateMilestone t sid i f)"
  unfolding updateMilestone_def by (intro atomic_intros atomic_total total_intros)

lemma atomic_updateMilestoneById: "atomic (updateMilestoneById t mid f)"
  unfolding updateMilestoneById_def by (intro atomic_intros atomic_total total_intros)

lemma run_modifyDb [simp]: "modifyDb f w = (Inr (), w\<lparr>db := f (db w)\<rparr>)"
  by (simp add: modifyDb_def)

lemma run_freshId [simp]:
  "freshId w = (Inr (nextId (db w)), w\<lparr>db := (db w)\<lparr>nextId := Suc (nextId (db w))\<rparr>\<rparr>)"
  by (simp add: freshId_def)

lemma run_auditRecord [simp]: "auditRecord e w = (Inr (), w\<lparr>audit := audit w @ [e]\<rparr>)"
  by (simp add: auditRecord_def)

lemma run_count [simp]: "count m w = (Inr (), w\<lparr>metrics := metrics w @ [m]\<rparr>)"
  by (simp add: count_def)

definition setMilestones :: "(milestone list \<Rightarrow> milestone list) \<Rightarrow> world \<Rightarrow> world" where
  "setMilestones f w = w\<lparr>db := (db w)\<lparr>milestones := f (milestones (db w))\<rparr>\<rparr>"

definition setShipments :: "(shipment list \<Rightarrow> shipment list) \<Rightarrow> world \<Rightarrow> world" where
  "setShipments f w = w\<lparr>db := (db w)\<lparr>shipments := f (shipments (db w))\<rparr>\<rparr>"

lemma run_updateMilestone:
  "updateMilestone t sid i f w =
    (case findMilestone sid i w of None \<Rightarrow> (Inl PrismaP2025, w)
     | Some m \<Rightarrow> (Inr ((f m)\<lparr>m_updatedAt := t\<rparr>),
         setMilestones (updateWhere (\<lambda>r. mKey r = (sid, i)) (\<lambda>r. (f r)\<lparr>m_updatedAt := t\<rparr>)) w))"
  by (simp add: updateMilestone_def setMilestones_def split: option.split)

lemma run_updateMilestoneById:
  "updateMilestoneById t mid f w =
    (case find (\<lambda>m. m_id m = mid) (milestones (db w)) of None \<Rightarrow> (Inl PrismaP2025, w)
     | Some m \<Rightarrow> (Inr ((f m)\<lparr>m_updatedAt := t\<rparr>),
         setMilestones (updateWhere (\<lambda>r. m_id r = mid) (\<lambda>r. (f r)\<lparr>m_updatedAt := t\<rparr>)) w))"
  by (simp add: updateMilestoneById_def setMilestones_def split: option.split)

lemma run_updateShipment:
  "updateShipment t sid f w =
    (case findShipment sid w of None \<Rightarrow> (Inl PrismaP2025, w)
     | Some s \<Rightarrow> (Inr ((f s)\<lparr>s_updatedAt := t\<rparr>),
         setShipments (updateWhere (\<lambda>r. s_id r = sid) (\<lambda>r. (f r)\<lparr>s_updatedAt := t\<rparr>)) w))"
  by (simp add: updateShipment_def setShipments_def split: option.split)

lemma findShipment_id: "findShipment sid w = Some s \<Longrightarrow> s_id s = sid \<and> s \<in> set (shipments (db w))"
  unfolding findShipment_def by (drule find_Some_prop) auto

lemma findMilestone_key:
  "findMilestone sid i w = Some m \<Longrightarrow> mKey m = (sid, i) \<and> m \<in> set (milestones (db w))"
  unfolding findMilestone_def by (drule find_Some_prop) auto

lemma findLiveMilestone_key:
  "findLiveMilestone sid i w = Some m \<Longrightarrow>
    mKey m = (sid, i) \<and> deletedAt m = None \<and> m \<in> set (milestones (db w))"
  unfolding findLiveMilestone_def by (drule find_Some_prop) auto

lemma findMilestone_cong_db: "db w' = db w \<Longrightarrow> findMilestone sid i w' = findMilestone sid i w"
  by (simp add: findMilestone_def)

lemma findLiveMilestone_cong_db:
  "db w' = db w \<Longrightarrow> findLiveMilestone sid i w' = findLiveMilestone sid i w"
  by (simp add: findLiveMilestone_def)

lemma findShipment_cong_db: "db w' = db w \<Longrightarrow> findShipment sid w' = findShipment sid w"
  by (simp add: findShipment_def)

lemma find_live_of_find:
  assumes "distinct (map mKey (milestones (db w)))"
  shows "findLiveMilestone sid i w = Some m \<longleftrightarrow> findMilestone sid i w = Some m \<and> deletedAt m = None"
proof -
  have "findMilestone sid i w = Some m \<longleftrightarrow> m \<in> set (milestones (db w)) \<and> mKey m = (sid, i)"
    unfolding findMilestone_def by (rule find_eq_Some_unique [OF assms])
  moreover have "findLiveMilestone sid i w = Some m"
    if m: "m \<in> set (milestones (db w))" "mKey m = (sid, i)" "deletedAt m = None"
  proof -
    have "findLiveMilestone sid i w \<noteq> None"
      using m by (auto simp: findLiveMilestone_def find_None_iff_ball)
    then obtain m' where m': "findLiveMilestone sid i w = Some m'" by auto
    then have "mKey m' = mKey m" "m' \<in> set (milestones (db w))"
      using findLiveMilestone_key [OF m'] m by auto
    with assms m(1) have "m' = m" by (auto simp: distinct_map dest: inj_onD)
    with m' show ?thesis by simp
  qed
  ultimately show ?thesis using findLiveMilestone_key by blast
qed

section \<open>Concrete states\<close>

text \<open>Small worlds on which the witnesses of the properties evaluate the model.\<close>

definition emptyDb :: db where
  "emptyDb = \<lparr>users = [], shipments = [], milestones = [], approvals = [], proofSubmissions = [],
     disputeEvidence = [], checklistItems = [], extensionRequests = [], chainEvents = [],
     failedEvents = [], eventCursor = None, templates = [], watchers = [], favorites = [],
     shipmentNotes = [], trackingUpdates = [], backfillRuns = [], reconciliationRuns = [],
     apiKeys = [], webhookEndpoints = [], webhookDeliveries = [], shipmentComments = [], savedFilters = [],
     shipmentReminders = [], archivedShipments = [], recurringSchedules = [], shipmentInvitations = [],
     organizations = [], organizationMembers = [], announcements = [], announcementDismissals = [],
     contacts = [], settlementProposals = [], nextId = 100\<rparr>"

definition emptyMail :: mailbox where
  "emptyMail = \<lparr>notifications = [], preferences = [], suppressions = [], outbox = [], nextNotification = 0\<rparr>"

definition emptyWorld :: world where
  "emptyWorld = \<lparr>db = emptyDb, mail = emptyMail, audit = [], metrics = [], redis = Map.empty\<rparr>"

definition env0 :: env where
  "env0 = \<lparr>now = 1000, chainGetShipment = (\<lambda>_. ChainNull), latestLedger = Inr 500, oldestLedger = Inr 100,
     ipfsUpload = (\<lambda>_. Inr ''cid''), sha256Hex = (\<lambda>_. ''hash''), sha1Hex = (\<lambda>s. s), tzOffset = (\<lambda>_ _. 0), smsSend = None,
     tokenRegistry = Map.empty, multisigThreshold = 1000, kycThreshold = 1000000,
     kycEnhancedThreshold = 10000000, kycValidityDays = 365,
     randomUuid = ''uuid-1'', reminder1Days = 0, reminder3Days = 3, disputeEscalationDays = 7,
     requireIfMatch = False, repeatBuyerThreshold = Some (1 / 2)\<rparr>"

definition user0 :: "uuid \<Rightarrow> address \<Rightarrow> user" where
  "user0 i a = \<lparr>u_id = i, stellarAddress = a, email = Some ''a@b'', u_role = BUYER, u_kycStatus = UNVERIFIED,
     kycReference = None, kycVerifiedAt = None,
     kycExpiresAt = None, kycSubmittedAt = None, kycReminder30dSentAt = None, kycReminder7dSentAt = None,
     phoneNumber = None, phoneVerified = False, pendingPhone = None, arbiterAwayUntil = None, emailVerified = False,
     pendingEmail = None, u_name = None, deactivatedAt = None, avatarCid = None, displayCurrency = ''USD'', u_locale = ''en'',
     awayMessage = None, listedInDirectory = True, arbiterAvailable = True, u_organization = None\<rparr>"

definition shipment0 :: "string \<Rightarrow> shipment" where
  "shipment0 i = \<lparr>s_id = i, buyerAddress = ''GB'', supplierAddress = ''GS'', logisticsAddress = ''GL'',
     arbiterAddress = ''GA'', tokenAddress = ''CT'', totalAmount = 1000, releasedAmount = 0, s_status = ACTIVE,
     arbiterStatus = PENDING_ACCEPTANCE, s_txHash = None, tokenDecimals = 7, tokenSymbol = ''USDC'',
     description = None, referenceNumber = None, s_metadata = None, tags = [], expectedDeliveryAt = None,
     cancelledAt = None, refundTxHash = None, archivedAt = None, requiredApprovals = None, isDraft = False,
     s_createdAt = 0, s_updatedAt = 0\<rparr>"

definition milestone0 :: "uuid \<Rightarrow> string \<Rightarrow> int \<Rightarrow> int \<Rightarrow> milestoneStatus \<Rightarrow> milestone" where
  "milestone0 mid sid i pct st = \<lparr>m_id = mid, m_shipmentId = sid, milestoneIndex = i, m_name = ''m'',
     paymentPercent = pct, proofHash = None, m_status = st, paymentReleased = None, confirmedAt = None,
     dueAt = None, overdueNotifiedAt = None, overdueReminder3dAt = None, disputeEscalatedAt = None,
     disputedAt = None, deletedAt = None, m_createdAt = 0, m_updatedAt = 0\<rparr>"

lemmas concrete_defs = emptyDb_def emptyMail_def emptyWorld_def env0_def user0_def shipment0_def milestone0_def

end
