(* ===== verification/Notifications.thy ===== *)
theory Notifications
  imports Domain
begin

text \<open>
  \<open>NotificationsService\<close> (\<open>src/src/modules/notifications/notifications.service.ts\<close>): channel
  preferences, quiet hours, the fan-out of one notification to its channels, watchers, the SMS
  rate limit and signed unsubscribe tokens. Deliveries to the outside (SMTP, Slack, SMS,
  Discord, sockets, web push, webhooks) are entries of the mailbox's \<open>outbox\<close>; message bodies are
  not modelled. The other services use it as a \<open>side_channel\<close>: it never throws and touches
  nothing but the mailbox.
\<close>

section \<open>Channel preferences\<close>

record channels =
  ch_inApp :: bool
  ch_email :: bool
  ch_slack :: bool
  ch_sms :: bool
  ch_discord :: bool
  ch_push :: bool

definition SMS_ALLOWED_TYPES :: "notificationType list" where
  "SMS_ALLOWED_TYPES = [N_DISPUTE_RAISED, N_DISPUTE_RESOLVED, N_PAYMENT_RELEASED, N_MILESTONE_OVERDUE]"

definition SMS_RATE_LIMIT :: int where
  "SMS_RATE_LIMIT = 10"

definition buildDefaultPreferences :: "(notificationType \<times> channelPrefs) list" where
  "buildDefaultPreferences = map (\<lambda>t. (t, \<lparr>inApp = Some True, emailPref = Some True,
     slackPref = Some True, smsPref = Some False, discordPref = Some False, pushPref = Some True\<rparr>))
     notificationTypes"

definition orElse :: "bool option \<Rightarrow> bool \<Rightarrow> bool" where
  "orElse v d = (case v of None \<Rightarrow> d | Some b \<Rightarrow> b)"

definition normalizeChannelPrefs :: "channelPrefs option \<Rightarrow> channels" where
  "normalizeChannelPrefs raw = (case raw of
      None \<Rightarrow> \<lparr>ch_inApp = True, ch_email = True, ch_slack = True, ch_sms = False,
               ch_discord = False, ch_push = True\<rparr>
    | Some p \<Rightarrow> \<lparr>ch_inApp = orElse (inApp p) True, ch_email = orElse (emailPref p) True,
               ch_slack = orElse (slackPref p) True, ch_sms = orElse (smsPref p) False,
               ch_discord = orElse (discordPref p) False, ch_push = orElse (pushPref p) True\<rparr>)"

text \<open>JavaScript truthiness of an optional string.\<close>

definition truthy :: "string option \<Rightarrow> bool" where
  "truthy v \<longleftrightarrow> v \<noteq> None \<and> v \<noteq> Some []"

definition withMail :: "(mailbox \<Rightarrow> 'a \<times> mailbox) \<Rightarrow> 'a act" where
  "withMail f = (\<lambda>w. case f (mail w) of (x, mb) \<Rightarrow> (Inr x, w\<lparr>mail := mb\<rparr>))"

definition getOrCreatePreferenceRecord :: "time \<Rightarrow> uuid \<Rightarrow> mailbox \<Rightarrow> preference \<times> mailbox" where
  "getOrCreatePreferenceRecord t uid mb =
     (case find (\<lambda>p. np_userId p = uid) (preferences mb) of
        Some p \<Rightarrow> (p, mb)
      | None \<Rightarrow>
          let p = \<lparr>np_userId = uid, np_types = buildDefaultPreferences, np_quietHours = None, np_digest = None,
                   slackWebhookUrl = None, discordWebhookUrl = None, smsSentCount = 0,
                   smsWindowStart = t\<rparr>
          in (p, mb\<lparr>preferences := preferences mb @ [p]\<rparr>))"

section \<open>Quiet hours\<close>

text \<open>\<open>split(':').map(Number)\<close> of a time of day that matches \<open>([01]\d|2[0-3]):[0-5]\d\<close>, in minutes.\<close>

definition hhmm :: "string \<Rightarrow> int option" where
  "hhmm s = (case s of [a, b, c, d, e] \<Rightarrow>
       (case (digitVal a, digitVal b, digitVal d, digitVal e) of
          (Some h1, Some h2, Some m1, Some m2) \<Rightarrow>
            if c = CHR '':'' \<and> 10 * h1 + h2 < 24 \<and> m1 < 6 then Some ((10 * h1 + h2) * 60 + 10 * m1 + m2)
            else None
        | _ \<Rightarrow> None)
     | _ \<Rightarrow> None)"

definition validateQuietHours :: "(string \<Rightarrow> bool) \<Rightarrow> quietHours \<Rightarrow> unit result" where
  "validateQuietHours validZone q =
     (if hhmm (qh_start q) = None \<or> hhmm (qh_end q) = None then Inl BadRequestException
      else if \<not> validZone (qh_timezone q) then Inl BadRequestException
      else Inr ())"

text \<open>
  \<open>off t\<close> is the zone's offset at the instant \<open>t\<close>, so \<open>t + off t\<close> is the wall clock the
  \<open>Intl.DateTimeFormat\<close> parts describe. The two rounds of the loop correct the offset.
\<close>

definition minuteOfDay :: "time \<Rightarrow> int" where
  "minuteOfDay wallClock = (wallClock div 60000) mod 1440"

definition quietActive :: "int \<Rightarrow> int \<Rightarrow> int \<Rightarrow> bool" where
  "quietActive s e n \<longleftrightarrow> s = e \<or> (if s < e then n \<ge> s \<and> n < e else n \<ge> s \<or> n < e)"

definition adjustZone :: "(time \<Rightarrow> int) \<Rightarrow> time \<Rightarrow> time \<Rightarrow> time" where
  "adjustZone off wall utc = utc + (wall - ((utc + off utc) div 60000) * 60000)"

definition getQuietHoursEnd :: "(string \<Rightarrow> time \<Rightarrow> int) \<Rightarrow> time \<Rightarrow> quietHours option \<Rightarrow> time option" where
  "getQuietHoursEnd tz t quiet = (case quiet of
      None \<Rightarrow> None
    | Some q \<Rightarrow>
        if \<not> qh_enabled q then None else
        (case (hhmm (qh_start q), hhmm (qh_end q)) of
           (Some s, Some e) \<Rightarrow>
             let off = tz (qh_timezone q);
                 n = minuteOfDay (t + off t)
             in if \<not> quietActive s e n then None
                else let plusDay = (s > e \<and> n \<ge> s);
                         wall = ((t + off t) div 86400000 + (if plusDay then 1 else 0)) * 86400000 + e * 60000
                     in Some (adjustZone off wall (adjustZone off wall wall))
         | _ \<Rightarrow> None))"

section \<open>Channels\<close>

definition send :: "outgoing \<Rightarrow> mailbox \<Rightarrow> mailbox" where
  "send m mb = mb\<lparr>outbox := outbox mb @ [m]\<rparr>"

definition isEmailSuppressed :: "string \<Rightarrow> mailbox \<Rightarrow> bool" where
  "isEmailSuppressed to mb \<longleftrightarrow> toLowerCase (trim to) \<in> set (map es_email (suppressions mb))"

text \<open>\<open>sendEmail\<close>: suppressed addresses are skipped; otherwise one SMTP attempt whose failure is swallowed.\<close>

definition sendEmail :: "string \<Rightarrow> notificationType \<Rightarrow> string \<Rightarrow> mailbox \<Rightarrow> mailbox" where
  "sendEmail to ty title mb = (if isEmailSuppressed to mb then mb else send (Mail to ty title) mb)"

text \<open>The same call without a notification type, as other services use it: recipient, subject and text.\<close>

definition sendPlainMail :: "string \<Rightarrow> string \<Rightarrow> string \<Rightarrow> mailbox \<Rightarrow> mailbox" where
  "sendPlainMail to title body mb = (if isEmailSuppressed to mb then mb else send (PlainMail to title body) mb)"

definition updatePreferenceRow :: "uuid \<Rightarrow> (preference \<Rightarrow> preference) \<Rightarrow> mailbox \<Rightarrow> mailbox" where
  "updatePreferenceRow uid f mb =
     mb\<lparr>preferences := updateWhere (\<lambda>p. np_userId p = uid) f (preferences mb)\<rparr>"

definition sendSmsNotification :: "(string \<Rightarrow> bool) option \<Rightarrow> time \<Rightarrow> uuid \<Rightarrow> string \<Rightarrow> notificationType
    \<Rightarrow> mailbox \<Rightarrow> mailbox" where
  "sendSmsNotification provider t uid phone ty mb = (case provider of
      None \<Rightarrow> mb
    | Some accepts \<Rightarrow>
        (case find (\<lambda>p. np_userId p = uid) (preferences mb) of
           None \<Rightarrow> mb
         | Some pref \<Rightarrow>
             let expired = smsWindowStart pref < t - 24 * 60 * 60 * 1000;
                 currentCount = (if expired then 0 else smsSentCount pref);
                 mb1 = (if expired then updatePreferenceRow uid (\<lambda>p. p\<lparr>smsSentCount := 0, smsWindowStart := t\<rparr>) mb
                        else mb)
             in if currentCount \<ge> SMS_RATE_LIMIT then mb1
                else if accepts phone
                then updatePreferenceRow uid (\<lambda>p. p\<lparr>smsSentCount := currentCount + 1\<rparr>) (send (Sms phone ty) mb1)
                else mb1))"

section \<open>Fan-out\<close>

definition createNotification :: "time \<Rightarrow> uuid \<Rightarrow> notificationType \<Rightarrow> string \<Rightarrow> json \<Rightarrow> time option
    \<Rightarrow> mailbox \<Rightarrow> uuid \<times> mailbox" where
  "createNotification t uid ty title data after mb =
     (nextNotification mb,
      mb\<lparr>notifications := notifications mb @ [\<lparr>n_id = nextNotification mb, n_userId = uid, n_type = ty,
           n_title = title, n_data = data, n_read = False, emailSent = False, deliverAfter = after, snoozedUntil = None, n_createdAt = t\<rparr>],
         nextNotification := Suc (nextNotification mb)\<rparr>)"

definition markEmailSent :: "uuid \<Rightarrow> mailbox \<Rightarrow> mailbox" where
  "markEmailSent nid mb =
     mb\<lparr>notifications := updateWhere (\<lambda>n. n_id n = nid) (\<lambda>n. n\<lparr>emailSent := True\<rparr>) (notifications mb)\<rparr>"

definition urgentAlert :: "notificationType \<Rightarrow> json \<Rightarrow> bool" where
  "urgentAlert ty data \<longleftrightarrow> ty = N_SYSTEM_ALERT \<and> jsonGet ''urgent'' data = Some (JBool True)"

text \<open>The body of \<open>notifyUser\<close> once the user is found: the state change on the mailbox.\<close>

definition deliver :: "env \<Rightarrow> user \<Rightarrow> notificationType \<Rightarrow> string \<Rightarrow> json \<Rightarrow> mailbox \<Rightarrow> uuid option \<times> mailbox" where
  "deliver e u ty title data mb0 =
     (case getOrCreatePreferenceRecord (now e) (u_id u) mb0 of (pref, mb1) \<Rightarrow>
      let after = (if urgentAlert ty data then None
                   else getQuietHoursEnd (tzOffset e) (now e) (np_quietHours pref));
          ch = normalizeChannelPrefs (map_of (np_types pref) ty)
      in if \<not> ch_inApp ch then (None, mb1)
      else (case createNotification (now e) (u_id u) ty title data after mb1 of (nid, mb2) \<Rightarrow>
        let mb3 = (if after = None \<and> ch_email ch \<and> truthy (email u)
                   then markEmailSent nid (sendEmail (the (email u)) ty title mb2) else mb2);
            mb4 = (if after = None \<and> ch_slack ch \<and> truthy (slackWebhookUrl pref)
                   then send (Slack (the (slackWebhookUrl pref)) ty) mb3 else mb3);
            mb5 = (if ch_sms ch \<and> phoneVerified u \<and> truthy (phoneNumber u) \<and> ty \<in> set SMS_ALLOWED_TYPES
                   then sendSmsNotification (smsSend e) (now e) (u_id u) (the (phoneNumber u)) ty mb4 else mb4);
            mb6 = (if ch_discord ch \<and> truthy (discordWebhookUrl pref)
                   then send (Discord (the (discordWebhookUrl pref)) ty) mb5 else mb5);
            mb7 = send (SocketPush (u_id u) nid) mb6;
            mb8 = (if after = None \<and> ch_push ch then send (WebPush (u_id u) ty) mb7 else mb7)
        in (Some nid, send (WebhookDispatch ty nid) mb8)))"

definition notifyUser :: "env \<Rightarrow> address \<Rightarrow> notificationType \<Rightarrow> string \<Rightarrow> json \<Rightarrow> uuid option act" where
  "notifyUser e addr ty title data =
     andThen (reads (findUser addr)) (\<lambda>found.
     case found of
       None \<Rightarrow> ret None
     | Some u \<Rightarrow> withMail (deliver e u ty title data))"

text \<open>\<open>notifyUserWithForcedEmail\<close>, for direct mentions.\<close>

definition deliverForced :: "env \<Rightarrow> user \<Rightarrow> notificationType \<Rightarrow> string \<Rightarrow> (string \<times> json) list
    \<Rightarrow> mailbox \<Rightarrow> uuid option \<times> mailbox" where
  "deliverForced e u ty title kvs mb0 =
     (case getOrCreatePreferenceRecord (now e) (u_id u) mb0 of (pref, mb1) \<Rightarrow>
      let after = (if urgentAlert ty (JObj kvs) then None
                   else getQuietHoursEnd (tzOffset e) (now e) (np_quietHours pref));
          raw = (case map_of (np_types pref) ty of Some p \<Rightarrow> Some p
                 | None \<Rightarrow> map_of (np_types pref) N_COMMENT_ADDED)
      in if \<not> (case raw of None \<Rightarrow> False | Some p \<Rightarrow> inApp p = Some True) then (None, mb1)
      else (case createNotification (now e) (u_id u) ty title
                 (JObj (if after = None then kvs else kvs @ [(''forceEmail'', JBool True)])) after mb1 of
        (nid, mb2) \<Rightarrow>
        let mb3 = (if truthy (email u) \<and> after = None
                   then markEmailSent nid (sendEmail (the (email u)) ty title mb2) else mb2)
        in (Some nid, send (WebhookDispatch ty nid) (send (SocketPush (u_id u) nid) mb3))))"

definition notifyUserWithForcedEmail :: "env \<Rightarrow> address \<Rightarrow> notificationType \<Rightarrow> string
    \<Rightarrow> (string \<times> json) list \<Rightarrow> uuid option act" where
  "notifyUserWithForcedEmail e addr ty title kvs =
     andThen (reads (findUser addr)) (\<lambda>found.
     case found of
       None \<Rightarrow> ret None
     | Some u \<Rightarrow> withMail (deliverForced e u ty title kvs))"

definition createMany :: "time \<Rightarrow> uuid list \<Rightarrow> notificationType \<Rightarrow> string \<Rightarrow> json \<Rightarrow> mailbox \<Rightarrow> mailbox" where
  "createMany t uids ty title data mb =
     fold (\<lambda>uid mb. snd (createNotification t uid ty title data None mb)) uids mb"

text \<open>Watchers get an in-app row each; the newest rows of that type and title are pushed live.\<close>

definition notifyWatchersMail :: "time \<Rightarrow> uuid list \<Rightarrow> notificationType \<Rightarrow> string \<Rightarrow> json \<Rightarrow> mailbox \<Rightarrow> mailbox" where
  "notifyWatchersMail t uids ty title data mb =
     (if uids = [] then mb else
      let mb1 = createMany t uids ty title data mb;
          newly = take (length uids) (sort_key (\<lambda>n. - n_createdAt n)
            (rev (filter (\<lambda>n. n_type n = ty \<and> n_title n = title \<and> n_userId n \<in> set uids) (notifications mb1))))
      in fold (\<lambda>n. send (SocketPush (n_userId n) (n_id n))) newly mb1)"

definition notifyWatchers :: "env \<Rightarrow> string \<Rightarrow> notificationType \<Rightarrow> string \<Rightarrow> json \<Rightarrow> unit act" where
  "notifyWatchers e sid ty title data =
     andThen (reads (\<lambda>w. map w_userId (filter (\<lambda>x. w_shipmentId x = sid) (watchers (db w))))) (\<lambda>uids.
     withMail (\<lambda>mb. ((), notifyWatchersMail (now e) uids ty title data mb)))"

definition sendTestNotification :: "env \<Rightarrow> uuid \<Rightarrow> uuid option act" where
  "sendTestNotification e uid =
     andThen (reads (\<lambda>w. find (\<lambda>u. u_id u = uid) (users (db w)))) (\<lambda>found.
     case found of
       None \<Rightarrow> ret None
     | Some u \<Rightarrow> notifyUser e (stellarAddress u) N_SYSTEM_ALERT ''Test Notification'' (JObj []))"

section \<open>Unsubscribe tokens\<close>

record unsubscribePayload =
  up_userId :: uuid
  up_type :: "notificationType option"
  up_exp :: time

text \<open>
  \<open>encode\<close> is base64url of the JSON text, \<open>mac\<close> the keyed SHA-256 in base64url; \<open>up_type = None\<close>
  stands for the type \<open>ALL\<close>.
\<close>

definition generateUnsubscribeToken :: "(unsubscribePayload \<Rightarrow> string) \<Rightarrow> (string \<Rightarrow> string) \<Rightarrow> time
    \<Rightarrow> uuid \<Rightarrow> notificationType option \<Rightarrow> string" where
  "generateUnsubscribeToken encode mac t uid ty =
     (let data = encode \<lparr>up_userId = uid, up_type = ty, up_exp = t + 30 * 24 * 60 * 60 * 1000\<rparr>
      in data @ ''.'' @ mac data)"

definition verifyUnsubscribeToken :: "(string \<Rightarrow> unsubscribePayload option) \<Rightarrow> (string \<Rightarrow> string) \<Rightarrow> time
    \<Rightarrow> string \<Rightarrow> (uuid \<times> notificationType option) result" where
  "verifyUnsubscribeToken decode mac t token =
     (if token = [] then Inl BadRequestException else
      case splitOn (CHR ''.'') token of
        [data, sig] \<Rightarrow>
          if length sig \<noteq> length (mac data) \<or> sig \<noteq> mac data then Inl BadRequestException else
          (case decode data of
             None \<Rightarrow> Inl BadRequestException
           | Some p \<Rightarrow> if up_exp p = 0 then Inl BadRequestException
                        else if t > up_exp p then Inl BadRequestException
                        else Inr (up_userId p, up_type p))
      | _ \<Rightarrow> Inl BadRequestException)"

definition emailOff :: "channelPrefs option \<Rightarrow> channelPrefs" where
  "emailOff raw = (let ch = normalizeChannelPrefs raw in
     \<lparr>inApp = Some (ch_inApp ch), emailPref = Some False, slackPref = Some (ch_slack ch),
      smsPref = Some (ch_sms ch), discordPref = Some (ch_discord ch), pushPref = Some (ch_push ch)\<rparr>)"

definition setType :: "notificationType \<Rightarrow> (notificationType \<times> channelPrefs) list
    \<Rightarrow> (notificationType \<times> channelPrefs) list" where
  "setType ty ps = (ty, emailOff (map_of ps ty)) # filter (\<lambda>p. fst p \<noteq> ty) ps"

definition unsubscribe :: "(string \<Rightarrow> unsubscribePayload option) \<Rightarrow> (string \<Rightarrow> string) \<Rightarrow> env \<Rightarrow> string \<Rightarrow> unit act" where
  "unsubscribe decode mac e token =
     (case verifyUnsubscribeToken decode mac (now e) token of
        Inl x \<Rightarrow> throw x
      | Inr (uid, ty) \<Rightarrow>
          andThen (reads (\<lambda>w. find (\<lambda>u. u_id u = uid) (users (db w)))) (\<lambda>found.
          requireSome found NotFoundException (\<lambda>_.
          andThen (withMail (getOrCreatePreferenceRecord (now e) uid)) (\<lambda>pref.
          withMail (\<lambda>mb. ((), updatePreferenceRow uid (\<lambda>p. p\<lparr>np_types :=
             (case ty of None \<Rightarrow> fold setType notificationTypes (np_types pref)
              | Some t \<Rightarrow> setType t (np_types pref))\<rparr>) mb))))))"

section \<open>The service as a side channel\<close>

text \<open>What a notification leaves alone: everything but the mailbox.\<close>

abbreviation business :: "world \<Rightarrow> db \<times> auditEntry list \<times> metric list \<times> keyspace" where
  "business w \<equiv> (db w, audit w, metrics w, redis w)"

definition notifyMail :: "env \<Rightarrow> address \<Rightarrow> notificationType \<Rightarrow> string \<Rightarrow> json \<Rightarrow> world \<Rightarrow> uuid option \<times> mailbox" where
  "notifyMail e addr ty title data w = (case findUser addr w of
      None \<Rightarrow> (None, mail w) | Some u \<Rightarrow> deliver e u ty title data (mail w))"

definition watchersMail :: "env \<Rightarrow> string \<Rightarrow> notificationType \<Rightarrow> string \<Rightarrow> json \<Rightarrow> world \<Rightarrow> mailbox" where
  "watchersMail e sid ty title data w = notifyWatchersMail (now e)
     (map w_userId (filter (\<lambda>x. w_shipmentId x = sid) (watchers (db w)))) ty title data (mail w)"

lemma run_withMail [simp]: "withMail f w = (Inr (fst (f (mail w))), w\<lparr>mail := snd (f (mail w))\<rparr>)"
  by (simp add: withMail_def split: prod.splits)

lemma run_notifyUser [simp]:
  "notifyUser e addr ty title data w =
    (Inr (fst (notifyMail e addr ty title data w)), w\<lparr>mail := snd (notifyMail e addr ty title data w)\<rparr>)"
  by (simp add: notifyUser_def notifyMail_def split: option.splits)

lemma run_notifyWatchers [simp]:
  "notifyWatchers e sid ty title data w = (Inr (), w\<lparr>mail := watchersMail e sid ty title data w\<rparr>)"
  by (simp add: notifyWatchers_def watchersMail_def)

interpretation notifier: side_channel
  "\<lambda>(addr, ty, title, data). notifyUser e addr ty title data" business
  by unfold_locales auto

interpretation watcherNotifier: side_channel
  "\<lambda>(sid, ty, title, data). notifyWatchers e sid ty title data" business
  by unfold_locales auto

interpretation mentionNotifier: side_channel
  "\<lambda>(addr, ty, title, kvs). notifyUserWithForcedEmail e addr ty title kvs" business
  by unfold_locales (auto simp: notifyUserWithForcedEmail_def split: option.splits)

lemma total_notifyUser [total_intros]: "neverFails (notifyUser e addr ty title data)"
  by (simp add: neverFails_def)

lemma total_notifyWatchers [total_intros]: "neverFails (notifyWatchers e sid ty title data)"
  by (simp add: neverFails_def)

section \<open>Channel rules\<close>

definition mailsTo :: "mailbox \<Rightarrow> outgoing list" where
  "mailsTo mb = filter (\<lambda>m. case m of Mail _ _ _ \<Rightarrow> True | _ \<Rightarrow> False) (outbox mb)"

definition smsSent :: "mailbox \<Rightarrow> outgoing list" where
  "smsSent mb = filter (\<lambda>m. case m of Sms _ _ \<Rightarrow> True | _ \<Rightarrow> False) (outbox mb)"

lemma outbox_send [simp]: "outbox (send m mb) = outbox mb @ [m]"
  by (simp add: send_def)

lemma outbox_updatePreferenceRow [simp]: "outbox (updatePreferenceRow uid f mb) = outbox mb"
  by (simp add: updatePreferenceRow_def)

lemma outbox_markEmailSent [simp]: "outbox (markEmailSent nid mb) = outbox mb"
  by (simp add: markEmailSent_def)

lemma preferences_send [simp]: "preferences (send m mb) = preferences mb"
  by (simp add: send_def)

lemma preferences_updatePreferenceRow [simp]:
  "preferences (updatePreferenceRow uid f mb) = updateWhere (\<lambda>p. np_userId p = uid) f (preferences mb)"
  by (simp add: updatePreferenceRow_def)

lemma getOrCreate_known:
  "find (\<lambda>p. np_userId p = uid) (preferences mb) = Some p \<Longrightarrow>
    getOrCreatePreferenceRecord t uid mb = (p, mb)"
  by (simp add: getOrCreatePreferenceRecord_def)

lemma getOrCreate_finds:
  "getOrCreatePreferenceRecord t uid mb = (p, mb') \<Longrightarrow>
    find (\<lambda>p. np_userId p = uid) (preferences mb') = Some p \<and> outbox mb' = outbox mb"
  by (auto simp: getOrCreatePreferenceRecord_def Let_def find_append split: option.splits)

lemma outbox_createNotification:
  "createNotification t uid ty title data after mb = (nid, mb') \<Longrightarrow> outbox mb' = outbox mb"
  by (auto simp: createNotification_def)

lemma mails_sendSms [simp]: "mailsTo (sendSmsNotification prov t uid phone ty mb) = mailsTo mb"
  by (auto simp: sendSmsNotification_def mailsTo_def Let_def split: option.splits)

lemma deliver_without_email:
  assumes "getOrCreatePreferenceRecord (now e) (u_id u) mb = (pref, mb1)"
    and "\<not> ch_email (normalizeChannelPrefs (map_of (np_types pref) ty))"
  shows "mailsTo (snd (deliver e u ty title data mb)) = mailsTo mb"
proof -
  have ob: "mailsTo mb1 = mailsTo mb"
    using getOrCreate_finds [OF assms(1)] by (simp add: mailsTo_def)
  have keep: "mailsTo (send x m) = mailsTo m" if "\<And>a b c. x \<noteq> Mail a b c" for x m
    using that by (cases x) (auto simp: mailsTo_def)
  obtain nid mb2 where c: "createNotification (now e) (u_id u) ty title data
      (if urgentAlert ty data then None else getQuietHoursEnd (tzOffset e) (now e) (np_quietHours pref)) mb1
      = (nid, mb2)" by fastforce
  then have "mailsTo mb2 = mailsTo mb1"
    by (simp add: mailsTo_def outbox_createNotification)
  with ob show ?thesis
    by (simp add: deliver_def assms c Let_def keep)
qed

lemma normalize_emailOff [simp]: "\<not> ch_email (normalizeChannelPrefs (Some (emailOff raw)))"
  by (simp add: emailOff_def normalizeChannelPrefs_def orElse_def Let_def)

lemma map_of_setType: "map_of (setType ty ps) t = (if t = ty then Some (emailOff (map_of ps ty)) else map_of ps t)"
  by (induction ps) (auto simp: setType_def)

lemma map_of_fold_setType:
  "t \<in> set ts \<or> (\<exists>raw. map_of ps t = Some (emailOff raw)) \<Longrightarrow>
    \<exists>raw. map_of (fold setType ts ps) t = Some (emailOff raw)"
proof (induction ts arbitrary: ps)
  case Nil
  then show ?case by simp
next
  case (Cons a ts)
  from Cons.prems have "t \<in> set ts \<or> (\<exists>raw. map_of (setType a ps) t = Some (emailOff raw))"
    by (auto simp: map_of_setType)
  then show ?case by (simp add: Cons.IH)
qed

section \<open>Properties\<close>

text \<open>A notification never makes its caller fail and never touches the database, the audit log,
  the metrics or the cache: \<open>notifyUser\<close>, \<open>notifyWatchers\<close> and \<open>notifyUserWithForcedEmail\<close> all
  return normally from every state, and only the mailbox may differ afterwards.\<close>

lemma notifications_never_interfere:
  "(\<exists>v w'. notifyUser e addr ty title data w = (Inr v, w') \<and> business w' = business w) \<and>
   (\<exists>v w'. notifyWatchers e sid ty title data w = (Inr v, w') \<and> business w' = business w) \<and>
   (\<exists>v w'. notifyUserWithForcedEmail e addr ty title kvs w = (Inr v, w') \<and> business w' = business w)"
  using notifier.sent [of e "(addr, ty, title, data)" w]
    watcherNotifier.sent [of e "(sid, ty, title, data)" w]
    mentionNotifier.sent [of e "(addr, ty, title, kvs)" w]
  by simp

lemma sms_step:
  assumes "find (\<lambda>p. np_userId p = uid) (preferences mb) = Some p"
    and "smsSentCount p \<le> SMS_RATE_LIMIT"
    and "t \<le> smsWindowStart p + 24 * 60 * 60 * 1000"
  obtains p' where
    "find (\<lambda>p. np_userId p = uid) (preferences (sendSmsNotification prov t uid phone ty mb)) = Some p'"
    and "smsWindowStart p' = smsWindowStart p" and "smsSentCount p' \<le> SMS_RATE_LIMIT"
    and "int (length (smsSent (sendSmsNotification prov t uid phone ty mb))) - smsSentCount p' =
      int (length (smsSent mb)) - smsSentCount p"
proof -
  from assms(3) have fresh: "\<not> smsWindowStart p < t - 24 * 60 * 60 * 1000" by simp
  let ?mb' = "sendSmsNotification prov t uid phone ty mb"
  show thesis
  proof (cases "\<exists>accepts. prov = Some accepts \<and> smsSentCount p < SMS_RATE_LIMIT \<and> accepts phone")
    case True
    then have "?mb' = updatePreferenceRow uid (\<lambda>q. q\<lparr>smsSentCount := smsSentCount p + 1\<rparr>) (send (Sms phone ty) mb)"
      using assms(1) fresh by (auto simp: sendSmsNotification_def Let_def)
    moreover have "np_userId p = uid" using find_Some_prop [OF assms(1)] by simp
    ultimately show thesis
      using that [of "p\<lparr>smsSentCount := smsSentCount p + 1\<rparr>"] assms(1) True
      by (auto simp: find_updateWhere smsSent_def)
  next
    case False
    then have "?mb' = mb"
      using assms(1) fresh by (auto simp: sendSmsNotification_def Let_def split: option.splits)
    with that [of p] assms(1,2) show thesis by simp
  qed
qed

text \<open>The SMS rate limit. From a preference row whose counter is within the limit, any sequence of
  SMS deliveries for that user inside the row's 24 hour window sends at most as many messages as
  the limit of 10 leaves.\<close>

lemma sms_rate_limit:
  assumes "find (\<lambda>p. np_userId p = uid) (preferences mb) = Some p"
    and "smsSentCount p \<le> SMS_RATE_LIMIT"
    and "\<forall>(t, phone, ty) \<in> set calls. t \<le> smsWindowStart p + 24 * 60 * 60 * 1000"
  shows "int (length (smsSent (fold (\<lambda>(t, phone, ty). sendSmsNotification prov t uid phone ty) calls mb)))
    \<le> int (length (smsSent mb)) + (SMS_RATE_LIMIT - smsSentCount p)"
  using assms
proof (induction calls arbitrary: mb p)
  case Nil
  then show ?case by simp
next
  case (Cons c calls)
  obtain t phone ty where c: "c = (t, phone, ty)" by (cases c)
  let ?mb1 = "sendSmsNotification prov t uid phone ty mb"
  from Cons.prems c obtain p' where p': "find (\<lambda>p. np_userId p = uid) (preferences ?mb1) = Some p'"
    and ws: "smsWindowStart p' = smsWindowStart p" and le: "smsSentCount p' \<le> SMS_RATE_LIMIT"
    and diff: "int (length (smsSent ?mb1)) - smsSentCount p' = int (length (smsSent mb)) - smsSentCount p"
    using sms_step [of uid mb p t prov phone ty] by auto
  from Cons.IH [OF p' le] Cons.prems(3) ws diff c show ?case by auto
qed

theorem sms_rate_limit_witness:
  "let p = \<lparr>np_userId = 1, np_types = [], np_quietHours = None, np_digest = None, slackWebhookUrl = None,
             discordWebhookUrl = None, smsSentCount = 9, smsWindowStart = 0\<rparr>;
       mb = \<lparr>notifications = [], preferences = [p], suppressions = [], outbox = [], nextNotification = 0\<rparr>
   in int (length (smsSent (fold (\<lambda>(t, phone, ty). sendSmsNotification (Some (\<lambda>_. True)) t 1 phone ty)
        [(5, ''1'', N_DISPUTE_RAISED), (6, ''1'', N_DISPUTE_RAISED)] mb))) \<le> 1"
proof -
  define p where "p = \<lparr>np_userId = (1::nat), np_types = [], np_quietHours = None, np_digest = None, slackWebhookUrl = None,
             discordWebhookUrl = None, smsSentCount = 9, smsWindowStart = 0\<rparr>"
  show ?thesis
    using sms_rate_limit [of 1 "\<lparr>notifications = [], preferences = [p], suppressions = [], outbox = [],
        nextNotification = 0\<rparr>" p "[(5, ''1'', N_DISPUTE_RAISED), (6, ''1'', N_DISPUTE_RAISED)]" "Some (\<lambda>_. True)"]
    by (simp add: p_def Let_def SMS_RATE_LIMIT_def smsSent_def)
qed

lemma adjustZone_fixed:
  assumes "(off::int) mod 60000 = 0" and "wall mod 60000 = 0"
  shows "adjustZone (\<lambda>_. off) wall (adjustZone (\<lambda>_. off) wall wall) = wall - off"
proof -
  have "(wall + off) div 60000 * 60000 = wall + off"
    using assms by (auto simp: dvd_div_mult_self mod_eq_0_iff_dvd intro!: dvd_div_mult_self)
  moreover have "wall div 60000 * 60000 = wall"
    using assms by (simp add: mod_eq_0_iff_dvd)
  ultimately show ?thesis by (simp add: adjustZone_def)
qed

lemma hhmm_bounds: "hhmm s = Some m \<Longrightarrow> 0 \<le> m \<and> m < 1440"
  by (auto simp: hhmm_def digitVal_def Let_def split: list.splits option.splits if_splits)

text \<open>Deferral by quiet hours. In a zone with a fixed offset of whole minutes and with a quiet
  period that does not span the whole day, a deferred notification becomes deliverable at the
  next end of the quiet period: strictly after now, at most one day later, and when the zone's
  wall clock shows exactly the configured end.\<close>

lemma quiet_hours_end_is_next:
  assumes "qh_enabled q" and s: "hhmm (qh_start q) = Some s" and e: "hhmm (qh_end q) = Some e"
    and "s \<noteq> e" and off: "off mod 60000 = 0"
    and ret: "getQuietHoursEnd (\<lambda>_ _. off) t (Some q) = Some u"
  shows "t < u \<and> u \<le> t + 86400000 \<and> minuteOfDay (u + off) = e \<and> (u + off) mod 60000 = 0"
proof -
  define l where "l = t + off"
  define D where "D = l div 86400000"
  define r where "r = l mod 86400000"
  define n where "n = r div 60000"
  define plus where "plus = (s > e \<and> n \<ge> s)"
  have l: "l = D * 86400000 + r" by (simp add: D_def r_def)
  have r: "0 \<le> r" "r < 86400000" by (simp_all add: r_def)
  have "l div 60000 = D * 1440 + r div 60000" using l by simp
  then have mn: "minuteOfDay l = n"
    using r by (simp add: minuteOfDay_def n_def)
  have nr: "n * 60000 \<le> r" "r < (n + 1) * 60000" by (simp_all add: n_def)
  have eb: "0 \<le> e" "e < 1440" using hhmm_bounds [OF e] by auto
  have act: "quietActive s e n"
    using ret assms(1) s e by (auto simp: getQuietHoursEnd_def Let_def mn [unfolded l_def] split: if_splits)
  let ?wall = "(D + (if plus then 1 else 0)) * 86400000 + e * 60000"
  have "u = adjustZone (\<lambda>_. off) ?wall (adjustZone (\<lambda>_. off) ?wall ?wall)"
    using ret assms(1) s e act
    by (auto simp: getQuietHoursEnd_def Let_def mn [unfolded l_def] D_def l_def plus_def split: if_splits)
  moreover have "?wall mod 60000 = 0"
    by (simp add: mod_eq_0_iff_dvd dvd_add dvd_mult)
  ultimately have u: "u + off = ?wall" using adjustZone_fixed [OF off] by simp
  have "t < u \<and> u \<le> t + 86400000"
    using u l l_def r nr act \<open>s \<noteq> e\<close> eb by (auto simp: quietActive_def plus_def split: if_splits)
  moreover have "minuteOfDay ?wall = e"
  proof -
    have "?wall div 60000 = (D + (if plus then 1 else 0)) * 1440 + e" by simp
    then show ?thesis using eb by (simp add: minuteOfDay_def del: distrib_right_numeral)
  qed
  ultimately show ?thesis using u by (simp add: mod_eq_0_iff_dvd dvd_add dvd_mult)
qed

lemma quiet_hours_end_is_next_witness:
  "getQuietHoursEnd (\<lambda>_ _. 3600000) 82800000
     (Some \<lparr>qh_enabled = True, qh_start = ''22:00'', qh_end = ''07:30'', qh_timezone = ''CET''\<rparr>) = Some 109800000 \<and>
   (82800000::int) < 109800000 \<and> 109800000 \<le> (82800000::int) + 86400000"
proof -
  let ?q = "\<lparr>qh_enabled = True, qh_start = ''22:00'', qh_end = ''07:30'', qh_timezone = ''CET''\<rparr>"
  have g: "getQuietHoursEnd (\<lambda>_ _. 3600000) 82800000 (Some ?q) = Some 109800000"
    by code_simp
  have s: "hhmm (qh_start ?q) = Some 1320" by code_simp
  have e: "hhmm (qh_end ?q) = Some 450" by code_simp
  show ?thesis using quiet_hours_end_is_next [OF _ s e _ _ g] g by simp
qed

text \<open>round trip of unsubscribe tokens. A token made for a user and a type verifies to exactly that
  user and type during its 30 days, and is refused afterwards; the assumptions say that decoding
  inverts encoding and that neither part of a token contains a dot (the base64url alphabet).\<close>

theorem unsubscribe_token_roundtrip:
  assumes dec: "decode (encode \<lparr>up_userId = uid, up_type = ty, up_exp = t0 + 30 * 24 * 60 * 60 * 1000\<rparr>) =
      Some \<lparr>up_userId = uid, up_type = ty, up_exp = t0 + 30 * 24 * 60 * 60 * 1000\<rparr>"
    and nodot: "\<And>p. CHR ''.'' \<notin> set (encode p)" "\<And>d. CHR ''.'' \<notin> set (mac d)"
    and "0 \<le> t0"
  shows "verifyUnsubscribeToken decode mac t (generateUnsubscribeToken encode mac t0 uid ty) =
    (if t \<le> t0 + 30 * 24 * 60 * 60 * 1000 then Inr (uid, ty) else Inl BadRequestException)"
  using assms by (simp add: verifyUnsubscribeToken_def generateUnsubscribeToken_def Let_def splitOn_two)

theorem unsubscribe_token_roundtrip_witness:
  "let decode = (\<lambda>d. Some \<lparr>up_userId = 7, up_type = None, up_exp = 2592000005\<rparr>);
       token = generateUnsubscribeToken (\<lambda>_. ''eyJ'') (\<lambda>_. ''c2ln'') 5 7 None
   in verifyUnsubscribeToken decode (\<lambda>_. ''c2ln'') 2592000005 token = Inr (7, None) \<and>
      verifyUnsubscribeToken decode (\<lambda>_. ''c2ln'') 2592000006 token = Inl BadRequestException"
  using unsubscribe_token_roundtrip [of "\<lambda>d. Some \<lparr>up_userId = 7, up_type = None, up_exp = 2592000005\<rparr>"
      "\<lambda>_. ''eyJ''" 7 None 5 "\<lambda>_. ''c2ln''"]
  by (simp add: Let_def)

text \<open>Unsubscribing works. After \<open>unsubscribe\<close> succeeds with a token for a type (or for all types),
  no later notification of that type causes an email to that user, whatever else the user's
  preferences say.\<close>

theorem unsubscribe_stops_email:
  assumes tok: "verifyUnsubscribeToken decode mac (now e) token = Inr (u_id u, target)"
    and cov: "target = None \<or> target = Some ty"
    and run: "unsubscribe decode mac e token w = (Inr (), w')"
  shows "mailsTo (snd (deliver e' u ty title data (mail w'))) = mailsTo (mail w')"
proof -
  obtain pref mb1 where g: "getOrCreatePreferenceRecord (now e) (u_id u) (mail w) = (pref, mb1)"
    by fastforce
  note found = getOrCreate_finds [OF g]
  define ps where "ps = (case target of None \<Rightarrow> fold setType notificationTypes (np_types pref)
      | Some t \<Rightarrow> setType t (np_types pref))"
  have "mail w' = updatePreferenceRow (u_id u) (\<lambda>p. p\<lparr>np_types := ps\<rparr>) mb1"
    using run tok by (auto simp: unsubscribe_def success_iffs ps_def g)
  moreover have "np_userId pref = u_id u" using find_Some_prop found by fast
  ultimately have "find (\<lambda>p. np_userId p = u_id u) (preferences (mail w')) = Some (pref\<lparr>np_types := ps\<rparr>)"
    using found by (simp add: find_updateWhere)
  then have "getOrCreatePreferenceRecord (now e') (u_id u) (mail w') = (pref\<lparr>np_types := ps\<rparr>, mail w')"
    by (rule getOrCreate_known)
  moreover have "\<exists>raw. map_of ps ty = Some (emailOff raw)"
    using cov map_of_fold_setType [of ty notificationTypes] notificationTypes_complete
    by (auto simp: ps_def map_of_setType)
  ultimately show ?thesis by (intro deliver_without_email) auto
qed

theorem unsubscribe_stops_email_witness:
  "let decode = (\<lambda>d. Some \<lparr>up_userId = 7, up_type = None, up_exp = 2000\<rparr>);
       w = emptyWorld\<lparr>db := emptyDb\<lparr>users := [user0 7 ''G'']\<rparr>\<rparr>;
       r = unsubscribe decode (\<lambda>_. ''c'') env0 ''e.c'' w
   in fst r = Inr () \<and>
      mailsTo (snd (deliver env0 (user0 7 ''G'') N_PROOF_SUBMITTED ''t'' JNull (mail (snd r)))) =
      mailsTo (mail (snd r))"
proof -
  let ?dec = "\<lambda>d::string. Some \<lparr>up_userId = 7, up_type = None, up_exp = 2000\<rparr>"
  let ?w = "emptyWorld\<lparr>db := emptyDb\<lparr>users := [user0 7 ''G'']\<rparr>\<rparr>"
  have v: "verifyUnsubscribeToken ?dec (\<lambda>_. ''c'') (now env0) ''e.c'' = Inr (u_id (user0 7 ''G''), None)"
    by (simp add: verifyUnsubscribeToken_def concrete_defs)
  then have f: "unsubscribe ?dec (\<lambda>_. ''c'') env0 ''e.c'' ?w =
      (Inr (), snd (unsubscribe ?dec (\<lambda>_. ''c'') env0 ''e.c'' ?w))"
    by (simp add: unsubscribe_def concrete_defs)
  show ?thesis
    using unsubscribe_stops_email [OF v _ f, of N_PROOF_SUBMITTED env0 "''t''" JNull] f
    by (simp add: Let_def) (metis fst_conv)
qed

end
