(* ===== verification/Approvals.thy ===== *)
theory Approvals
  imports Notifications
begin

text \<open>
  \<open>ShipmentApprovalsService\<close> (\<open>src/src/modules/shipments/shipment-approvals.service.ts\<close>): the
  multi-signature gate of high-value shipments. The interface \<open>quorum_gate\<close> states what the
  confirmation endpoints rely on; the model of the service is its instance.
\<close>

section \<open>The service\<close>

definition meetsThreshold :: "env \<Rightarrow> int \<Rightarrow> bool" where
  "meetsThreshold e amount \<longleftrightarrow> amount \<ge> multisigThreshold e"

definition resolveRequiredApprovals :: "env \<Rightarrow> int option \<Rightarrow> int \<Rightarrow> int option result" where
  "resolveRequiredApprovals e req amount = (case req of
      None \<Rightarrow> Inr None
    | Some n \<Rightarrow>
        if \<not> meetsThreshold e amount then Inl BadRequestException
        else if n < 1 then Inl BadRequestException
        else Inr (Some n))"

definition participants :: "shipment \<Rightarrow> address list" where
  "participants s = [buyerAddress s, supplierAddress s, logisticsAddress s, arbiterAddress s]"

definition listApprovals :: "string \<Rightarrow> world \<Rightarrow> approval list" where
  "listApprovals sid w = sort_key ap_createdAt (filter (\<lambda>a. ap_shipmentId a = sid) (approvals (db w)))"

definition countApprovals :: "string \<Rightarrow> world \<Rightarrow> int" where
  "countApprovals sid w = int (length (filter (\<lambda>a. ap_shipmentId a = sid) (approvals (db w))))"

record approveReply =
  approvalCount :: int
  ar_requiredApprovals :: int
  quorumMet :: bool

definition approve :: "env \<Rightarrow> string \<Rightarrow> address \<Rightarrow> string option \<Rightarrow> approveReply act" where
  "approve e sid addr note =
     andThen (reads (findShipment sid)) (\<lambda>found.
     requireSome found NotFoundException (\<lambda>s.
     require (addr \<in> set (participants s)) ForbiddenException (
     requireSome (requiredApprovals s) BadRequestException (\<lambda>n.
     andThen (reads (\<lambda>w. find (\<lambda>a. ap_shipmentId a = sid \<and> approverAddress a = addr) (approvals (db w)))) (\<lambda>existing.
     require (existing = None) ConflictException (
     andThen (modifyDb (\<lambda>d. d\<lparr>approvals := approvals d @ [\<lparr>ap_shipmentId = sid, approverAddress = addr,
        ap_note = note, ap_createdAt = now e\<rparr>]\<rparr>)) (\<lambda>_.
     andThen (reads (countApprovals sid)) (\<lambda>c.
     ret \<lparr>approvalCount = c, ar_requiredApprovals = n, quorumMet = (c \<ge> n)\<rparr>))))))))"

record approvalStatus =
  as_required :: "int option"
  as_count :: int
  as_quorumMet :: bool
  as_approvals :: "approval list"

definition getApprovalStatus :: "string \<Rightarrow> int option \<Rightarrow> world \<Rightarrow> approvalStatus" where
  "getApprovalStatus sid req w = (case req of
      None \<Rightarrow> \<lparr>as_required = None, as_count = 0, as_quorumMet = True, as_approvals = []\<rparr>
    | Some n \<Rightarrow> let as = listApprovals sid w in
        \<lparr>as_required = Some n, as_count = int (length as), as_quorumMet = (int (length as) \<ge> n),
         as_approvals = as\<rparr>)"

definition hasQuorum :: "string \<Rightarrow> world \<Rightarrow> bool" where
  "hasQuorum sid w = (case findShipment sid w of
      None \<Rightarrow> True
    | Some s \<Rightarrow> (case requiredApprovals s of None \<Rightarrow> True | Some n \<Rightarrow> countApprovals sid w \<ge> n))"

definition assertQuorum :: "string \<Rightarrow> unit act" where
  "assertQuorum sid =
     andThen (reads (findShipment sid)) (\<lambda>found.
     case found of
       None \<Rightarrow> ret ()
     | Some s \<Rightarrow>
         (case requiredApprovals s of
            None \<Rightarrow> ret ()
          | Some n \<Rightarrow>
              andThen (reads (countApprovals sid)) (\<lambda>c.
              require (\<not> c < n) ForbiddenException (ret ()))))"

section \<open>The gate as an interface\<close>

text \<open>
  A gate in front of confirmations: it only looks, it lets pass exactly the shipments whose
  quorum is met, and otherwise it forbids.
\<close>

locale quorum_gate =
  fixes gate :: "string \<Rightarrow> ('w, unit) action"
    and met :: "string \<Rightarrow> 'w \<Rightarrow> bool"
  assumes gate_pass: "met sid w \<Longrightarrow> gate sid w = (Inr (), w)"
    and gate_block: "\<not> met sid w \<Longrightarrow> gate sid w = (Inl ForbiddenException, w)"
begin

lemma gated: "andThen (gate sid) k w = (if met sid w then k () w else (Inl ForbiddenException, w))"
  using gate_pass gate_block by simp

lemma gated_success: "andThen (gate sid) k w = (Inr y, w') \<Longrightarrow> met sid w \<and> k () w = (Inr y, w')"
  by (simp add: gated split: if_splits)

lemma gated_blocked: "\<not> met sid w \<Longrightarrow> andThen (gate sid) k w = (Inl ForbiddenException, w)"
  by (simp add: gated)

end

interpretation approvalGate: quorum_gate assertQuorum hasQuorum
  by unfold_locales (auto simp: assertQuorum_def hasQuorum_def split: option.splits)

section \<open>Sign-offs\<close>

abbreviation approvers :: "string \<Rightarrow> world \<Rightarrow> address list" where
  "approvers sid w \<equiv> map approverAddress (filter (\<lambda>a. ap_shipmentId a = sid) (approvals (db w)))"

lemma countApprovals_approvers: "countApprovals sid w = int (length (approvers sid w))"
  by (simp add: countApprovals_def)

lemma approve_outcome:
  assumes s: "findShipment sid w = Some s" and n: "requiredApprovals s = Some n"
  shows "approve e sid addr note w =
    (if addr \<notin> set (participants s) then (Inl ForbiddenException, w)
     else if addr \<in> set (approvers sid w) then (Inl ConflictException, w)
     else (Inr \<lparr>approvalCount = countApprovals sid w + 1, ar_requiredApprovals = n,
              quorumMet = (countApprovals sid w + 1 \<ge> n)\<rparr>,
       w\<lparr>db := (db w)\<lparr>approvals := approvals (db w) @ [\<lparr>ap_shipmentId = sid, approverAddress = addr,
          ap_note = note, ap_createdAt = now e\<rparr>]\<rparr>\<rparr>))"
proof -
  have "(find (\<lambda>a. ap_shipmentId a = sid \<and> approverAddress a = addr) (approvals (db w)) = None)
      \<longleftrightarrow> addr \<notin> set (approvers sid w)"
    by (auto simp: find_None_iff_ball)
  then show ?thesis
    using s n by (simp add: approve_def countApprovals_def add.commute)
qed

definition signOffInv :: "string \<Rightarrow> shipment \<Rightarrow> world \<Rightarrow> bool" where
  "signOffInv sid s w \<longleftrightarrow> findShipment sid w = Some s \<and> distinct (approvers sid w) \<and>
     set (approvers sid w) \<subseteq> set (participants s)"

lemma approve_keeps_signOffInv:
  assumes "requiredApprovals s = Some n"
  shows "keeps (signOffInv sid s) (approve e sid addr note)"
proof
  fix w assume inv: "signOffInv sid s w"
  then have "findShipment sid w = Some s" by (simp add: signOffInv_def)
  note out = approve_outcome [OF this assms]
  let ?w' = "snd (approve e sid addr note w)"
  have "findShipment sid ?w' = findShipment sid w" by (simp add: out findShipment_def)
  moreover have "?w' = w \<or> addr \<in> set (participants s) \<and> addr \<notin> set (approvers sid w) \<and>
      approvers sid ?w' = approvers sid w @ [addr]"
    by (simp add: out)
  ultimately show "signOffInv sid s ?w'"
    using inv unfolding signOffInv_def by (elim disjE conjE) (simp_all only: distinct_append set_append, auto)
qed

lemma card_participants: "card (set (participants s)) \<le> 4"
proof -
  have "card (set (participants s)) \<le> length (participants s)" by (rule card_length)
  then show ?thesis by (simp add: participants_def)
qed

lemma signOffInv_count: "signOffInv sid s w \<Longrightarrow> countApprovals sid w \<le> int (card (set (participants s)))"
  unfolding signOffInv_def countApprovals_approvers
  by (metis card_mono distinct_card finite_set of_nat_mono)

text \<open>A sequence of approval calls, each with its own environment, caller and note.\<close>

definition approveCalls :: "string \<Rightarrow> (env \<times> address \<times> string option) list \<Rightarrow> world \<Rightarrow> world" where
  "approveCalls sid calls w = fold (\<lambda>(e, addr, note) w. snd (approve e sid addr note w)) calls w"

lemma signOffInv_calls:
  assumes "requiredApprovals s = Some n" and "signOffInv sid s w"
  shows "signOffInv sid s (approveCalls sid calls w)"
  using assms(2) unfolding approveCalls_def
  by (induction calls arbitrary: w) (auto intro: keepsD [OF approve_keeps_signOffInv [OF assms(1)]])

section \<open>Properties\<close>

text \<open>One signature per party. From a shipment without approvals, after any sequence of approval
  calls by anybody the recorded approvers are distinct participants of the shipment, so the
  count that the gate compares never exceeds the number of different participants.\<close>

lemma approvals_are_distinct_participants:
  assumes "findShipment sid w = Some s" and "requiredApprovals s = Some n" and "approvers sid w = []"
  shows "distinct (approvers sid (approveCalls sid calls w)) \<and>
    set (approvers sid (approveCalls sid calls w)) \<subseteq> set (participants s) \<and>
    countApprovals sid (approveCalls sid calls w) \<le> int (card (set (participants s)))"
proof -
  have "signOffInv sid s w" using assms(1,3) by (simp add: signOffInv_def)
  from signOffInv_calls [OF assms(2) this] show ?thesis
    using signOffInv_count by (auto simp: signOffInv_def)
qed

lemma approvals_are_distinct_participants_witness:
  "let w = emptyWorld\<lparr>db := emptyDb\<lparr>shipments := [(shipment0 ''S'')\<lparr>requiredApprovals := Some 2\<rparr>]\<rparr>\<rparr>;
       w' = approveCalls ''S''
              [(env0, ''GB'', None), (env0, ''GB'', None), (env0, ''XX'', None), (env0, ''GS'', None)] w
   in distinct (approvers ''S'' w') \<and> countApprovals ''S'' w' \<le> 4"
proof -
  let ?s = "(shipment0 ''S'')\<lparr>requiredApprovals := Some 2\<rparr>"
  let ?w = "emptyWorld\<lparr>db := emptyDb\<lparr>shipments := [?s]\<rparr>\<rparr>"
  have 1: "findShipment ''S'' ?w = Some ?s" by (simp add: findShipment_def concrete_defs)
  have 2: "approvers ''S'' ?w = []" by (simp add: concrete_defs)
  show ?thesis
    using approvals_are_distinct_participants [OF 1 _ 2, of 2 "[(env0, ''GB'', None), (env0, ''GB'', None),
        (env0, ''XX'', None), (env0, ''GS'', None)]"] card_participants [of ?s]
    by (simp add: Let_def)
qed

text \<open>C6: the gate opens exactly when the quorum is reached. When the parties of a list of distinct
  participants sign off one after the other on a shipment without approvals, every call
  succeeds, and afterwards the confirmation gate passes if and only if the list is at least as
  long as the required count.\<close>

theorem quorum_reached_iff_enough_signatures:
  assumes "findShipment sid w = Some s" and "requiredApprovals s = Some n" and "approvers sid w = []"
    and "distinct addrs" and "set addrs \<subseteq> set (participants s)"
  shows "\<exists>w'. forEach addrs (\<lambda>a. ignore (approve e sid a None)) w = (Inr (), w') \<and>
    assertQuorum sid w' = (if int (length addrs) \<ge> n then (Inr (), w') else (Inl ForbiddenException, w'))"
proof -
  have "\<exists>w'. forEach addrs (\<lambda>a. ignore (approve e sid a None)) w = (Inr (), w') \<and>
      findShipment sid w' = Some s \<and> approvers sid w' = approvers sid w @ addrs"
    if "findShipment sid w = Some s" and "set addrs \<inter> set (approvers sid w) = {}"
    using that assms(4,5)
  proof (induction addrs arbitrary: w)
    case Nil
    then show ?case by simp
  next
    case (Cons a addrs)
    let ?w1 = "snd (approve e sid a None w)"
    have run: "fst (approve e sid a None w) \<noteq> Inl x" for x
      using approve_outcome [OF Cons.prems(1) assms(2)] Cons.prems by auto
    have 1: "findShipment sid ?w1 = Some s" "approvers sid ?w1 = approvers sid w @ [a]"
      using approve_outcome [OF Cons.prems(1) assms(2)] Cons.prems by (auto simp: findShipment_def)
    from Cons.IH [OF 1(1)] 1(2) Cons.prems obtain w' where
      "forEach addrs (\<lambda>a. ignore (approve e sid a None)) ?w1 = (Inr (), w')"
      "findShipment sid w' = Some s" "approvers sid w' = approvers sid w @ a # addrs" by auto
    then show ?case using run
      by (cases "approve e sid a None w"; cases "fst (approve e sid a None w)") auto
  qed
  then obtain w' where w': "forEach addrs (\<lambda>a. ignore (approve e sid a None)) w = (Inr (), w')"
    "findShipment sid w' = Some s" "approvers sid w' = addrs"
    using assms(1,3) by auto
  moreover have "countApprovals sid w' = int (length addrs)"
    using w'(3) unfolding countApprovals_approvers by simp
  ultimately have "hasQuorum sid w' \<longleftrightarrow> int (length addrs) \<ge> n"
    using assms(2) by (simp add: hasQuorum_def)
  with w'(1) approvalGate.gate_pass approvalGate.gate_block show ?thesis by (cases "hasQuorum sid w'") auto
qed

theorem quorum_reached_iff_enough_signatures_witness:
  "let w = emptyWorld\<lparr>db := emptyDb\<lparr>shipments := [(shipment0 ''S'')\<lparr>requiredApprovals := Some 2\<rparr>]\<rparr>\<rparr>
   in \<exists>w'. forEach [''GB'', ''GS''] (\<lambda>a. ignore (approve env0 ''S'' a None)) w = (Inr (), w') \<and>
      assertQuorum ''S'' w' = (Inr (), w')"
proof -
  let ?s = "(shipment0 ''S'')\<lparr>requiredApprovals := Some 2\<rparr>"
  let ?w = "emptyWorld\<lparr>db := emptyDb\<lparr>shipments := [?s]\<rparr>\<rparr>"
  have 1: "findShipment ''S'' ?w = Some ?s" by (simp add: findShipment_def concrete_defs)
  have 2: "approvers ''S'' ?w = []" by (simp add: concrete_defs)
  show ?thesis
    using quorum_reached_iff_enough_signatures [OF 1 _ 2, of 2 "[''GB'', ''GS'']" env0]
    by (simp add: Let_def participants_def shipment0_def)
qed

text \<open>A quorum that can never be reached. \<open>resolveRequiredApprovals\<close> accepts any positive count on
  an eligible shipment, but only the four participants can sign, once each: with a requirement
  above four the gate of milestone confirmation stays closed for ever, whatever approvals are
  attempted.\<close>

lemma oversized_quorum_blocks_forever:
  assumes "resolveRequiredApprovals e0 (Some n) amount = Inr (requiredApprovals s)" and "n > 4"
    and "findShipment sid w = Some s" and "approvers sid w = []"
  shows "fst (assertQuorum sid (approveCalls sid calls w)) = Inl ForbiddenException"
proof -
  have n: "requiredApprovals s = Some n"
    using assms(1) by (auto simp: resolveRequiredApprovals_def split: if_splits)
  have "signOffInv sid s w" using assms(3,4) by (simp add: signOffInv_def)
  then have "signOffInv sid s (approveCalls sid calls w)" (is "signOffInv sid s ?w'")
    by (rule signOffInv_calls [OF n])
  then have "\<not> hasQuorum sid ?w'"
    using signOffInv_count [of sid s ?w'] card_participants [of s] n \<open>n > 4\<close>
    by (auto simp: signOffInv_def hasQuorum_def)
  then show ?thesis by (simp add: approvalGate.gate_block)
qed

lemma oversized_quorum_blocks_forever_witness:
  "let s = (shipment0 ''S'')\<lparr>requiredApprovals := Some 5\<rparr>;
       w = emptyWorld\<lparr>db := emptyDb\<lparr>shipments := [s]\<rparr>\<rparr>
   in resolveRequiredApprovals env0 (Some 5) 1000 = Inr (Some 5) \<and>
      fst (assertQuorum ''S'' (approveCalls ''S''
        [(env0, ''GB'', None), (env0, ''GS'', None), (env0, ''GL'', None), (env0, ''GA'', None)] w)) =
      Inl ForbiddenException"
proof -
  let ?s = "(shipment0 ''S'')\<lparr>requiredApprovals := Some 5\<rparr>"
  let ?w = "emptyWorld\<lparr>db := emptyDb\<lparr>shipments := [?s]\<rparr>\<rparr>"
  have 0: "resolveRequiredApprovals env0 (Some 5) 1000 = Inr (requiredApprovals ?s)"
    by (simp add: resolveRequiredApprovals_def meetsThreshold_def env0_def)
  have 1: "findShipment ''S'' ?w = Some ?s" by (simp add: findShipment_def concrete_defs)
  have 2: "approvers ''S'' ?w = []" by (simp add: concrete_defs)
  show ?thesis
    using oversized_quorum_blocks_forever [OF 0 _ 1 2, of "[(env0, ''GB'', None), (env0, ''GS'', None),
        (env0, ''GL'', None), (env0, ''GA'', None)]"] 0
    by (simp add: Let_def)
qed

end
