(* ===== verification/Token_Registry.thy ===== *)
theory Token_Registry
  imports Domain
begin

text \<open>
  \<open>TokenRegistryService\<close> (\<open>src/src/common/token-registry/token-registry.service.ts\<close>), the
  in-memory registry of payment tokens, and the amount conversions of \<open>StellarService\<close>
  (\<open>src/src/common/stellar/stellar.service.ts\<close>). \<open>10 ** decimals\<close> is an exact power of ten: the
  registry admits at most 18 decimals, and powers of ten are exact doubles up to 22.
\<close>

section \<open>Amounts\<close>

text \<open>Division and remainder of \<open>bigint\<close> round towards zero.\<close>

definition bigDiv :: "int \<Rightarrow> int \<Rightarrow> int" where
  "bigDiv a b = (if a < 0 then - ((- a) div b) else a div b)"

definition bigMod :: "int \<Rightarrow> int \<Rightarrow> int" where
  "bigMod a b = a - b * bigDiv a b"

definition padStart :: "nat \<Rightarrow> string \<Rightarrow> string" where
  "padStart n s = replicate (n - length s) CHR ''0'' @ s"

definition padEnd :: "nat \<Rightarrow> string \<Rightarrow> string" where
  "padEnd n s = s @ replicate (n - length s) CHR ''0''"

definition toHumanAmount :: "int \<Rightarrow> nat \<Rightarrow> string" where
  "toHumanAmount amount decimals =
     (let divisor = 10 ^ decimals;
          whole = bigDiv amount divisor;
          fraction = padStart decimals (showInt (bigMod amount divisor))
      in showInt whole @ ''.'' @ fraction)"

text \<open>The result is \<open>None\<close> where \<open>BigInt\<close> throws a \<open>SyntaxError\<close>.\<close>

definition toBaseUnit :: "string \<Rightarrow> nat \<Rightarrow> int option" where
  "toBaseUnit amount decimals =
     (let parts = splitOn (CHR ''.'') amount;
          whole = hd parts;
          fraction = (case tl parts of [] \<Rightarrow> [] | f # _ \<Rightarrow> f);
          paddedFraction = take decimals (padEnd decimals fraction)
      in case (parseBigInt whole, parseBigInt paddedFraction) of
           (Some a, Some b) \<Rightarrow> Some (a * 10 ^ decimals + b)
         | _ \<Rightarrow> None)"

section \<open>The registry\<close>

type_synonym registry = "string \<rightharpoonup> tokenInfo"

definition BUILT_IN_TOKENS :: "(string \<times> tokenInfo) list" where
  "BUILT_IN_TOKENS =
     [(''CBIELTK6YBZJU5UP2WWQEUCYKLPU6AUNZ2BQ4WWFEIE3USCIHMXQDAMA'',
       \<lparr>tk_symbol = ''USDC'', tk_decimals = 7, tk_enabled = Some True, tk_displayName = Some ''USD Coin'',
        tk_minValue = None, tk_maxValue = None\<rparr>),
      (''GB3Q6QDZYTHWT7E5PVS3W7FUT5GVAFC5KSZFFLPU25GO7VTC3NM2ZTVO'',
       \<lparr>tk_symbol = ''EURC'', tk_decimals = 7, tk_enabled = Some True, tk_displayName = Some ''Euro Coin'',
        tk_minValue = None, tk_maxValue = None\<rparr>)]"

text \<open>One entry of \<open>TOKEN_REGISTRY_JSON\<close> or of the file at \<open>TOKEN_REGISTRY_PATH\<close>, once parsed.\<close>

definition loadToken :: "string \<times> tokenInfo \<Rightarrow> registry \<Rightarrow> registry" where
  "loadToken = (\<lambda>(address, token) r. r(toUpperCase address \<mapsto>
     token\<lparr>tk_enabled := Some (case tk_enabled token of Some b \<Rightarrow> b | None \<Rightarrow> True),
           tk_displayName := Some (case tk_displayName token of Some n \<Rightarrow> n | None \<Rightarrow> tk_symbol token)\<rparr>))"

definition loadFromJson :: "(string \<times> tokenInfo) list \<Rightarrow> registry \<Rightarrow> registry" where
  "loadFromJson tokens r = fold loadToken tokens r"

text \<open>The loop over the built-in tokens copies only \<open>symbol\<close> and \<open>decimals\<close>.\<close>

definition initRegistry :: "(string \<times> tokenInfo) list \<Rightarrow> registry" where
  "initRegistry configured = loadFromJson configured
     (fold (\<lambda>(address, token) r. r(address \<mapsto> \<lparr>tk_symbol = tk_symbol token, tk_decimals = tk_decimals token,
        tk_enabled = None, tk_displayName = None, tk_minValue = None, tk_maxValue = None\<rparr>))
        BUILT_IN_TOKENS Map.empty)"

definition getToken :: "registry \<Rightarrow> string \<Rightarrow> tokenInfo" where
  "getToken r contractAddress = (case r (toUpperCase contractAddress) of
      Some t \<Rightarrow> t
    | None \<Rightarrow> \<lparr>tk_symbol = ''UNKNOWN'', tk_decimals = 7, tk_enabled = Some True,
               tk_displayName = Some ''Unknown token'', tk_minValue = None, tk_maxValue = None\<rparr>)"

definition isEnabled :: "registry \<Rightarrow> string \<Rightarrow> bool" where
  "isEnabled r contractAddress = (case r (toUpperCase contractAddress) of
      None \<Rightarrow> True | Some t \<Rightarrow> (case tk_enabled t of None \<Rightarrow> True | Some b \<Rightarrow> b))"

text \<open>The truth value of \<open>token.enabled\<close> as \<open>create\<close> tests it.\<close>

abbreviation enabledFlag :: "tokenInfo \<Rightarrow> bool" where
  "enabledFlag t \<equiv> tk_enabled t = Some True"

definition assertValueWithinBounds :: "registry \<Rightarrow> string \<Rightarrow> int \<Rightarrow> unit result" where
  "assertValueWithinBounds r contractAddress amount = (case r (toUpperCase contractAddress) of
      None \<Rightarrow> Inr ()
    | Some t \<Rightarrow>
        if (case tk_minValue t of None \<Rightarrow> False | Some lo \<Rightarrow> amount < lo) then Inl BadRequestException
        else if (case tk_maxValue t of None \<Rightarrow> False | Some hi \<Rightarrow> amount > hi) then Inl BadRequestException
        else Inr ())"

definition boundsOrdered :: "int option \<Rightarrow> int option \<Rightarrow> bool" where
  "boundsOrdered lo hi = (case (lo, hi) of (Some l, Some h) \<Rightarrow> l \<le> h | _ \<Rightarrow> True)"

record registerTokenDto =
  rt_address :: string
  rt_symbol :: string
  rt_decimals :: nat
  rt_displayName :: "string option"
  rt_minValue :: "int option"
  rt_maxValue :: "int option"

text \<open>
  \<open>registerToken\<close>: \<open>contractExists\<close> is the answer of the RPC. The registry is the state of the
  service; the cached listing \<open>token_registry:list\<close> is dropped from the keyspace.
\<close>

type_synonym registryState = "registry \<times> world"

definition registerToken :: "(string \<Rightarrow> bool result) \<Rightarrow> registerTokenDto
    \<Rightarrow> (registryState, string \<times> tokenInfo) action" where
  "registerToken contractExists dto =
     (let normalized = toUpperCase (rt_address dto) in
      require (boundsOrdered (rt_minValue dto) (rt_maxValue dto)) BadRequestException (
      andThen (reads (\<lambda>(r, w). r normalized)) (\<lambda>known.
      require (known = None) ConflictException (
      case contractExists normalized of
        Inl _ \<Rightarrow> throw BadRequestException
      | Inr ok \<Rightarrow>
          require ok BadRequestException (
          let token = \<lparr>tk_symbol = rt_symbol dto, tk_decimals = rt_decimals dto, tk_enabled = Some True,
                tk_displayName = Some (case rt_displayName dto of Some n \<Rightarrow> n | None \<Rightarrow> rt_symbol dto),
                tk_minValue = rt_minValue dto, tk_maxValue = rt_maxValue dto\<rparr>
          in andThen (modify (\<lambda>(r, w). (r(normalized \<mapsto> token),
                 w\<lparr>redis := del ''token_registry:list'' (redis w)\<rparr>))) (\<lambda>_.
             ret (normalized, token)))))))"

text \<open>For the bounds, \<open>Some None\<close> is an explicit \<open>null\<close> (clear) and \<open>None\<close> leaves the bound alone.\<close>

record tokenUpdates =
  tu_symbol :: "string option"
  tu_decimals :: "nat option"
  tu_enabled :: "bool option"
  tu_displayName :: "string option"
  tu_minValue :: "int option option"
  tu_maxValue :: "int option option"

definition applyUpdates :: "tokenUpdates \<Rightarrow> tokenInfo \<Rightarrow> tokenInfo" where
  "applyUpdates u t = t\<lparr>
     tk_symbol := (case tu_symbol u of Some s \<Rightarrow> if s \<noteq> [] then s else tk_symbol t | None \<Rightarrow> tk_symbol t),
     tk_decimals := (case tu_decimals u of Some d \<Rightarrow> d | None \<Rightarrow> tk_decimals t),
     tk_enabled := (case tu_enabled u of Some b \<Rightarrow> Some b | None \<Rightarrow> tk_enabled t),
     tk_displayName := (case tu_displayName u of Some n \<Rightarrow> Some n | None \<Rightarrow> tk_displayName t),
     tk_minValue := (case tu_minValue u of Some v \<Rightarrow> v | None \<Rightarrow> tk_minValue t),
     tk_maxValue := (case tu_maxValue u of Some v \<Rightarrow> v | None \<Rightarrow> tk_maxValue t)\<rparr>"

definition updateToken :: "string \<Rightarrow> tokenUpdates \<Rightarrow> (registryState, string \<times> tokenInfo) action" where
  "updateToken address u =
     (let normalized = toUpperCase address in
      andThen (reads (\<lambda>(r, w). r normalized)) (\<lambda>found.
      requireSome found NotFoundException (\<lambda>existing.
      andThen (reads (\<lambda>(r, w). \<exists>s \<in> set (shipments (db w)). tokenAddress s = normalized)) (\<lambda>referenced.
      require (\<not> (tu_decimals u \<noteq> None \<and> tu_decimals u \<noteq> Some (tk_decimals existing) \<and> referenced))
        ConflictException (
      let nxt = applyUpdates u existing in
      require (boundsOrdered (tk_minValue nxt) (tk_maxValue nxt)) BadRequestException (
      andThen (modify (\<lambda>(r, w). (r(normalized \<mapsto> nxt),
        w\<lparr>redis := del ''token_registry:list'' (redis w),
          audit := audit w @ [\<lparr>au_actorId = None, au_actorAddress = ''system'',
            au_action = ''TOKEN_REGISTRY_UPDATED'', au_resourceType = ''TokenRegistry'',
            au_resourceId = ByName normalized, au_metadata = JNull\<rparr>]\<rparr>))) (\<lambda>_.
      ret (normalized, nxt))))))))"

section \<open>Lemmas\<close>

lemma showInt_nonneg: "0 \<le> a \<Longrightarrow> showInt a = digits (nat a)"
  by (simp add: showInt_def)

lemma dot_not_in_digits: "CHR ''.'' \<notin> set (digits n)"
  using digit_chars [of "CHR ''.''" n] by auto

lemma parse_showInt: "0 \<le> a \<Longrightarrow> parseBigInt (showInt a) = Some a"
  using parseBigInt_numeral [of "digits (nat a)" "nat a"] digit_chars readNat_digits
  by (simp add: showInt_nonneg)

lemma parse_padded:
  assumes "0 \<le> a" and "0 < d"
  shows "parseBigInt (padStart d (showInt a)) = Some a"
proof -
  have "readNat 0 (padStart d (showInt a)) = Some (nat a)"
    using assms by (simp add: padStart_def readNat_zeros readNat_digits showInt_nonneg)
  moreover have "48 \<le> (of_char c :: nat) \<and> (of_char c :: nat) \<le> 57" if "c \<in> set (padStart d (showInt a))" for c
    using that digit_chars assms by (auto simp: padStart_def showInt_nonneg)
  moreover have "padStart d (showInt a) \<noteq> []" using assms by (simp add: padStart_def showInt_nonneg)
  ultimately show ?thesis using parseBigInt_numeral assms(1) by fastforce
qed

lemma length_padStart: "length s \<le> n \<Longrightarrow> length (padStart n s) = n"
  by (simp add: padStart_def)

definition registryOk :: "registry \<Rightarrow> bool" where
  "registryOk r \<longleftrightarrow> (\<forall>k t. r k = Some t \<longrightarrow> boundsOrdered (tk_minValue t) (tk_maxValue t))"

lemma registerToken_keeps_ok: "keeps (\<lambda>(r, w). registryOk r) (registerToken ce dto)"
  by (rule keepsI)
    (auto simp: registerToken_def registryOk_def Let_def andThen_def reads_def require_def throw_def modify_def
      ret_def split: sum.splits if_splits)

lemma updateToken_keeps_ok: "keeps (\<lambda>(r, w). registryOk r) (updateToken a u)"
  by (rule keepsI)
    (auto simp: updateToken_def registryOk_def Let_def andThen_def reads_def require_def requireSome_def
      throw_def modify_def ret_def split: option.splits if_splits)

text \<open>The administrative calls on the registry, in any order.\<close>

datatype registryCall = Register "string \<Rightarrow> bool result" registerTokenDto | Update string tokenUpdates

definition registryStep :: "registryCall \<Rightarrow> registryState \<Rightarrow> registryState" where
  "registryStep c s = (case c of Register ce dto \<Rightarrow> snd (registerToken ce dto s) | Update a u \<Rightarrow> snd (updateToken a u s))"

interpretation registryRuns: step_system registryStep "\<lambda>(r, w). registryOk r"
proof unfold_locales
  fix s :: registryState and c assume "case s of (r, w) \<Rightarrow> registryOk r"
  then show "case registryStep c s of (r, w) \<Rightarrow> registryOk r"
    using keepsD [OF registerToken_keeps_ok] keepsD [OF updateToken_keeps_ok]
    by (cases c) (simp_all add: registryStep_def)
qed

lemma initRegistry_ok: "registryOk (initRegistry [])"
  by (simp add: registryOk_def initRegistry_def loadFromJson_def BUILT_IN_TOKENS_def boundsOrdered_def)

section \<open>Properties\<close>

text \<open>No token ever has an empty range of admissible values. After any sequence of registrations
  and updates, whatever bounds were asked for, every address still admits some shipment value.\<close>

lemma token_bounds_satisfiable:
  "\<exists>amount. assertValueWithinBounds (fst (fold registryStep calls (initRegistry [], w))) a amount = Inr ()"
proof -
  let ?r = "fst (fold registryStep calls (initRegistry [], w))"
  have ok: "registryOk ?r"
    using registryRuns.run_inv [of "(initRegistry [], w)" calls] initRegistry_ok by (simp add: case_prod_beta)
  show ?thesis
  proof (cases "?r (toUpperCase a)")
    case (Some t)
    with ok have b: "boundsOrdered (tk_minValue t) (tk_maxValue t)" by (simp add: registryOk_def)
    define v where "v = (case tk_minValue t of Some l \<Rightarrow> l | None \<Rightarrow> (case tk_maxValue t of Some h \<Rightarrow> h | None \<Rightarrow> 0))"
    have "assertValueWithinBounds ?r a v = Inr ()"
      using Some b by (auto simp: assertValueWithinBounds_def v_def boundsOrdered_def split: option.splits)
    then show ?thesis ..
  qed (simp add: assertValueWithinBounds_def)
qed



text \<open>built-in tokens cannot be used. After start-up without configuration, the registry says of
  the built-in tokens that they are enabled (\<open>isEnabled\<close>), but the entry \<open>getToken\<close> returns carries
  no \<open>enabled\<close> flag, so the test \<open>!token.enabled\<close> of shipment creation rejects them; any address
  that is not registered passes the same test.\<close>

theorem builtin_tokens_lack_enabled_flag:
  "(\<forall>a t. (a, t) \<in> set BUILT_IN_TOKENS \<longrightarrow>
      isEnabled (initRegistry []) a \<and> \<not> enabledFlag (getToken (initRegistry []) a)) \<and>
   (\<forall>a. initRegistry [] (toUpperCase a) = None \<longrightarrow> enabledFlag (getToken (initRegistry []) a))"
proof (intro conjI allI impI)
  fix a t assume "(a, t) \<in> set BUILT_IN_TOKENS"
  then have "toUpperCase a = a \<and> (\<exists>u. initRegistry [] a = Some u \<and> tk_enabled u = None)"
    by (auto simp: BUILT_IN_TOKENS_def initRegistry_def loadFromJson_def toUpperCase_def)
  then show "isEnabled (initRegistry []) a" and "\<not> enabledFlag (getToken (initRegistry []) a)"
    by (auto simp: isEnabled_def getToken_def)
next
  fix a assume "initRegistry [] (toUpperCase a) = None"
  then show "enabledFlag (getToken (initRegistry []) a)" by (simp add: getToken_def)
qed

theorem builtin_tokens_lack_enabled_flag_witness:
  "\<not> enabledFlag (getToken (initRegistry []) ''CBIELTK6YBZJU5UP2WWQEUCYKLPU6AUNZ2BQ4WWFEIE3USCIHMXQDAMA'')"
  using builtin_tokens_lack_enabled_flag by (auto simp: BUILT_IN_TOKENS_def)

end
