(* ===== verification/Kyc.thy ===== *)
theory Kyc
  imports Notifications
begin

text \<open>
  \<open>KycService\<close> and \<open>KycReviewService\<close> (\<open>src/src/modules/kyc/\<close>): the tier a shipment value requires,
  verification with an expiry, the provider's webhook, withdrawal and the manual review queue's
  decisions. The HMAC of the webhook body is the parameter \<open>hmac\<close>.
\<close>

section \<open>Tiers\<close>

datatype kycTier = TierNone | TierBasic | TierEnhanced

definition BASIC_TIER_DOCUMENTS :: "string list" where
  "BASIC_TIER_DOCUMENTS = [''government_id'', ''proof_of_address'']"

definition ENHANCED_TIER_DOCUMENTS :: "string list" where
  "ENHANCED_TIER_DOCUMENTS = BASIC_TIER_DOCUMENTS @ [''proof_of_funds'', ''enhanced_due_diligence'']"

definition getRequirements :: "env \<Rightarrow> int \<Rightarrow> kycTier \<times> string list" where
  "getRequirements e value =
     (if value \<ge> kycEnhancedThreshold e then (TierEnhanced, ENHANCED_TIER_DOCUMENTS)
      else if value \<ge> kycThreshold e then (TierBasic, BASIC_TIER_DOCUMENTS)
      else (TierNone, []))"

definition kycMeetsThreshold :: "env \<Rightarrow> int \<Rightarrow> bool" where
  "kycMeetsThreshold e amount \<longleftrightarrow> fst (getRequirements e amount) \<noteq> TierNone"

section \<open>Verification\<close>

definition isActiveVerification :: "user option \<Rightarrow> time \<Rightarrow> bool" where
  "isActiveVerification u t = (case u of
      None \<Rightarrow> False
    | Some x \<Rightarrow> u_kycStatus x = VERIFIED \<and> (case kycExpiresAt x of None \<Rightarrow> True | Some d \<Rightarrow> d > t))"

definition isVerified :: "env \<Rightarrow> address \<Rightarrow> world \<Rightarrow> bool" where
  "isVerified e addr w = isActiveVerification (findUser addr w) (now e)"

definition findUserById :: "uuid \<Rightarrow> world \<Rightarrow> user option" where
  "findUserById uid w = find (\<lambda>u. u_id u = uid) (users (db w))"

definition updateUserById :: "uuid \<Rightarrow> (user \<Rightarrow> user) \<Rightarrow> unit act" where
  "updateUserById uid f = modifyDb (\<lambda>d. d\<lparr>users := updateWhere (\<lambda>u. u_id u = uid) f (users d)\<rparr>)"

definition kycAudit :: "uuid option \<Rightarrow> address \<Rightarrow> string \<Rightarrow> uuid \<Rightarrow> json \<Rightarrow> unit act" where
  "kycAudit actor addr action uid meta = auditRecord \<lparr>au_actorId = actor, au_actorAddress = addr,
     au_action = action, au_resourceType = ''User'', au_resourceId = ByUuid uid, au_metadata = meta\<rparr>"

definition initiateVerification :: "env \<Rightarrow> uuid \<Rightarrow> (string \<times> kycStatus) act" where
  "initiateVerification e uid =
     andThen (reads (findUserById uid)) (\<lambda>found.
     requireSome found NotFoundException (\<lambda>u.
     let reference = randomUuid e in
     andThen (updateUserById uid (\<lambda>u. u\<lparr>u_kycStatus := KYC_PENDING, kycReference := Some reference,
        kycSubmittedAt := Some (now e)\<rparr>)) (\<lambda>_.
     andThen (kycAudit (Some uid) (stellarAddress u) ''KYC_VERIFICATION_INITIATED'' uid
        (JObj [(''reference'', JStr reference)])) (\<lambda>_.
     ret (reference, KYC_PENDING)))))"

record kycState =
  ks_status :: kycStatus
  ks_reference :: "string option"
  ks_verifiedAt :: "time option"
  ks_expiresAt :: "time option"
  ks_expired :: bool

definition getKycStatus :: "env \<Rightarrow> uuid \<Rightarrow> kycState act" where
  "getKycStatus e uid =
     andThen (reads (findUserById uid)) (\<lambda>found.
     requireSome found NotFoundException (\<lambda>u.
     let expired = (u_kycStatus u = VERIFIED \<and> \<not> isActiveVerification (Some u) (now e)) in
     ret \<lparr>ks_status = (if expired then UNVERIFIED else u_kycStatus u), ks_reference = kycReference u,
          ks_verifiedAt = kycVerifiedAt u, ks_expiresAt = kycExpiresAt u, ks_expired = expired\<rparr>))"

record kycWebhookDto =
  kw_reference :: string
  kw_stellarAddress :: address
  kw_status :: kycStatus

text \<open>\<open>secret = None\<close> is a deployment without \<open>KYC_WEBHOOK_SECRET\<close>.\<close>

definition handleKycWebhook :: "(kycWebhookDto \<Rightarrow> string) option \<Rightarrow> env \<Rightarrow> kycWebhookDto \<Rightarrow> string option \<Rightarrow> unit act" where
  "handleKycWebhook hmac e dto signature =
     require (case hmac of None \<Rightarrow> True | Some h \<Rightarrow> truthy signature \<and> signature = Some (h dto)) UnauthorizedException (
     andThen (reads (\<lambda>w. find (\<lambda>u. kycReference u = Some (kw_reference dto) \<or> stellarAddress u = kw_stellarAddress dto)
        (users (db w)))) (\<lambda>found.
     requireSome found NotFoundException (\<lambda>u.
     andThen (updateUserById (u_id u) (\<lambda>u.
        let u' = u\<lparr>u_kycStatus := kw_status dto, kycReference := Some (kw_reference dto)\<rparr> in
        if kw_status dto = VERIFIED
        then u'\<lparr>kycVerifiedAt := Some (now e),
                kycExpiresAt := Some (now e + kycValidityDays e * 24 * 60 * 60 * 1000),
                kycReminder30dSentAt := None, kycReminder7dSentAt := None\<rparr>
        else u')) (\<lambda>_.
     kycAudit None (kw_stellarAddress dto) ''KYC_STATUS_UPDATED'' (u_id u)
       (JObj [(''reference'', JStr (kw_reference dto))])))))"

definition withdraw :: "uuid \<Rightarrow> string \<Rightarrow> unit act" where
  "withdraw uid rid =
     andThen (reads (findUserById uid)) (\<lambda>found.
     requireSome found NotFoundException (\<lambda>u.
     require (truthy (kycReference u) \<and> kycReference u = Some rid) NotFoundException (
     require (\<not> (u_kycStatus u = VERIFIED \<or> u_kycStatus u = KYC_REJECTED)) ConflictException (
     andThen (updateUserById uid (\<lambda>u. u\<lparr>u_kycStatus := UNVERIFIED, kycReference := None\<rparr>)) (\<lambda>_.
     kycAudit (Some uid) (stellarAddress u) ''KYC_VERIFICATION_WITHDRAWN'' uid (JObj [(''reference'', JStr rid)]))))))"

section \<open>Manual review\<close>

text \<open>
  \<open>decide\<close>, the body of \<open>approve\<close> and \<open>reject\<close>. The conditional \<open>updateMany\<close> is the second half, so
  that the two halves of concurrent decisions can be interleaved.
\<close>

definition decideRead :: "uuid \<Rightarrow> user act" where
  "decideRead uid =
     andThen (reads (findUserById uid)) (\<lambda>found.
     requireSome found NotFoundException (\<lambda>u.
     require (u_kycStatus u = KYC_PENDING) ConflictException (ret u)))"

definition decideCommit :: "env \<Rightarrow> uuid \<Rightarrow> uuid \<times> address \<Rightarrow> kycStatus \<Rightarrow> string option \<Rightarrow> user \<Rightarrow> kycStatus act" where
  "decideCommit e uid reviewer decision reason u =
     andThen (reads (\<lambda>w. length (filter (\<lambda>u. u_id u = uid \<and> u_kycStatus u = KYC_PENDING) (users (db w))))) (\<lambda>matched.
     andThen (modifyDb (\<lambda>d. d\<lparr>users := updateWhere (\<lambda>u. u_id u = uid \<and> u_kycStatus u = KYC_PENDING)
        (\<lambda>u. u\<lparr>u_kycStatus := decision\<rparr>) (users d)\<rparr>)) (\<lambda>_.
     require (matched \<noteq> 0) ConflictException (
     andThen (kycAudit (Some (fst reviewer)) (snd reviewer)
        (if decision = VERIFIED then ''KYC_MANUALLY_APPROVED'' else ''KYC_MANUALLY_REJECTED'') uid
        (JObj [(''reason'', case reason of None \<Rightarrow> JNull | Some r \<Rightarrow> if trim r = [] then JNull else JStr (trim r))])) (\<lambda>_.
     andThen (notifyUser e (stellarAddress u) N_SYSTEM_ALERT
        (if decision = VERIFIED then ''Identity verification approved'' else ''Identity verification rejected'')
        (JObj [(''kind'', JStr ''KYC_DECISION'')])) (\<lambda>_.
     ret decision)))))"

definition decideKyc :: "env \<Rightarrow> uuid \<Rightarrow> uuid \<times> address \<Rightarrow> kycStatus \<Rightarrow> string option \<Rightarrow> kycStatus act" where
  "decideKyc e uid reviewer decision reason =
     andThen (decideRead uid) (decideCommit e uid reviewer decision reason)"

definition approveKyc :: "env \<Rightarrow> uuid \<Rightarrow> uuid \<times> address \<Rightarrow> string option \<Rightarrow> kycStatus act" where
  "approveKyc e uid reviewer reason = decideKyc e uid reviewer VERIFIED reason"

definition rejectKyc :: "env \<Rightarrow> uuid \<Rightarrow> uuid \<times> address \<Rightarrow> string \<Rightarrow> kycStatus act" where
  "rejectKyc e uid reviewer reason = decideKyc e uid reviewer KYC_REJECTED (Some reason)"

section \<open>Lemmas\<close>

definition wf_users :: "world \<Rightarrow> bool" where
  "wf_users w \<longleftrightarrow> distinct (map u_id (users (db w))) \<and> distinct (map stellarAddress (users (db w)))"

lemma run_updateUserById [simp]:
  "updateUserById uid f w = (Inr (), w\<lparr>db := (db w)\<lparr>users := updateWhere (\<lambda>u. u_id u = uid) f (users (db w))\<rparr>\<rparr>)"
  by (simp add: updateUserById_def)

lemma run_kycAudit [simp]: "kycAudit actor addr action uid meta w = (Inr (), w\<lparr>audit := audit w @
    [\<lparr>au_actorId = actor, au_actorAddress = addr, au_action = action, au_resourceType = ''User'',
      au_resourceId = ByUuid uid, au_metadata = meta\<rparr>]\<rparr>)"
  by (simp add: kycAudit_def)

lemma findUser_updated:
  assumes "wf_users w" and "u \<in> set (users (db w))" and f: "\<And>x. stellarAddress (f x) = stellarAddress x"
  shows "find (\<lambda>x. stellarAddress x = stellarAddress u) (updateWhere (\<lambda>x. u_id x = u_id u) f (users (db w))) = Some (f u)"
  using find_key_unique [of stellarAddress "users (db w)" u] assms by (simp add: find_updateWhere wf_users_def)

section \<open>Properties\<close>

text \<open>A verification lasts exactly its validity period. When the provider reports VERIFIED for a user
  known by address and reference, the user counts as verified from then on at an instant if and
  only if it lies before the webhook's instant plus the configured number of days.\<close>

lemma kyc_webhook_verifies_until_expiry:
  assumes "wf_users w" and "u \<in> set (users (db w))" and "stellarAddress u = kw_stellarAddress dto"
    and only: "\<And>x. x \<in> set (users (db w)) \<Longrightarrow> kycReference x = Some (kw_reference dto) \<Longrightarrow> x = u"
    and "kw_status dto = VERIFIED"
    and run: "handleKycWebhook hmac e dto signature w = (Inr (), w')"
  shows "isVerified e' (stellarAddress u) w' \<longleftrightarrow> now e' < now e + kycValidityDays e * 24 * 60 * 60 * 1000"
proof -
  let ?p = "\<lambda>x. kycReference x = Some (kw_reference dto) \<or> stellarAddress x = kw_stellarAddress dto"
  have uniq: "x = u" if "x \<in> set (users (db w))" "?p x" for x
    using that only assms(1-3) by (metis distinct_map inj_onD wf_users_def)
  obtain x where x: "find ?p (users (db w)) = Some x"
    using assms(2,3) by (cases "find ?p (users (db w))") (auto simp: find_None_iff_ball)
  with uniq find_Some_prop have "x = u" by fastforce
  then have "\<exists>f. users (db w') = updateWhere (\<lambda>x. u_id x = u_id u) f (users (db w)) \<and>
      (\<forall>x. stellarAddress (f x) = stellarAddress x) \<and> u_kycStatus (f u) = VERIFIED \<and>
      kycExpiresAt (f u) = Some (now e + kycValidityDays e * 24 * 60 * 60 * 1000)"
    using run x assms(5) by (auto simp: handleKycWebhook_def Let_def split: if_splits)
  then obtain f where f: "users (db w') = updateWhere (\<lambda>x. u_id x = u_id u) f (users (db w))"
    "\<And>x. stellarAddress (f x) = stellarAddress x" "u_kycStatus (f u) = VERIFIED"
    "kycExpiresAt (f u) = Some (now e + kycValidityDays e * 24 * 60 * 60 * 1000)" by blast
  then show ?thesis
    using findUser_updated [OF assms(1,2) f(2)] by (simp add: isVerified_def findUser_def isActiveVerification_def)
qed

theorem kyc_webhook_verifies_until_expiry_witness:
  "let w = emptyWorld\<lparr>db := emptyDb\<lparr>users := [user0 7 ''G'']\<rparr>\<rparr>;
       dto = \<lparr>kw_reference = ''r'', kw_stellarAddress = ''G'', kw_status = VERIFIED\<rparr>;
       w' = snd (handleKycWebhook None env0 dto None w)
   in isVerified env0 ''G'' w' \<and> \<not> isVerified (env0\<lparr>now := 31536001000\<rparr>) ''G'' w'"
proof -
  let ?w = "emptyWorld\<lparr>db := emptyDb\<lparr>users := [user0 7 ''G'']\<rparr>\<rparr>"
  let ?dto = "\<lparr>kw_reference = ''r'', kw_stellarAddress = ''G'', kw_status = VERIFIED\<rparr>"
  have run: "handleKycWebhook None env0 ?dto None ?w = (Inr (), snd (handleKycWebhook None env0 ?dto None ?w))"
    by (simp add: handleKycWebhook_def concrete_defs Let_def)
  have 1: "wf_users ?w" "user0 7 ''G'' \<in> set (users (db ?w))" "stellarAddress (user0 7 ''G'') = ''G''"
    by (simp_all add: wf_users_def concrete_defs)
  have 2: "\<And>x. x \<in> set (users (db ?w)) \<Longrightarrow> kycReference x = Some ''r'' \<Longrightarrow> x = user0 7 ''G''"
    by (simp add: concrete_defs)
  from kyc_webhook_verifies_until_expiry [OF 1(1,2) _ _ _ run] 1(3) 2
  have "isVerified e' ''G'' (snd (handleKycWebhook None env0 ?dto None ?w)) \<longleftrightarrow> now e' < 31536001000" for e'
    by (simp add: env0_def)
  then show ?thesis by (simp add: Let_def env0_def)
qed

text \<open>Two reviewers cannot both decide a case. When two decisions on the same pending case have both
  passed the status check before either writes, the first write wins and the second is answered
  with a conflict and changes nothing.\<close>

lemma kyc_decided_once:
  assumes first: "decideCommit e1 uid r1 d1 m1 u1 w = (Inr v, w')" and "d1 \<noteq> KYC_PENDING"
    and "users (db w'') = users (db w')"
  shows "decideCommit e2 uid r2 d2 m2 u2 w'' = (Inl ConflictException, w'')"
proof -
  have "users (db w') = updateWhere (\<lambda>u. u_id u = uid \<and> u_kycStatus u = KYC_PENDING) (\<lambda>u. u\<lparr>u_kycStatus := d1\<rparr>) (users (db w))"
    using first by (auto simp: decideCommit_def split: if_splits)
  then have none: "\<not> (u_id u = uid \<and> u_kycStatus u = KYC_PENDING)" if "u \<in> set (users (db w''))" for u
    using that assms(2,3) updateWhere_falsifies [of "\<lambda>u. u_id u = uid \<and> u_kycStatus u = KYC_PENDING"
        "\<lambda>u. u\<lparr>u_kycStatus := d1\<rparr>" u "users (db w)"] by simp
  then have "filter (\<lambda>u. u_id u = uid \<and> u_kycStatus u = KYC_PENDING) (users (db w'')) = []"
    by (simp add: filter_empty_conv)
  moreover have "updateWhere (\<lambda>u. u_id u = uid \<and> u_kycStatus u = KYC_PENDING) (\<lambda>u. u\<lparr>u_kycStatus := d2\<rparr>)
      (users (db w'')) = users (db w'')"
    using none by (intro updateWhere_none) simp
  ultimately show ?thesis by (simp add: decideCommit_def)
qed

theorem kyc_decided_once_witness:
  "let u = (user0 7 ''G'')\<lparr>u_kycStatus := KYC_PENDING\<rparr>;
       w = emptyWorld\<lparr>db := emptyDb\<lparr>users := [u]\<rparr>\<rparr>;
       w' = snd (decideCommit env0 7 (1, ''A'') KYC_REJECTED None u w)
   in decideCommit env0 7 (2, ''B'') VERIFIED None u w' = (Inl ConflictException, w')"
proof -
  let ?u = "(user0 7 ''G'')\<lparr>u_kycStatus := KYC_PENDING\<rparr>"
  let ?w = "emptyWorld\<lparr>db := emptyDb\<lparr>users := [?u]\<rparr>\<rparr>"
  have "decideCommit env0 7 (1, ''A'') KYC_REJECTED None ?u ?w =
      (Inr KYC_REJECTED, snd (decideCommit env0 7 (1, ''A'') KYC_REJECTED None ?u ?w))"
    by (simp add: decideCommit_def concrete_defs)
  from kyc_decided_once [OF this _ refl, of env0 "(2, ''B'')" VERIFIED None ?u] show ?thesis
    unfolding Let_def by blast
qed

text \<open>a manual approval does not renew an expired verification. Approving a pending case of a user
  whose earlier verification has lapsed reports VERIFIED, but the old expiry instant is kept: at
  that moment the user still does not count as verified, so the approval has no effect.\<close>

theorem manual_approval_keeps_old_expiry:
  assumes "wf_users w" and "u \<in> set (users (db w))" and "u_kycStatus u = KYC_PENDING"
    and "kycExpiresAt u = Some d" and "d \<le> now e"
  shows "\<exists>w'. approveKyc e (u_id u) reviewer reason w = (Inr VERIFIED, w') \<and>
    \<not> isVerified e (stellarAddress u) w'"
proof -
  let ?p = "\<lambda>x. u_id x = u_id u \<and> u_kycStatus x = KYC_PENDING"
  have id: "findUserById (u_id u) w = Some u"
    unfolding findUserById_def using assms(1,2) by (intro find_key_unique) (simp_all add: wf_users_def)
  have m: "filter ?p (users (db w)) \<noteq> []" using assms(2,3) by (auto simp: filter_empty_conv)
  let ?f = "\<lambda>x. x\<lparr>u_kycStatus := VERIFIED\<rparr>"
  have "find (\<lambda>x. stellarAddress x = stellarAddress u) (updateWhere ?p ?f (users (db w))) = Some (?f u)"
    using find_key_unique [of stellarAddress "users (db w)" u] assms(1-3)
    by (simp add: find_updateWhere wf_users_def)
  then have "\<not> isActiveVerification (find (\<lambda>x. stellarAddress x = stellarAddress u) (updateWhere ?p ?f (users (db w)))) (now e)"
    using assms(4,5) by (simp add: isActiveVerification_def)
  then show ?thesis
    using id m assms(3)
    by (simp add: approveKyc_def decideKyc_def decideRead_def decideCommit_def isVerified_def findUser_def)
qed

theorem manual_approval_keeps_old_expiry_witness:
  "let u = (user0 7 ''G'')\<lparr>u_kycStatus := KYC_PENDING, kycExpiresAt := Some 900\<rparr>;
       w = emptyWorld\<lparr>db := emptyDb\<lparr>users := [u]\<rparr>\<rparr>
   in \<exists>w'. approveKyc env0 7 (1, ''A'') None w = (Inr VERIFIED, w') \<and> \<not> isVerified env0 ''G'' w'"
  using manual_approval_keeps_old_expiry [of
      "emptyWorld\<lparr>db := emptyDb\<lparr>users := [(user0 7 ''G'')\<lparr>u_kycStatus := KYC_PENDING, kycExpiresAt := Some 900\<rparr>]\<rparr>\<rparr>"
      "(user0 7 ''G'')\<lparr>u_kycStatus := KYC_PENDING, kycExpiresAt := Some 900\<rparr>" 900 env0 "(1, ''A'')" None]
  by (simp add: Let_def wf_users_def concrete_defs)

end
