(* ===== verification/Shipments.thy ===== *)
theory Shipments
  imports Approvals Token_Registry Kyc
begin

text \<open>
  The core of \<open>ShipmentsService\<close> (\<open>src/src/modules/shipments/shipments.service.ts\<close>): creation with
  templates and the KYC, token and multi-signature gates, cloning, the arbiter's assignment,
  cancellation, archiving, and the mirroring of the contract's state. The answer of an operation is
  the stored row; its rendering for the client (\<open>serialize\<close>: FX estimates, formatted amounts) is not
  part of the model.
\<close>

section \<open>Creation\<close>

record createDto =
  cd_shipmentId :: string
  cd_templateId :: "uuid option"
  cd_buyerAddress :: address
  cd_supplierAddress :: "address option"
  cd_logisticsAddress :: "address option"
  cd_arbiterAddress :: "address option"
  cd_tokenAddress :: "address option"
  cd_milestones :: "milestoneInput list option"
  cd_totalAmount :: string
  cd_txHash :: "string option"
  cd_description :: "string option"
  cd_referenceNumber :: "string option"
  cd_metadata :: "json option"
  cd_tags :: "string list option"
  cd_expectedDeliveryAt :: "time option"
  cd_requiredApprovals :: "int option"

text \<open>\<open>a ?? b\<close>.\<close>

definition nullish :: "'x option \<Rightarrow> 'x option \<Rightarrow> 'x option" where
  "nullish a b = (case a of None \<Rightarrow> b | Some x \<Rightarrow> Some x)"

definition noTemplate :: shipmentTemplate where
  "noTemplate = \<lparr>t_id = 0, t_ownerId = 0, t_name = [], t_description = None, t_supplierAddress = None, t_logisticsAddress = None, t_arbiterAddress = None,
     t_tokenAddress = None, t_milestones = None, t_isPublic = False, t_deletedAt = None, t_createdAt = 0\<rparr>"

definition resolveTemplate :: "uuid option \<Rightarrow> shipmentTemplate act" where
  "resolveTemplate tid = (case tid of
      None \<Rightarrow> ret noTemplate
    | Some i \<Rightarrow>
        andThen (reads (\<lambda>w. find (\<lambda>t. t_id t = i \<and> t_deletedAt t = None) (templates (db w)))) (\<lambda>found.
        requireSome found NotFoundException ret))"

definition arbiterConflict :: "address option \<Rightarrow> address option list \<Rightarrow> bool" where
  "arbiterConflict arb parties \<longleftrightarrow> truthy arb \<and>
     list_ex (\<lambda>p. truthy p \<and> toLowerCase (the p) = toLowerCase (the arb)) parties"

definition referenceTaken :: "string option \<Rightarrow> world \<Rightarrow> bool" where
  "referenceTaken r w \<longleftrightarrow> truthy r \<and> (\<exists>s \<in> set (shipments (db w)). referenceNumber s = r)"

text \<open>The column type \<open>BIGINT\<close>.\<close>

definition fitsBigint :: "int \<Rightarrow> bool" where
  "fitsBigint n \<longleftrightarrow> - (2 ^ 63) \<le> n \<and> n < 2 ^ 63"

definition insertMilestone :: "env \<Rightarrow> string \<Rightarrow> int \<Rightarrow> milestoneInput \<Rightarrow> db \<Rightarrow> db" where
  "insertMilestone e sid i m d =
     (let mid = nextId d;
          due = (case mi_dueDays m of
                   Some n \<Rightarrow> if n \<noteq> 0 then Some (now e + n * 24 * 60 * 60 * 1000) else mi_dueAt m
                 | None \<Rightarrow> mi_dueAt m);
          items = map (\<lambda>(k, label, req). \<lparr>c_id = Suc mid + k, c_milestoneId = mid, c_label = label,
                     c_required = (case req of Some b \<Rightarrow> b | None \<Rightarrow> True), c_completedAt = None,
                     c_completedBy = None, c_createdAt = now e\<rparr>) (enumerate 0 (mi_checklist m))
      in d\<lparr>milestones := milestones d @ [\<lparr>m_id = mid, m_shipmentId = sid, milestoneIndex = i,
              m_name = mi_name m, paymentPercent = mi_paymentPercent m, proofHash = None, m_status = PENDING,
              paymentReleased = None, confirmedAt = None, dueAt = due, overdueNotifiedAt = None,
              overdueReminder3dAt = None, disputeEscalatedAt = None, disputedAt = None, deletedAt = None,
              m_createdAt = now e, m_updatedAt = now e\<rparr>],
           checklistItems := checklistItems d @ items,
           nextId := Suc mid + length items\<rparr>)"

primrec insertMilestones :: "env \<Rightarrow> string \<Rightarrow> int \<Rightarrow> milestoneInput list \<Rightarrow> db \<Rightarrow> db" where
  "insertMilestones e sid i [] d = d"
| "insertMilestones e sid i (m # ms) d = insertMilestones e sid (i + 1) ms (insertMilestone e sid i m d)"

text \<open>
  \<open>shipment.create\<close> with nested milestones: the amount must fit its column, the four parties must be
  registered users (foreign keys), the id and the reference number must be new.
\<close>

definition insertShipment :: "env \<Rightarrow> shipment \<Rightarrow> milestoneInput list \<Rightarrow> unit act" where
  "insertShipment e s ms =
     require (fitsBigint (totalAmount s)) RuntimeError (
     andThen (reads (\<lambda>w. list_all (\<lambda>a. findUser a w \<noteq> None) (participants s))) (\<lambda>fk.
     require fk PrismaP2003 (
     andThen (reads (\<lambda>w. findShipment (s_id s) w = None \<and>
        (referenceNumber s = None \<or> (\<forall>r \<in> set (shipments (db w)). referenceNumber r \<noteq> referenceNumber s)))) (\<lambda>fresh.
     require fresh PrismaP2002 (
     modifyDb (\<lambda>d. insertMilestones e (s_id s) 0 ms (d\<lparr>shipments := shipments d @ [s]\<rparr>)))))))"

definition cachePrefix :: "address \<Rightarrow> string" where
  "cachePrefix a = ''shipments:'' @ a @ '':''"

definition invalidateUserCache :: "address \<Rightarrow> unit act" where
  "invalidateUserCache a = modify (\<lambda>w. w\<lparr>redis := delByPrefix (cachePrefix a) (redis w)\<rparr>)"

datatype arbiterWarning = TradedWithParty | RepeatBuyer

text \<open>
  The share of resolutions with the same buyer is compared exactly (\<open>sameBuyer > threshold * total\<close>);
  \<open>None\<close> is a threshold that is not a number, with which every comparison is false.
\<close>

definition resolvedCount :: "(shipment \<Rightarrow> bool) \<Rightarrow> world \<Rightarrow> nat" where
  "resolvedCount p w = length (filter (\<lambda>m. m_status m = RESOLVED \<and>
     (\<exists>s \<in> set (shipments (db w)). s_id s = m_shipmentId m \<and> p s)) (milestones (db w)))"

definition getArbiterWarnings :: "env \<Rightarrow> address \<Rightarrow> address \<Rightarrow> address \<Rightarrow> world \<Rightarrow> arbiterWarning list" where
  "getArbiterWarnings e arbiter buyer supplier w =
     (let since = now e - 365 * 24 * 60 * 60 * 1000;
          related = list_ex (\<lambda>s. s_createdAt s \<ge> since \<and>
            (buyerAddress s = arbiter \<and> supplierAddress s \<in> {buyer, supplier} \<or>
             supplierAddress s = arbiter \<and> buyerAddress s \<in> {buyer, supplier})) (shipments (db w));
          total = resolvedCount (\<lambda>s. arbiterAddress s = arbiter) w;
          sameBuyer = resolvedCount (\<lambda>s. arbiterAddress s = arbiter \<and> buyerAddress s = buyer) w;
          exceeds = (case repeatBuyerThreshold e of None \<Rightarrow> False
            | Some t \<Rightarrow> of_nat sameBuyer > min 1 (max 0 t) * of_nat total)
      in (if related then [TradedWithParty] else []) @ (if total > 0 \<and> exceeds then [RepeatBuyer] else []))"

definition arbiterInvite :: "env \<Rightarrow> address \<Rightarrow> string \<Rightarrow> unit act" where
  "arbiterInvite e addr sid = ignore (notifyUser e addr N_ARBITER_INVITED ''Arbiter assignment invitation''
     (JObj [(''shipmentId'', JStr sid)]))"

text \<open>The gates that depend on the merged fields: KYC, token, value bounds, multi-signature.\<close>

definition creationGates :: "env \<Rightarrow> createDto \<Rightarrow> address \<Rightarrow> address \<Rightarrow> int \<Rightarrow> (tokenInfo \<times> int option) act" where
  "creationGates e dto supplier token amount =
     andThen (reads (\<lambda>w. isVerified e (cd_buyerAddress dto) w \<and> isVerified e supplier w)) (\<lambda>verified.
     require (\<not> kycMeetsThreshold e amount \<or> verified) ForbiddenException (
     let tk = getToken (tokenRegistry e) token in
     require (enabledFlag tk) BadRequestException (
     liftResult (assertValueWithinBounds (tokenRegistry e) token amount) (\<lambda>_.
     liftResult (resolveRequiredApprovals e (cd_requiredApprovals dto) amount) (\<lambda>req.
     ret (tk, req))))))"

definition newShipment :: "env \<Rightarrow> createDto \<Rightarrow> address \<Rightarrow> address \<Rightarrow> address \<Rightarrow> address \<Rightarrow> tokenInfo \<Rightarrow> int \<Rightarrow> int option \<Rightarrow> shipment" where
  "newShipment e dto supplier logistics arbiter token tk amount req =
     \<lparr>s_id = cd_shipmentId dto, buyerAddress = cd_buyerAddress dto, supplierAddress = supplier,
      logisticsAddress = logistics, arbiterAddress = arbiter, tokenAddress = token, totalAmount = amount,
      releasedAmount = 0, s_status = ACTIVE, arbiterStatus = PENDING_ACCEPTANCE, s_txHash = cd_txHash dto,
      tokenDecimals = tk_decimals tk, tokenSymbol = tk_symbol tk, description = cd_description dto,
      referenceNumber = cd_referenceNumber dto, s_metadata = cd_metadata dto,
      tags = (case cd_tags dto of Some ts \<Rightarrow> ts | None \<Rightarrow> []), expectedDeliveryAt = cd_expectedDeliveryAt dto,
      cancelledAt = None, refundTxHash = None, archivedAt = None, requiredApprovals = req, isDraft = False,
      s_createdAt = now e, s_updatedAt = now e\<rparr>"

text \<open>
  What follows the insertion. The invitation goes to \<open>dto.arbiterAddress\<close>, the field of the request,
  which is absent when the template supplied the arbiter; \<open>notifyUser\<close> swallows the error.
\<close>

definition announceCreated :: "env \<Rightarrow> createDto \<Rightarrow> unit act" where
  "announceCreated e dto =
     andThen (case cd_arbiterAddress dto of None \<Rightarrow> ret () | Some a \<Rightarrow> arbiterInvite e a (cd_shipmentId dto)) (\<lambda>_.
     andThen (count ShipmentsCreated) (\<lambda>_.
     andThen (count ActiveShipmentsUp) (\<lambda>_.
     invalidateUserCache (cd_buyerAddress dto))))"

text \<open>
  The first half of \<open>create\<close>: the existence checks, the template, the merge of request and template
  (the request wins), the guards on the merged fields and the parsed amount.
\<close>

record mergedFields =
  mf_supplier :: address
  mf_logistics :: address
  mf_arbiter :: address
  mf_token :: address
  mf_milestones :: "milestoneInput list"
  mf_amount :: int

definition mergeRequest :: "createDto \<Rightarrow> mergedFields act" where
  "mergeRequest dto =
     andThen (reads (findShipment (cd_shipmentId dto))) (\<lambda>existing.
     require (existing = None) ConflictException (
     andThen (reads (referenceTaken (cd_referenceNumber dto))) (\<lambda>taken.
     require (\<not> taken) ConflictException (
     andThen (resolveTemplate (cd_templateId dto)) (\<lambda>tpl.
     let supplier = nullish (cd_supplierAddress dto) (t_supplierAddress tpl);
         logistics = nullish (cd_logisticsAddress dto) (t_logisticsAddress tpl);
         arbiter = nullish (cd_arbiterAddress dto) (t_arbiterAddress tpl);
         token = nullish (cd_tokenAddress dto) (t_tokenAddress tpl);
         ms = nullish (cd_milestones dto) (t_milestones tpl) in
     require (\<not> arbiterConflict arbiter [Some (cd_buyerAddress dto), supplier, logistics]) BadRequestException (
     require (truthy supplier \<and> truthy logistics \<and> truthy arbiter \<and> truthy token \<and> ms \<noteq> None) ConflictException (
     require (the ms = [] \<or> sum_list (map mi_paymentPercent (the ms)) = 100) BadRequestException (
     requireSome (parseBigInt (cd_totalAmount dto)) RuntimeError (\<lambda>amount.
     ret \<lparr>mf_supplier = the supplier, mf_logistics = the logistics, mf_arbiter = the arbiter, mf_token = the token,
          mf_milestones = the ms, mf_amount = amount\<rparr>)))))))))"

definition create :: "env \<Rightarrow> createDto \<Rightarrow> (shipment \<times> arbiterWarning list) act" where
  "create e dto =
     andThen (mergeRequest dto) (\<lambda>f.
     andThen (creationGates e dto (mf_supplier f) (mf_token f) (mf_amount f)) (\<lambda>(tk, req).
     let s = newShipment e dto (mf_supplier f) (mf_logistics f) (mf_arbiter f) (mf_token f) tk (mf_amount f) req in
     andThen (insertShipment e s (mf_milestones f)) (\<lambda>_.
     andThen (announceCreated e dto) (\<lambda>_.
     andThen (reads (getArbiterWarnings e (mf_arbiter f) (cd_buyerAddress dto) (mf_supplier f))) (\<lambda>warnings.
     ret (s, warnings))))))"

section \<open>Cloning\<close>

text \<open>The copies keep name and percentage; indices are renumbered from 0 in index order.\<close>

definition cloneMilestones :: "string \<Rightarrow> db \<Rightarrow> milestoneInput list" where
  "cloneMilestones sid d = map (\<lambda>m. \<lparr>mi_name = m_name m, mi_paymentPercent = paymentPercent m, mi_dueAt = None,
     mi_dueDays = None, mi_checklist = []\<rparr>) (sort_key milestoneIndex (liveMilestones sid d))"

definition cloneRow :: "env \<Rightarrow> shipment \<Rightarrow> tokenInfo \<Rightarrow> int \<Rightarrow> string \<Rightarrow> shipment" where
  "cloneRow e src tk amount txHash =
     \<lparr>s_id = randomUuid e, buyerAddress = buyerAddress src, supplierAddress = supplierAddress src,
      logisticsAddress = logisticsAddress src, arbiterAddress = arbiterAddress src, tokenAddress = tokenAddress src,
      totalAmount = amount, releasedAmount = 0, s_status = ACTIVE, arbiterStatus = PENDING_ACCEPTANCE,
      s_txHash = Some txHash, tokenDecimals = tk_decimals tk, tokenSymbol = tk_symbol tk,
      description = description src, referenceNumber = None, s_metadata = s_metadata src, tags = tags src,
      expectedDeliveryAt = None, cancelledAt = None, refundTxHash = None, archivedAt = None,
      requiredApprovals = None, isDraft = False, s_createdAt = now e, s_updatedAt = now e\<rparr>"

definition clone :: "env \<Rightarrow> string \<Rightarrow> address \<Rightarrow> string \<Rightarrow> string \<Rightarrow> shipment act" where
  "clone e sid caller amountText txHash =
     andThen (reads (findShipment sid)) (\<lambda>found.
     requireSome found NotFoundException (\<lambda>src.
     require (buyerAddress src = caller) ForbiddenException (
     requireSome (parseBigInt amountText) RuntimeError (\<lambda>amount.
     andThen (reads (\<lambda>w. cloneMilestones sid (db w))) (\<lambda>ms.
     let s = cloneRow e src (getToken (tokenRegistry e) (tokenAddress src)) amount txHash in
     andThen (insertShipment e s ms) (\<lambda>_.
     andThen (arbiterInvite e (arbiterAddress src) (s_id s)) (\<lambda>_.
     ret s)))))))"

section \<open>The arbiter's assignment\<close>

definition replaceArbiter :: "env \<Rightarrow> string \<Rightarrow> address \<Rightarrow> address \<Rightarrow> (shipment \<times> arbiterWarning list) act" where
  "replaceArbiter e sid caller arbiter =
     andThen (reads (findShipment sid)) (\<lambda>found.
     requireSome found NotFoundException (\<lambda>s.
     require (buyerAddress s = caller) ForbiddenException (
     require (arbiterStatus s \<noteq> ACCEPTED) ConflictException (
     require (\<not> list_ex (\<lambda>a. toLowerCase a = toLowerCase arbiter)
        [buyerAddress s, supplierAddress s, logisticsAddress s]) BadRequestException (
     andThen (reads (findUser arbiter)) (\<lambda>u.
     require (u \<noteq> None) PrismaP2003 (
     andThen (updateShipment (now e) sid (\<lambda>r. r\<lparr>arbiterAddress := arbiter, arbiterStatus := PENDING_ACCEPTANCE\<rparr>)) (\<lambda>updated.
     andThen (arbiterInvite e arbiter sid) (\<lambda>_.
     andThen (reads (getArbiterWarnings e arbiter caller (supplierAddress s))) (\<lambda>warnings.
     ret (updated, warnings)))))))))))"

definition arbiterAnswer :: "env \<Rightarrow> arbiterStatus \<Rightarrow> notificationType \<Rightarrow> string \<Rightarrow> string \<Rightarrow> address \<Rightarrow> shipment act" where
  "arbiterAnswer e st ty title sid caller =
     andThen (reads (findShipment sid)) (\<lambda>found.
     requireSome found NotFoundException (\<lambda>s.
     require (arbiterAddress s = caller) ForbiddenException (
     require (arbiterStatus s = PENDING_ACCEPTANCE) ConflictException (
     andThen (updateShipment (now e) sid (\<lambda>r. r\<lparr>arbiterStatus := st\<rparr>)) (\<lambda>updated.
     andThen (notifyUser e (buyerAddress s) ty title (JObj [(''shipmentId'', JStr sid)])) (\<lambda>_.
     ret updated))))))"

definition arbiterAccept :: "env \<Rightarrow> string \<Rightarrow> address \<Rightarrow> shipment act" where
  "arbiterAccept e sid caller = arbiterAnswer e ACCEPTED N_ARBITER_ACCEPTED ''Arbiter accepted assignment'' sid caller"

definition arbiterDecline :: "env \<Rightarrow> string \<Rightarrow> address \<Rightarrow> shipment act" where
  "arbiterDecline e sid caller = arbiterAnswer e DECLINED N_ARBITER_DECLINED ''Arbiter declined assignment'' sid caller"

section \<open>Cancelling and archiving\<close>

definition cancel :: "env \<Rightarrow> string \<Rightarrow> address \<Rightarrow> string \<Rightarrow> shipment act" where
  "cancel e sid caller txHash =
     andThen (reads (findShipment sid)) (\<lambda>found.
     requireSome found NotFoundException (\<lambda>s.
     require (buyerAddress s = caller) ForbiddenException (
     require (s_status s = ACTIVE) ConflictException (
     andThen (updateShipment (now e) sid (\<lambda>r. r\<lparr>s_status := CANCELLED, s_txHash := Some txHash,
        cancelledAt := Some (now e), refundTxHash := (if txHash \<noteq> [] then Some txHash else refundTxHash r)\<rparr>)) (\<lambda>updated.
     andThen (count ActiveShipmentsDown) (\<lambda>_.
     andThen (invalidateUserCache caller) (\<lambda>_.
     andThen (notifyWatchers e sid N_SHIPMENT_CANCELLED ''Shipment Cancelled'' (JObj [(''shipmentId'', JStr sid)])) (\<lambda>_.
     ret updated))))))))"

definition archive :: "env \<Rightarrow> string \<Rightarrow> address \<Rightarrow> shipment act" where
  "archive e sid caller =
     andThen (reads (findShipment sid)) (\<lambda>found.
     requireSome found NotFoundException (\<lambda>s.
     require (buyerAddress s = caller) ForbiddenException (
     require (s_status s \<noteq> ACTIVE) ConflictException (
     require (archivedAt s = None) ConflictException (
     andThen (updateShipment (now e) sid (\<lambda>r. r\<lparr>archivedAt := Some (now e)\<rparr>)) (\<lambda>updated.
     andThen (notifyWatchers e sid N_SYSTEM_ALERT ''Shipment Archived'' (JObj [(''shipmentId'', JStr sid)])) (\<lambda>_.
     ret updated)))))))"

definition unarchive :: "env \<Rightarrow> string \<Rightarrow> address \<Rightarrow> shipment act" where
  "unarchive e sid caller =
     andThen (reads (findShipment sid)) (\<lambda>found.
     requireSome found NotFoundException (\<lambda>s.
     require (buyerAddress s = caller) ForbiddenException (
     require (archivedAt s \<noteq> None) ConflictException (
     updateShipment (now e) sid (\<lambda>r. r\<lparr>archivedAt := None\<rparr>)))))"

section \<open>Mirroring the contract\<close>

definition statusMap :: "string \<Rightarrow> shipmentStatus option" where
  "statusMap st = (if st = ''Active'' then Some ACTIVE else if st = ''Completed'' then Some COMPLETED
     else if st = ''Cancelled'' then Some CANCELLED else None)"

text \<open>Every failure (RPC, missing row, amount too large for its column) is logged and swallowed.\<close>

definition syncStatusFromChain :: "env \<Rightarrow> string \<Rightarrow> unit act" where
  "syncStatusFromChain e sid = (case chainGetShipment e sid of
      ChainFails \<Rightarrow> ret ()
    | ChainNull \<Rightarrow> ret ()
    | ChainShipment st released \<Rightarrow>
        (case statusMap st of
           None \<Rightarrow> ret ()
         | Some mapped \<Rightarrow>
             let amount = (case released of None \<Rightarrow> 0 | Some r \<Rightarrow> r) in
             attempt (require (fitsBigint amount) RuntimeError (ignore (updateShipment (now e) sid
               (\<lambda>s. s\<lparr>s_status := mapped, releasedAmount := amount\<rparr>)))) (\<lambda>_. ret ())))"

definition adminForceSync :: "env \<Rightarrow> string \<Rightarrow> uuid \<Rightarrow> address \<Rightarrow> shipment act" where
  "adminForceSync e sid adminId adminAddress =
     andThen (syncStatusFromChain e sid) (\<lambda>_.
     andThen (auditRecord \<lparr>au_actorId = Some adminId, au_actorAddress = adminAddress,
        au_action = ''ADMIN_FORCE_SYNC'', au_resourceType = ''Shipment'', au_resourceId = ByName sid,
        au_metadata = JObj [(''shipmentId'', JStr sid)]\<rparr>) (\<lambda>_.
     andThen (reads (findShipment sid)) (\<lambda>found.
     requireSome found NotFoundException ret)))"

section \<open>Lemmas\<close>

lemma total_invalidateUserCache [total_intros]: "neverFails (invalidateUserCache a)"
  by (simp add: invalidateUserCache_def total_modify)

lemma total_arbiterInvite [total_intros]: "neverFails (arbiterInvite e a sid)"
  by (simp add: arbiterInvite_def total_intros)

lemma run_invalidateUserCache [simp]:
  "invalidateUserCache a w = (Inr (), w\<lparr>redis := delByPrefix (cachePrefix a) (redis w)\<rparr>)"
  by (simp add: invalidateUserCache_def)

lemma run_arbiterInvite:
  "\<exists>mb. arbiterInvite e a sid w = (Inr (), w\<lparr>mail := mb\<rparr>)"
  by (simp add: arbiterInvite_def) blast

lemma leaves_db_arbiterInvite [leaves_intros]: "leaves db (arbiterInvite e a sid)"
  by (simp add: leaves_def arbiterInvite_def)

lemma total_announceCreated [total_intros]: "neverFails (announceCreated e dto)"
  unfolding announceCreated_def by (cases "cd_arbiterAddress dto") (auto intro!: total_intros)

lemma leaves_db_announceCreated [leaves_intros]: "leaves db (announceCreated e dto)"
  unfolding announceCreated_def
  by (cases "cd_arbiterAddress dto")
    (auto intro!: leaves_intros simp: leaves_def [of db "count _"] leaves_def [of db "invalidateUserCache _"])

subsection \<open>Inserting milestones\<close>

lemma insertMilestone_frame:
  "shipments (insertMilestone e sid i m d) = shipments d" "approvals (insertMilestone e sid i m d) = approvals d"
  "chainEvents (insertMilestone e sid i m d) = chainEvents d" "failedEvents (insertMilestone e sid i m d) = failedEvents d"
  "users (insertMilestone e sid i m d) = users d"
  by (simp_all add: insertMilestone_def Let_def)

lemma insertMilestones_frame:
  "shipments (insertMilestones e sid i ms d) = shipments d" "approvals (insertMilestones e sid i ms d) = approvals d"
  "chainEvents (insertMilestones e sid i ms d) = chainEvents d" "failedEvents (insertMilestones e sid i ms d) = failedEvents d"
  "users (insertMilestones e sid i ms d) = users d"
  by (induction ms arbitrary: i d) (simp_all add: insertMilestone_frame)

text \<open>The rows that an insertion appends to the milestone table.\<close>

definition planRows :: "string \<Rightarrow> int \<Rightarrow> milestoneInput list \<Rightarrow> nat \<Rightarrow> nat \<Rightarrow> milestone list \<Rightarrow> bool" where
  "planRows sid i ms lo hi rows \<longleftrightarrow>
     map milestoneIndex rows = map (\<lambda>k. i + int k) [0..<length ms] \<and>
     map paymentPercent rows = map mi_paymentPercent ms \<and>
     (\<forall>r \<in> set rows. m_shipmentId r = sid \<and> m_status r = PENDING \<and> deletedAt r = None \<and> lo \<le> m_id r \<and> m_id r < hi) \<and>
     distinct (map m_id rows) \<and> lo \<le> hi"

lemma insertMilestones_rows:
  "\<exists>rows. milestones (insertMilestones e sid i ms d) = milestones d @ rows \<and>
    planRows sid i ms (nextId d) (nextId (insertMilestones e sid i ms d)) rows"
proof (induction ms arbitrary: i d)
  case Nil
  then show ?case by (simp add: planRows_def)
next
  case (Cons m ms)
  let ?d1 = "insertMilestone e sid i m d" and ?d2 = "insertMilestones e sid (i + 1) ms (insertMilestone e sid i m d)"
  obtain r where r: "milestones ?d1 = milestones d @ [r]" "milestoneIndex r = i" "paymentPercent r = mi_paymentPercent m"
    "m_shipmentId r = sid" "m_status r = PENDING" "deletedAt r = None" "m_id r = nextId d" "nextId d < nextId ?d1"
    by (simp add: insertMilestone_def Let_def)
  from Cons.IH [of "i + 1" ?d1] obtain rows where rows: "milestones ?d2 = milestones ?d1 @ rows"
    "planRows sid (i + 1) ms (nextId ?d1) (nextId ?d2) rows" by blast
  have "map (\<lambda>k. i + int k) [0..<Suc (length ms)] = i # map (\<lambda>k. i + 1 + int k) [0..<length ms]"
    by (simp add: upt_conv_Cons map_Suc_upt [symmetric] comp_def algebra_simps del: upt_Suc)
  moreover have "r' \<in> set rows \<Longrightarrow> m_id r' \<noteq> nextId d" for r'
    using rows(2) r(8) by (auto simp: planRows_def)
  ultimately have "planRows sid i (m # ms) (nextId d) (nextId ?d2) (r # rows)"
    using rows(2) r unfolding planRows_def by (auto simp del: upt_Suc)
  with rows(1) r(1) show ?case by (auto intro!: exI [of _ "r # rows"])
qed

lemma insert_keeps_wf:
  assumes wf: "wf_db d" and new: "\<And>r. r \<in> set (shipments d) \<Longrightarrow> s_id r \<noteq> s_id s"
  shows "wf_db (insertMilestones e (s_id s) 0 ms (d\<lparr>shipments := shipments d @ [s]\<rparr>))"
proof -
  let ?d = "insertMilestones e (s_id s) 0 ms (d\<lparr>shipments := shipments d @ [s]\<rparr>)"
  obtain rows where rows: "milestones ?d = milestones d @ rows" "planRows (s_id s) 0 ms (nextId d) (nextId ?d) rows"
    using insertMilestones_rows [of e "s_id s" 0 ms "d\<lparr>shipments := shipments d @ [s]\<rparr>"] by auto
  have idx: "distinct (map milestoneIndex rows)"
    using rows(2) by (simp add: planRows_def distinct_map inj_on_def)
  then have "distinct (map mKey rows)" by (auto simp: distinct_map inj_on_def)
  moreover have "mKey m \<notin> mKey ` set rows" if "m \<in> set (milestones d)" for m
    using that wf new rows(2) by (fastforce simp: wf_db_def planRows_def)
  moreover have "m_id m \<noteq> m_id r" if "m \<in> set (milestones d)" "r \<in> set rows" for m r
    using that wf rows(2) by (fastforce simp: wf_db_def planRows_def)
  moreover have "nextId d \<le> nextId ?d" using rows(2) by (simp add: planRows_def)
  moreover have "s_id s \<notin> s_id ` set (shipments d)" using new by force
  ultimately show ?thesis
    using wf rows unfolding wf_db_def insertMilestones_frame
    by (auto simp: insertMilestones_frame planRows_def intro: less_le_trans)
qed


subsection \<open>What a successful creation has checked and written\<close>

lemma insertShipment_success_iff:
  "insertShipment e s ms w = (Inr u, w') \<longleftrightarrow>
    fitsBigint (totalAmount s) \<and> list_all (\<lambda>a. findUser a w \<noteq> None) (participants s) \<and>
    findShipment (s_id s) w = None \<and>
    (referenceNumber s = None \<or> (\<forall>r \<in> set (shipments (db w)). referenceNumber r \<noteq> referenceNumber s)) \<and>
    w' = w\<lparr>db := insertMilestones e (s_id s) 0 ms ((db w)\<lparr>shipments := shipments (db w) @ [s]\<rparr>)\<rparr>"
  by (auto simp: insertShipment_def)

lemma findShipment_None_iff: "findShipment sid w = None \<longleftrightarrow> (\<forall>r \<in> set (shipments (db w)). s_id r \<noteq> sid)"
  by (auto simp: findShipment_def find_None_iff_ball)

lemma resolveTemplate_readOnly: "readOnly (resolveTemplate tid)"
  unfolding resolveTemplate_def by (cases tid) (auto intro!: leaves_intros)

lemma creationGates_readOnly: "readOnly (creationGates e dto splr tok amount)"
  unfolding creationGates_def Let_def by (intro leaves_intros)

lemma creationGates_success:
  assumes "creationGates e dto splr tok amount w = (Inr (tk, req), w')"
  shows "w' = w \<and> (kycMeetsThreshold e amount \<longrightarrow> isVerified e (cd_buyerAddress dto) w \<and> isVerified e splr w) \<and>
    tk = getToken (tokenRegistry e) tok \<and> enabledFlag tk \<and>
    assertValueWithinBounds (tokenRegistry e) tok amount = Inr () \<and>
    resolveRequiredApprovals e (cd_requiredApprovals dto) amount = Inr req"
  using assms by (auto simp: creationGates_def Let_def success_iffs)

lemma mergeRequest_readOnly: "readOnly (mergeRequest dto)"
  unfolding mergeRequest_def Let_def by (intro leaves_intros resolveTemplate_readOnly)

lemma mergeRequest_success:
  assumes "mergeRequest dto w = (Inr f, w')"
  shows "w' = w \<and> parseBigInt (cd_totalAmount dto) = Some (mf_amount f) \<and>
    (mf_milestones f = [] \<or> sum_list (map mi_paymentPercent (mf_milestones f)) = 100) \<and>
    toLowerCase (mf_arbiter f) \<noteq> toLowerCase (mf_supplier f) \<and>
    toLowerCase (mf_arbiter f) \<noteq> toLowerCase (mf_logistics f) \<and>
    toLowerCase (mf_arbiter f) \<noteq> toLowerCase (cd_buyerAddress dto)"
  using assms leaves_run [OF mergeRequest_readOnly assms]
  by (auto simp: mergeRequest_def Let_def success_iffs arbiterConflict_def truthy_def toLowerCase_def)

lemma create_success:
  assumes "create e dto w = (Inr (s, warnings), w')"
  obtains f tk req where
    "mergeRequest dto w = (Inr f, w)"
    "creationGates e dto (mf_supplier f) (mf_token f) (mf_amount f) w = (Inr (tk, req), w)"
    "s = newShipment e dto (mf_supplier f) (mf_logistics f) (mf_arbiter f) (mf_token f) tk (mf_amount f) req"
    "insertShipment e s (mf_milestones f) w = (Inr (), w\<lparr>db := db w'\<rparr>)"
proof -
  from assms obtain f w0 tk req w1 w2 where
    1: "mergeRequest dto w = (Inr f, w0)" and
    2: "creationGates e dto (mf_supplier f) (mf_token f) (mf_amount f) w0 = (Inr (tk, req), w1)" and
    3: "s = newShipment e dto (mf_supplier f) (mf_logistics f) (mf_arbiter f) (mf_token f) tk (mf_amount f) req" and
    4: "insertShipment e s (mf_milestones f) w1 = (Inr (), w2)" and
    5: "announceCreated e dto w2 = (Inr (), w')"
    by (auto simp: create_def Let_def success_iffs split: prod.splits)
  have w: "w0 = w" "w1 = w"
    using leaves_run [OF mergeRequest_readOnly 1] leaves_run [OF creationGates_readOnly 2] by auto
  have "db w' = db w2" by (rule leaves_run [OF leaves_db_announceCreated 5])
  with 4 w have "insertShipment e s (mf_milestones f) w = (Inr (), w\<lparr>db := db w'\<rparr>)"
    by (simp add: insertShipment_success_iff)
  with 1 2 3 w show thesis by (intro that) auto
qed

lemma insertShipment_effect:
  assumes "insertShipment e s ms w = (Inr (), w\<lparr>db := d'\<rparr>)"
  shows "shipments d' = shipments (db w) @ [s]"
    "\<exists>rows. milestones d' = milestones (db w) @ rows \<and> planRows (s_id s) 0 ms (nextId (db w)) (nextId d') rows"
    "wf_db (db w) \<Longrightarrow> wf_db d'"
proof -
  have d: "d' = insertMilestones e (s_id s) 0 ms ((db w)\<lparr>shipments := shipments (db w) @ [s]\<rparr>)"
    and new: "\<And>r. r \<in> set (shipments (db w)) \<Longrightarrow> s_id r \<noteq> s_id s"
    using assms unfolding insertShipment_success_iff
    by (auto simp: findShipment_None_iff dest: arg_cong [of _ _ db])
  show "shipments d' = shipments (db w) @ [s]" by (simp add: d insertMilestones_frame)
  show "\<exists>rows. milestones d' = milestones (db w) @ rows \<and> planRows (s_id s) 0 ms (nextId (db w)) (nextId d') rows"
    using insertMilestones_rows [of e "s_id s" 0 ms "(db w)\<lparr>shipments := shipments (db w) @ [s]\<rparr>"] by (simp add: d)
  show "wf_db d'" if "wf_db (db w)" using insert_keeps_wf [OF that new] by (simp add: d)
qed

text \<open>The milestone plan of a shipment right after its insertion.\<close>

lemma planRows_live:
  assumes "milestones d' = milestones d @ rows" and "planRows sid 0 ms lo hi rows"
    and "\<And>m. m \<in> set (milestones d) \<Longrightarrow> m_shipmentId m \<noteq> sid"
  shows "liveMilestones sid d' = rows"
  using assms by (auto simp: liveMilestones_def planRows_def filter_id_conv filter_empty_conv)


lemma create_runs:
  assumes "mergeRequest dto w = (Inr f, w)"
    and "creationGates e dto (mf_supplier f) (mf_token f) (mf_amount f) w = (Inr (tk, req), w)"
    and "insertShipment e (newShipment e dto (mf_supplier f) (mf_logistics f) (mf_arbiter f) (mf_token f) tk (mf_amount f) req)
      (mf_milestones f) w = (Inr (), w1)"
  shows "\<exists>ws w'. create e dto w = (Inr (newShipment e dto (mf_supplier f) (mf_logistics f) (mf_arbiter f)
      (mf_token f) tk (mf_amount f) req, ws), w')"
proof -
  obtain v w2 where "announceCreated e dto w1 = (Inr v, w2)"
    using total_announceCreated unfolding neverFails_def by blast
  with assms show ?thesis by (simp add: create_def Let_def)
qed

subsection \<open>Atomicity\<close>

lemma atomic_insertShipment: "atomic (insertShipment e s ms)"
  unfolding insertShipment_def by (intro atomic_intros atomic_total total_intros)

lemma atomic_create: "atomic (create e dto)"
  unfolding create_def Let_def case_prod_beta
  by (intro atomic_readOnly_then [OF mergeRequest_readOnly] atomic_readOnly_then [OF creationGates_readOnly]
      atomic_then_total [OF atomic_insertShipment] total_intros)

lemma atomic_clone: "atomic (clone e sid caller txt tx)"
  unfolding clone_def Let_def
  by (intro atomic_intros atomic_then_total [OF atomic_insertShipment] total_intros)

lemma atomic_cancel: "atomic (cancel e sid caller tx)"
  unfolding cancel_def by (intro atomic_intros atomic_then_total [OF atomic_updateShipment] total_intros)

lemma total_sync [total_intros]: "neverFails (syncStatusFromChain e sid)"
  unfolding syncStatusFromChain_def Let_def
  by (auto intro!: total_intros split: chainReply.splits option.splits)

lemma leaves_rest_sync [leaves_intros]: "leaves (\<lambda>w. (db w)\<lparr>shipments := []\<rparr>) (syncStatusFromChain e sid)"
proof (rule leavesI)
  fix w
  show "(db (snd (syncStatusFromChain e sid w)))\<lparr>shipments := []\<rparr> = (db w)\<lparr>shipments := []\<rparr>"
    by (cases "findShipment sid w")
      (simp_all add: syncStatusFromChain_def Let_def attempt_def run_updateShipment ignore_def setShipments_def
        split: chainReply.split option.split)
qed

lemma leaves_milestones_sync [leaves_intros]: "leaves (\<lambda>w. milestones (db w)) (syncStatusFromChain e sid)"
  using leaves_comp [OF leaves_rest_sync, of milestones] by simp

subsection \<open>The arbiter's assignment as a state machine\<close>

datatype arbiterCall =
    Replace env address address
  | Accept env address
  | Decline env address

definition arbiterStep :: "string \<Rightarrow> arbiterCall \<Rightarrow> world \<Rightarrow> world" where
  "arbiterStep sid c w = (case c of
      Replace e caller a \<Rightarrow> snd (replaceArbiter e sid caller a w)
    | Accept e caller \<Rightarrow> snd (arbiterAccept e sid caller w)
    | Decline e caller \<Rightarrow> snd (arbiterDecline e sid caller w))"

lemma findShipment_set:
  assumes "findShipment sid w = Some s" and "\<And>r. s_id (f r) = s_id r"
  shows "findShipment sid (setShipments (updateWhere (\<lambda>r. s_id r = sid) f) w) = Some (f s)"
  using assms findShipment_id [OF assms(1)]
  by (simp add: findShipment_def setShipments_def find_updateWhere)

lemma findShipment_mail [simp]: "findShipment sid (w\<lparr>mail := mb\<rparr>) = findShipment sid w"
  by (simp add: findShipment_def)

definition arbiterNeutral :: "shipment \<Rightarrow> bool" where
  "arbiterNeutral s \<longleftrightarrow> (\<forall>p \<in> {buyerAddress s, supplierAddress s, logisticsAddress s}.
     toLowerCase (arbiterAddress s) \<noteq> toLowerCase p)"

lemma arbiterStep_found:
  assumes "findShipment sid w = Some s" and "arbiterNeutral s"
  shows "\<exists>s'. findShipment sid (arbiterStep sid c w) = Some s' \<and> arbiterNeutral s' \<and>
    (arbiterStatus s = ACCEPTED \<longrightarrow> arbiterStatus s' = ACCEPTED \<and> arbiterAddress s' = arbiterAddress s)"
  using assms
  by (cases c)
    (auto simp: arbiterStep_def replaceArbiter_def arbiterAccept_def arbiterDecline_def arbiterAnswer_def
      arbiterInvite_def run_updateShipment findShipment_set arbiterNeutral_def)

definition assignmentInv :: "string \<Rightarrow> shipment \<Rightarrow> world \<Rightarrow> bool" where
  "assignmentInv sid s0 w \<longleftrightarrow> (\<exists>s. findShipment sid w = Some s \<and> arbiterNeutral s \<and>
     (arbiterStatus s0 = ACCEPTED \<longrightarrow> arbiterStatus s = ACCEPTED \<and> arbiterAddress s = arbiterAddress s0))"

interpretation arbiterRuns: step_system "arbiterStep sid" "assignmentInv sid s0"
proof unfold_locales
  fix w c assume "assignmentInv sid s0 w"
  then obtain s where "findShipment sid w = Some s" "arbiterNeutral s"
    "arbiterStatus s0 = ACCEPTED \<longrightarrow> arbiterStatus s = ACCEPTED \<and> arbiterAddress s = arbiterAddress s0"
    by (auto simp: assignmentInv_def)
  then show "assignmentInv sid s0 (arbiterStep sid c w)"
    using arbiterStep_found [of sid w s c] by (auto simp: assignmentInv_def)
qed

section \<open>Properties\<close>



text \<open>A concrete request and a world in which its four parties are registered.\<close>

definition dto0 :: createDto where
  "dto0 = \<lparr>cd_shipmentId = ''S1'', cd_templateId = None, cd_buyerAddress = ''GB'', cd_supplierAddress = Some ''GS'',
     cd_logisticsAddress = Some ''GL'', cd_arbiterAddress = Some ''GA'', cd_tokenAddress = Some ''CT'',
     cd_milestones = Some [\<lparr>mi_name = ''a'', mi_paymentPercent = 40, mi_dueAt = None, mi_dueDays = None, mi_checklist = []\<rparr>,
       \<lparr>mi_name = ''b'', mi_paymentPercent = 60, mi_dueAt = None, mi_dueDays = Some 2, mi_checklist = [(''photo'', None)]\<rparr>],
     cd_totalAmount = ''500'', cd_txHash = None, cd_description = None, cd_referenceNumber = None, cd_metadata = None,
     cd_tags = None, cd_expectedDeliveryAt = None, cd_requiredApprovals = None\<rparr>"

definition world0 :: world where
  "world0 = emptyWorld\<lparr>db := emptyDb\<lparr>users := [user0 1 ''GB'', user0 2 ''GS'', user0 3 ''GL'', user0 4 ''GA'']\<rparr>\<rparr>"

lemma parse_500: "parseBigInt ''500'' = Some 500"
  by code_simp

lemma lower_concrete: "toLowerCase ''GA'' = ''ga''" "toLowerCase ''GB'' = ''gb''" "toLowerCase ''GS'' = ''gs''"
  "toLowerCase ''GL'' = ''gl''"
  by code_simp+

definition merged0 :: mergedFields where
  "merged0 = \<lparr>mf_supplier = ''GS'', mf_logistics = ''GL'', mf_arbiter = ''GA'', mf_token = ''CT'',
     mf_milestones = the (cd_milestones dto0), mf_amount = 500\<rparr>"

lemma merge_dto0: "shipments (db w) = [] \<Longrightarrow> mergeRequest dto0 w = (Inr merged0, w)"
  by (simp add: mergeRequest_def merged0_def Let_def dto0_def findShipment_def referenceTaken_def
      resolveTemplate_def nullish_def arbiterConflict_def truthy_def parse_500 lower_concrete noTemplate_def)

lemma insert_dto0:
  "shipments (db w) = [] \<Longrightarrow> map stellarAddress (users (db w)) = [''GB'', ''GS'', ''GL'', ''GA''] \<Longrightarrow>
    \<exists>w1. insertShipment e (newShipment e dto0 ''GS'' ''GL'' ''GA'' ''CT'' tk 500 req) ms w = (Inr (), w1)"
  by (auto simp: insertShipment_success_iff newShipment_def dto0_def fitsBigint_def participants_def findUser_def
      findShipment_def find_None_iff_ball map_eq_Cons_conv)

lemma create_dto0:
  assumes "shipments (db w) = []" and "map stellarAddress (users (db w)) = [''GB'', ''GS'', ''GL'', ''GA'']"
    and g: "creationGates e dto0 ''GS'' ''CT'' 500 w = (Inr (tk, None), w)"
  shows "\<exists>s ws w'. create e dto0 w = (Inr (s, ws), w') \<and> totalAmount s = 500"
proof -
  obtain w1 where "insertShipment e (newShipment e dto0 ''GS'' ''GL'' ''GA'' ''CT'' tk 500 None) (mf_milestones merged0) w =
      (Inr (), w1)" using insert_dto0 [OF assms(1,2)] by blast
  then have "\<exists>ws w'. create e dto0 w = (Inr (newShipment e dto0 ''GS'' ''GL'' ''GA'' ''CT'' tk 500 None, ws), w')"
    using create_runs [OF merge_dto0 [OF assms(1)], of e tk None w1] g by (simp add: merged0_def)
  then obtain ws w' where "create e dto0 w = (Inr (newShipment e dto0 ''GS'' ''GL'' ''GA'' ''CT'' tk 500 None, ws), w')"
    by blast
  then show ?thesis by (intro exI conjI, assumption) (simp add: newShipment_def)
qed

lemma gates_dto0: "creationGates env0 dto0 ''GS'' ''CT'' 500 w = (Inr (getToken Map.empty ''CT'', None), w)"
  by (simp add: creationGates_def Let_def dto0_def env0_def kycMeetsThreshold_def getRequirements_def getToken_def
      assertValueWithinBounds_def resolveRequiredApprovals_def)

lemma wf_world0: "wf_db (db world0)"
  by (simp add: world0_def wf_db_def concrete_defs)


text \<open>The KYC gate. A shipment whose value reaches the configured threshold is only created when
  both its buyer and its supplier hold a verification that has not lapsed at that moment, whether
  the supplier came from the request or from the template.\<close>

lemma high_value_create_needs_kyc:
  assumes "create e dto w = (Inr (s, warnings), w')" and "kycMeetsThreshold e (totalAmount s)"
  shows "isVerified e (buyerAddress s) w \<and> isVerified e (supplierAddress s) w"
proof -
  from assms(1) obtain f tk req where "mergeRequest dto w = (Inr f, w)" and
    g: "creationGates e dto (mf_supplier f) (mf_token f) (mf_amount f) w = (Inr (tk, req), w)"
    and s: "s = newShipment e dto (mf_supplier f) (mf_logistics f) (mf_arbiter f) (mf_token f) tk (mf_amount f) req"
    and "insertShipment e s (mf_milestones f) w = (Inr (), w\<lparr>db := db w'\<rparr>)" by (rule create_success)
  from creationGates_success [OF g] assms(2) show ?thesis by (simp add: s newShipment_def)
qed

lemma high_value_create_needs_kyc_witness:
  "\<exists>s ws w'. create (env0\<lparr>kycThreshold := 500\<rparr>)
      dto0 (world0\<lparr>db := (db world0)\<lparr>users := map (\<lambda>u. u\<lparr>u_kycStatus := VERIFIED\<rparr>) (users (db world0))\<rparr>\<rparr>) = (Inr (s, ws), w') \<and>
    isVerified (env0\<lparr>kycThreshold := 500\<rparr>) (supplierAddress s)
      (world0\<lparr>db := (db world0)\<lparr>users := map (\<lambda>u. u\<lparr>u_kycStatus := VERIFIED\<rparr>) (users (db world0))\<rparr>\<rparr>)"
proof -
  let ?e = "env0\<lparr>kycThreshold := 500\<rparr>"
  let ?w = "world0\<lparr>db := (db world0)\<lparr>users := map (\<lambda>u. u\<lparr>u_kycStatus := VERIFIED\<rparr>) (users (db world0))\<rparr>\<rparr>"
  have "creationGates ?e dto0 ''GS'' ''CT'' 500 ?w = (Inr (getToken Map.empty ''CT'', None), ?w)"
    by (simp add: creationGates_def Let_def dto0_def concrete_defs kycMeetsThreshold_def getRequirements_def getToken_def
        assertValueWithinBounds_def resolveRequiredApprovals_def isVerified_def isActiveVerification_def findUser_def
        world0_def)
  from create_dto0 [OF _ _ this] have "\<exists>s ws w'. create ?e dto0 ?w = (Inr (s, ws), w') \<and> totalAmount s = 500"
    by (simp add: world0_def concrete_defs)
  then obtain s ws w' where run: "create ?e dto0 ?w = (Inr (s, ws), w')" and "totalAmount s = 500" by blast
  moreover have "kycMeetsThreshold ?e 500" by (simp add: kycMeetsThreshold_def getRequirements_def env0_def)
  ultimately show ?thesis using high_value_create_needs_kyc [OF run] by auto
qed

text \<open>C24: the arbiter's assignment. From a shipment whose arbiter is not one of the parties, no sequence
  of replacements, acceptances and refusals by any callers makes a party the arbiter, and once
  the arbiter has accepted, neither the arbiter nor the acceptance ever changes.\<close>

theorem arbiter_assignment_safe:
  assumes "findShipment sid w = Some s0" and "arbiterNeutral s0"
  shows "\<exists>s. findShipment sid (fold (arbiterStep sid) calls w) = Some s \<and> arbiterNeutral s \<and>
    (arbiterStatus s0 = ACCEPTED \<longrightarrow> arbiterStatus s = ACCEPTED \<and> arbiterAddress s = arbiterAddress s0)"
proof -
  have "assignmentInv sid s0 w" using assms by (auto simp: assignmentInv_def)
  from arbiterRuns.run_inv [OF this] show ?thesis by (simp add: assignmentInv_def)
qed

theorem arbiter_assignment_safe_witness:
  "let w = emptyWorld\<lparr>db := emptyDb\<lparr>shipments := [(shipment0 ''S'')\<lparr>arbiterStatus := ACCEPTED\<rparr>]\<rparr>\<rparr>
   in \<exists>s. findShipment ''S'' (fold (arbiterStep ''S'') [Replace env0 ''GB'' ''GX'', Decline env0 ''GA''] w) = Some s \<and>
      arbiterAddress s = ''GA''"
proof -
  let ?s = "(shipment0 ''S'')\<lparr>arbiterStatus := ACCEPTED\<rparr>"
  have 1: "findShipment ''S'' (emptyWorld\<lparr>db := emptyDb\<lparr>shipments := [?s]\<rparr>\<rparr>) = Some ?s"
    by (simp add: findShipment_def concrete_defs)
  have 2: "arbiterNeutral ?s" by (simp add: arbiterNeutral_def shipment0_def lower_concrete)
  from arbiter_assignment_safe [OF 1 2, of "[Replace env0 ''GB'' ''GX'', Decline env0 ''GA'']"]
  show ?thesis by (auto simp: Let_def shipment0_def)
qed


text \<open>cloning skips every gate of creation. The buyer of an existing shipment can clone it at any
  amount: no KYC verification, no value bounds, no disabled-token check and no approvals
  requirement apply to the copy, which is ACTIVE at once.\<close>

theorem clone_skips_creation_gates:
  assumes "findShipment sid w = Some src" and "buyerAddress src = caller" and "parseBigInt txt = Some amount"
    and "fitsBigint amount" and "list_all (\<lambda>a. findUser a w \<noteq> None) (participants src)"
    and "findShipment (randomUuid e) w = None"
  shows "\<exists>s w'. clone e sid caller txt tx w = (Inr s, w') \<and> findShipment (s_id s) w' = Some s \<and>
    totalAmount s = amount \<and> s_status s = ACTIVE \<and> requiredApprovals s = None"
proof -
  let ?s = "cloneRow e src (getToken (tokenRegistry e) (tokenAddress src)) amount tx"
  let ?ms = "cloneMilestones sid (db w)"
  let ?w1 = "w\<lparr>db := insertMilestones e (s_id ?s) 0 ?ms ((db w)\<lparr>shipments := shipments (db w) @ [?s]\<rparr>)\<rparr>"
  have "insertShipment e ?s ?ms w = (Inr (), ?w1)"
    using assms(4-6) by (simp add: insertShipment_success_iff cloneRow_def participants_def)
  moreover obtain mb where "arbiterInvite e (arbiterAddress src) (s_id ?s) ?w1 = (Inr (), ?w1\<lparr>mail := mb\<rparr>)"
    using run_arbiterInvite by blast
  ultimately have run: "clone e sid caller txt tx w = (Inr ?s, ?w1\<lparr>mail := mb\<rparr>)"
    using assms(1-3) by (simp add: clone_def Let_def)
  have "findShipment (s_id ?s) ?w1 = Some ?s"
    using assms(6) by (simp add: findShipment_def insertMilestones_frame find_append cloneRow_def)
  with run show ?thesis by (intro exI [of _ ?s] exI) (auto simp: cloneRow_def)
qed

theorem clone_skips_creation_gates_witness:
  "let w = world0\<lparr>db := (db world0)\<lparr>shipments := [shipment0 ''S'']\<rparr>\<rparr>; e = env0\<lparr>kycThreshold := 400\<rparr>
   in kycMeetsThreshold e 500 \<and> \<not> isVerified e ''GB'' w \<and>
      (\<exists>s w'. clone e ''S'' ''GB'' ''500'' ''tx'' w = (Inr s, w') \<and> totalAmount s = 500 \<and> s_status s = ACTIVE)"
proof -
  let ?w = "world0\<lparr>db := (db world0)\<lparr>shipments := [shipment0 ''S'']\<rparr>\<rparr>" and ?e = "env0\<lparr>kycThreshold := 400\<rparr>"
  have "findShipment ''S'' ?w = Some (shipment0 ''S'')" "findShipment (randomUuid ?e) ?w = None"
    "list_all (\<lambda>a. findUser a ?w \<noteq> None) (participants (shipment0 ''S''))"
    by (simp_all add: findShipment_def findUser_def participants_def world0_def concrete_defs)
  then have "\<exists>s w'. clone ?e ''S'' ''GB'' ''500'' ''tx'' ?w = (Inr s, w') \<and> totalAmount s = 500 \<and> s_status s = ACTIVE"
    using clone_skips_creation_gates [of "''S''" ?w "shipment0 ''S''" "''GB''" "''500''" 500 ?e "''tx''"] parse_500
    by (auto simp: shipment0_def fitsBigint_def)
  moreover have "kycMeetsThreshold ?e 500" "\<not> isVerified ?e ''GB'' ?w"
    by (simp_all add: kycMeetsThreshold_def getRequirements_def isVerified_def isActiveVerification_def findUser_def
        world0_def concrete_defs)
  ultimately show ?thesis by (simp add: Let_def)
qed

end
