(* ===== verification/Shipment_Edits.thy ===== *)
theory Shipment_Edits
  imports Shipments "HOL-Library.Char_ord" "HOL-Library.List_Lexorder"
begin

text \<open>
  The editing and reading side of \<open>ShipmentsService\<close>: entity tags and conditional updates, field-level
  diffs (\<open>src/src/modules/shipments/shipment-diff.util.ts\<close>), metadata updates, tags, duplicate
  detection, refund details, roles, notes, favorites, watchers and tracking. An operation with a
  conditional write is split into the half that reads and checks and the half that commits, so
  that the theorems can put other writers in between.
\<close>

section \<open>Field-level diffs\<close>

definition jsonEscape :: "char \<Rightarrow> string" where
  "jsonEscape c = (let n = (of_char c :: nat); hex = (\<lambda>k. ''0123456789abcdef'' ! k) in
     if c = CHR 0x22 then [CHR 0x5C, CHR 0x22]
     else if c = CHR 0x5C then [CHR 0x5C, CHR 0x5C]
     else if n = 8 then [CHR 0x5C, CHR ''b''] else if n = 9 then [CHR 0x5C, CHR ''t'']
     else if n = 10 then [CHR 0x5C, CHR ''n''] else if n = 12 then [CHR 0x5C, CHR ''f'']
     else if n = 13 then [CHR 0x5C, CHR ''r'']
     else if n < 32 then [CHR 0x5C, CHR ''u'', CHR ''0'', CHR ''0'', hex (n div 16), hex (n mod 16)]
     else [c])"

definition jsonQuote :: "string \<Rightarrow> string" where
  "jsonQuote s = CHR 0x22 # concat (map jsonEscape s) @ [CHR 0x22]"

fun joinComma :: "string list \<Rightarrow> string" where
  "joinComma [] = []"
| "joinComma [s] = s"
| "joinComma (s # ss) = s @ '','' @ joinComma ss"

primrec stableStringify :: "json \<Rightarrow> string" where
  "stableStringify JNull = ''null''"
| "stableStringify (JBool b) = (if b then ''true'' else ''false'')"
| "stableStringify (JNum i) = showInt i"
| "stableStringify (JStr s) = jsonQuote s"
| "stableStringify (JArr xs) = ''['' @ joinComma (map stableStringify xs) @ '']''"
| "stableStringify (JObj kvs) = ''{'' @ joinComma (map (\<lambda>(k, v). jsonQuote k @ '':'' @ v)
     (sort_key fst (map (map_prod id stableStringify) kvs))) @ ''}''"

definition sameValue :: "json \<Rightarrow> json \<Rightarrow> bool" where
  "sameValue a b \<longleftrightarrow> stableStringify a = stableStringify b"

definition isPlainObject :: "json \<Rightarrow> bool" where
  "isPlainObject j = (case j of JObj _ \<Rightarrow> True | _ \<Rightarrow> False)"

text \<open>Setting a property of an object: an existing key keeps its place.\<close>

definition putKey :: "string \<times> json \<Rightarrow> (string \<times> json) list \<Rightarrow> (string \<times> json) list" where
  "putKey = (\<lambda>(k, v) m. if k \<in> fst ` set m then map (\<lambda>(k', v'). (k', if k' = k then v else v')) m else m @ [(k, v)])"

primrec flattenToDotPaths :: "json \<Rightarrow> string \<Rightarrow> (string \<times> json) list" where
  "flattenToDotPaths JNull = (\<lambda>prefix. [(prefix, JNull)])"
| "flattenToDotPaths (JBool b) = (\<lambda>prefix. [(prefix, JBool b)])"
| "flattenToDotPaths (JNum i) = (\<lambda>prefix. [(prefix, JNum i)])"
| "flattenToDotPaths (JStr s) = (\<lambda>prefix. [(prefix, JStr s)])"
| "flattenToDotPaths (JArr xs) = (\<lambda>prefix. [(prefix, JArr xs)])"
| "flattenToDotPaths (JObj kvs) = (\<lambda>prefix. if kvs = [] then [(prefix, JObj [])]
     else fold (fold putKey) (map (\<lambda>(k, g). g (prefix @ ''.'' @ k)) (map (map_prod id flattenToDotPaths) kvs)) [])"

record fieldChange =
  fc_field :: string
  fc_before :: json
  fc_after :: json

definition orNull :: "json option \<Rightarrow> json" where
  "orNull v = (case v of None \<Rightarrow> JNull | Some j \<Rightarrow> j)"

text \<open>One round of the loop of \<open>computeFieldChanges\<close>: the changes of one top-level field.\<close>

definition fieldChanges :: "string \<times> json \<times> json \<Rightarrow> fieldChange list" where
  "fieldChanges = (\<lambda>(field, b, a).
     if isPlainObject b \<or> isPlainObject a then
       let fb = (if isPlainObject b then flattenToDotPaths b field else [(field, b)]);
           fa = (if isPlainObject a then flattenToDotPaths a field else [(field, a)]);
           paths = sort (remdups (map fst fb @ map fst fa))
       in map (\<lambda>p. \<lparr>fc_field = p, fc_before = orNull (map_of fb p), fc_after = orNull (map_of fa p)\<rparr>)
            (filter (\<lambda>p. \<not> sameValue (orNull (map_of fb p)) (orNull (map_of fa p))) paths)
     else if \<not> sameValue b a then [\<lparr>fc_field = field, fc_before = b, fc_after = a\<rparr>] else [])"

definition computeFieldChanges :: "(string \<times> json \<times> json) list \<Rightarrow> fieldChange list" where
  "computeFieldChanges fs = concat (map fieldChanges fs)"

definition isHiddenField :: "string \<Rightarrow> bool" where
  "isHiddenField field \<longleftrightarrow> list_ex (\<lambda>seg. startsWith ''_'' seg \<or> toLowerCase seg = ''internal'')
     (drop 1 (splitOn (CHR ''.'') field))"

definition extractChanges :: "json \<Rightarrow> fieldChange list" where
  "extractChanges meta = (case jsonGet ''changes'' meta of
      Some (JArr raw) \<Rightarrow> concat (map (\<lambda>c. case jsonGet ''field'' c of
          Some (JStr f) \<Rightarrow> [\<lparr>fc_field = f, fc_before = orNull (jsonGet ''before'' c), fc_after = orNull (jsonGet ''after'' c)\<rparr>]
        | _ \<Rightarrow> []) raw)
    | _ \<Rightarrow> [])"

text \<open>\<open>getHistoryDiff\<close> on the metadata of the audit entry it found.\<close>

definition historyDiff :: "bool \<Rightarrow> json \<Rightarrow> fieldChange list" where
  "historyDiff isAdmin meta = (let changes = extractChanges meta in
     if isAdmin then changes else filter (\<lambda>c. \<not> isHiddenField (fc_field c)) changes)"

section \<open>Entity tags\<close>

definition shipmentEtag :: "env \<Rightarrow> string \<Rightarrow> time \<Rightarrow> time option \<Rightarrow> string" where
  "shipmentEtag e sid updated msUpdated =
     ''W/'' @ [CHR 0x22] @ sha1Hex e (sid @ '':'' @ isoString updated @ '':'' @
       (case msUpdated of None \<Rightarrow> [] | Some t \<Rightarrow> isoString t)) @ [CHR 0x22]"

definition normalizeEtag :: "string \<Rightarrow> string" where
  "normalizeEtag v = (let t = trim v in if startsWith ''W/'' t then drop 2 t else t)"

definition ifMatchSatisfied :: "string \<Rightarrow> string \<Rightarrow> bool" where
  "ifMatchSatisfied ifMatch currentEtag \<longleftrightarrow>
     list_ex (\<lambda>v. v = ''*'' \<or> v = normalizeEtag currentEtag) (map normalizeEtag (splitOn (CHR '','') ifMatch))"

definition detailEtag :: "env \<Rightarrow> shipment \<Rightarrow> db \<Rightarrow> string" where
  "detailEtag e s d = (let us = map m_updatedAt (liveMilestones (s_id s) d) in
     shipmentEtag e (s_id s) (s_updatedAt s) (if us = [] then None else Some (Max (set us))))"

definition getDetailEtag :: "env \<Rightarrow> string \<Rightarrow> string act" where
  "getDetailEtag e sid =
     andThen (reads (findShipment sid)) (\<lambda>found.
     requireSome found NotFoundException (\<lambda>s.
     reads (\<lambda>w. detailEtag e s (db w))))"

definition assertIfMatch :: "env \<Rightarrow> string \<Rightarrow> string option \<Rightarrow> unit act" where
  "assertIfMatch e sid ifMatch =
     (if \<not> truthy ifMatch then require (\<not> requireIfMatch e) PreconditionFailedException (ret ())
      else andThen (getDetailEtag e sid) (\<lambda>etag.
           require (ifMatchSatisfied (the ifMatch) etag) PreconditionFailedException (ret ())))"

text \<open>
  \<open>conditionalUpdate\<close> with the row that was read: with an If-Match the write is pinned to the
  \<open>updatedAt\<close> of that row. A new reference number that another row holds violates its unique index.
\<close>

definition conditionalUpdate :: "env \<Rightarrow> shipment \<Rightarrow> string option \<Rightarrow> (shipment \<Rightarrow> shipment) \<Rightarrow> shipment act" where
  "conditionalUpdate e s ifMatch f =
     andThen (reads (\<lambda>w. find (\<lambda>r. s_id r = s_id s \<and> (truthy ifMatch \<longrightarrow> s_updatedAt r = s_updatedAt s))
        (shipments (db w)))) (\<lambda>row.
     requireSome row (if truthy ifMatch then PreconditionFailedException else PrismaP2025) (\<lambda>cur.
     andThen (reads (\<lambda>w. referenceNumber (f cur) \<noteq> None \<and> referenceNumber (f cur) \<noteq> referenceNumber cur \<and>
        (\<exists>r \<in> set (shipments (db w)). referenceNumber r = referenceNumber (f cur)))) (\<lambda>dup.
     require (\<not> dup) PrismaP2002 (
     updateShipment (now e) (s_id s) f))))"

section \<open>Updating the descriptive fields\<close>

text \<open>\<open>None\<close> is an absent property, \<open>Some None\<close> an explicit null.\<close>

record updateDto =
  ud_description :: "string option option"
  ud_referenceNumber :: "string option option"
  ud_metadata :: "json option option"
  ud_tags :: "string list option"
  ud_expectedDeliveryAt :: "time option option"

definition applyUpdate :: "updateDto \<Rightarrow> shipment \<Rightarrow> shipment" where
  "applyUpdate dto s = s\<lparr>
     description := (case ud_description dto of Some v \<Rightarrow> v | None \<Rightarrow> description s),
     referenceNumber := (case ud_referenceNumber dto of Some v \<Rightarrow> v | None \<Rightarrow> referenceNumber s),
     s_metadata := (case ud_metadata dto of Some v \<Rightarrow> v | None \<Rightarrow> s_metadata s),
     tags := (case ud_tags dto of Some v \<Rightarrow> v | None \<Rightarrow> tags s),
     expectedDeliveryAt := (case ud_expectedDeliveryAt dto of Some v \<Rightarrow> v | None \<Rightarrow> expectedDeliveryAt s)\<rparr>"

definition strJson :: "string option \<Rightarrow> json" where
  "strJson v = (case v of None \<Rightarrow> JNull | Some s \<Rightarrow> JStr s)"

text \<open>A \<open>Date\<close> passes \<open>isPlainObject\<close> and has no own keys, so to the diff it is the empty object.\<close>

definition dateJson :: "time option \<Rightarrow> json" where
  "dateJson v = (case v of None \<Rightarrow> JNull | Some _ \<Rightarrow> JObj [])"

definition tagsJson :: "string list \<Rightarrow> json" where
  "tagsJson ts = JArr (map JStr ts)"

definition changedFields :: "updateDto \<Rightarrow> shipment \<Rightarrow> (string \<times> json \<times> json) list" where
  "changedFields dto s =
     (case ud_description dto of None \<Rightarrow> [] | Some v \<Rightarrow> [(''description'', strJson (description s), strJson v)]) @
     (case ud_referenceNumber dto of None \<Rightarrow> [] | Some v \<Rightarrow> [(''referenceNumber'', strJson (referenceNumber s), strJson v)]) @
     (case ud_metadata dto of None \<Rightarrow> [] | Some v \<Rightarrow> [(''metadata'', orNull (s_metadata s), orNull v)]) @
     (case ud_tags dto of None \<Rightarrow> [] | Some v \<Rightarrow> [(''tags'', tagsJson (tags s), tagsJson v)]) @
     (case ud_expectedDeliveryAt dto of None \<Rightarrow> [] | Some v \<Rightarrow>
        [(''expectedDeliveryAt'', dateJson (expectedDeliveryAt s), dateJson v)])"

definition updateCheck :: "env \<Rightarrow> string \<Rightarrow> address \<Rightarrow> updateDto \<Rightarrow> string option \<Rightarrow> shipment act" where
  "updateCheck e sid caller dto ifMatch =
     andThen (reads (findShipment sid)) (\<lambda>found.
     requireSome found NotFoundException (\<lambda>s.
     andThen (assertIfMatch e sid ifMatch) (\<lambda>_.
     require (buyerAddress s = caller) ForbiddenException (
     let r = (case ud_referenceNumber dto of Some v \<Rightarrow> v | None \<Rightarrow> None) in
     andThen (reads (referenceTaken r)) (\<lambda>taken.
     require (\<not> (truthy r \<and> r \<noteq> referenceNumber s \<and> taken)) ConflictException (
     require (ud_expectedDeliveryAt dto = None \<or> s_status s = ACTIVE) ConflictException (
     ret s)))))))"

text \<open>
  The audit entry of a changed field names a variable \<open>callerId\<close> that the method does not have:
  evaluating it throws after the row has been written.
\<close>

definition updateCommit :: "env \<Rightarrow> address \<Rightarrow> updateDto \<Rightarrow> string option \<Rightarrow> shipment \<Rightarrow> shipment act" where
  "updateCommit e caller dto ifMatch s =
     andThen (conditionalUpdate e s ifMatch (applyUpdate dto)) (\<lambda>updated.
     require (computeFieldChanges (changedFields dto s) = []) RuntimeError (
     andThen (invalidateUserCache caller) (\<lambda>_.
     ret updated)))"

definition update :: "env \<Rightarrow> string \<Rightarrow> address \<Rightarrow> updateDto \<Rightarrow> string option \<Rightarrow> shipment act" where
  "update e sid caller dto ifMatch = andThen (updateCheck e sid caller dto ifMatch) (updateCommit e caller dto ifMatch)"

section \<open>Tags\<close>

fun normalizeTags :: "string list \<Rightarrow> (string \<times> string) list \<Rightarrow> (string \<times> string) list result" where
  "normalizeTags [] acc = Inr acc"
| "normalizeTags (t # ts) acc =
     (let trimmed = trim t; key = toLowerCase trimmed in
      if length trimmed < 1 \<or> length trimmed > 30 then Inl BadRequestException
      else normalizeTags ts (if key \<in> fst ` set acc then acc else acc @ [(key, trimmed)]))"

definition replaceTags :: "env \<Rightarrow> string \<Rightarrow> string list option \<Rightarrow> address option \<Rightarrow> uuid option \<Rightarrow> string option \<Rightarrow> shipment act" where
  "replaceTags e sid newTags caller callerId ifMatch =
     andThen (reads (findShipment sid)) (\<lambda>found.
     requireSome found NotFoundException (\<lambda>s.
     andThen (assertIfMatch e sid ifMatch) (\<lambda>_.
     requireSome newTags BadRequestException (\<lambda>ts.
     liftResult (normalizeTags ts []) (\<lambda>normalized.
     require (length normalized \<le> 20) BadRequestException (
     let nextTags = map snd normalized in
     andThen (conditionalUpdate e s ifMatch (\<lambda>r. r\<lparr>tags := nextTags\<rparr>)) (\<lambda>updated.
     andThen (auditRecord \<lparr>au_actorId = callerId,
        au_actorAddress = (case caller of Some a \<Rightarrow> a | None \<Rightarrow> ''unknown''),
        au_action = ''SHIPMENT_TAGS_REPLACED'', au_resourceType = ''Shipment'', au_resourceId = ByName sid,
        au_metadata = JObj [(''previousTags'', tagsJson (tags s)), (''nextTags'', tagsJson nextTags)]\<rparr>) (\<lambda>_.
     ret updated))))))))"

definition addTag :: "env \<Rightarrow> string \<Rightarrow> address \<Rightarrow> string \<Rightarrow> shipment act" where
  "addTag e sid caller tag =
     andThen (reads (findShipment sid)) (\<lambda>found.
     requireSome found NotFoundException (\<lambda>s.
     require (buyerAddress s = caller) ForbiddenException (
     require (s_status s = ACTIVE) ConflictException (
     require (tag \<notin> set (tags s)) ConflictException (
     andThen (updateShipment (now e) sid (\<lambda>r. r\<lparr>tags := tags r @ [tag]\<rparr>)) (\<lambda>updated.
     andThen (invalidateUserCache caller) (\<lambda>_.
     ret updated)))))))"

text \<open>The raw \<open>UPDATE\<close> with \<open>array_remove\<close> does not touch \<open>updatedAt\<close>.\<close>

definition removeTag :: "string \<Rightarrow> address \<Rightarrow> string \<Rightarrow> shipment option act" where
  "removeTag sid caller tag =
     andThen (reads (findShipment sid)) (\<lambda>found.
     requireSome found NotFoundException (\<lambda>s.
     require (buyerAddress s = caller) ForbiddenException (
     require (s_status s = ACTIVE) ConflictException (
     require (tag \<in> set (tags s)) NotFoundException (
     andThen (modifyDb (\<lambda>d. d\<lparr>shipments := updateWhere (\<lambda>r. s_id r = sid)
        (\<lambda>r. r\<lparr>tags := removeAll tag (tags r)\<rparr>) (shipments d)\<rparr>)) (\<lambda>_.
     andThen (reads (findShipment sid)) (\<lambda>updated.
     andThen (invalidateUserCache caller) (\<lambda>_.
     ret updated))))))))"

section \<open>Possible duplicates\<close>

datatype matchReason = SAME_SUPPLIER_TOKEN_AMOUNT_WITHIN_7_DAYS | SAME_REFERENCE_NUMBER

record duplicateDto =
  dd_supplierAddress :: "address option"
  dd_tokenAddress :: "address option"
  dd_totalAmount :: "string option"
  dd_referenceNumber :: "string option"

definition DUPLICATE_WINDOW_MS :: int where
  "DUPLICATE_WINDOW_MS = 7 * 24 * 60 * 60 * 1000"

definition findPossibleDuplicates :: "env \<Rightarrow> address \<Rightarrow> duplicateDto \<Rightarrow> (string \<times> matchReason list) list act" where
  "findPossibleDuplicates e buyer dto =
     (let since = now e - DUPLICATE_WINDOW_MS in
      requireSome (case dd_totalAmount dto of None \<Rightarrow> Some None | Some t \<Rightarrow> map_option Some (parseBigInt t))
        BadRequestException (\<lambda>amount.
      let byAmount = (truthy (dd_supplierAddress dto) \<and> truthy (dd_tokenAddress dto) \<and> amount \<noteq> None);
          sameDeal = (\<lambda>s. Some (supplierAddress s) = dd_supplierAddress dto \<and>
            Some (tokenAddress s) = dd_tokenAddress dto \<and> Some (totalAmount s) = amount \<and> s_createdAt s \<ge> since);
          sameRef = (\<lambda>s. truthy (dd_referenceNumber dto) \<and> referenceNumber s = dd_referenceNumber dto) in
      if \<not> byAmount \<and> \<not> truthy (dd_referenceNumber dto) then ret []
      else reads (\<lambda>w. map (\<lambda>s. (s_id s,
          (if amount \<noteq> None \<and> sameDeal s then [SAME_SUPPLIER_TOKEN_AMOUNT_WITHIN_7_DAYS] else []) @
          (if sameRef s then [SAME_REFERENCE_NUMBER] else [])))
        (sort_key (\<lambda>s. - s_createdAt s) (filter (\<lambda>s. buyerAddress s = buyer \<and> s_status s = ACTIVE \<and>
          (byAmount \<and> sameDeal s \<or> sameRef s)) (shipments (db w)))))))"

section \<open>Refund details\<close>

text \<open>\<open>BigInt(value)\<close> of a JSON value; \<open>None\<close> where it throws.\<close>

definition bigIntOf :: "json \<Rightarrow> int option" where
  "bigIntOf j = (case j of JNum n \<Rightarrow> Some n | JStr s \<Rightarrow> parseBigInt s | JBool b \<Rightarrow> Some (if b then 1 else 0) | _ \<Rightarrow> None)"

definition refundedAmountRaw :: "shipment \<Rightarrow> json \<Rightarrow> int" where
  "refundedAmountRaw s payload = (case payload of
      JArr (_ # p # _) \<Rightarrow> (case p of JNull \<Rightarrow> 0 | _ \<Rightarrow> (case bigIntOf p of Some n \<Rightarrow> n | None \<Rightarrow> totalAmount s))
    | _ \<Rightarrow> totalAmount s)"

record refundDetail =
  rd_cancelledAt :: time
  rd_refundTxHash :: string
  rd_refundedAmount :: string
  rd_refundedTo :: address

definition getRefundDetail :: "string \<Rightarrow> refundDetail act" where
  "getRefundDetail sid =
     andThen (reads (findShipment sid)) (\<lambda>found.
     requireSome found NotFoundException (\<lambda>s.
     requireSome (cancelledAt s) NotFoundException (\<lambda>cancelled.
     andThen (reads (\<lambda>w. sort_key (\<lambda>ev. - ce_ledger ev)
        (filter (\<lambda>ev. ce_shipmentId ev = Some sid \<and> ce_eventName ev = ''shipment_cancelled'') (chainEvents (db w))))) (\<lambda>evs.
     case evs of
       [] \<Rightarrow> throw InternalServerErrorException
     | ev # _ \<Rightarrow> ret \<lparr>rd_cancelledAt = cancelled,
         rd_refundTxHash = (case refundTxHash s of Some h \<Rightarrow> h | None \<Rightarrow> ce_txHash ev),
         rd_refundedAmount = toHumanAmount (refundedAmountRaw s (ce_payload ev)) (tokenDecimals s),
         rd_refundedTo = buyerAddress s\<rparr>))))"

section \<open>Roles, notes, favorites, watchers\<close>

definition getCallerRole :: "string \<Rightarrow> address \<Rightarrow> bool \<Rightarrow> userRole option act" where
  "getCallerRole sid addr isAdmin =
     (if isAdmin then ret (Some ADMIN) else
      andThen (reads (findShipment sid)) (\<lambda>found.
      requireSome found NotFoundException (\<lambda>s.
      ret (if addr = buyerAddress s then Some BUYER else if addr = supplierAddress s then Some SUPPLIER
           else if addr = logisticsAddress s then Some LOGISTICS else if addr = arbiterAddress s then Some ARBITER
           else None))))"

definition bulkStatus :: "string list \<Rightarrow> address \<Rightarrow> bool \<Rightarrow> world \<Rightarrow> (string \<times> shipmentStatus) list" where
  "bulkStatus ids caller isAdmin w = map (\<lambda>s. (s_id s, s_status s))
     (filter (\<lambda>s. s_id s \<in> set ids \<and> (isAdmin \<or> caller \<in> set (participants s))) (shipments (db w)))"

record roleSummary =
  asBuyer :: nat
  asSupplier :: nat
  asLogistics :: nat
  asArbiter :: nat
  rs_total :: nat

definition getRoleSummary :: "address \<Rightarrow> world \<Rightarrow> roleSummary" where
  "getRoleSummary a w = (let active = filter (\<lambda>s. s_status s = ACTIVE) (shipments (db w)) in
     \<lparr>asBuyer = length (filter (\<lambda>s. buyerAddress s = a) active),
      asSupplier = length (filter (\<lambda>s. supplierAddress s = a) active),
      asLogistics = length (filter (\<lambda>s. logisticsAddress s = a) active),
      asArbiter = length (filter (\<lambda>s. arbiterAddress s = a) active),
      rs_total = length (remdups (map s_id (filter (\<lambda>s. a \<in> set (participants s)) active)))\<rparr>)"

definition addNote :: "env \<Rightarrow> string \<Rightarrow> uuid \<Rightarrow> string \<Rightarrow> shipmentNote act" where
  "addNote e sid author body =
     andThen (reads (findShipment sid)) (\<lambda>found.
     requireSome found NotFoundException (\<lambda>s.
     andThen freshId (\<lambda>i.
     let n = \<lparr>sn_id = i, sn_shipmentId = sid, sn_authorId = author, sn_body = body, sn_createdAt = now e\<rparr> in
     andThen (modifyDb (\<lambda>d. d\<lparr>shipmentNotes := shipmentNotes d @ [n]\<rparr>)) (\<lambda>_.
     andThen (auditRecord \<lparr>au_actorId = Some author, au_actorAddress = [], au_action = ''shipment.note_added'',
        au_resourceType = ''Shipment'', au_resourceId = ByName sid, au_metadata = JObj []\<rparr>) (\<lambda>_.
     ret n)))))"

definition listNotes :: "string \<Rightarrow> shipmentNote list act" where
  "listNotes sid =
     andThen (reads (findShipment sid)) (\<lambda>found.
     requireSome found NotFoundException (\<lambda>s.
     reads (\<lambda>w. sort_key (\<lambda>n. - sn_createdAt n) (filter (\<lambda>n. sn_shipmentId n = sid) (shipmentNotes (db w))))))"

definition favoriteShipment :: "string \<Rightarrow> uuid \<Rightarrow> unit act" where
  "favoriteShipment sid uid =
     andThen (reads (findShipment sid)) (\<lambda>found.
     requireSome found NotFoundException (\<lambda>s.
     andThen (reads (\<lambda>w. find (\<lambda>f. f_shipmentId f = sid \<and> f_userId f = uid) (favorites (db w)))) (\<lambda>existing.
     whenA (existing = None) (modifyDb (\<lambda>d. d\<lparr>favorites := favorites d @ [\<lparr>f_shipmentId = sid, f_userId = uid\<rparr>]\<rparr>)))))"

definition unfavoriteShipment :: "string \<Rightarrow> uuid \<Rightarrow> unit act" where
  "unfavoriteShipment sid uid = modifyDb (\<lambda>d. d\<lparr>favorites :=
     filter (\<lambda>f. \<not> (f_shipmentId f = sid \<and> f_userId f = uid)) (favorites d)\<rparr>)"

definition watchShipment :: "string \<Rightarrow> address \<Rightarrow> uuid act" where
  "watchShipment sid addr =
     andThen (reads (findUser addr)) (\<lambda>u0.
     requireSome u0 NotFoundException (\<lambda>u.
     andThen (reads (findShipment sid)) (\<lambda>found.
     requireSome found NotFoundException (\<lambda>s.
     andThen (reads (\<lambda>w. find (\<lambda>x. w_shipmentId x = sid \<and> w_userId x = u_id u) (watchers (db w)))) (\<lambda>existing.
     andThen (whenA (existing = None)
        (modifyDb (\<lambda>d. d\<lparr>watchers := watchers d @ [\<lparr>w_shipmentId = sid, w_userId = u_id u\<rparr>]\<rparr>))) (\<lambda>_.
     ret (u_id u)))))))"

definition unwatchShipment :: "string \<Rightarrow> address \<Rightarrow> unit act" where
  "unwatchShipment sid addr =
     andThen (reads (findUser addr)) (\<lambda>u0.
     case u0 of None \<Rightarrow> ret ()
     | Some u \<Rightarrow> modifyDb (\<lambda>d. d\<lparr>watchers :=
         filter (\<lambda>x. \<not> (w_shipmentId x = sid \<and> w_userId x = u_id u)) (watchers d)\<rparr>))"

section \<open>Tracking\<close>

record trackingDto =
  td_location :: string
  td_latitude :: "json option"
  td_longitude :: "json option"
  td_status :: string
  td_estimatedArrival :: "time option"
  td_notes :: "string option"

definition latestTracking :: "string \<Rightarrow> world \<Rightarrow> trackingUpdate option" where
  "latestTracking sid w = (case sort_key (\<lambda>t. - tr_createdAt t)
     (filter (\<lambda>t. tr_shipmentId t = sid) (trackingUpdates (db w))) of [] \<Rightarrow> None | t # _ \<Rightarrow> Some t)"

text \<open>Whether an update announces a new delay: later than promised and different from the previous estimate.\<close>

definition isNewDelay :: "shipment \<Rightarrow> trackingUpdate option \<Rightarrow> time option \<Rightarrow> bool" where
  "isNewDelay s prior eta = (case (eta, expectedDeliveryAt s) of
      (Some n, Some promised) \<Rightarrow> n > promised \<and>
        Some n \<noteq> (case prior of None \<Rightarrow> None | Some p \<Rightarrow> estimatedArrival p)
    | _ \<Rightarrow> False)"

definition notifyBoth :: "env \<Rightarrow> shipment \<Rightarrow> notificationType \<Rightarrow> string \<Rightarrow> unit act" where
  "notifyBoth e s ty title =
     andThen (notifyUser e (buyerAddress s) ty title (JObj [(''shipmentId'', JStr (s_id s))])) (\<lambda>_.
     ignore (notifyUser e (supplierAddress s) ty title (JObj [(''shipmentId'', JStr (s_id s))])))"

definition createTracking :: "env \<Rightarrow> string \<Rightarrow> address \<Rightarrow> trackingDto \<Rightarrow> trackingUpdate act" where
  "createTracking e sid caller dto =
     andThen (reads (findShipment sid)) (\<lambda>found.
     requireSome found ForbiddenException (\<lambda>s.
     require (logisticsAddress s = caller) ForbiddenException (
     andThen (reads (latestTracking sid)) (\<lambda>prior.
     andThen freshId (\<lambda>i.
     let t = \<lparr>tr_id = i, tr_shipmentId = sid, tr_submittedBy = caller, location = td_location dto,
              latitude = td_latitude dto, longitude = td_longitude dto, tr_status = td_status dto,
              estimatedArrival = td_estimatedArrival dto, tr_notes = td_notes dto, tr_createdAt = now e\<rparr> in
     andThen (modifyDb (\<lambda>d. d\<lparr>trackingUpdates := trackingUpdates d @ [t]\<rparr>)) (\<lambda>_.
     andThen (notifyBoth e s N_TRACKING_UPDATED ''Shipment tracking update'') (\<lambda>_.
     andThen (whenA (isNewDelay s prior (td_estimatedArrival dto))
        (notifyBoth e s N_DELIVERY_DELAYED ''Shipment delivery delayed'')) (\<lambda>_.
     ret t))))))))"

definition getTracking :: "string \<Rightarrow> address \<Rightarrow> trackingUpdate list act" where
  "getTracking sid caller =
     andThen (reads (findShipment sid)) (\<lambda>found.
     requireSome found ForbiddenException (\<lambda>s.
     require (caller \<in> set (participants s)) ForbiddenException (
     reads (\<lambda>w. sort_key tr_createdAt (filter (\<lambda>t. tr_shipmentId t = sid) (trackingUpdates (db w)))))))"

section \<open>Lemmas\<close>

lemma assertIfMatch_readOnly: "readOnly (assertIfMatch e sid m)"
  unfolding assertIfMatch_def getDetailEtag_def by (intro leaves_intros)

lemma updateCheck_readOnly: "readOnly (updateCheck e sid caller dto m)"
  unfolding updateCheck_def Let_def by (intro leaves_intros assertIfMatch_readOnly)

lemma updateCheck_success:
  "updateCheck e sid caller dto m w = (Inr s, w') \<Longrightarrow> w' = w \<and> findShipment sid w = Some s \<and> buyerAddress s = caller"
  using leaves_run [OF updateCheck_readOnly, of e sid caller dto m w "Inr s" w']
  by (auto simp: updateCheck_def Let_def success_iffs)

lemma run_conditionalUpdate:
  "conditionalUpdate e s m f w =
    (case find (\<lambda>r. s_id r = s_id s \<and> (truthy m \<longrightarrow> s_updatedAt r = s_updatedAt s)) (shipments (db w)) of
       None \<Rightarrow> (Inl (if truthy m then PreconditionFailedException else PrismaP2025), w)
     | Some cur \<Rightarrow>
        if referenceNumber (f cur) \<noteq> None \<and> referenceNumber (f cur) \<noteq> referenceNumber cur \<and>
           (\<exists>r \<in> set (shipments (db w)). referenceNumber r = referenceNumber (f cur))
        then (Inl PrismaP2002, w) else updateShipment (now e) (s_id s) f w)"
  by (auto simp: conditionalUpdate_def split: option.splits)

lemma conditionalUpdate_effect:
  "snd (conditionalUpdate e s m f w) = w \<or>
   snd (conditionalUpdate e s m f w) =
     setShipments (updateWhere (\<lambda>r. s_id r = s_id s) (\<lambda>r. (f r)\<lparr>s_updatedAt := now e\<rparr>)) w"
  by (auto simp: run_conditionalUpdate run_updateShipment split: option.splits)

text \<open>The fields of a shipment that its contract fixes: parties, token, amounts, status, approvals.\<close>

definition commitments :: "shipment \<Rightarrow> string \<times> address list \<times> address \<times> int \<times> int \<times> shipmentStatus \<times> arbiterStatus \<times> int option" where
  "commitments s = (s_id s, participants s, tokenAddress s, totalAmount s, releasedAmount s, s_status s,
     arbiterStatus s, requiredApprovals s)"

lemma commitments_applyUpdate [simp]: "commitments ((applyUpdate dto r)\<lparr>s_updatedAt := t\<rparr>) = commitments r"
  by (simp add: commitments_def participants_def applyUpdate_def)

lemma map_setShipments:
  "(\<And>r. g (f r) = g r) \<Longrightarrow> map g (shipments (db (setShipments (updateWhere p f) w))) = map g (shipments (db w))"
  by (simp add: setShipments_def map_updateWhere)

lemma normalizeTags_spec:
  assumes "normalizeTags ts acc = Inr r"
    and "distinct (map fst acc)" and "\<forall>(k, t) \<in> set acc. k = toLowerCase t \<and> length t \<in> {1..30} \<and> t \<in> trim ` S"
    and "set ts \<subseteq> S"
  shows "distinct (map fst r) \<and> (\<forall>(k, t) \<in> set r. k = toLowerCase t \<and> length t \<in> {1..30} \<and> t \<in> trim ` S) \<and>
    fst ` set acc \<subseteq> fst ` set r \<and> (\<forall>t \<in> set ts. toLowerCase (trim t) \<in> fst ` set r)"
  using assms
proof (induction ts acc rule: normalizeTags.induct)
  case (2 t ts acc)
  let ?k = "toLowerCase (trim t)"
  let ?acc = "if ?k \<in> fst ` set acc then acc else acc @ [(?k, trim t)]"
  from 2(2) have len: "\<not> (length (trim t) < 1 \<or> length (trim t) > 30)" and run: "normalizeTags ts ?acc = Inr r"
    by (auto simp: Let_def split: if_splits)
  have "distinct (map fst ?acc)" using 2(3) by auto
  moreover have "\<forall>(k, t) \<in> set ?acc. k = toLowerCase t \<and> length t \<in> {1..30} \<and> t \<in> trim ` S"
    using 2(4,5) len by (auto simp: Suc_le_eq)
  ultimately have IH: "distinct (map fst r) \<and> (\<forall>(k, t) \<in> set r. k = toLowerCase t \<and> length t \<in> {1..30} \<and> t \<in> trim ` S) \<and>
      fst ` set ?acc \<subseteq> fst ` set r \<and> (\<forall>t \<in> set ts. toLowerCase (trim t) \<in> fst ` set r)"
    using 2(1) [OF refl refl len run] 2(5) by auto
  moreover have "fst ` set acc \<subseteq> fst ` set ?acc" "?k \<in> fst ` set ?acc" by (auto split: if_splits)
  ultimately show ?case by (auto split: if_splits)
qed auto

section \<open>Properties\<close>



text \<open>removing a tag is invisible to the version check. The raw statement of \<open>removeTag\<close> leaves
  \<open>updatedAt\<close> as it was, so the entity tag does not change and a conditional write of a client that
  read the row before the removal still succeeds: it may bring the removed tag back.\<close>

theorem remove_tag_escapes_if_match:
  assumes found: "findShipment sid w = Some s" and "buyerAddress s = caller" and "s_status s = ACTIVE" and "tag \<in> set (tags s)"
  shows "\<exists>s' w' w''. removeTag sid caller tag w = (Inr (Some s'), w') \<and> tag \<notin> set (tags s') \<and>
    detailEtag e s' (db w') = detailEtag e s (db w) \<and>
    conditionalUpdate e s ifMatch (\<lambda>r. r\<lparr>tags := tags s\<rparr>) w' = (Inr (s\<lparr>s_updatedAt := now e\<rparr>), w'')"
proof -
  have sid: "s_id s = sid" using findShipment_id [OF found] by simp
  let ?f = "\<lambda>r. r\<lparr>tags := removeAll tag (tags r)\<rparr>"
  let ?w' = "(setShipments (updateWhere (\<lambda>r. s_id r = sid) ?f) w)\<lparr>redis := delByPrefix (cachePrefix caller) (redis w)\<rparr>"
  have fw: "findShipment sid ?w' = Some (?f s)"
    using findShipment_set [OF found, of ?f] by (simp add: findShipment_def)
  have rm: "removeTag sid caller tag w = (Inr (Some (?f s)), ?w')"
    using found assms(2-4) findShipment_set [OF found, of ?f] by (simp add: removeTag_def setShipments_def findShipment_def)
  have "find (\<lambda>r. s_id r = s_id s \<and> (truthy ifMatch \<longrightarrow> s_updatedAt r = s_updatedAt s)) (shipments (db ?w')) = Some (?f s)"
    using fw unfolding findShipment_def by (rule find_refine) (simp_all add: sid)
  then have "\<exists>w''. conditionalUpdate e s ifMatch (\<lambda>r. r\<lparr>tags := tags s\<rparr>) ?w' = (Inr (s\<lparr>s_updatedAt := now e\<rparr>), w'')"
    using fw by (simp add: run_conditionalUpdate run_updateShipment sid)
  moreover have "detailEtag e (?f s) (db ?w') = detailEtag e s (db w)"
    by (simp add: detailEtag_def setShipments_def liveMilestones_def)
  ultimately show ?thesis using rm by fastforce
qed

theorem remove_tag_escapes_if_match_witness:
  "let w = emptyWorld\<lparr>db := emptyDb\<lparr>shipments := [(shipment0 ''S'')\<lparr>tags := [''x'']\<rparr>]\<rparr>\<rparr>
   in \<exists>s' w' w''. removeTag ''S'' ''GB'' ''x'' w = (Inr (Some s'), w') \<and> ''x'' \<notin> set (tags s') \<and>
      conditionalUpdate env0 ((shipment0 ''S'')\<lparr>tags := [''x'']\<rparr>) (Some ''etag'') (\<lambda>r. r\<lparr>tags := [''x'']\<rparr>) w' =
        (Inr ((shipment0 ''S'')\<lparr>tags := [''x''], s_updatedAt := 1000\<rparr>), w'')"
proof -
  let ?s = "(shipment0 ''S'')\<lparr>tags := [''x'']\<rparr>"
  have "findShipment ''S'' (emptyWorld\<lparr>db := emptyDb\<lparr>shipments := [?s]\<rparr>\<rparr>) = Some ?s"
    by (simp add: findShipment_def concrete_defs)
  from remove_tag_escapes_if_match [OF this, of "''GB''" "''x''" env0 "Some ''etag''"] show ?thesis
    by (simp add: Let_def shipment0_def env0_def) blast
qed

text \<open>replaced tags are normalised. After \<open>replaceTags\<close> answers, the shipment has at most 20 tags, each
  of 1 to 30 characters, no two equal up to case, all trimmed forms of requested tags, and every
  requested tag is represented.\<close>

theorem replace_tags_normalised:
  assumes run: "replaceTags e sid (Some ts) caller callerId ifMatch w = (Inr s', w')"
  shows "length (tags s') \<le> 20 \<and> distinct (map toLowerCase (tags s')) \<and>
    (\<forall>t \<in> set (tags s'). length t \<in> {1..30} \<and> t \<in> trim ` set ts) \<and>
    (\<forall>t \<in> set ts. toLowerCase (trim t) \<in> toLowerCase ` set (tags s'))"
proof -
  from run obtain r where r: "normalizeTags ts [] = Inr r" "length r \<le> 20" "tags s' = map snd r"
    by (auto simp: replaceTags_def success_iffs Let_def run_conditionalUpdate run_updateShipment split: option.splits if_splits)
  note spec = normalizeTags_spec [OF r(1), of "set ts", simplified]
  then have keys: "map fst r = map toLowerCase (map snd r)" by (auto intro!: map_cong)
  have "distinct (map toLowerCase (tags s'))" using spec keys r(3) by simp
  moreover have "toLowerCase ` set (tags s') = fst ` set r" using keys r(3) by (metis list.set_map)
  ultimately show ?thesis using spec r by fastforce
qed

theorem replace_tags_normalised_witness:
  "let w = emptyWorld\<lparr>db := emptyDb\<lparr>shipments := [shipment0 ''S'']\<rparr>\<rparr>
   in \<exists>s' w'. replaceTags env0 ''S'' (Some ['' Urgent'', ''urgent'', ''cold'']) None None None w = (Inr s', w') \<and>
        distinct (map toLowerCase (tags s')) \<and> ''cold'' \<in> toLowerCase ` set (tags s')"
proof -
  let ?w = "emptyWorld\<lparr>db := emptyDb\<lparr>shipments := [shipment0 ''S'']\<rparr>\<rparr>"
  have n: "normalizeTags ['' Urgent'', ''urgent'', ''cold''] [] = Inr [(''urgent'', ''Urgent''), (''cold'', ''cold'')]"
    by code_simp
  have c: "toLowerCase (trim ''cold'') = ''cold''" by code_simp
  have "\<exists>s' w'. replaceTags env0 ''S'' (Some ['' Urgent'', ''urgent'', ''cold'']) None None None ?w = (Inr s', w')"
    by (simp add: replaceTags_def n Let_def assertIfMatch_def truthy_def run_conditionalUpdate run_updateShipment
        findShipment_def concrete_defs del: normalizeTags.simps)
  then obtain s' w' where run: "replaceTags env0 ''S'' (Some ['' Urgent'', ''urgent'', ''cold'']) None None None ?w = (Inr s', w')"
    by blast
  from replace_tags_normalised [OF run] run c show ?thesis unfolding Let_def by (metis list.set_intros(1,2))
qed

text \<open>adding and removing a tag are inverse. When the buyer of an ACTIVE shipment adds a tag it does
  not have and then removes it, both calls answer and the shipment's tags are what they were.\<close>

theorem tag_add_remove_roundtrip:
  assumes found: "findShipment sid w = Some s" and "buyerAddress s = caller" and "s_status s = ACTIVE" and "tag \<notin> set (tags s)"
  shows "\<exists>s1 s2 w1 w2. addTag e sid caller tag w = (Inr s1, w1) \<and> tags s1 = tags s @ [tag] \<and>
    removeTag sid caller tag w1 = (Inr (Some s2), w2) \<and> tags s2 = tags s"
proof -
  let ?f = "\<lambda>r. r\<lparr>tags := tags r @ [tag], s_updatedAt := now e\<rparr>" and ?g = "\<lambda>r. r\<lparr>tags := removeAll tag (tags r)\<rparr>"
  let ?w1 = "(setShipments (updateWhere (\<lambda>r. s_id r = sid) ?f) w)\<lparr>redis := delByPrefix (cachePrefix caller) (redis w)\<rparr>"
  have f1: "findShipment sid ?w1 = Some (?f s)"
    using findShipment_set [OF found, of ?f] by (simp add: findShipment_def)
  have "addTag e sid caller tag w = (Inr (?f s), ?w1)"
    using found assms(2-4) by (simp add: addTag_def run_updateShipment setShipments_def)
  moreover have "\<exists>w2. removeTag sid caller tag ?w1 = (Inr (Some (?g (?f s))), w2)"
    using f1 findShipment_set [OF f1, of ?g] assms(2-4) by (simp add: removeTag_def setShipments_def findShipment_def)
  moreover have "tags (?g (?f s)) = tags s" using assms(4) by (simp add: removeAll_id)
  ultimately show ?thesis by fastforce
qed

theorem tag_add_remove_roundtrip_witness:
  "let w = emptyWorld\<lparr>db := emptyDb\<lparr>shipments := [shipment0 ''S'']\<rparr>\<rparr>
   in \<exists>s1 s2 w1 w2. addTag env0 ''S'' ''GB'' ''x'' w = (Inr s1, w1) \<and> removeTag ''S'' ''GB'' ''x'' w1 = (Inr (Some s2), w2) \<and>
      tags s2 = []"
proof -
  have "findShipment ''S'' (emptyWorld\<lparr>db := emptyDb\<lparr>shipments := [shipment0 ''S'']\<rparr>\<rparr>) = Some (shipment0 ''S'')"
    by (simp add: findShipment_def concrete_defs)
  from tag_add_remove_roundtrip [OF this, of "''GB''" "''x''" env0] show ?thesis
    by (simp add: Let_def shipment0_def) blast
qed

text \<open>Metadata updates cannot touch what the contract fixes. Whatever \<open>update\<close> is asked and whether it
  answers or throws, for every shipment the parties, token, amounts, status, arbiter state and
  required approvals stay as they were, and no row of another table changes.\<close>

theorem update_keeps_commitments:
  "let w' = snd (update e sid caller dto ifMatch w) in
    map commitments (shipments (db w')) = map commitments (shipments (db w)) \<and>
    (db w')\<lparr>shipments := []\<rparr> = (db w)\<lparr>shipments := []\<rparr>"
proof (cases "updateCheck e sid caller dto ifMatch w")
  case (Pair r w0)
  then have w0: "w0 = w" using leaves_run [OF updateCheck_readOnly] by blast
  show ?thesis
  proof (cases r)
    case (Inl x)
    with Pair w0 show ?thesis by (simp add: update_def)
  next
    case (Inr s)
    let ?c = "conditionalUpdate e s ifMatch (applyUpdate dto) w"
    have c: "map commitments (shipments (db (snd ?c))) = map commitments (shipments (db w)) \<and>
        (db (snd ?c))\<lparr>shipments := []\<rparr> = (db w)\<lparr>shipments := []\<rparr>"
      using conditionalUpdate_effect [of e s ifMatch "applyUpdate dto" w]
      by (auto simp: map_setShipments) (simp add: setShipments_def)
    have "db (snd (updateCommit e caller dto ifMatch s w)) = db (snd ?c)"
      by (cases ?c; cases "fst ?c") (auto simp: updateCommit_def)
    with c Pair Inr w0 show ?thesis by (simp add: update_def Let_def)
  qed
qed

text \<open>every effective update fails after having been stored. When an update is admitted and changes at
  least one field of the row, the new values are written, and then building the audit entry throws
  because of the undeclared \<open>callerId\<close>: the client gets an error, no audit entry exists, and the
  cached listings are not invalidated.\<close>

theorem effective_update_throws_after_write:
  assumes chk: "updateCheck e sid caller dto None w = (Inr s, w)"
    and "computeFieldChanges (changedFields dto s) \<noteq> []" and "ud_referenceNumber dto = None"
  shows "\<exists>w'. update e sid caller dto None w = (Inl RuntimeError, w') \<and>
    findShipment sid w' = Some ((applyUpdate dto s)\<lparr>s_updatedAt := now e\<rparr>) \<and> audit w' = audit w \<and> redis w' = redis w"
proof -
  let ?f = "\<lambda>r. (applyUpdate dto r)\<lparr>s_updatedAt := now e\<rparr>"
  let ?w' = "setShipments (updateWhere (\<lambda>r. s_id r = sid) ?f) w"
  have found: "findShipment sid w = Some s" and sid: "s_id s = sid"
    using updateCheck_success [OF chk] findShipment_id by auto
  have id: "s_id (?f r) = s_id r" "referenceNumber (applyUpdate dto r) = referenceNumber r" for r
    using assms(3) by (simp_all add: applyUpdate_def)
  have "conditionalUpdate e s None (applyUpdate dto) w = (Inr (?f s), ?w')"
    using found id by (simp add: run_conditionalUpdate run_updateShipment truthy_def sid findShipment_def)
  then have "update e sid caller dto None w = (Inl RuntimeError, ?w')"
    using chk assms(2) by (simp add: update_def updateCommit_def)
  moreover have "findShipment sid ?w' = Some (?f s)" using found id(1) by (rule findShipment_set)
  ultimately show ?thesis by (simp add: setShipments_def)
qed

theorem effective_update_throws_after_write_witness:
  "let w = emptyWorld\<lparr>db := emptyDb\<lparr>shipments := [shipment0 ''S'']\<rparr>\<rparr>;
       dto = \<lparr>ud_description = Some (Some ''new''), ud_referenceNumber = None, ud_metadata = None, ud_tags = None,
              ud_expectedDeliveryAt = None\<rparr>
   in \<exists>w'. update env0 ''S'' ''GB'' dto None w = (Inl RuntimeError, w') \<and>
      map_option description (findShipment ''S'' w') = Some (Some ''new'')"
proof -
  let ?w = "emptyWorld\<lparr>db := emptyDb\<lparr>shipments := [shipment0 ''S'']\<rparr>\<rparr>"
  let ?dto = "\<lparr>ud_description = Some (Some ''new''), ud_referenceNumber = None, ud_metadata = None, ud_tags = None,
              ud_expectedDeliveryAt = None\<rparr>"
  have 1: "updateCheck env0 ''S'' ''GB'' ?dto None ?w = (Inr (shipment0 ''S''), ?w)"
    by (simp add: updateCheck_def Let_def assertIfMatch_def truthy_def findShipment_def concrete_defs)
  have 2: "computeFieldChanges (changedFields ?dto (shipment0 ''S'')) \<noteq> []"
    by (simp add: computeFieldChanges_def changedFields_def fieldChanges_def strJson_def isPlainObject_def sameValue_def
        jsonQuote_def shipment0_def)
  from effective_update_throws_after_write [OF 1 2] show ?thesis by (auto simp: Let_def applyUpdate_def)
qed

end
