(* ===== verification/Milestones.thy ===== *)
theory Milestones
  imports Shipments
begin

text \<open>
  \<open>MilestonesService\<close> (\<open>src/src/modules/milestones/milestones.service.ts\<close>): proofs, confirmation by the
  buyer (single and in bulk) behind the multi-signature gate, rejection, disputes and their
  evidence, and the three operations on the milestone plan (append, rebalance, remove).
\<close>

section \<open>Reading\<close>

definition isOverdue :: "time \<Rightarrow> milestone \<Rightarrow> bool" where
  "isOverdue t m \<longleftrightarrow> (case dueAt m of None \<Rightarrow> False | Some d \<Rightarrow> d < t \<and> m_status m \<noteq> CONFIRMED \<and> m_status m \<noteq> RESOLVED)"

definition findByShipment :: "env \<Rightarrow> string \<Rightarrow> milestoneStatus option \<Rightarrow> bool \<Rightarrow> world \<Rightarrow> (milestone \<times> bool) list" where
  "findByShipment e sid status overdueOnly w =
     map (\<lambda>m. (m, isOverdue (now e) m)) (sort_key milestoneIndex (filter (\<lambda>m.
       if overdueOnly then (case dueAt m of None \<Rightarrow> False | Some d \<Rightarrow> d < now e) \<and> m_status m \<notin> {CONFIRMED, RESOLVED}
       else (case status of None \<Rightarrow> True | Some st \<Rightarrow> m_status m = st)) (liveMilestones sid (db w))))"

definition findOne :: "string \<Rightarrow> int \<Rightarrow> milestone act" where
  "findOne sid i = andThen (reads (findLiveMilestone sid i)) (\<lambda>found. requireSome found NotFoundException ret)"

section \<open>Status transitions\<close>

text \<open>\<open>shipment?.status === 'CANCELLED'\<close>: an unknown shipment passes.\<close>

definition shipmentCancelled :: "string \<Rightarrow> world \<Rightarrow> bool" where
  "shipmentCancelled sid w = (case findShipment sid w of None \<Rightarrow> False | Some s \<Rightarrow> s_status s = CANCELLED)"

definition markProofSubmitted :: "env \<Rightarrow> string \<Rightarrow> int \<Rightarrow> string \<Rightarrow> milestone act" where
  "markProofSubmitted e sid i hash =
     andThen (reads (shipmentCancelled sid)) (\<lambda>cancelled.
     require (\<not> cancelled) ConflictException (
     updateMilestone (now e) sid i (\<lambda>m. m\<lparr>proofHash := Some hash, m_status := PROOF_SUBMITTED\<rparr>)))"

definition confirmRow :: "env \<Rightarrow> int \<Rightarrow> milestone \<Rightarrow> milestone" where
  "confirmRow e paid m = m\<lparr>m_status := CONFIRMED, paymentReleased := Some paid, confirmedAt := Some (now e)\<rparr>"

definition markConfirmed :: "env \<Rightarrow> string \<Rightarrow> int \<Rightarrow> int \<Rightarrow> milestone act" where
  "markConfirmed e sid i paid =
     andThen (reads (shipmentCancelled sid)) (\<lambda>cancelled.
     require (\<not> cancelled) ConflictException (
     require (fitsBigint paid) RuntimeError (
     updateMilestone (now e) sid i (confirmRow e paid))))"

definition markDisputed :: "env \<Rightarrow> string \<Rightarrow> int \<Rightarrow> milestone act" where
  "markDisputed e sid i =
     andThen (reads (shipmentCancelled sid)) (\<lambda>cancelled.
     require (\<not> cancelled) ConflictException (
     updateMilestone (now e) sid i (\<lambda>m. m\<lparr>m_status := DISPUTED, disputedAt := Some (now e)\<rparr>)))"

text \<open>A released amount of \<open>0n\<close> is falsy and is not stored.\<close>

definition markResolved :: "env \<Rightarrow> string \<Rightarrow> int \<Rightarrow> bool \<Rightarrow> int option \<Rightarrow> milestone act" where
  "markResolved e sid i approved paid =
     andThen (reads (findMilestone sid i)) (\<lambda>pending.
     andThen (case pending of
         Some p \<Rightarrow> whenA (approved \<and> m_status p = DISPUTED) (count (DisputeResolutionMs
           (now e - (case disputedAt p of Some t \<Rightarrow> t | None \<Rightarrow> m_createdAt p))))
       | None \<Rightarrow> ret ()) (\<lambda>_.
     let stored = (approved \<and> paid \<noteq> None \<and> paid \<noteq> Some 0) in
     require (stored \<longrightarrow> fitsBigint (the paid)) RuntimeError (
     updateMilestone (now e) sid i (\<lambda>m.
       let m' = m\<lparr>m_status := (if approved then RESOLVED else PENDING)\<rparr> in
       if stored then m'\<lparr>paymentReleased := paid, confirmedAt := Some (now e)\<rparr> else m'))))"

section \<open>Proofs\<close>

record proofReply =
  pr_milestone :: milestone
  pr_cid :: string
  pr_incomplete :: "string list"

definition addProofSubmission :: "env \<Rightarrow> milestone \<Rightarrow> string \<Rightarrow> address \<Rightarrow> upload \<Rightarrow> unit act" where
  "addProofSubmission e m cid caller file =
     andThen freshId (\<lambda>i.
     modifyDb (\<lambda>d. d\<lparr>proofSubmissions := proofSubmissions d @ [\<lparr>p_id = i, p_milestoneId = m_id m, p_ipfsCid = cid,
        p_submittedBy = caller, p_sha256 = Some (sha256Hex e (buffer file)), p_fileSize = Some (fsize file),
        p_createdAt = now e\<rparr>]\<rparr>))"

definition incompleteChecklist :: "uuid \<Rightarrow> world \<Rightarrow> string list" where
  "incompleteChecklist mid w = map c_label (sort_key c_createdAt
     (filter (\<lambda>c. c_milestoneId c = mid \<and> c_required c \<and> c_completedAt c = None) (checklistItems (db w))))"

definition submitProof :: "env \<Rightarrow> string \<Rightarrow> int \<Rightarrow> address \<Rightarrow> upload \<Rightarrow> proofReply act" where
  "submitProof e sid i caller file =
     andThen (reads (findShipment sid)) (\<lambda>found.
     requireSome found NotFoundException (\<lambda>s.
     require (s_status s \<noteq> CANCELLED) ConflictException (
     require (supplierAddress s = caller \<or> logisticsAddress s = caller) ForbiddenException (
     andThen (findOne sid i) (\<lambda>m.
     liftResult (ipfsUpload e file) (\<lambda>cid.
     andThen (markProofSubmitted e sid i cid) (\<lambda>updated.
     andThen (addProofSubmission e m cid caller file) (\<lambda>_.
     andThen (notifyUser e (buyerAddress s) N_PROOF_SUBMITTED ''Proof submitted for review''
        (JObj [(''shipmentId'', JStr sid), (''milestoneIndex'', JNum i), (''proofHash'', JStr cid)])) (\<lambda>_.
     andThen (reads (incompleteChecklist (m_id m))) (\<lambda>incomplete.
     ret \<lparr>pr_milestone = updated, pr_cid = cid, pr_incomplete = incomplete\<rparr>))))))))))"

definition getProofHistory :: "string \<Rightarrow> int \<Rightarrow> proofSubmission list act" where
  "getProofHistory sid i = andThen (findOne sid i) (\<lambda>m.
     reads (\<lambda>w. sort_key p_createdAt (filter (\<lambda>p. p_milestoneId p = m_id m) (proofSubmissions (db w)))))"

definition verifyProof :: "env \<Rightarrow> string \<Rightarrow> int \<Rightarrow> upload \<Rightarrow> uuid option act" where
  "verifyProof e sid i file = andThen (findOne sid i) (\<lambda>m.
     reads (\<lambda>w. case sort_key (\<lambda>p. - p_createdAt p) (filter (\<lambda>p. p_milestoneId p = m_id m \<and>
         p_sha256 p = Some (sha256Hex e (buffer file))) (proofSubmissions (db w))) of
       [] \<Rightarrow> None | p # _ \<Rightarrow> Some (p_id p)))"

section \<open>Confirmation\<close>

definition paymentReleasedNotice :: "env \<Rightarrow> shipment \<Rightarrow> int \<Rightarrow> string \<Rightarrow> string \<Rightarrow> unit act" where
  "paymentReleasedNotice e s i txHash paid = ignore (notifyUser e (supplierAddress s) N_PAYMENT_RELEASED ''Payment released''
     (JObj [(''shipmentId'', JStr (s_id s)), (''milestoneIndex'', JNum i), (''paymentReleased'', JStr paid),
            (''txHash'', JStr txHash)]))"

definition confirmFromApi :: "env \<Rightarrow> string \<Rightarrow> int \<Rightarrow> address \<Rightarrow> string \<Rightarrow> string \<Rightarrow> milestone act" where
  "confirmFromApi e sid i caller txHash paid =
     andThen (reads (findShipment sid)) (\<lambda>found.
     requireSome found NotFoundException (\<lambda>s.
     require (buyerAddress s = caller) ForbiddenException (
     andThen (assertQuorum sid) (\<lambda>_.
     andThen (findOne sid i) (\<lambda>m.
     require (m_status m = PROOF_SUBMITTED) ConflictException (
     requireSome (parseBigInt paid) RuntimeError (\<lambda>amount.
     andThen (markConfirmed e sid i amount) (\<lambda>updated.
     andThen (syncStatusFromChain e sid) (\<lambda>_.
     andThen (paymentReleasedNotice e s i txHash paid) (\<lambda>_.
     ret updated))))))))))"

section \<open>Batches\<close>

record bulkItem =
  bi_index :: int
  bi_txHash :: string
  bi_paymentReleased :: string

datatype bulkOutcome = BulkOk milestone | BulkNotFound | BulkBadStatus milestoneStatus | BulkUnknown

record bulkReply =
  br_results :: "(int \<times> bulkOutcome) list"
  br_total :: nat
  br_succeeded :: nat
  br_failed :: nat

text \<open>The per-item validation: \<open>None\<close> is an item to process.\<close>

definition refusal :: "milestone list \<Rightarrow> int \<Rightarrow> bulkOutcome option" where
  "refusal ms i = (case find (\<lambda>m. milestoneIndex m = i) ms of
      None \<Rightarrow> Some BulkNotFound
    | Some m \<Rightarrow> if m_status m \<noteq> PROOF_SUBMITTED then Some (BulkBadStatus (m_status m)) else None)"

text \<open>
  The answer: failures were collected first, then successes; the result of an index is looked up
  in a map built from that list (later entries win) in the order of the request.
\<close>

definition bulkResults :: "int list \<Rightarrow> (int \<times> bulkOutcome) list \<Rightarrow> (int \<times> bulkOutcome) list" where
  "bulkResults indices results = map (\<lambda>i. (i, case map_of (rev results) i of Some r \<Rightarrow> r | None \<Rightarrow> BulkUnknown)) indices"

definition failures :: "milestone list \<Rightarrow> int list \<Rightarrow> (int \<times> bulkOutcome) list" where
  "failures ms indices = concat (map (\<lambda>i. case refusal ms i of None \<Rightarrow> [] | Some r \<Rightarrow> [(i, r)]) indices)"

definition successes :: "string \<Rightarrow> int list \<Rightarrow> world \<Rightarrow> (int \<times> bulkOutcome) list" where
  "successes sid done w = map (\<lambda>i. (i, case findMilestone sid i w of Some m \<Rightarrow> BulkOk m | None \<Rightarrow> BulkUnknown)) done"

definition bulkAnswer :: "string \<Rightarrow> milestone list \<Rightarrow> int list \<Rightarrow> int list \<Rightarrow> world \<Rightarrow> bulkReply" where
  "bulkAnswer sid ms indices done w =
     \<lparr>br_results = bulkResults indices (failures ms indices @ successes sid done w),
      br_total = length indices, br_succeeded = length done, br_failed = length indices - length done\<rparr>"

text \<open>
  Every \<open>BigInt\<close> of the batch is parsed while the transaction is being built; the updates run in one
  transaction, then the shipment is synchronised and the supplier is told about each payment.
\<close>

definition confirmBatch :: "env \<Rightarrow> string \<Rightarrow> bulkItem list \<Rightarrow> int list \<Rightarrow> unit act" where
  "confirmBatch e sid toConfirm amounts =
     transaction (require (list_all fitsBigint amounts) RuntimeError (
       forEach (zip toConfirm amounts) (\<lambda>(it, paid).
         ignore (updateMilestone (now e) sid (bi_index it) (confirmRow e paid)))))"

definition settleBatch :: "env \<Rightarrow> string \<Rightarrow> shipment \<Rightarrow> bulkItem list \<Rightarrow> unit act" where
  "settleBatch e sid s toConfirm =
     whenA (toConfirm \<noteq> []) (andThen (syncStatusFromChain e sid) (\<lambda>_.
       forEach toConfirm (\<lambda>it. paymentReleasedNotice e s (bi_index it) (bi_txHash it) (bi_paymentReleased it))))"

definition bulkConfirmFromApi :: "env \<Rightarrow> string \<Rightarrow> address \<Rightarrow> bulkItem list \<Rightarrow> bulkReply act" where
  "bulkConfirmFromApi e sid caller items =
     andThen (reads (findShipment sid)) (\<lambda>found.
     requireSome found NotFoundException (\<lambda>s.
     require (buyerAddress s = caller) ForbiddenException (
     require (s_status s \<noteq> CANCELLED) ConflictException (
     andThen (assertQuorum sid) (\<lambda>_.
     andThen (reads (\<lambda>w. liveMilestones sid (db w))) (\<lambda>ms.
     let toConfirm = filter (\<lambda>it. refusal ms (bi_index it) = None) items in
     requireSome (those (map (\<lambda>it. parseBigInt (bi_paymentReleased it)) toConfirm)) RuntimeError (\<lambda>amounts.
     andThen (confirmBatch e sid toConfirm amounts) (\<lambda>_.
     andThen (reads (bulkAnswer sid ms (map bi_index items) (map bi_index toConfirm))) (\<lambda>answer.
     andThen (settleBatch e sid s toConfirm) (\<lambda>_.
     ret answer))))))))))"

section \<open>Rejection\<close>

definition rejectRow :: "milestone \<Rightarrow> milestone" where
  "rejectRow m = m\<lparr>m_status := PENDING, proofHash := None\<rparr>"

definition proofRejectedNotice :: "env \<Rightarrow> shipment \<Rightarrow> string \<Rightarrow> int \<Rightarrow> unit act" where
  "proofRejectedNotice e s reason i = ignore (notifyUser e (supplierAddress s) N_PROOF_REJECTED
     ''Proof rejected - resubmission requested''
     (JObj [(''shipmentId'', JStr (s_id s)), (''milestoneIndex'', JNum i), (''reason'', JStr reason)]))"

definition rejectProof :: "env \<Rightarrow> string \<Rightarrow> int \<Rightarrow> address \<Rightarrow> string \<Rightarrow> milestone act" where
  "rejectProof e sid i caller reason =
     andThen (reads (findShipment sid)) (\<lambda>found.
     requireSome found NotFoundException (\<lambda>s.
     require (buyerAddress s = caller) ForbiddenException (
     andThen (findOne sid i) (\<lambda>m.
     require (m_status m = PROOF_SUBMITTED) ConflictException (
     andThen (updateMilestone (now e) sid i rejectRow) (\<lambda>updated.
     andThen (proofRejectedNotice e s reason i) (\<lambda>_.
     ret updated)))))))"

definition bulkRejectFromApi :: "env \<Rightarrow> string \<Rightarrow> address \<Rightarrow> int list \<Rightarrow> string \<Rightarrow> bulkReply act" where
  "bulkRejectFromApi e sid caller indices reason =
     andThen (reads (findShipment sid)) (\<lambda>found.
     requireSome found NotFoundException (\<lambda>s.
     require (buyerAddress s = caller) ForbiddenException (
     andThen (reads (\<lambda>w. liveMilestones sid (db w))) (\<lambda>ms.
     let toReject = filter (\<lambda>i. refusal ms i = None) indices in
     andThen (transaction (forEach toReject (\<lambda>i. ignore (updateMilestone (now e) sid i rejectRow)))) (\<lambda>_.
     andThen (reads (bulkAnswer sid ms indices toReject)) (\<lambda>answer.
     andThen (forEach toReject (proofRejectedNotice e s reason)) (\<lambda>_.
     ret answer)))))))"

section \<open>Disputes\<close>

definition evidenceOf :: "uuid \<Rightarrow> world \<Rightarrow> evidence list" where
  "evidenceOf mid w = sort_key e_createdAt (filter (\<lambda>ev. e_milestoneId ev = mid) (disputeEvidence (db w)))"

definition getDisputeDetail :: "string \<Rightarrow> int \<Rightarrow> (milestone \<times> evidence list) act" where
  "getDisputeDetail sid i =
     andThen (findOne sid i) (\<lambda>m.
     require (m_status m = DISPUTED) ConflictException (
     reads (\<lambda>w. (m, evidenceOf (m_id m) w))))"

text \<open>A milestone together with its shipment (\<open>include: { shipment: true }\<close>).\<close>

definition findOneWithShipment :: "string \<Rightarrow> int \<Rightarrow> (milestone \<times> shipment) act" where
  "findOneWithShipment sid i =
     andThen (findOne sid i) (\<lambda>m.
     andThen (reads (findShipment sid)) (\<lambda>s.
     requireSome s RuntimeError (\<lambda>s. ret (m, s))))"

definition disputeRoleOf :: "shipment \<Rightarrow> address \<Rightarrow> disputeRole option" where
  "disputeRoleOf s addr = (if addr = buyerAddress s then Some D_BUYER
     else if addr = supplierAddress s then Some D_SUPPLIER else None)"

definition submitDisputeEvidence :: "env \<Rightarrow> string \<Rightarrow> int \<Rightarrow> address \<Rightarrow> string \<Rightarrow> upload option \<Rightarrow> evidence act" where
  "submitDisputeEvidence e sid i submitter text file =
     andThen (findOneWithShipment sid i) (\<lambda>(m, s).
     require (s_status s \<noteq> CANCELLED) ConflictException (
     require (m_status m = DISPUTED) ConflictException (
     requireSome (disputeRoleOf s submitter) ForbiddenException (\<lambda>role.
     liftResult (case file of None \<Rightarrow> Inr None
        | Some f \<Rightarrow> (case ipfsUpload e f of Inr cid \<Rightarrow> Inr (Some cid) | Inl _ \<Rightarrow> Inl RuntimeError)) (\<lambda>cid.
     andThen freshId (\<lambda>eid.
     let ev = \<lparr>e_id = eid, e_milestoneId = m_id m, e_submittedBy = submitter, e_role = role, e_description = text,
               e_ipfsCid = cid, e_fileName = map_option originalname file, e_fileSize = map_option fsize file,
               e_mimeType = map_option mimetype file, e_createdAt = now e\<rparr> in
     andThen (modifyDb (\<lambda>d. d\<lparr>disputeEvidence := disputeEvidence d @ [ev]\<rparr>)) (\<lambda>_.
     andThen (whenA (arbiterStatus s = ACCEPTED) (ignore (notifyUser e (arbiterAddress s) N_DISPUTE_EVIDENCE_SUBMITTED
        ''New Dispute Evidence Submitted'' (JObj [(''shipmentId'', JStr sid), (''milestoneIndex'', JNum i)])))) (\<lambda>_.
     ret ev))))))))"

definition getDisputeEvidence :: "string \<Rightarrow> int \<Rightarrow> address \<Rightarrow> evidence list act" where
  "getDisputeEvidence sid i requester =
     andThen (findOneWithShipment sid i) (\<lambda>(m, s).
     andThen (reads (findUser requester)) (\<lambda>u.
     require (requester \<in> set (participants s) \<or> (case u of None \<Rightarrow> False | Some x \<Rightarrow> u_role x = ADMIN)) ForbiddenException (
     reads (evidenceOf (m_id m)))))"

definition getOneEvidence :: "string \<Rightarrow> int \<Rightarrow> uuid \<Rightarrow> address \<Rightarrow> bool \<Rightarrow> evidence act" where
  "getOneEvidence sid i eid requester isAdmin =
     andThen (findOneWithShipment sid i) (\<lambda>(m, s).
     require (isAdmin \<or> requester \<in> set (participants s)) ForbiddenException (
     andThen (reads (\<lambda>w. find (\<lambda>ev. e_id ev = eid \<and> e_milestoneId ev = m_id m) (disputeEvidence (db w)))) (\<lambda>found.
     requireSome found NotFoundException ret)))"

text \<open>\<open>fetch\<close> is the answer of IPFS for a content identifier.\<close>

definition downloadEvidence :: "(string \<Rightarrow> string result) \<Rightarrow> string \<Rightarrow> int \<Rightarrow> uuid \<Rightarrow> (string \<times> string \<times> string) act" where
  "downloadEvidence fetch sid i eid =
     andThen (findOne sid i) (\<lambda>m.
     andThen (reads (\<lambda>w. find (\<lambda>ev. e_id ev = eid \<and> e_milestoneId ev = m_id m) (disputeEvidence (db w)))) (\<lambda>found.
     requireSome found NotFoundException (\<lambda>ev.
     require (truthy (e_ipfsCid ev)) NotFoundException (
     liftResult (fetch (the (e_ipfsCid ev))) (\<lambda>content.
     ret (content, if truthy (e_fileName ev) then the (e_fileName ev) else ''download'',
          if truthy (e_mimeType ev) then the (e_mimeType ev) else ''application/octet-stream''))))))"

section \<open>Upcoming deadlines\<close>

definition roleOf :: "address \<Rightarrow> shipment \<Rightarrow> userRole" where
  "roleOf caller s = (if buyerAddress s = caller then BUYER else if supplierAddress s = caller then SUPPLIER
     else if logisticsAddress s = caller then LOGISTICS else ARBITER)"

definition getUpcomingForUser :: "env \<Rightarrow> address \<Rightarrow> int \<Rightarrow> bool \<Rightarrow> world \<Rightarrow> (milestone \<times> userRole \<times> bool) list" where
  "getUpcomingForUser e caller days includeOverdue w =
     (let until = now e + days * 24 * 60 * 60 * 1000;
          owner = (\<lambda>m. find (\<lambda>s. s_id s = m_shipmentId m) (shipments (db w)));
          wanted = filter (\<lambda>m. deletedAt m = None \<and> m_status m \<in> {PENDING, PROOF_SUBMITTED} \<and>
            (case dueAt m of None \<Rightarrow> False | Some d \<Rightarrow> d \<le> until \<and> (includeOverdue \<or> d \<ge> now e)) \<and>
            (case owner m of None \<Rightarrow> False | Some s \<Rightarrow> s_status s = ACTIVE \<and> caller \<in> set (participants s))) (milestones (db w))
      in map (\<lambda>m. (m, roleOf caller (the (owner m)), the (dueAt m) < now e)) (sort_key (\<lambda>m. the (dueAt m)) wanted))"

section \<open>The milestone plan\<close>

record appendDto =
  ad_name :: string
  ad_paymentPercent :: int
  ad_dueAt :: "time option"

definition percentTotal :: "string \<Rightarrow> db \<Rightarrow> int" where
  "percentTotal sid d = sum_list (map paymentPercent (liveMilestones sid d))"

text \<open>Soft-deleted rows keep their index, so the next index counts them.\<close>

definition nextIndex :: "string \<Rightarrow> db \<Rightarrow> int" where
  "nextIndex sid d = (let is = map milestoneIndex (filter (\<lambda>m. m_shipmentId m = sid) (milestones d)) in
     if is = [] then 0 else Max (set is) + 1)"

definition newMilestone :: "env \<Rightarrow> string \<Rightarrow> uuid \<Rightarrow> int \<Rightarrow> appendDto \<Rightarrow> milestone" where
  "newMilestone e sid mid i dto = \<lparr>m_id = mid, m_shipmentId = sid, milestoneIndex = i, m_name = ad_name dto,
     paymentPercent = ad_paymentPercent dto, proofHash = None, m_status = PENDING, paymentReleased = None,
     confirmedAt = None, dueAt = ad_dueAt dto, overdueNotifiedAt = None, overdueReminder3dAt = None,
     disputeEscalatedAt = None, disputedAt = None, deletedAt = None, m_createdAt = now e, m_updatedAt = now e\<rparr>"

definition appendMilestone :: "env \<Rightarrow> string \<Rightarrow> address \<Rightarrow> appendDto \<Rightarrow> milestone act" where
  "appendMilestone e sid caller dto =
     andThen (reads (findShipment sid)) (\<lambda>found.
     requireSome found NotFoundException (\<lambda>s.
     require (buyerAddress s = caller) ForbiddenException (
     andThen (reads (\<lambda>w. liveMilestones sid (db w))) (\<lambda>existing.
     require (list_all (\<lambda>m. m_status m = PENDING) existing) ConflictException (
     require (sum_list (map paymentPercent existing) + ad_paymentPercent dto \<le> 100) BadRequestException (
     andThen (reads (\<lambda>w. nextIndex sid (db w))) (\<lambda>i.
     andThen freshId (\<lambda>mid.
     let m = newMilestone e sid mid i dto in
     andThen (modifyDb (\<lambda>d. d\<lparr>milestones := milestones d @ [m]\<rparr>)) (\<lambda>_.
     ret m)))))))))"

text \<open>The validation loop of \<open>rebalance\<close>: the first offending update decides the error.\<close>

fun checkUpdates :: "milestone list \<Rightarrow> (int \<times> int) list \<Rightarrow> unit result" where
  "checkUpdates ms [] = Inr ()"
| "checkUpdates ms ((i, pct) # us) = (case find (\<lambda>m. milestoneIndex m = i) ms of
      None \<Rightarrow> Inl NotFoundException
    | Some m \<Rightarrow> if m_status m \<noteq> PENDING then Inl ConflictException else checkUpdates ms us)"

text \<open>\<open>new Map(updates)\<close>: of several updates of one index the last counts.\<close>

definition updatedPercent :: "(int \<times> int) list \<Rightarrow> milestone \<Rightarrow> int" where
  "updatedPercent us m = (case map_of (rev us) (milestoneIndex m) of Some p \<Rightarrow> p | None \<Rightarrow> paymentPercent m)"

definition rebalance :: "env \<Rightarrow> string \<Rightarrow> address \<Rightarrow> (int \<times> int) list \<Rightarrow> milestone list act" where
  "rebalance e sid caller us =
     andThen (reads (findShipment sid)) (\<lambda>found.
     requireSome found NotFoundException (\<lambda>s.
     require (buyerAddress s = caller) ForbiddenException (
     andThen (reads (\<lambda>w. sort_key milestoneIndex (liveMilestones sid (db w)))) (\<lambda>ms.
     liftResult (checkUpdates ms us) (\<lambda>_.
     require (sum_list (map (updatedPercent us) ms) = 100) BadRequestException (
     andThen (transaction (forEach us (\<lambda>(i, pct). ignore (updateMilestone (now e) sid i (\<lambda>m. m\<lparr>paymentPercent := pct\<rparr>))))) (\<lambda>_.
     reads (\<lambda>w. sort_key milestoneIndex (liveMilestones sid (db w))))))))))"

definition removeMilestone :: "env \<Rightarrow> string \<Rightarrow> int \<Rightarrow> address \<Rightarrow> uuid option \<Rightarrow> milestone act" where
  "removeMilestone e sid i caller callerId =
     andThen (reads (findShipment sid)) (\<lambda>found.
     requireSome found NotFoundException (\<lambda>s.
     require (buyerAddress s = caller) ForbiddenException (
     andThen (findOne sid i) (\<lambda>m.
     require (m_status m = PENDING) ConflictException (
     andThen (reads (\<lambda>w. liveMilestones sid (db w))) (\<lambda>ms.
     require (list_all (\<lambda>x. milestoneIndex x = i \<or> m_status x = PENDING) ms) ConflictException (
     require (length ms > 1) BadRequestException (
     andThen (updateMilestoneById (now e) (m_id m) (\<lambda>r. r\<lparr>deletedAt := Some (now e)\<rparr>)) (\<lambda>_.
     andThen (auditRecord \<lparr>au_actorId = callerId, au_actorAddress = caller, au_action = ''milestone.removed'',
        au_resourceType = ''Milestone'', au_resourceId = ByUuid (m_id m),
        au_metadata = JObj [(''shipmentId'', JStr sid), (''milestoneIndex'', JNum i)]\<rparr>) (\<lambda>_.
     ret m))))))))))"

section \<open>Lemmas\<close>

lemma run_findOne:
  "findOne sid i w = (case findLiveMilestone sid i w of None \<Rightarrow> (Inl NotFoundException, w) | Some m \<Rightarrow> (Inr m, w))"
  by (simp add: findOne_def split: option.splits)

lemma findOne_success_iff: "findOne sid i w = (Inr m, w') \<longleftrightarrow> w' = w \<and> findLiveMilestone sid i w = Some m"
  by (auto simp: run_findOne split: option.splits)

lemma findOne_readOnly: "readOnly (findOne sid i)"
  unfolding findOne_def by (intro leaves_intros)

lemma findOneWithShipment_readOnly: "readOnly (findOneWithShipment sid i)"
  unfolding findOneWithShipment_def by (intro leaves_intros findOne_readOnly)

lemma assertQuorum_readOnly: "readOnly (assertQuorum sid)"
  by (rule leavesI) (metis approvalGate.gate_block approvalGate.gate_pass snd_conv)

lemma assertQuorum_success_iff: "assertQuorum sid w = (Inr u, w') \<longleftrightarrow> w' = w \<and> hasQuorum sid w"
  by (cases "hasQuorum sid w") (auto simp: approvalGate.gate_pass approvalGate.gate_block)

lemma total_paymentReleasedNotice [total_intros]: "neverFails (paymentReleasedNotice e s i tx paid)"
  by (simp add: paymentReleasedNotice_def total_intros)

lemma total_proofRejectedNotice [total_intros]: "neverFails (proofRejectedNotice e s reason i)"
  by (simp add: proofRejectedNotice_def total_intros)

lemma leaves_db_notices [leaves_intros]:
  "leaves db (paymentReleasedNotice e s i tx paid)" "leaves db (proofRejectedNotice e s reason i)"
  by (simp_all add: leaves_def paymentReleasedNotice_def proofRejectedNotice_def)

subsection \<open>Updating milestone rows\<close>

text \<open>A list of updates by index, each with its own change, as one change of the table.\<close>

definition applyRows :: "time \<Rightarrow> string \<Rightarrow> ('x \<Rightarrow> milestone \<Rightarrow> milestone) \<Rightarrow> (int \<times> 'x) list \<Rightarrow> milestone \<Rightarrow> milestone" where
  "applyRows t sid g us r = fold (\<lambda>u r. if mKey r = (sid, fst u) then (g (snd u) r)\<lparr>m_updatedAt := t\<rparr> else r) us r"

lemma setMilestones_comp: "setMilestones f (setMilestones g w) = setMilestones (\<lambda>rows. f (g rows)) w"
  by (simp add: setMilestones_def)

lemma findMilestone_set:
  assumes "\<And>r. mKey (f r) = mKey r"
  shows "findMilestone sid i (setMilestones (map f) w) = map_option f (findMilestone sid i w)"
proof -
  have "find (\<lambda>m. mKey m = (sid, i)) (map f rows) = map_option f (find (\<lambda>m. mKey m = (sid, i)) rows)" for rows
    using assms by (induction rows) auto
  then show ?thesis by (simp add: findMilestone_def setMilestones_def)
qed

lemma mKey_applyRows: "(\<And>x r. mKey (g x r) = mKey r) \<Longrightarrow> mKey (applyRows t sid g us r) = mKey r"
  unfolding applyRows_def by (induction us arbitrary: r) auto

lemma forEach_updateMilestone:
  assumes g: "\<And>x r. mKey (g x r) = mKey r" and "\<And>i x. (i, x) \<in> set us \<Longrightarrow> findMilestone sid i w \<noteq> None"
  shows "forEach us (\<lambda>(i, x). ignore (updateMilestone t sid i (g x))) w =
    (Inr (), setMilestones (map (applyRows t sid g us)) w)"
  using assms(2)
proof (induction us arbitrary: w)
  case Nil
  then show ?case by (simp add: applyRows_def setMilestones_def)
next
  case (Cons u us)
  obtain i x where u: "u = (i, x)" by fastforce
  let ?f = "\<lambda>r. if mKey r = (sid, i) then (g x r)\<lparr>m_updatedAt := t\<rparr> else r"
  let ?w1 = "setMilestones (map ?f) w"
  have upd: "updateWhere (\<lambda>r. mKey r = (sid, i)) (\<lambda>r. (g x r)\<lparr>m_updatedAt := t\<rparr>) = map ?f"
    by (rule ext) (simp add: updateWhere_def)
  from Cons.prems u obtain m where "findMilestone sid i w = Some m" by fastforce
  then have step: "ignore (updateMilestone t sid i (g x)) w = (Inr (), ?w1)"
    using upd by (simp add: run_updateMilestone)
  have "findMilestone sid j ?w1 \<noteq> None" if "(j, y) \<in> set us" for j y
    using that Cons.prems g by (subst findMilestone_set) (auto simp: u)
  then have "forEach us (\<lambda>(i, x). ignore (updateMilestone t sid i (g x))) ?w1 =
      (Inr (), setMilestones (map (applyRows t sid g us)) ?w1)" by (intro Cons.IH) blast
  moreover have "setMilestones (map (applyRows t sid g us)) ?w1 = setMilestones (map (applyRows t sid g (u # us))) w"
    by (simp add: setMilestones_def applyRows_def u comp_def)
  ultimately show ?case using step by (simp add: u)
qed

lemma find_by_index_live:
  "find (\<lambda>m. milestoneIndex m = i) (liveMilestones sid d) = find (\<lambda>m. mKey m = (sid, i) \<and> deletedAt m = None) (milestones d)"
proof -
  have "find (\<lambda>m. milestoneIndex m = i) (filter (\<lambda>m. m_shipmentId m = sid \<and> deletedAt m = None) rows) =
      find (\<lambda>m. mKey m = (sid, i) \<and> deletedAt m = None) rows" for rows
    by (induction rows) auto
  then show ?thesis by (simp add: liveMilestones_def)
qed

lemma find_live_index: "find (\<lambda>m. milestoneIndex m = i) (liveMilestones sid (db w)) = findLiveMilestone sid i w"
  by (simp add: find_by_index_live findLiveMilestone_def)

lemma liveMilestones_map:
  assumes "\<And>r. m_shipmentId (f r) = m_shipmentId r" and "\<And>r. deletedAt (f r) = deletedAt r"
  shows "liveMilestones sid (db (setMilestones (map f) w)) = map f (liveMilestones sid (db w))"
  using assms by (simp add: liveMilestones_def setMilestones_def filter_map comp_def)

lemma wf_setMilestones:
  assumes "wf_db (db w)" and "\<And>r. mKey (f r) = mKey r" and "\<And>r. m_id (f r) = m_id r"
  shows "wf_db (db (setMilestones (map f) w))"
  using assms by (simp add: wf_db_def setMilestones_def comp_def)

lemma live_has_row: "findLiveMilestone sid i w = Some m \<Longrightarrow> findMilestone sid i w \<noteq> None"
  by (auto simp: findLiveMilestone_def findMilestone_def find_None_iff_ball dest!: find_Some_prop)


subsection \<open>The plan operations\<close>

definition setPercent :: "int \<Rightarrow> milestone \<Rightarrow> milestone" where
  "setPercent p m = m\<lparr>paymentPercent := p\<rparr>"

lemma setPercent_simps [simp]: "paymentPercent (setPercent p r) = p" "m_shipmentId (setPercent p r) = m_shipmentId r"
  "milestoneIndex (setPercent p r) = milestoneIndex r" "deletedAt (setPercent p r) = deletedAt r"
  "m_status (setPercent p r) = m_status r" "m_id (setPercent p r) = m_id r"
  by (simp_all add: setPercent_def)

lemma applyRows_percent:
  assumes "m_shipmentId r = sid"
  shows "paymentPercent (applyRows t sid setPercent us r) = updatedPercent us r"
proof (induction us rule: rev_induct)
  case Nil
  then show ?case by (simp add: applyRows_def updatedPercent_def)
next
  case (snoc u us)
  have "mKey (applyRows t sid setPercent us r) = mKey r" by (rule mKey_applyRows) simp
  then have "applyRows t sid setPercent (us @ [u]) r =
      (if milestoneIndex r = fst u then (setPercent (snd u) (applyRows t sid setPercent us r))\<lparr>m_updatedAt := t\<rparr>
       else applyRows t sid setPercent us r)"
    using assms by (simp add: applyRows_def)
  with snoc show ?case by (cases u) (auto simp: updatedPercent_def)
qed

lemma applyRows_percent_frame:
  "m_shipmentId (applyRows t sid setPercent us r) = m_shipmentId r \<and>
   milestoneIndex (applyRows t sid setPercent us r) = milestoneIndex r \<and>
   deletedAt (applyRows t sid setPercent us r) = deletedAt r \<and> m_status (applyRows t sid setPercent us r) = m_status r \<and>
   m_id (applyRows t sid setPercent us r) = m_id r"
  unfolding applyRows_def by (induction us arbitrary: r) auto

lemma checkUpdates_exist: "checkUpdates ms us = Inr () \<Longrightarrow> (i, p) \<in> set us \<Longrightarrow> find (\<lambda>m. milestoneIndex m = i) ms \<noteq> None"
  by (induction ms us rule: checkUpdates.induct) (auto split: option.splits if_splits)

lemma find_sort_index:
  assumes "distinct (map milestoneIndex ms)"
  shows "find (\<lambda>m. milestoneIndex m = i) (sort_key milestoneIndex ms) = find (\<lambda>m. milestoneIndex m = i) ms"
proof -
  have "distinct (map milestoneIndex (sort_key milestoneIndex ms))"
    using assms by (simp add: distinct_map)
  note sorted = find_eq_Some_unique [OF this]
  show ?thesis
  proof (cases "find (\<lambda>m. milestoneIndex m = i) ms")
    case None
    then have "find (\<lambda>m. milestoneIndex m = i) (sort_key milestoneIndex ms) = None" by (simp add: find_None_iff_ball)
    with None show ?thesis by simp
  next
    case (Some m)
    then show ?thesis using sorted find_Some_prop [OF Some] by simp
  qed
qed

lemma live_indices_distinct: "wf_db d \<Longrightarrow> distinct (map milestoneIndex (liveMilestones sid d))"
  by (auto simp: wf_db_def liveMilestones_def distinct_map inj_on_def)

lemma rebalance_effect:
  assumes wf: "wf_db (db w)" and run: "rebalance e sid caller us w = (Inr rows, w')"
  shows "w' = setMilestones (map (applyRows (now e) sid setPercent us)) w \<and>
    sum_list (map (updatedPercent us) (liveMilestones sid (db w))) = 100 \<and>
    rows = sort_key milestoneIndex (liveMilestones sid (db w'))"
proof -
  let ?ms = "sort_key milestoneIndex (liveMilestones sid (db w))"
  let ?body = "forEach us (\<lambda>(i, pct). ignore (updateMilestone (now e) sid i (\<lambda>m. m\<lparr>paymentPercent := pct\<rparr>)))"
  from run have chk: "checkUpdates ?ms us = Inr ()" and sum: "sum_list (map (updatedPercent us) ?ms) = 100"
    and tx: "?body w = (Inr (), w')" and rows: "rows = sort_key milestoneIndex (liveMilestones sid (db w'))"
    by (auto simp: rebalance_def success_iffs transaction_success_iff)
  have "findMilestone sid i w \<noteq> None" if "(i, p) \<in> set us" for i p
    using checkUpdates_exist [OF chk that] live_has_row find_live_index [of i sid w]
      find_sort_index [OF live_indices_distinct [OF wf]] by force
  then have "forEach us (\<lambda>(i, x). ignore (updateMilestone (now e) sid i (setPercent x))) w =
      (Inr (), setMilestones (map (applyRows (now e) sid setPercent us)) w)"
    by (intro forEach_updateMilestone) auto
  moreover have "setPercent x = (\<lambda>m. m\<lparr>paymentPercent := x\<rparr>)" for x by (rule ext) (simp add: setPercent_def)
  ultimately have "?body w = (Inr (), setMilestones (map (applyRows (now e) sid setPercent us)) w)"
    by simp
  moreover have "sum_list (map (updatedPercent us) ?ms) = sum_list (map (updatedPercent us) (liveMilestones sid (db w)))"
    by (rule sum_list_sort_key)
  ultimately show ?thesis using sum tx rows by simp
qed


lemma nextIndex_fresh: "m \<in> set (milestones d) \<Longrightarrow> m_shipmentId m = sid \<Longrightarrow> milestoneIndex m < nextIndex sid d"
  by (auto simp: nextIndex_def Let_def filter_empty_conv less_Suc_eq_le intro!: Max_ge zle_add1_eq_le [THEN iffD2])

lemma appendMilestone_effect:
  assumes "appendMilestone e sid caller dto w = (Inr m, w')"
  shows "m = newMilestone e sid (nextId (db w)) (nextIndex sid (db w)) dto \<and>
    w' = w\<lparr>db := (db w)\<lparr>milestones := milestones (db w) @ [m], nextId := Suc (nextId (db w))\<rparr>\<rparr> \<and>
    findShipment sid w \<noteq> None \<and> percentTotal sid (db w) + ad_paymentPercent dto \<le> 100 \<and>
    list_all (\<lambda>m. m_status m = PENDING) (liveMilestones sid (db w))"
  using assms by (auto simp: appendMilestone_def success_iffs Let_def percentTotal_def newMilestone_def)

lemma append_keeps_wf:
  assumes wf: "wf_db d" and s: "\<exists>s \<in> set (shipments d). s_id s = sid"
  shows "wf_db (d\<lparr>milestones := milestones d @ [newMilestone e sid (nextId d) (nextIndex sid d) dto], nextId := Suc (nextId d)\<rparr>)"
proof -
  have "(sid, nextIndex sid d) \<notin> mKey ` set (milestones d)"
    using nextIndex_fresh [of _ d sid] by fastforce
  moreover have "nextId d \<notin> m_id ` set (milestones d)"
    using wf by (auto simp: wf_db_def)
  ultimately show ?thesis
    using wf s by (auto simp: wf_db_def newMilestone_def less_Suc_eq)
qed

lemma removeMilestone_effect:
  assumes "removeMilestone e sid i caller cid w = (Inr m, w')"
  shows "findLiveMilestone sid i w = Some m \<and> m_status m = PENDING \<and> 1 < length (liveMilestones sid (db w)) \<and>
    db w' = db (setMilestones (map (\<lambda>r. if m_id r = m_id m then r\<lparr>deletedAt := Some (now e), m_updatedAt := now e\<rparr> else r)) w)"
  using assms
  by (auto simp: removeMilestone_def success_iffs findOne_success_iff run_updateMilestoneById setMilestones_def updateWhere_def
      split: option.splits)

lemma remove_live:
  assumes wf: "wf_db (db w)" and m: "findLiveMilestone sid i w = Some m"
    and w': "db w' = db (setMilestones (map (\<lambda>r. if m_id r = m_id m then r\<lparr>deletedAt := Some t, m_updatedAt := t\<rparr> else r)) w)"
  shows "liveMilestones sid (db w') = remove1 m (liveMilestones sid (db w))"
proof -
  have "filter (\<lambda>r. m_shipmentId r = sid \<and> deletedAt r = None)
      (map (\<lambda>r. if m_id r = m_id m then r\<lparr>deletedAt := Some t, m_updatedAt := t\<rparr> else r) rows) =
    filter (\<lambda>r. m_id r \<noteq> m_id m) (filter (\<lambda>r. m_shipmentId r = sid \<and> deletedAt r = None) rows)" for rows
    by (induction rows) auto
  then have "liveMilestones sid (db w') = filter (\<lambda>r. m_id r \<noteq> m_id m) (liveMilestones sid (db w))"
    by (simp add: liveMilestones_def w' setMilestones_def)
  also have "\<dots> = filter (\<lambda>r. r \<noteq> m) (liveMilestones sid (db w))"
    using wf findLiveMilestone_key [OF m]
    by (intro filter_cong) (auto simp: wf_db_def liveMilestones_def distinct_map dest: inj_onD)
  also have "\<dots> = remove1 m (liveMilestones sid (db w))"
    using wf by (simp add: distinct_remove1_removeAll removeAll_filter_not_eq wf_db_def liveMilestones_def distinct_map eq_commute)
  finally show ?thesis .
qed

subsection \<open>Sequences of plan operations\<close>

datatype planCall =
    Append env address appendDto
  | Rebalance env address "(int \<times> int) list"
  | Remove env int address "uuid option"

text \<open>What the request validation of the two DTOs admits.\<close>

definition dtoValid :: "planCall \<Rightarrow> bool" where
  "dtoValid c = (case c of
      Append e caller dto \<Rightarrow> ad_name dto \<noteq> [] \<and> 1 \<le> ad_paymentPercent dto \<and> ad_paymentPercent dto \<le> 100
    | Rebalance e caller us \<Rightarrow> list_all (\<lambda>(i, p). 0 \<le> i \<and> 0 \<le> p \<and> p \<le> 100) us
    | Remove e i caller cid \<Rightarrow> True)"

definition planStep :: "string \<Rightarrow> planCall \<Rightarrow> world \<Rightarrow> world" where
  "planStep sid c w = (if \<not> dtoValid c then w else (case c of
      Append e caller dto \<Rightarrow> snd (appendMilestone e sid caller dto w)
    | Rebalance e caller us \<Rightarrow> snd (rebalance e sid caller us w)
    | Remove e i caller cid \<Rightarrow> snd (removeMilestone e sid i caller cid w)))"

definition planInv :: "string \<Rightarrow> world \<Rightarrow> bool" where
  "planInv sid w \<longleftrightarrow> wf_db (db w) \<and> liveMilestones sid (db w) \<noteq> [] \<and>
     (\<forall>m \<in> set (liveMilestones sid (db w)). 0 \<le> paymentPercent m) \<and> percentTotal sid (db w) \<le> 100"

lemma atomic_appendMilestone: "atomic (appendMilestone e sid caller dto)"
  unfolding appendMilestone_def Let_def by (intro atomic_intros atomic_total total_intros)

lemma atomic_rebalance: "atomic (rebalance e sid caller us)"
  unfolding rebalance_def by (intro atomic_intros atomic_then_total [OF atomic_transaction] total_intros)

lemma atomic_removeMilestone: "atomic (removeMilestone e sid i caller cid)"
  unfolding removeMilestone_def
  by (intro atomic_intros findOne_readOnly atomic_then_total [OF atomic_updateMilestoneById] total_intros)

text \<open>For an action that throws before it writes, preservation only has to look at its answers.\<close>

lemma atomic_keepsI:
  assumes "atomic m" and "\<And>w v w'. P w \<Longrightarrow> m w = (Inr v, w') \<Longrightarrow> P w'"
  shows "keeps P m"
proof
  fix w assume "P w"
  obtain r w' where "m w = (r, w')" by fastforce
  with assms \<open>P w\<close> show "P (snd (m w))" by (cases r) (auto simp: atomic_def)
qed

lemma append_keeps_plan:
  assumes "1 \<le> ad_paymentPercent dto"
  shows "keeps (planInv sid) (appendMilestone e sid caller dto)"
proof (rule atomic_keepsI [OF atomic_appendMilestone])
  fix w m w' assume inv: "planInv sid w" and "appendMilestone e sid caller dto w = (Inr m, w')"
  note eff = appendMilestone_effect [OF this(2)]
  then have live: "liveMilestones sid (db w') = liveMilestones sid (db w) @ [m]"
    by (simp add: liveMilestones_def newMilestone_def)
  moreover have "wf_db (db w')"
    using eff inv append_keeps_wf [of "db w" sid] by (auto simp: planInv_def findShipment_None_iff)
  moreover have "paymentPercent m = ad_paymentPercent dto" using eff by (simp add: newMilestone_def)
  ultimately show "planInv sid w'"
    using inv eff assms by (auto simp: planInv_def percentTotal_def)
qed

lemma percentTotal_after:
  "sum_list (map paymentPercent (map (applyRows t sid setPercent us) (liveMilestones sid d))) =
    sum_list (map (updatedPercent us) (liveMilestones sid d))"
  by (rule arg_cong [of _ _ sum_list]) (auto simp: liveMilestones_def applyRows_percent)

lemma rebalance_keeps_plan:
  assumes "list_all (\<lambda>(i, p). 0 \<le> i \<and> 0 \<le> p \<and> p \<le> 100) us"
  shows "keeps (planInv sid) (rebalance e sid caller us)"
proof (rule atomic_keepsI [OF atomic_rebalance])
  fix w rows w' assume inv: "planInv sid w" and "rebalance e sid caller us w = (Inr rows, w')"
  note eff = rebalance_effect [OF _ this(2)]
  let ?f = "applyRows (now e) sid setPercent us"
  from inv have wf: "wf_db (db w)" by (simp add: planInv_def)
  have w': "w' = setMilestones (map ?f) w" using eff [OF wf] by simp
  have live: "liveMilestones sid (db w') = map ?f (liveMilestones sid (db w))"
    unfolding w' by (rule liveMilestones_map) (simp_all add: applyRows_percent_frame)
  have "wf_db (db w')" unfolding w' using wf by (rule wf_setMilestones) (simp_all add: applyRows_percent_frame)
  moreover have "percentTotal sid (db w') = 100"
    using eff [OF wf] percentTotal_after [of "now e" sid us "db w"] unfolding percentTotal_def live by simp
  moreover have "0 \<le> updatedPercent us m" if "0 \<le> paymentPercent m" for m
    using assms that by (auto simp: updatedPercent_def list_all_iff dest!: map_of_SomeD split: option.splits)
  then have "0 \<le> paymentPercent (?f m)" if "m \<in> set (liveMilestones sid (db w))" for m
    using inv that by (simp add: planInv_def applyRows_percent liveMilestones_def)
  ultimately show "planInv sid w'" using inv live by (auto simp: planInv_def)
qed

lemma remove_keeps_plan: "keeps (planInv sid) (removeMilestone e sid i caller cid)"
proof (rule atomic_keepsI [OF atomic_removeMilestone])
  fix w m w' assume inv: "planInv sid w" and "removeMilestone e sid i caller cid w = (Inr m, w')"
  note eff = removeMilestone_effect [OF this(2)]
  from inv have wf: "wf_db (db w)" by (simp add: planInv_def)
  have live: "liveMilestones sid (db w') = remove1 m (liveMilestones sid (db w))"
    using remove_live [OF wf] eff by blast
  have mem: "m \<in> set (liveMilestones sid (db w))"
    using eff findLiveMilestone_key [of sid i w m] by (auto simp: liveMilestones_def)
  then have "sum_list (map paymentPercent (liveMilestones sid (db w))) =
      paymentPercent m + sum_list (map paymentPercent (remove1 m (liveMilestones sid (db w))))"
    by (rule sum_list_map_remove1)
  moreover have "wf_db (db w')" using eff wf_setMilestones [OF wf] by (auto intro!: wf_setMilestones [OF wf])
  moreover have "remove1 m (liveMilestones sid (db w)) \<noteq> []"
    using eff mem by (auto dest!: arg_cong [of _ _ length] simp: length_remove1)
  ultimately show "planInv sid w'"
    using inv live mem by (auto simp: planInv_def percentTotal_def dest!: notin_set_remove1 [rotated])
qed

interpretation planRuns: step_system "planStep sid" "planInv sid"
proof unfold_locales
  fix w c assume "planInv sid w"
  then show "planInv sid (planStep sid c w)"
    by (cases c) (auto simp: planStep_def dtoValid_def intro: keepsD [OF append_keeps_plan]
        keepsD [OF rebalance_keeps_plan] keepsD [OF remove_keeps_plan])
qed


subsection \<open>Confirmation\<close>

lemma confirmRow_simps [simp]: "mKey (confirmRow e p r) = mKey r" "m_id (confirmRow e p r) = m_id r"
  "deletedAt (confirmRow e p r) = deletedAt r" "m_status (confirmRow e p r) = CONFIRMED"
  "paymentReleased (confirmRow e p r) = Some p" "m_shipmentId (confirmRow e p r) = m_shipmentId r"
  "milestoneIndex (confirmRow e p r) = milestoneIndex r" "paymentPercent (confirmRow e p r) = paymentPercent r"
  by (simp_all add: confirmRow_def)

lemma find_of_live: "wf_db (db w) \<Longrightarrow> findLiveMilestone sid i w = Some m \<Longrightarrow> findMilestone sid i w = Some m"
  using find_live_of_find [of w sid i m] by (simp add: wf_db_def)

lemma confirm_success:
  assumes wf: "wf_db (db w)" and run: "confirmFromApi e sid i caller tx paid w = (Inr m', w')"
  obtains s m amount where "findShipment sid w = Some s" "buyerAddress s = caller" "s_status s \<noteq> CANCELLED"
    "hasQuorum sid w" "findLiveMilestone sid i w = Some m" "m_status m = PROOF_SUBMITTED"
    "parseBigInt paid = Some amount" "fitsBigint amount" "m' = (confirmRow e amount m)\<lparr>m_updatedAt := now e\<rparr>"
    "milestones (db w') = updateWhere (\<lambda>r. mKey r = (sid, i)) (\<lambda>r. (confirmRow e amount r)\<lparr>m_updatedAt := now e\<rparr>) (milestones (db w))"
proof -
  from run obtain s m amount w1 w2 where 1: "findShipment sid w = Some s" "buyerAddress s = caller" "hasQuorum sid w"
    "findLiveMilestone sid i w = Some m" "m_status m = PROOF_SUBMITTED" "parseBigInt paid = Some amount"
    and mark: "markConfirmed e sid i amount w = (Inr m', w1)" and sync: "syncStatusFromChain e sid w1 = (Inr (), w2)"
    and note': "paymentReleasedNotice e s i tx paid w2 = (Inr (), w')"
    by (auto simp: confirmFromApi_def success_iffs assertQuorum_success_iff findOne_success_iff)
  have "findMilestone sid i w = Some m" using find_of_live [OF wf 1(4)] .
  with mark 1(1) have 2: "s_status s \<noteq> CANCELLED" "fitsBigint amount" "m' = (confirmRow e amount m)\<lparr>m_updatedAt := now e\<rparr>"
    "w1 = setMilestones (updateWhere (\<lambda>r. mKey r = (sid, i)) (\<lambda>r. (confirmRow e amount r)\<lparr>m_updatedAt := now e\<rparr>)) w"
    by (auto simp: markConfirmed_def success_iffs run_updateMilestone shipmentCancelled_def)
  have "milestones (db w') = milestones (db w1)"
    using leaves_run [OF leaves_milestones_sync sync] leaves_run [OF leaves_db_notices(1) note'] by simp
  with 1 2 show thesis by (intro that) (simp_all add: setMilestones_def)
qed

section \<open>Properties\<close>

text \<open>A rebalance distributes exactly the whole payment. When \<open>rebalance\<close> answers, the live milestones of
  the shipment sum to exactly 100 percent even if an index was named several times, the answer is
  those rows in index order, and nothing but percentages (and update stamps) changed: order,
  indices, states and soft deletions of all milestones are as before.\<close>

lemma rebalance_sums_to_100:
  assumes wf: "wf_db (db w)" and run: "rebalance e sid caller us w = (Inr rows, w')"
  shows "percentTotal sid (db w') = 100 \<and> rows = sort_key milestoneIndex (liveMilestones sid (db w')) \<and>
    map (\<lambda>m. (m_id m, mKey m, m_status m, deletedAt m)) (milestones (db w')) =
    map (\<lambda>m. (m_id m, mKey m, m_status m, deletedAt m)) (milestones (db w))"
proof -
  let ?f = "applyRows (now e) sid setPercent us"
  note eff = rebalance_effect [OF wf run]
  have w': "w' = setMilestones (map ?f) w" using eff by simp
  have live: "liveMilestones sid (db w') = map ?f (liveMilestones sid (db w))"
    unfolding w' by (rule liveMilestones_map) (simp_all add: applyRows_percent_frame)
  have "percentTotal sid (db w') = 100"
    using eff percentTotal_after [of "now e" sid us "db w"] unfolding percentTotal_def live by simp
  then show ?thesis using eff by (simp add: w' setMilestones_def applyRows_percent_frame)
qed

definition planWorld :: world where
  "planWorld = emptyWorld\<lparr>db := emptyDb\<lparr>shipments := [shipment0 ''S''],
     milestones := [milestone0 1 ''S'' 0 40 PENDING, milestone0 2 ''S'' 1 60 PENDING]\<rparr>\<rparr>"

lemma planWorld_wf: "wf_db (db planWorld)"
  by (simp add: planWorld_def wf_db_def concrete_defs)

theorem rebalance_sums_to_100_witness:
  "\<exists>rows w'. rebalance env0 ''S'' ''GB'' [(0, 10), (1, 75), (0, 25)] planWorld = (Inr rows, w') \<and> percentTotal ''S'' (db w') = 100"
proof -
  have "\<exists>rows w'. rebalance env0 ''S'' ''GB'' [(0, 10), (1, 75), (0, 25)] planWorld = (Inr rows, w')"
    by (simp add: rebalance_def planWorld_def findShipment_def liveMilestones_def updatedPercent_def transaction_def
        run_updateMilestone findMilestone_def setMilestones_def ignore_def concrete_defs)
  then obtain rows w' where run: "rebalance env0 ''S'' ''GB'' [(0, 10), (1, 75), (0, 25)] planWorld = (Inr rows, w')" by blast
  with rebalance_sums_to_100 [OF planWorld_wf run] show ?thesis by blast
qed

text \<open>C1: the milestone plan stays payable. From a well-formed shipment whose live percentages are
  non-negative and sum to at most 100, no sequence of validated append, rebalance and remove
  requests by any callers makes the live percentages exceed 100, removes the last milestone, or
  breaks the uniqueness of milestone numbers.\<close>

theorem plan_never_exceeds_100:
  assumes "planInv sid w"
  shows "let w' = fold (planStep sid) calls w in
    percentTotal sid (db w') \<le> 100 \<and> liveMilestones sid (db w') \<noteq> [] \<and>
    (\<forall>m \<in> set (liveMilestones sid (db w')). 0 \<le> paymentPercent m \<and> paymentPercent m \<le> 100) \<and> wf_db (db w')"
proof -
  let ?w' = "fold (planStep sid) calls w"
  have inv: "planInv sid ?w'" using assms by (rule planRuns.run_inv)
  have "paymentPercent m \<le> percentTotal sid (db ?w')" if "m \<in> set (liveMilestones sid (db ?w'))" for m
    using that inv unfolding percentTotal_def planInv_def by (intro member_le_sum_list) auto
  with inv show ?thesis by (fastforce simp: planInv_def Let_def)
qed

theorem plan_never_exceeds_100_witness:
  "let w' = fold (planStep ''S'') [Remove env0 1 ''GB'' None, Append env0 ''GB'' \<lparr>ad_name = ''x'', ad_paymentPercent = 70, ad_dueAt = None\<rparr>,
      Remove env0 0 ''GB'' None] planWorld
   in percentTotal ''S'' (db w') \<le> 100 \<and> liveMilestones ''S'' (db w') \<noteq> []"
proof -
  have "planInv ''S'' planWorld"
    using planWorld_wf by (simp add: planInv_def percentTotal_def liveMilestones_def planWorld_def concrete_defs)
  from plan_never_exceeds_100 [OF this, of "[Remove env0 1 ''GB'' None, Append env0 ''GB''
    \<lparr>ad_name = ''x'', ad_paymentPercent = 70, ad_dueAt = None\<rparr>, Remove env0 0 ''GB'' None]"]
  show ?thesis by (simp only: Let_def) blast
qed

text \<open>C2: what a confirmation requires and does. When \<open>confirmFromApi\<close> answers, the caller is the buyer, the
  multi-signature quorum was met, the shipment was not cancelled, and the milestone was live with
  a submitted proof; afterwards that milestone is CONFIRMED with exactly the reported payment and
  every other milestone is unchanged.\<close>

theorem confirm_is_guarded:
  assumes wf: "wf_db (db w)" and run: "confirmFromApi e sid i caller tx paid w = (Inr m', w')"
  shows "\<exists>s m amount. findShipment sid w = Some s \<and> buyerAddress s = caller \<and> s_status s \<noteq> CANCELLED \<and> hasQuorum sid w \<and>
    findLiveMilestone sid i w = Some m \<and> m_status m = PROOF_SUBMITTED \<and> parseBigInt paid = Some amount \<and>
    findLiveMilestone sid i w' = Some m' \<and> m_status m' = CONFIRMED \<and> paymentReleased m' = Some amount \<and>
    filter (\<lambda>r. mKey r \<noteq> (sid, i)) (milestones (db w')) = filter (\<lambda>r. mKey r \<noteq> (sid, i)) (milestones (db w))"
proof -
  from wf run obtain s m amount where 1: "findShipment sid w = Some s" "buyerAddress s = caller" "s_status s \<noteq> CANCELLED"
    "hasQuorum sid w" and m: "findLiveMilestone sid i w = Some m" "m_status m = PROOF_SUBMITTED"
    and amt: "parseBigInt paid = Some amount" "fitsBigint amount"
    and m': "m' = (confirmRow e amount m)\<lparr>m_updatedAt := now e\<rparr>"
    and rows: "milestones (db w') = updateWhere (\<lambda>r. mKey r = (sid, i)) (\<lambda>r. (confirmRow e amount r)\<lparr>m_updatedAt := now e\<rparr>) (milestones (db w))"
    by (rule confirm_success)
  have "findLiveMilestone sid i w' = Some m'"
    using m(1) findLiveMilestone_key [OF m(1)] unfolding findLiveMilestone_def rows by (simp add: find_updateWhere m')
  moreover have "filter (\<lambda>r. mKey r \<noteq> (sid, i)) (updateWhere (\<lambda>r. mKey r = (sid, i)) f ms) = filter (\<lambda>r. mKey r \<noteq> (sid, i)) ms"
    if "\<And>r. mKey (f r) = mKey r" for f ms using that by (induction ms) auto
  ultimately show ?thesis using 1 m amt m' unfolding rows by (auto simp: m')
qed

definition proofWorld :: world where
  "proofWorld = emptyWorld\<lparr>db := emptyDb\<lparr>shipments := [shipment0 ''S''],
     milestones := [milestone0 1 ''S'' 0 40 PROOF_SUBMITTED, milestone0 2 ''S'' 1 60 PENDING]\<rparr>\<rparr>"

lemma proofWorld_wf: "wf_db (db proofWorld)"
  by (simp add: proofWorld_def wf_db_def concrete_defs)

lemma parse_400: "parseBigInt ''400'' = Some 400"
  by code_simp

theorem confirm_is_guarded_witness:
  "\<exists>m' w'. confirmFromApi env0 ''S'' 0 ''GB'' ''tx'' ''400'' proofWorld = (Inr m', w') \<and> paymentReleased m' = Some 400 \<and>
    m_status m' = CONFIRMED"
proof -
  have "\<exists>m' w'. confirmFromApi env0 ''S'' 0 ''GB'' ''tx'' ''400'' proofWorld = (Inr m', w')"
    by (simp add: confirmFromApi_def proofWorld_def findShipment_def assertQuorum_def run_findOne findLiveMilestone_def
        parse_400 markConfirmed_def shipmentCancelled_def fitsBigint_def run_updateMilestone findMilestone_def
        syncStatusFromChain_def paymentReleasedNotice_def concrete_defs)
  then obtain m' w' where run: "confirmFromApi env0 ''S'' 0 ''GB'' ''tx'' ''400'' proofWorld = (Inr m', w')" by blast
  with confirm_is_guarded [OF proofWorld_wf run] parse_400 show ?thesis by fastforce
qed


subsection \<open>Batches\<close>

lemma refusal_None_iff:
  "refusal (liveMilestones sid (db w)) i = None \<longleftrightarrow> (\<exists>m. findLiveMilestone sid i w = Some m \<and> m_status m = PROOF_SUBMITTED)"
  by (auto simp: refusal_def find_live_index split: option.splits)

lemma bulkResults_lookup:
  assumes "\<And>j. j \<in> set done \<longleftrightarrow> j \<in> set indices \<and> refusal ms j = None"
  shows "bulkResults indices (failures ms indices @ successes sid done w) =
    map (\<lambda>i. (i, case refusal ms i of Some x \<Rightarrow> x
       | None \<Rightarrow> (case findMilestone sid i w of Some m \<Rightarrow> BulkOk m | None \<Rightarrow> BulkUnknown))) indices"
proof -
  let ?h = "\<lambda>i. case refusal ms i of Some x \<Rightarrow> x | None \<Rightarrow> (case findMilestone sid i w of Some m \<Rightarrow> BulkOk m | None \<Rightarrow> BulkUnknown)"
  define xs where "xs = rev (failures ms indices @ successes sid done w)"
  have "v = ?h j" if "(j, v) \<in> set xs" for j v
    using that assms by (auto simp: xs_def failures_def successes_def split: option.splits)
  then have look: "map_of xs i = (if i \<in> fst ` set xs then Some (?h i) else None)" for i by (rule map_of_functional)
  have "i \<in> fst ` set xs" if "i \<in> set indices" for i
  proof (cases "refusal ms i")
    case None
    then have "i \<in> fst ` set (successes sid done w)" using that assms by (force simp: successes_def)
    then show ?thesis by (auto simp: xs_def)
  next
    case (Some x)
    then have "(i, x) \<in> set (failures ms indices)" using that by (force simp: failures_def)
    then show ?thesis by (force simp: xs_def)
  qed
  then show ?thesis unfolding bulkResults_def xs_def [symmetric] by (intro map_cong refl) (simp add: look)
qed

lemma applyRows_confirm:
  assumes "mKey r = (sid, i)"
  shows "i \<in> fst ` set us \<Longrightarrow> m_status (applyRows t sid (confirmRow e) us r) = CONFIRMED"
    and "i \<notin> fst ` set us \<Longrightarrow> applyRows t sid (confirmRow e) us r = r"
proof -
  have key: "mKey (applyRows t sid (confirmRow e) us r) = mKey r" for us by (rule mKey_applyRows) (simp del: split_paired_All)
  have snoc: "applyRows t sid (confirmRow e) (us @ [u]) r = (if i = fst u
      then (confirmRow e (snd u) (applyRows t sid (confirmRow e) us r))\<lparr>m_updatedAt := t\<rparr>
      else applyRows t sid (confirmRow e) us r)" for us u
    using key [of us] assms by (simp add: applyRows_def)
  show "i \<in> fst ` set us \<Longrightarrow> m_status (applyRows t sid (confirmRow e) us r) = CONFIRMED"
    by (induction us rule: rev_induct) (auto simp: snoc)
  show "i \<notin> fst ` set us \<Longrightarrow> applyRows t sid (confirmRow e) us r = r"
    by (induction us rule: rev_induct) (auto simp: snoc, simp add: applyRows_def)
qed

lemma applyRows_confirm_frame:
  "deletedAt (applyRows t sid (confirmRow e) us r) = deletedAt r \<and> m_id (applyRows t sid (confirmRow e) us r) = m_id r \<and>
   m_shipmentId (applyRows t sid (confirmRow e) us r) = m_shipmentId r \<and>
   milestoneIndex (applyRows t sid (confirmRow e) us r) = milestoneIndex r"
  unfolding applyRows_def by (induction us arbitrary: r) auto

lemma map_keys_zip: "length xs = length ys \<Longrightarrow> map (\<lambda>p. f (fst p)) (zip xs ys) = map f xs"
  by (induction xs ys rule: list_induct2) auto

lemma bulkConfirm_steps:
  assumes run: "bulkConfirmFromApi e sid caller items w = (Inr r, w')"
    and ms: "ms = liveMilestones sid (db w)" and todo: "todo = filter (\<lambda>it. refusal ms (bi_index it) = None) items"
  shows "\<exists>s amounts w1. findShipment sid w = Some s \<and> buyerAddress s = caller \<and> s_status s \<noteq> CANCELLED \<and> hasQuorum sid w \<and>
    those (map (\<lambda>it. parseBigInt (bi_paymentReleased it)) todo) = Some amounts \<and>
    confirmBatch e sid todo amounts w = (Inr (), w1) \<and>
    r = bulkAnswer sid ms (map bi_index items) (map bi_index todo) w1 \<and> settleBatch e sid s todo w1 = (Inr (), w')"
  using run unfolding bulkConfirmFromApi_def Let_def ms [symmetric] todo [symmetric]
  by (auto simp: success_iffs assertQuorum_success_iff ms [symmetric] todo [symmetric])

lemma bulkConfirm_effect:
  assumes run: "bulkConfirmFromApi e sid caller items w = (Inr r, w')"
  obtains us where
    "fst ` set us = {bi_index it |it. it \<in> set items \<and> refusal (liveMilestones sid (db w)) (bi_index it) = None}"
    "milestones (db w') = map (applyRows (now e) sid (confirmRow e) us) (milestones (db w))"
    "r = bulkAnswer sid (liveMilestones sid (db w)) (map bi_index items)
       (map bi_index (filter (\<lambda>it. refusal (liveMilestones sid (db w)) (bi_index it) = None) items))
       (setMilestones (map (applyRows (now e) sid (confirmRow e) us)) w)"
proof -
  let ?ms = "liveMilestones sid (db w)"
  let ?todo = "filter (\<lambda>it. refusal ?ms (bi_index it) = None) items"
  from run obtain s amounts w1 where am: "those (map (\<lambda>it. parseBigInt (bi_paymentReleased it)) ?todo) = Some amounts"
    and tx: "confirmBatch e sid ?todo amounts w = (Inr (), w1)"
    and r: "r = bulkAnswer sid ?ms (map bi_index items) (map bi_index ?todo) w1"
    and rest: "settleBatch e sid s ?todo w1 = (Inr (), w')"
    using bulkConfirm_steps [OF run refl refl] by blast
  define us where "us = map (\<lambda>(it, p). (bi_index it, p)) (zip ?todo amounts)"
  have len: "length amounts = length ?todo" using those_length [OF am] by simp
  have keys: "map fst us = map bi_index ?todo"
    unfolding us_def using map_keys_zip [of ?todo amounts bi_index] len by (simp add: comp_def case_prod_beta)
  have "findMilestone sid i w \<noteq> None" if "(i, p) \<in> set us" for i p
  proof -
    have "i \<in> set (map fst us)" using that by force
    then show ?thesis using keys live_has_row by (auto simp: refusal_None_iff)
  qed
  then have "forEach us (\<lambda>(i, x). ignore (updateMilestone (now e) sid i (confirmRow e x))) w =
      (Inr (), setMilestones (map (applyRows (now e) sid (confirmRow e) us)) w)"
    by (intro forEach_updateMilestone) (auto simp del: split_paired_All)
  then have w1: "w1 = setMilestones (map (applyRows (now e) sid (confirmRow e) us)) w"
    using tx by (simp add: us_def forEach_map case_prod_unfold confirmBatch_def transaction_success_iff split: if_splits)
  have "leaves (\<lambda>w. milestones (db w)) (settleBatch e sid s ?todo)"
    unfolding settleBatch_def by (intro leaves_intros leaves_comp [OF leaves_db_notices(1)])
  from leaves_run [OF this rest] have "milestones (db w') = milestones (db w1)" .
  moreover have "fst ` set us = {bi_index it |it. it \<in> set items \<and> refusal ?ms (bi_index it) = None}"
    using arg_cong [OF keys, of set] by auto
  ultimately show thesis using that [of us] w1 r by (simp add: setMilestones_def)
qed




end
