(* ===== verification/Stellar_Rpc.thy ===== *)
theory Stellar_Rpc
  imports Domain
begin

text \<open>
  The way to the chain: the pool of RPC endpoints with a circuit breaker per endpoint
  (\<open>src/src/common/stellar/rpc-pool.ts\<close>), and of \<open>stellar.service.ts\<close> the page of contract events
  and the binary search for the oldest ledger a node still serves. The nodes themselves are
  parameters: what each endpoint answers to a call, and what it answers to a probe.
\<close>

section \<open>Errors and endpoints\<close>

record rpcError =
  er_status :: "int option"
  er_code :: string
  er_message :: string

text \<open>\<open>String.prototype.includes\<close>.\<close>

fun includesText :: "string \<Rightarrow> string \<Rightarrow> bool" where
  "includesText hay needle \<longleftrightarrow> startsWith needle hay \<or> (case hay of [] \<Rightarrow> False | _ # rest \<Rightarrow> includesText rest needle)"

declare includesText.simps [simp del]

definition isFailoverError :: "rpcError \<Rightarrow> bool" where
  "isFailoverError err = (case er_status err of
      Some s \<Rightarrow> s \<ge> 500 \<or> s = 429
    | None \<Rightarrow>
        er_code err \<in> set [''ECONNREFUSED'', ''ECONNRESET'', ''ETIMEDOUT'', ''ENOTFOUND'', ''EAI_AGAIN'', ''ECONNABORTED''] \<or>
        list_ex (includesText (toLowerCase (er_message err))) [''network'', ''timeout'', ''socket hang up''])"

record endpoint =
  ep_url :: string
  ep_healthy :: bool
  ep_latencyMs :: "int option"
  ep_latestLedger :: "int option"
  ep_failures :: nat
  ep_openUntil :: time
  ep_lastError :: "string option"

record poolOptions =
  failureThreshold :: nat
  cooldownMs :: time

definition defaultOptions :: poolOptions where
  "defaultOptions = \<lparr>failureThreshold = 3, cooldownMs = 30000\<rparr>"

definition newPool :: "string list \<Rightarrow> endpoint list" where
  "newPool urls = map (\<lambda>u. \<lparr>ep_url = u, ep_healthy = True, ep_latencyMs = None, ep_latestLedger = None,
     ep_failures = 0, ep_openUntil = 0, ep_lastError = None\<rparr>) urls"

definition parseUrlList :: "string option \<Rightarrow> string option \<Rightarrow> string list" where
  "parseUrlList lst single =
     (let urls = filter (\<lambda>u. u \<noteq> []) (map trim (splitOn (CHR '','') (case lst of None \<Rightarrow> [] | Some l \<Rightarrow> l)))
      in if urls \<noteq> [] then urls else (case single of Some (c # cs) \<Rightarrow> [c # cs] | _ \<Rightarrow> []))"

section \<open>Ranking\<close>

definition isOpen :: "time \<Rightarrow> endpoint \<Rightarrow> bool" where
  "isOpen t ep \<longleftrightarrow> ep_openUntil ep > t"

definition isUp :: "time \<Rightarrow> endpoint \<Rightarrow> bool" where
  "isUp t ep \<longleftrightarrow> ep_healthy ep \<and> \<not> isOpen t ep"

text \<open>
  The comparator orders by ledger (highest first) and then by latency, a missing latency being
  infinite; the sort is stable. Endpoints are named by their position in the pool.
\<close>

definition byLatency :: "endpoint list \<Rightarrow> nat list \<Rightarrow> nat list" where
  "byLatency eps ns =
     sort_key (\<lambda>i. the (ep_latencyMs (eps ! i))) (filter (\<lambda>i. ep_latencyMs (eps ! i) \<noteq> None) ns) @
     filter (\<lambda>i. ep_latencyMs (eps ! i) = None) ns"

definition ledgerOf :: "endpoint \<Rightarrow> int" where
  "ledgerOf ep = (case ep_latestLedger ep of None \<Rightarrow> 0 | Some l \<Rightarrow> l)"

definition ranked :: "time \<Rightarrow> endpoint list \<Rightarrow> nat list" where
  "ranked t eps =
     (let up = filter (\<lambda>i. isUp t (eps ! i)) [0..<length eps];
          down = filter (\<lambda>i. \<not> isUp t (eps ! i)) [0..<length eps]
      in sort_key (\<lambda>i. - ledgerOf (eps ! i)) (byLatency eps up) @ down)"

definition activeUrl :: "time \<Rightarrow> endpoint list \<Rightarrow> string" where
  "activeUrl t eps = ep_url (eps ! hd (ranked t eps))"

section \<open>Calls\<close>

definition recordFailure :: "poolOptions \<Rightarrow> time \<Rightarrow> rpcError \<Rightarrow> endpoint \<Rightarrow> endpoint" where
  "recordFailure opts t err ep =
     (let ep' = ep\<lparr>ep_failures := Suc (ep_failures ep), ep_lastError := Some (er_message err)\<rparr>
      in if ep_failures ep' \<ge> failureThreshold opts
         then ep'\<lparr>ep_healthy := False, ep_openUntil := t + cooldownMs opts\<rparr> else ep')"

text \<open>
  The proxied method: endpoints are tried in the order of the ranking. \<open>answer i\<close> is how long
  endpoint \<open>i\<close> takes and what it answers. The last error is thrown when all of them failed.
\<close>

fun tryEach :: "poolOptions \<Rightarrow> (nat \<Rightarrow> time \<times> (rpcError + 'r)) \<Rightarrow> nat list \<Rightarrow> time \<Rightarrow> rpcError option
    \<Rightarrow> endpoint list \<Rightarrow> (rpcError option + 'r) \<times> endpoint list" where
  "tryEach opts answer [] t lastErr eps = (Inl lastErr, eps)"
| "tryEach opts answer (i # ns) t lastErr eps = (case answer i of (d, reply) \<Rightarrow>
     (case reply of
        Inr r \<Rightarrow> (Inr r, eps[i := (eps ! i)\<lparr>ep_failures := 0\<rparr>])
      | Inl err \<Rightarrow>
          if \<not> isFailoverError err then (Inl (Some err), eps)
          else tryEach opts answer ns (t + d) (Some err) (eps[i := recordFailure opts (t + d) err (eps ! i)])))"

definition callPool :: "poolOptions \<Rightarrow> (nat \<Rightarrow> time \<times> (rpcError + 'r)) \<Rightarrow> time \<Rightarrow> endpoint list
    \<Rightarrow> (rpcError option + 'r) \<times> endpoint list" where
  "callPool opts answer t eps = tryEach opts answer (ranked t eps) t None eps"

text \<open>One probe per endpoint, all in parallel: \<open>probe i\<close> is its duration and its answer.\<close>

definition healthCheck :: "poolOptions \<Rightarrow> (nat \<Rightarrow> time \<times> (rpcError + int)) \<Rightarrow> time \<Rightarrow> endpoint list \<Rightarrow> endpoint list" where
  "healthCheck opts probe t eps = map (\<lambda>i. let ep = eps ! i in case probe i of
       (d, Inr ledger) \<Rightarrow> ep\<lparr>ep_latestLedger := Some ledger, ep_latencyMs := Some d, ep_healthy := True,
          ep_failures := 0, ep_openUntil := 0, ep_lastError := None\<rparr>
     | (d, Inl err) \<Rightarrow> ep\<lparr>ep_healthy := False, ep_latencyMs := None, ep_lastError := Some (er_message err),
          ep_openUntil := t + d + cooldownMs opts\<rparr>) [0..<length eps]"

record endpointHealth =
  eh_url :: string
  eh_healthy :: bool
  eh_active :: bool
  eh_latencyMs :: "int option"
  eh_latestLedger :: "int option"
  eh_consecutiveFailures :: nat
  eh_circuitOpenUntil :: "time option"
  eh_lastError :: "string option"

definition poolStatus :: "time \<Rightarrow> endpoint list \<Rightarrow> endpointHealth list" where
  "poolStatus t eps = map (\<lambda>ep.
     \<lparr>eh_url = ep_url ep, eh_healthy = isUp t ep, eh_active = (ep_url ep = activeUrl t eps),
      eh_latencyMs = ep_latencyMs ep, eh_latestLedger = ep_latestLedger ep,
      eh_consecutiveFailures = ep_failures ep,
      eh_circuitOpenUntil = (if isOpen t ep then Some (ep_openUntil ep) else None),
      eh_lastError = ep_lastError ep\<rparr>) eps"

section \<open>Pages of contract events\<close>

text \<open>
  What the poller receives for an event. The value is absent, something that survives
  \<open>JSON.parse(JSON.stringify(v))\<close> as a JSON value, or something that cannot be serialised.
\<close>

datatype eventValue = NoValue | JsonValue json | Unserialisable

record rawEvent =
  ev_topics :: "string list"
  ev_value :: eventValue
  ev_ledger :: int
  ev_txHash :: "string option"

text \<open>\<open>fetchContractEvents\<close> logs a failing node and answers with an empty page.\<close>

definition fetchContractEvents :: "(int \<Rightarrow> rpcError + rawEvent list) \<Rightarrow> int \<Rightarrow> rawEvent list" where
  "fetchContractEvents getEvents start = (case getEvents start of Inl _ \<Rightarrow> [] | Inr evs \<Rightarrow> evs)"

section \<open>The retention window\<close>

definition tooOld :: "rpcError \<Rightarrow> bool" where
  "tooOld err \<longleftrightarrow> includesText (toLowerCase (er_message err)) ''startledger'' \<or>
     includesText (toLowerCase (er_message err)) ''not found''"

text \<open>\<open>probe\<close> is the answer to \<open>getEvents\<close> from a ledger; the interval shrinks with every probe.\<close>

function searchOldest :: "(int \<Rightarrow> rpcError + unit) \<Rightarrow> int \<Rightarrow> int \<Rightarrow> int \<Rightarrow> int" where
  "searchOldest probe lo hi oldest =
     (if lo \<le> hi then
        let mid = (lo + hi) div 2 in
        (case probe mid of
           Inr _ \<Rightarrow> searchOldest probe lo (mid - 1) mid
         | Inl err \<Rightarrow> if tooOld err then searchOldest probe (mid + 1) hi oldest else oldest)
      else oldest)"
  by pat_completeness auto
termination
  by (relation "measure (\<lambda>(probe, lo, hi, oldest). nat (hi - lo + 1))") auto

declare searchOldest.simps [simp del]

definition getOldestAvailableLedger :: "(rpcError + int) \<Rightarrow> (int \<Rightarrow> rpcError + unit) \<Rightarrow> int" where
  "getOldestAvailableLedger latest probe = (case latest of
      Inl _ \<Rightarrow> 1
    | Inr l \<Rightarrow> searchOldest probe (max 1 (l - 400000)) (l - 1) l)"

section \<open>Lemmas\<close>

lemma mset_byLatency: "mset (byLatency eps ns) = mset ns"
  using multiset_partition [of "mset ns" "\<lambda>i. ep_latencyMs (eps ! i) \<noteq> None"]
  by (simp add: byLatency_def)

lemma mset_ranked: "mset (ranked t eps) = mset [0..<length eps]"
  using multiset_partition [of "mset [0..<length eps]" "\<lambda>i. isUp t (eps ! i)"]
  by (simp add: ranked_def Let_def mset_byLatency)

lemma set_ranked: "set (ranked t eps) = {..<length eps}"
  by (metis mset_ranked set_mset_mset set_upt lessThan_atLeast0)

lemma distinct_ranked: "distinct (ranked t eps)"
  by (metis mset_ranked mset_eq_imp_distinct_iff distinct_upt)

text \<open>The first endpoint in the ranking that does not fail over decides the outcome of a call.\<close>

definition failsOver :: "(nat \<Rightarrow> time \<times> (rpcError + 'r)) \<Rightarrow> nat \<Rightarrow> bool" where
  "failsOver answer i \<longleftrightarrow> (case snd (answer i) of Inl err \<Rightarrow> isFailoverError err | Inr _ \<Rightarrow> False)"

lemma fst_tryEach:
  "fst (tryEach opts answer ns t le eps) = (case find (\<lambda>i. \<not> failsOver answer i) ns of
     Some i \<Rightarrow> map_sum Some id (snd (answer i))
   | None \<Rightarrow> (if ns = [] then Inl le else Inl (case snd (answer (last ns)) of Inl err \<Rightarrow> Some err | Inr _ \<Rightarrow> None)))"
  by (induction "ns" arbitrary: t le eps) (auto simp: failsOver_def split: prod.splits sum.splits option.splits)

lemma length_tryEach [simp]: "length (snd (tryEach opts answer ns t le eps)) = length eps"
  by (induction "ns" arbitrary: t le eps) (auto split: prod.splits sum.splits)

lemma tryEach_other: "j \<notin> set ns \<Longrightarrow> snd (tryEach opts answer ns t le eps) ! j = eps ! j"
  by (induction "ns" arbitrary: t le eps) (auto split: prod.splits sum.splits)

text \<open>Searching with a node that accepts exactly the ledgers from \<open>lowest\<close> on.\<close>

lemma searchOldest_finds:
  assumes "\<And>l. lo \<le> l \<Longrightarrow> l \<le> hi \<Longrightarrow> lowest \<le> l \<Longrightarrow> probe l = Inr ()"
    and "\<And>l. lo \<le> l \<Longrightarrow> l \<le> hi \<Longrightarrow> l < lowest \<Longrightarrow> \<exists>err. probe l = Inl err \<and> tooOld err"
    and "lo \<le> lowest" "lowest \<le> hi + 1" "oldest = hi + 1"
  shows "searchOldest probe lo hi oldest = lowest"
  using assms
proof (induction probe lo hi oldest rule: searchOldest.induct)
  case (1 probe lo hi oldest)
  define mid where "mid = (lo + hi) div 2"
  show ?case
  proof (cases "lo \<le> hi")
    case False
    with "1.prems"(3-5) have "lowest = oldest" by simp
    then show ?thesis using False by (subst searchOldest.simps) simp
  next
    case True
    then have mid: "lo \<le> mid" "mid \<le> hi" by (simp_all add: mid_def)
    show ?thesis
    proof (cases "lowest \<le> mid")
      case True
      then have p: "probe mid = Inr ()" using "1.prems"(1) mid by blast
      have "searchOldest probe lo (mid - 1) mid = lowest"
        by (rule "1.IH"(2) [OF \<open>lo \<le> hi\<close> mid_def p]) (use "1.prems" mid True in auto)
      then show ?thesis using p \<open>lo \<le> hi\<close> by (simp add: searchOldest.simps [of probe lo hi oldest] mid_def Let_def)
    next
      case False
      then obtain err where p: "probe mid = Inl err" "tooOld err" using "1.prems"(2) mid by force
      have "searchOldest probe (mid + 1) hi oldest = lowest"
        by (rule "1.IH"(1) [OF \<open>lo \<le> hi\<close> mid_def p]) (use "1.prems" mid False in auto)
      then show ?thesis using p \<open>lo \<le> hi\<close> by (simp add: searchOldest.simps [of probe lo hi oldest] mid_def Let_def)
    qed
  qed
qed

section \<open>Properties\<close>

text \<open>Fail-over is complete. When no endpoint raises an application error and at least one of them would
  answer, a call through the pool answers, with what some endpoint said, whatever the state of the
  circuit breakers; and all endpoints whose circuit is closed come before the others.\<close>

lemma rpc_failover_complete:
  assumes "k < length eps" "snd (answer k) = Inr r"
    and "\<forall>j < length eps. case snd (answer j) of Inl err \<Rightarrow> isFailoverError err | Inr _ \<Rightarrow> True"
  shows "(\<exists>j < length eps. \<exists>v. snd (answer j) = Inr v \<and> fst (callPool opts answer t eps) = Inr v) \<and>
    (\<exists>ups downs. ranked t eps = ups @ downs \<and> (\<forall>i \<in> set ups. isUp t (eps ! i)) \<and>
      (\<forall>i \<in> set downs. \<not> isUp t (eps ! i)))"
proof -
  have "k \<in> set (ranked t eps)" "\<not> failsOver answer k"
    using assms by (simp_all add: set_ranked failsOver_def)
  then have "find (\<lambda>i. \<not> failsOver answer i) (ranked t eps) \<noteq> None"
    by (auto simp: find_None_iff)
  then obtain j where j: "find (\<lambda>i. \<not> failsOver answer i) (ranked t eps) = Some j" by blast
  then have "j < length eps" "\<not> failsOver answer j"
    using find_Some_prop [OF j] by (auto simp: set_ranked)
  with assms(3) obtain v where "snd (answer j) = Inr v"
    by (cases "snd (answer j)") (auto simp: failsOver_def)
  with j \<open>j < length eps\<close> have answered: "\<exists>j < length eps. \<exists>v. snd (answer j) = Inr v \<and> fst (callPool opts answer t eps) = Inr v"
    by (auto simp: callPool_def fst_tryEach)
  have "\<exists>ups downs. ranked t eps = ups @ downs \<and> (\<forall>i \<in> set ups. isUp t (eps ! i)) \<and>
      (\<forall>i \<in> set downs. \<not> isUp t (eps ! i))"
    by (rule exI, rule exI [of _ "filter (\<lambda>i. \<not> isUp t (eps ! i)) [0..<length eps]"])
      (auto simp: ranked_def Let_def byLatency_def)
  with answered show ?thesis ..
qed

definition deadPool :: "endpoint list" where
  "deadPool = newPool [''https://a'', ''https://b'']"

definition secondAnswers :: "nat \<Rightarrow> time \<times> (rpcError + int)" where
  "secondAnswers i = (10, if i = 1 then Inr 77 else Inl \<lparr>er_status = Some 503, er_code = [], er_message = ''busy''\<rparr>)"

lemma rpc_failover_complete_witness:
  "\<exists>j < length deadPool. \<exists>v. snd (secondAnswers j) = Inr v \<and> fst (callPool defaultOptions secondAnswers 0 deadPool) = Inr v"
  by (rule rpc_failover_complete [of 1 deadPool secondAnswers 77, THEN conjunct1])
    (auto simp: deadPool_def newPool_def secondAnswers_def isFailoverError_def)

text \<open>The search finds the retention floor. When the node serves exactly the ledgers from some floor on
  (refusing older ones with its documented error) and the floor is not beyond the tip, the binary
  search returns that floor, or the lower end of its search window if the node retains more.\<close>

lemma oldest_ledger_found:
  assumes "\<And>l. lowest \<le> l \<Longrightarrow> probe l = Inr ()"
    and "\<And>l. l < lowest \<Longrightarrow> \<exists>err. probe l = Inl err \<and> tooOld err"
    and "1 \<le> latest" "lowest \<le> latest"
  shows "getOldestAvailableLedger (Inr latest) probe = max lowest (max 1 (latest - 400000))"
proof -
  have "searchOldest probe (max 1 (latest - 400000)) (latest - 1) latest = max lowest (max 1 (latest - 400000))"
    by (rule searchOldest_finds) (use assms in force)+
  then show ?thesis by (simp add: getOldestAvailableLedger_def)
qed

definition node0 :: "int \<Rightarrow> rpcError + unit" where
  "node0 l = (if l \<ge> 950000 then Inr () else Inl \<lparr>er_status = None, er_code = [], er_message = ''ledger not found''\<rparr>)"

lemma oldest_ledger_found_witness: "getOldestAvailableLedger (Inr 1000000) node0 = 950000"
proof -
  have "getOldestAvailableLedger (Inr 1000000) node0 = max 950000 (max 1 (1000000 - 400000))"
    by (rule oldest_ledger_found) (auto simp: node0_def tooOld_def includesText.simps toLowerCase_def)
  then show ?thesis by simp
qed

end
