(* ===== verification/Job_Tracker.thy ===== *)
theory Job_Tracker
  imports Domain
begin

text \<open>
  Scheduled jobs (\<open>src/src/common/jobs\<close>): the wrapper that records the outcome of the last run of a job
  in Redis, and the pattern by which a job holds a Redis lock while it runs. A job runs at one instant
  of the model, so its recorded duration is zero; the class of an error stands for its text.
\<close>

section \<open>Recording runs\<close>

fun exnName :: "exn \<Rightarrow> string" where
  "exnName NotFoundException = ''NotFoundException''"
| "exnName ForbiddenException = ''ForbiddenException''"
| "exnName ConflictException = ''ConflictException''"
| "exnName BadRequestException = ''BadRequestException''"
| "exnName PreconditionFailedException = ''PreconditionFailedException''"
| "exnName InternalServerErrorException = ''InternalServerErrorException''"
| "exnName UnauthorizedException = ''UnauthorizedException''"
| "exnName ServiceUnavailableException = ''ServiceUnavailableException''"
| "exnName PayloadTooLargeException = ''PayloadTooLargeException''"
| "exnName UnsupportedMediaTypeException = ''UnsupportedMediaTypeException''"
| "exnName GoneException = ''GoneException''"
| "exnName TooManyRequestsException = ''HttpException''"
| "exnName BadGatewayException = ''BadGatewayException''"
| "exnName PrismaP2025 = ''P2025''"
| "exnName PrismaP2002 = ''P2002''"
| "exnName PrismaP2003 = ''P2003''"
| "exnName ExternalError = ''Error''"
| "exnName RuntimeError = ''TypeError''"

definition getJobRedisKey :: "string \<Rightarrow> string" where
  "getJobRedisKey name = ''chainsettle:jobs:'' @ name @ '':last_run''"

definition jobRunRecord :: "string \<Rightarrow> time \<Rightarrow> string \<Rightarrow> json \<Rightarrow> json" where
  "jobRunRecord name t outcome err = JObj [(''name'', JStr name), (''lastRunAt'', JStr (isoString t)),
     (''lastResult'', JStr outcome), (''durationMs'', JNum 0), (''error'', err)]"

definition recordRun :: "env \<Rightarrow> string \<Rightarrow> string \<Rightarrow> json \<Rightarrow> unit act" where
  "recordRun e name outcome err = modify (\<lambda>w. w\<lparr>redis :=
     setJson (now e) (getJobRedisKey name) (jobRunRecord name (now e) outcome err) None (redis w)\<rparr>)"

definition runTrackedJob :: "env \<Rightarrow> bool \<Rightarrow> string \<Rightarrow> 'a act \<Rightarrow> 'a act" where
  "runTrackedJob e withMetrics name fn =
     attempt
       (andThen fn (\<lambda>result.
        andThen (whenA withMetrics (count (JobRun name ''success''))) (\<lambda>_.
        andThen (recordRun e name ''SUCCESS'' JNull) (\<lambda>_.
        ret result))))
       (\<lambda>x.
        andThen (whenA withMetrics (count (JobRun name ''failure''))) (\<lambda>_.
        andThen (recordRun e name ''FAILURE'' (JStr (exnName x))) (\<lambda>_.
        throw x)))"

definition recordJobSkipped :: "env \<Rightarrow> bool \<Rightarrow> string \<Rightarrow> unit act" where
  "recordJobSkipped e withRedis name =
     andThen (count (JobRun name ''skipped'')) (\<lambda>_.
     whenA withRedis (recordRun e name ''SKIPPED'' (JStr ''Lock not acquired'')))"

section \<open>Running under a lock\<close>

definition lockCall :: "(keyspace \<Rightarrow> 'a \<times> keyspace) \<Rightarrow> 'a act" where
  "lockCall f = (\<lambda>w. case f (redis w) of (x, r) \<Rightarrow> (Inr x, w\<lparr>redis := r\<rparr>))"

text \<open>\<open>try { m } finally { cleanup }\<close>, where the clean-up does not throw.\<close>

definition finallyDo :: "'a act \<Rightarrow> unit act \<Rightarrow> 'a act" where
  "finallyDo m cleanup = (\<lambda>w. case m w of (r, w') \<Rightarrow> (r, snd (cleanup w')))"

text \<open>
  The body of the jobs that must not overlap: nothing happens while another run holds the lock,
  and the lock is released even when the work throws.
\<close>

definition withJobLock :: "env \<Rightarrow> string \<Rightarrow> string \<Rightarrow> int \<Rightarrow> unit act \<Rightarrow> unit act" where
  "withJobLock e key token ttlMs work =
     andThen (lockCall (acquireLock (now e) key token ttlMs)) (\<lambda>acquired.
     whenA acquired (finallyDo work (lockCall (\<lambda>r. ((), releaseLock (now e) key token r)))))"

text \<open>The same pattern for a job that reports how many rows it treated, 0 when another run holds the lock.\<close>

definition lockedCount :: "env \<Rightarrow> string \<Rightarrow> string \<Rightarrow> int \<Rightarrow> nat act \<Rightarrow> nat act" where
  "lockedCount e key token ttlMs work =
     andThen (lockCall (acquireLock (now e) key token ttlMs)) (\<lambda>acquired.
     if acquired then finallyDo work (lockCall (\<lambda>r. ((), releaseLock (now e) key token r))) else ret 0)"

text \<open>A loop that counts the rows for which its body answers true.\<close>

primrec countEach :: "'x list \<Rightarrow> ('x \<Rightarrow> bool act) \<Rightarrow> nat act" where
  "countEach [] f = ret 0"
| "countEach (x # xs) f = andThen (f x) (\<lambda>b. andThen (countEach xs f) (\<lambda>n. ret (if b then Suc n else n)))"

text \<open>\<open>skip\<close>/\<open>take\<close> of a paged query.\<close>

definition paged :: "nat \<Rightarrow> nat \<Rightarrow> 'x list \<Rightarrow> 'x list" where
  "paged page limit xs = take limit (drop ((page - 1) * limit) xs)"

section \<open>Lemmas\<close>

lemma run_lockCall [simp]: "lockCall f w = (Inr (fst (f (redis w))), w\<lparr>redis := snd (f (redis w))\<rparr>)"
  by (simp add: lockCall_def split: prod.splits)

lemma run_recordRun [simp]: "recordRun e name outcome err w = (Inr (), w\<lparr>redis :=
    setJson (now e) (getJobRedisKey name) (jobRunRecord name (now e) outcome err) None (redis w)\<rparr>)"
  by (simp add: recordRun_def)

lemma run_finallyDo: "finallyDo m c w = (fst (m w), snd (c (snd (m w))))"
  by (simp add: finallyDo_def split: prod.splits)

text \<open>Tracking a job changes neither its result nor the database, the mail and the audit log.\<close>

lemma run_runTrackedJob:
  "fst (runTrackedJob e b name fn w) = fst (fn w)"
  "(\<lambda>v. (db v, mail v, audit v)) (snd (runTrackedJob e b name fn w)) = (\<lambda>v. (db v, mail v, audit v)) (snd (fn w))"
  by (cases "fn w"; cases "fst (fn w)"; force simp: runTrackedJob_def attempt_def andThen_def)+

lemma tracked_db [simp]: "db (snd (runTrackedJob e b name fn w)) = db (snd (fn w))"
  using run_runTrackedJob [of e b name fn w] by simp

lemma tracked_result [simp]: "fst (runTrackedJob e b name fn w) = fst (fn w)"
  using run_runTrackedJob [of e b name fn w] by simp

lemma tracked_redis:
  assumes "key \<noteq> getJobRedisKey name"
  shows "redis (snd (runTrackedJob e b name fn w)) key = redis (snd (fn w)) key"
  using assms by (cases "fn w"; cases "fst (fn w)")
    (auto simp: runTrackedJob_def attempt_def andThen_def setJson_def setKey_def)

lemma jobLock_db:
  "db (snd (withJobLock e key token ttl work w)) =
    (if lookupKey (now e) (redis w) key = None
     then db (snd (work (snd (lockCall (acquireLock (now e) key token ttl) w)))) else db w)"
  by (simp add: withJobLock_def andThen_def acquireLock_def run_finallyDo)

lemma lockedCount_db:
  "db (snd (lockedCount e key token ttl work w)) =
    (if lookupKey (now e) (redis w) key = None
     then db (snd (work (snd (lockCall (acquireLock (now e) key token ttl) w)))) else db w)"
  by (simp add: lockedCount_def andThen_def acquireLock_def run_finallyDo)

lemma keeps_countEach [keeps_intros]: "(\<And>x. keeps P (f x)) \<Longrightarrow> keeps P (countEach xs f)"
  by (induction xs) (auto intro!: keeps_intros)

lemma leaves_countEach [leaves_intros]: "(\<And>x. leaves g (f x)) \<Longrightarrow> leaves g (countEach xs f)"
  by (induction xs) (auto intro!: leaves_intros)

end
