(* ===== verification/Events.thy ===== *)
theory Events
  imports Milestones Stellar_Rpc Job_Tracker
begin

text \<open>
  \<open>EventsService\<close> (\<open>src/src/modules/events/events.service.ts\<close>): the listener that mirrors contract events into
  the database. A replica of the service is a \<open>poller\<close>; its methods act on the pair of its own fields and the
  shared world. Leadership is a Redis lock, the position on the chain is a cursor kept in memory
  and in the database, an event whose handler throws goes to the dead letter queue
  (\<open>failed_events\<close>), from where it is retried with exponential back-off.
\<close>

section \<open>JavaScript conversions of event payloads\<close>

text \<open>\<open>None\<close> is \<open>undefined\<close>. Numbers of payloads are integers; \<open>jsNumber\<close> is \<open>None\<close> for \<open>NaN\<close>.\<close>

fun jsString :: "json \<Rightarrow> string" where
  "jsString JNull = ''null''"
| "jsString (JBool b) = (if b then ''true'' else ''false'')"
| "jsString (JNum n) = showInt n"
| "jsString (JStr s) = s"
| "jsString (JArr xs) = concat (map (\<lambda>(i, x). (if i = 0 then [] else '','') @ x)
     (zip [0..<length xs] (map (\<lambda>x. if x = JNull then [] else jsString x) xs)))"
| "jsString (JObj kvs) = ''[object Object]''"

definition jsStringOpt :: "json option \<Rightarrow> string" where
  "jsStringOpt v = (case v of None \<Rightarrow> ''undefined'' | Some j \<Rightarrow> jsString j)"

fun jsNumber :: "json \<Rightarrow> int option" where
  "jsNumber JNull = Some 0"
| "jsNumber (JBool b) = Some (if b then 1 else 0)"
| "jsNumber (JNum n) = Some n"
| "jsNumber (JStr s) = parseBigInt s"
| "jsNumber (JArr xs) = parseBigInt (jsString (JArr xs))"
| "jsNumber (JObj kvs) = None"

definition jsNumberOpt :: "json option \<Rightarrow> int option" where
  "jsNumberOpt v = (case v of None \<Rightarrow> None | Some j \<Rightarrow> jsNumber j)"

text \<open>\<open>BigInt(v ?? 0)\<close>; \<open>None\<close> where it throws.\<close>

definition jsBigInt :: "json option \<Rightarrow> int option" where
  "jsBigInt v = (case v of None \<Rightarrow> Some 0 | Some (JObj _) \<Rightarrow> None | Some j \<Rightarrow> jsNumber j)"

definition jsTruthy :: "json option \<Rightarrow> bool" where
  "jsTruthy v = (case v of None \<Rightarrow> False | Some JNull \<Rightarrow> False | Some (JBool b) \<Rightarrow> b | Some (JNum n) \<Rightarrow> n \<noteq> 0
     | Some (JStr s) \<Rightarrow> s \<noteq> [] | Some _ \<Rightarrow> True)"

text \<open>A milestone number that Prisma accepts for its \<open>Int\<close> column.\<close>

definition columnInt :: "int option \<Rightarrow> int option" where
  "columnInt v = (case v of Some n \<Rightarrow> if - (2 ^ 31) \<le> n \<and> n < 2 ^ 31 then Some n else None | None \<Rightarrow> None)"

definition eventArgs :: "json \<Rightarrow> json list \<Rightarrow> json list" where
  "eventArgs payload defaults = (case payload of JArr xs \<Rightarrow> xs | j \<Rightarrow> j # defaults)"

definition arg :: "json list \<Rightarrow> nat \<Rightarrow> json option" where
  "arg xs i = (if i < length xs then Some (xs ! i) else None)"

text \<open>A property of an object literal: an \<open>undefined\<close> value is not stored.\<close>

definition field :: "string \<Rightarrow> json option \<Rightarrow> (string \<times> json) list" where
  "field k v = (case v of None \<Rightarrow> [] | Some j \<Rightarrow> [(k, j)])"

section \<open>Reading a raw event\<close>

definition extractEventName :: "rawEvent \<Rightarrow> string" where
  "extractEventName ev = (case ev_topics ev of [] \<Rightarrow> ''unknown'' | t # _ \<Rightarrow> t)"

definition extractPayload :: "rawEvent \<Rightarrow> json" where
  "extractPayload ev = (case ev_value ev of JsonValue j \<Rightarrow> if jsTruthy (Some j) then j else JNull | _ \<Rightarrow> JNull)"

definition extractShipmentId :: "json \<Rightarrow> string option" where
  "extractShipmentId payload = (case payload of JStr s \<Rightarrow> Some s | JArr (JStr s # _) \<Rightarrow> Some s | _ \<Rightarrow> None)"

definition orEmpty :: "string option \<Rightarrow> string" where
  "orEmpty v = (case v of None \<Rightarrow> [] | Some s \<Rightarrow> s)"

text \<open>\<open>payload ?? {}\<close>.\<close>

definition storedPayload :: "json \<Rightarrow> json" where
  "storedPayload p = (if p = JNull then JObj [] else p)"

text \<open>
  \<open>chainEvent.upsert\<close> with an empty update: an event of the same transaction and name is already
  there, or a row is inserted, unless the shipment it names is unknown (foreign key); every error
  of the statement is logged and swallowed.
\<close>

definition saveRawEvent :: "string \<Rightarrow> rawEvent \<Rightarrow> json \<Rightarrow> unit act" where
  "saveRawEvent name ev payload = modify (\<lambda>w.
     let tx = orEmpty (ev_txHash ev);
         sid = (case extractShipmentId payload of Some (c # cs) \<Rightarrow> Some (c # cs) | _ \<Rightarrow> None)
     in if (\<exists>r \<in> set (chainEvents (db w)). ce_txHash r = tx \<and> ce_eventName r = name) then w
        else if (case sid of None \<Rightarrow> False | Some s \<Rightarrow> findShipment s w = None) then w
        else w\<lparr>db := (db w)\<lparr>chainEvents := chainEvents (db w) @
          [\<lparr>ce_shipmentId = sid, ce_eventName = name, ce_ledger = ev_ledger ev, ce_txHash = tx,
            ce_payload = storedPayload payload\<rparr>]\<rparr>\<rparr>)"

section \<open>Handlers\<close>

text \<open>
  A mark of the milestones service called with \<open>Number(milestoneIndex)\<close>: with a number the column
  does not take, the check of the shipment still comes first.
\<close>

definition markAt :: "string \<Rightarrow> int option \<Rightarrow> (int \<Rightarrow> milestone act) \<Rightarrow> milestone act" where
  "markAt sid idx mark = (case idx of
      Some i \<Rightarrow> mark i
    | None \<Rightarrow> andThen (reads (shipmentCancelled sid)) (\<lambda>cancelled.
        require (\<not> cancelled) ConflictException (throw RuntimeError)))"

definition handleProofSubmitted :: "env \<Rightarrow> json \<Rightarrow> unit act" where
  "handleProofSubmitted e payload =
     (let args = eventArgs payload [JNum 0]; sid = jsStringOpt (arg args 0);
          idx = columnInt (jsNumberOpt (arg args 1)) in
      andThen (markAt sid idx (\<lambda>i. markProofSubmitted e sid i [])) (\<lambda>_.
      andThen (reads (findShipment sid)) (\<lambda>found.
      case found of None \<Rightarrow> ret ()
      | Some s \<Rightarrow> ignore (notifyUser e (buyerAddress s) N_PROOF_SUBMITTED ''Proof submitted for review''
          (JObj (field ''shipmentId'' (arg args 0) @ field ''milestoneIndex'' (arg args 1) @ [(''proofHash'', JStr [])]))))))"

definition confirmedNotices :: "env \<Rightarrow> json list \<Rightarrow> int \<Rightarrow> unit act" where
  "confirmedNotices e args amount =
     (let raw = field ''shipmentId'' (arg args 0) @ field ''milestoneIndex'' (arg args 1) in
      andThen (reads (findShipment (jsStringOpt (arg args 0)))) (\<lambda>found.
      case found of None \<Rightarrow> ret ()
      | Some s \<Rightarrow>
          andThen (notifyUser e (supplierAddress s) N_PAYMENT_RELEASED ''Payment released''
            (JObj (raw @ [(''paymentAmount'', JStr (toHumanAmount amount (tokenDecimals s))),
                          (''tokenSymbol'', JStr (tokenSymbol s))]))) (\<lambda>_.
          case arg args 0 of
            Some (JStr sid) \<Rightarrow> notifyWatchers e sid N_MILESTONE_CONFIRMED ''Milestone Confirmed'' (JObj raw)
          | _ \<Rightarrow> ret ())))"

definition alreadyConfirmed :: "milestone option \<Rightarrow> bool" where
  "alreadyConfirmed existing \<longleftrightarrow> (case existing of None \<Rightarrow> False | Some m \<Rightarrow> m_status m = CONFIRMED)"

definition handleMilestoneConfirmed :: "env \<Rightarrow> json \<Rightarrow> unit act" where
  "handleMilestoneConfirmed e payload =
     (let args = eventArgs payload [JNum 0, JNum 0]; sid = jsStringOpt (arg args 0) in
      requireSome (columnInt (jsNumberOpt (arg args 1))) RuntimeError (\<lambda>i.
      andThen (reads (findMilestone sid i)) (\<lambda>existing.
      if alreadyConfirmed existing then ret () else
      requireSome (jsBigInt (arg args 2)) RuntimeError (\<lambda>amount.
      andThen (markConfirmed e sid i amount) (\<lambda>_.
      andThen (syncStatusFromChain e sid) (\<lambda>_.
      confirmedNotices e args amount))))))"

definition handleDisputeRaised :: "env \<Rightarrow> json \<Rightarrow> unit act" where
  "handleDisputeRaised e payload =
     (let args = eventArgs payload [JNum 0]; sid = jsStringOpt (arg args 0);
          idx = columnInt (jsNumberOpt (arg args 1)) in
      andThen (markAt sid idx (markDisputed e sid)) (\<lambda>_.
      andThen (reads (findShipment sid)) (\<lambda>found.
      case found of None \<Rightarrow> ret ()
      | Some s \<Rightarrow> forEach [supplierAddress s, arbiterAddress s] (\<lambda>a.
          ignore (notifyUser e a N_DISPUTE_RAISED ''Dispute raised''
            (JObj (field ''shipmentId'' (arg args 0) @ field ''milestoneIndex'' (arg args 1))))))))"

definition handleDisputeResolved :: "env \<Rightarrow> json \<Rightarrow> unit act" where
  "handleDisputeResolved e payload =
     (let args = eventArgs payload [JNum 0, JBool False]; sid = jsStringOpt (arg args 0);
          approved = jsTruthy (arg args 2) in
      requireSome (columnInt (jsNumberOpt (arg args 1))) RuntimeError (\<lambda>i.
      andThen (markResolved e sid i approved None) (\<lambda>_.
      andThen (reads (findShipment sid)) (\<lambda>found.
      case found of None \<Rightarrow> ret ()
      | Some s \<Rightarrow> forEach [buyerAddress s, supplierAddress s] (\<lambda>a.
          ignore (notifyUser e a N_DISPUTE_RESOLVED
            (if approved then ''Dispute approved'' else ''Dispute rejected'')
            (JObj (field ''shipmentId'' (arg args 0) @ field ''milestoneIndex'' (arg args 1) @
              field ''approved'' (arg args 2)))))))))"

definition handleShipmentCancelled :: "env \<Rightarrow> json \<Rightarrow> string option \<Rightarrow> unit act" where
  "handleShipmentCancelled e payload txHash =
     (let args = eventArgs payload []; sid = jsStringOpt (arg args 0) in
      ignore (updateShipment (now e) sid (\<lambda>s.
        s\<lparr>s_status := CANCELLED, cancelledAt := Some (now e), refundTxHash := txHash\<rparr>)))"

text \<open>The dispatcher. \<open>shipment_created\<close> is only logged, as is an unknown name.\<close>

definition executeHandler :: "env \<Rightarrow> string \<Rightarrow> json \<Rightarrow> string option \<Rightarrow> unit act" where
  "executeHandler e name payload txHash =
     (if name = ''proof_submitted'' then handleProofSubmitted e payload
      else if name = ''milestone_confirmed'' then handleMilestoneConfirmed e payload
      else if name = ''dispute_raised'' then handleDisputeRaised e payload
      else if name = ''dispute_resolved'' then handleDisputeResolved e payload
      else if name = ''shipment_cancelled'' then handleShipmentCancelled e payload txHash
      else ret ())"

section \<open>Processing\<close>

definition publish :: "outgoing \<Rightarrow> unit act" where
  "publish m = withMail (\<lambda>mb. ((), send m mb))"

text \<open>\<open>ShipmentEventsPublisher.publishShipment\<close>: an unknown shipment or milestone is not published.\<close>

definition publishShipment :: "string \<Rightarrow> int option \<Rightarrow> unit act" where
  "publishShipment sid idx =
     andThen (reads (findShipment sid)) (\<lambda>found.
     if found = None then ret () else
     andThen (publish (GqlShipment sid)) (\<lambda>_.
     case idx of None \<Rightarrow> ret ()
     | Some i \<Rightarrow> andThen (reads (findMilestone sid i)) (\<lambda>m. whenA (m \<noteq> None) (publish (GqlMilestone sid i)))))"

definition publishGraphqlUpdate :: "bool \<Rightarrow> json \<Rightarrow> unit act" where
  "publishGraphqlUpdate hasPublisher payload =
     (let args = eventArgs payload [] in
      case arg args 0 of
        None \<Rightarrow> ret ()
      | Some j \<Rightarrow> whenA (hasPublisher \<and> j \<noteq> JNull)
          (publishShipment (jsString j) (columnInt (jsNumberOpt (arg args 1)))))"

definition processEvent :: "env \<Rightarrow> bool \<Rightarrow> rawEvent \<Rightarrow> unit act" where
  "processEvent e hasPublisher ev =
     (let name = extractEventName ev; payload = extractPayload ev in
      andThen (saveRawEvent name ev payload) (\<lambda>_.
      andThen (executeHandler e name payload (ev_txHash ev)) (\<lambda>_.
      andThen (count (EventsProcessed name)) (\<lambda>_.
      publishGraphqlUpdate hasPublisher payload))))"

definition processEventForBackfill :: "env \<Rightarrow> rawEvent \<Rightarrow> unit act" where
  "processEventForBackfill e ev =
     (let name = extractEventName ev; payload = extractPayload ev in
      andThen (saveRawEvent name ev payload) (\<lambda>_.
      andThen (executeHandler e name payload (ev_txHash ev)) (\<lambda>_.
      count (EventsProcessed name))))"

section \<open>The dead letter queue\<close>

definition MAX_ATTEMPTS :: int where
  "MAX_ATTEMPTS = 5"

text \<open>\<open>failedEvent.upsert\<close> on transaction and name: an existing row keeps its payload and its resolution.\<close>

definition saveToDlq :: "env \<Rightarrow> rawEvent \<Rightarrow> exn \<Rightarrow> unit act" where
  "saveToDlq e ev err = modify (\<lambda>w.
     let name = extractEventName ev; tx = orEmpty (ev_txHash ev) in
     if (\<exists>r \<in> set (failedEvents (db w)). fe_txHash r = tx \<and> fe_eventName r = name)
     then w\<lparr>db := (db w)\<lparr>failedEvents := updateWhere (\<lambda>r. fe_txHash r = tx \<and> fe_eventName r = name)
       (\<lambda>r. r\<lparr>attemptCount := attemptCount r + 1, lastAttemptAt := now e, fe_error := err\<rparr>)
       (failedEvents (db w))\<rparr>\<rparr>
     else w\<lparr>db := (db w)\<lparr>failedEvents := failedEvents (db w) @
       [\<lparr>fe_id = nextId (db w), fe_eventName = name, fe_ledger = ev_ledger ev, fe_txHash = tx,
         fe_payload = storedPayload (extractPayload ev), fe_error = err, attemptCount = 1,
         lastAttemptAt = now e, resolvedAt = None\<rparr>], nextId := Suc (nextId (db w))\<rparr>\<rparr>)"

definition alertAdmins :: "env \<Rightarrow> failedEvent \<Rightarrow> unit act" where
  "alertAdmins e fe =
     andThen (reads (\<lambda>w. filter (\<lambda>u. u_role u = ADMIN) (users (db w)))) (\<lambda>admins.
     forEach admins (\<lambda>u. ignore (notifyUser e (stellarAddress u) N_SYSTEM_ALERT ''Failed event exhausted retries''
       (JObj [(''failedEventId'', JNum (int (fe_id fe))), (''eventName'', JStr (fe_eventName fe))]))))"

definition updateFailed :: "uuid \<Rightarrow> (failedEvent \<Rightarrow> failedEvent) \<Rightarrow> unit act" where
  "updateFailed fid f =
     andThen (reads (\<lambda>w. find (\<lambda>r. fe_id r = fid) (failedEvents (db w)))) (\<lambda>found.
     requireSome found PrismaP2025 (\<lambda>_.
     modifyDb (\<lambda>d. d\<lparr>failedEvents := updateWhere (\<lambda>r. fe_id r = fid) f (failedEvents d)\<rparr>)))"

text \<open>Rows are created with one attempt, so the exponent is never negative.\<close>

definition backoffMs :: "failedEvent \<Rightarrow> time" where
  "backoffMs fe = 2 ^ nat (attemptCount fe - 1) * 60 * 1000"

definition retryDue :: "time \<Rightarrow> failedEvent \<Rightarrow> bool" where
  "retryDue t fe \<longleftrightarrow> resolvedAt fe = None \<and> attemptCount fe < MAX_ATTEMPTS \<and> lastAttemptAt fe + backoffMs fe \<le> t"

definition retryOne :: "env \<Rightarrow> failedEvent \<Rightarrow> unit act" where
  "retryOne e fe =
     attempt
       (andThen (executeHandler e (fe_eventName fe) (fe_payload fe) (Some (fe_txHash fe))) (\<lambda>_.
        updateFailed (fe_id fe) (\<lambda>r. r\<lparr>resolvedAt := Some (now e)\<rparr>)))
       (\<lambda>x.
        let newCount = attemptCount fe + 1 in
        andThen (updateFailed (fe_id fe) (\<lambda>r. r\<lparr>attemptCount := newCount, lastAttemptAt := now e, fe_error := x\<rparr>)) (\<lambda>_.
        whenA (newCount \<ge> MAX_ATTEMPTS) (alertAdmins e fe)))"

definition retryFailedEvents :: "env \<Rightarrow> bool \<Rightarrow> unit act" where
  "retryFailedEvents e isLeader = runTrackedJob e False ''failed-events-retry''
     (if \<not> isLeader then ret () else
      andThen (reads (\<lambda>w. filter (retryDue (now e)) (failedEvents (db w)))) (\<lambda>toRetry.
      forEach toRetry (retryOne e)))"

definition retryFailedEventById :: "env \<Rightarrow> uuid \<Rightarrow> unit act" where
  "retryFailedEventById e fid =
     andThen (reads (\<lambda>w. find (\<lambda>r. fe_id r = fid) (failedEvents (db w)))) (\<lambda>found.
     requireSome found PrismaP2025 (\<lambda>fe.
     andThen (executeHandler e (fe_eventName fe) (fe_payload fe) (Some (fe_txHash fe))) (\<lambda>_.
     updateFailed fid (\<lambda>r. r\<lparr>resolvedAt := Some (now e)\<rparr>))))"

section \<open>Replicas\<close>

text \<open>
  The fields of one running service. \<open>stream\<close> is the position of the subscription that is open
  (\<open>unsubscribeFn\<close> is not null), the \<open>currentLedger\<close> of the loop in \<open>subscribeToContractEvents\<close>.
\<close>

record poller =
  lockToken :: string
  isLeader :: bool
  lastProcessedLedger :: int
  stream :: "int option"
  leadershipTimer :: bool

type_synonym 'a nodeAct = "(poller \<times> world, 'a) action"

definition onWorld :: "'a act \<Rightarrow> 'a nodeAct" where
  "onWorld m = (\<lambda>(p, w). case m w of (r, w') \<Rightarrow> (r, (p, w')))"

definition onPoller :: "(poller \<Rightarrow> poller) \<Rightarrow> unit nodeAct" where
  "onPoller f = modify (\<lambda>(p, w). (f p, w))"

definition POLLER_LOCK_KEY :: string where
  "POLLER_LOCK_KEY = ''chainsettle:event-poller:leader''"

definition POLLER_LOCK_TTL_MS :: int where
  "POLLER_LOCK_TTL_MS = 15000"

definition stopStreamSubscription :: "unit nodeAct" where
  "stopStreamSubscription = onPoller (\<lambda>p. p\<lparr>stream := None\<rparr>)"

definition startStreamSubscription :: "unit nodeAct" where
  "startStreamSubscription = onPoller (\<lambda>p. p\<lparr>stream := Some (lastProcessedLedger p)\<rparr>)"

definition tryBecomeLeader :: "env \<Rightarrow> unit nodeAct" where
  "tryBecomeLeader e =
     andThen (reads fst) (\<lambda>p.
     if isLeader p then
       andThen (onWorld (lockCall (renewLock (now e) POLLER_LOCK_KEY (lockToken p) POLLER_LOCK_TTL_MS))) (\<lambda>renewed.
       whenA (\<not> renewed) (
         andThen stopStreamSubscription (\<lambda>_.
         onPoller (\<lambda>p. p\<lparr>isLeader := False\<rparr>))))
     else
       andThen (onWorld (lockCall (acquireLock (now e) POLLER_LOCK_KEY (lockToken p) POLLER_LOCK_TTL_MS))) (\<lambda>acquired.
       whenA acquired (
         andThen (onPoller (\<lambda>p. p\<lparr>isLeader := True\<rparr>)) (\<lambda>_.
         startStreamSubscription))))"

definition stepDownAsLeader :: "env \<Rightarrow> unit nodeAct" where
  "stepDownAsLeader e =
     andThen stopStreamSubscription (\<lambda>_.
     andThen (reads fst) (\<lambda>p.
     whenA (isLeader p) (
       andThen (onWorld (lockCall (\<lambda>r. ((), releaseLock (now e) POLLER_LOCK_KEY (lockToken p) r)))) (\<lambda>_.
       onPoller (\<lambda>p. p\<lparr>isLeader := False\<rparr>)))))"

text \<open>
  Start-up: the cursor of the database, or a new one ten ledgers behind the tip; \<open>again\<close> is what a
  second request for the tip answers after the first has failed.
\<close>

definition initCursor :: "env \<Rightarrow> int result \<Rightarrow> unit nodeAct" where
  "initCursor e again =
     andThen (reads (\<lambda>(p, w). eventCursor (db w))) (\<lambda>cursor.
     case cursor of
       Some c \<Rightarrow> onPoller (\<lambda>p. p\<lparr>lastProcessedLedger := c\<rparr>)
     | None \<Rightarrow>
         (case latestLedger e of
            Inr latest \<Rightarrow>
              andThen (onWorld (modifyDb (\<lambda>d. d\<lparr>eventCursor := Some (max 1 (latest - 10))\<rparr>))) (\<lambda>_.
              onPoller (\<lambda>p. p\<lparr>lastProcessedLedger := max 1 (latest - 10)\<rparr>))
          | Inl _ \<Rightarrow> onPoller (\<lambda>p. p\<lparr>lastProcessedLedger :=
              (case again of Inr latest \<Rightarrow> max 1 (latest - 10) | Inl _ \<Rightarrow> 1)\<rparr>)))"

definition onModuleInit :: "env \<Rightarrow> bool \<Rightarrow> int result \<Rightarrow> unit nodeAct" where
  "onModuleInit e sdkGenerate again =
     (if sdkGenerate then ret () else
      andThen (initCursor e again) (\<lambda>_.
      andThen (tryBecomeLeader e) (\<lambda>_.
      onPoller (\<lambda>p. p\<lparr>leadershipTimer := True\<rparr>))))"

definition onModuleDestroy :: "env \<Rightarrow> unit nodeAct" where
  "onModuleDestroy e =
     andThen (onPoller (\<lambda>p. p\<lparr>leadershipTimer := False\<rparr>)) (\<lambda>_. stepDownAsLeader e)"

section \<open>The stream\<close>

text \<open>The callback of the subscription.\<close>

definition onEvent :: "env \<Rightarrow> bool \<Rightarrow> rawEvent \<Rightarrow> unit nodeAct" where
  "onEvent e hasPublisher ev =
     andThen (attempt (onWorld (processEvent e hasPublisher ev)) (\<lambda>x.
       andThen (onWorld (count EventsFailed)) (\<lambda>_. onWorld (saveToDlq e ev x)))) (\<lambda>_.
     andThen (onPoller (\<lambda>p. p\<lparr>lastProcessedLedger := max (lastProcessedLedger p) (ev_ledger ev + 1)\<rparr>)) (\<lambda>_.
     andThen (reads fst) (\<lambda>p.
     onWorld (modifyDb (\<lambda>d. case eventCursor d of None \<Rightarrow> d
       | Some _ \<Rightarrow> d\<lparr>eventCursor := Some (lastProcessedLedger p)\<rparr>)))))"

text \<open>
  One round of the loop in \<open>subscribeToContractEvents\<close>: a page from the current ledger on, every event
  to the callback, and the loop's own position moved behind it.
\<close>

definition pollOnce :: "env \<Rightarrow> bool \<Rightarrow> (int \<Rightarrow> rpcError + rawEvent list) \<Rightarrow> unit nodeAct" where
  "pollOnce e hasPublisher getEvents =
     andThen (reads (stream \<circ> fst)) (\<lambda>open.
     case open of
       None \<Rightarrow> ret ()
     | Some l \<Rightarrow> forEach (fetchContractEvents getEvents l) (\<lambda>ev.
         andThen (onEvent e hasPublisher ev) (\<lambda>_.
         onPoller (\<lambda>p. p\<lparr>stream := map_option (\<lambda>c. max c (ev_ledger ev + 1)) (stream p)\<rparr>))))"

section \<open>Rewinding\<close>

record rewindReply =
  rr_previousLedger :: int
  rr_newLedger :: int
  rr_chainTip :: int
  rr_oldestAvailableLedger :: int

definition moveCursor :: "env \<Rightarrow> int \<Rightarrow> int \<Rightarrow> int \<Rightarrow> uuid option \<Rightarrow> address option \<Rightarrow> string \<Rightarrow> rewindReply nodeAct" where
  "moveCursor e toLedger tip oldest actorId actorAddress reason =
     andThen (reads (\<lambda>(p, w). case eventCursor (db w) of Some c \<Rightarrow> c | None \<Rightarrow> lastProcessedLedger p)) (\<lambda>previous.
     andThen (onWorld (modifyDb (\<lambda>d. d\<lparr>eventCursor := Some toLedger\<rparr>))) (\<lambda>_.
     andThen (onPoller (\<lambda>p. p\<lparr>lastProcessedLedger := toLedger\<rparr>)) (\<lambda>_.
     andThen startStreamSubscription (\<lambda>_.
     andThen (onWorld (auditRecord \<lparr>au_actorId = actorId,
        au_actorAddress = (case actorAddress of Some a \<Rightarrow> a | None \<Rightarrow> ''SYSTEM''),
        au_action = ''events.cursor.rewind'', au_resourceType = ''EventCursor'', au_resourceId = ByName ''main'',
        au_metadata = JObj [(''previousLedger'', JNum previous), (''newLedger'', JNum toLedger), (''chainTip'', JNum tip),
          (''oldestAvailableLedger'', JNum oldest), (''reason'', JStr reason)]\<rparr>)) (\<lambda>_.
     ret \<lparr>rr_previousLedger = previous, rr_newLedger = toLedger, rr_chainTip = tip, rr_oldestAvailableLedger = oldest\<rparr>)))))"

text \<open>The \<open>finally\<close> branch gives back a lock that was taken only for the rewind.\<close>

definition rewindCursor :: "env \<Rightarrow> int \<Rightarrow> uuid option \<Rightarrow> address option \<Rightarrow> string \<Rightarrow> rewindReply nodeAct" where
  "rewindCursor e toLedger actorId actorAddress reason =
     liftResult (latestLedger e) (\<lambda>tip.
     require (toLedger \<le> tip) BadRequestException (
     liftResult (oldestLedger e) (\<lambda>oldest.
     require (toLedger \<ge> oldest) BadRequestException (
     andThen (reads fst) (\<lambda>p.
     if isLeader p then moveCursor e toLedger tip oldest actorId actorAddress reason
     else
       andThen (onWorld (lockCall (acquireLock (now e) POLLER_LOCK_KEY (lockToken p) POLLER_LOCK_TTL_MS))) (\<lambda>acquired.
       require acquired ConflictException (
       andThen (onPoller (\<lambda>p. p\<lparr>isLeader := True\<rparr>)) (\<lambda>_.
       andThen (moveCursor e toLedger tip oldest actorId actorAddress reason) (\<lambda>reply.
       andThen (onWorld (lockCall (\<lambda>r. ((), releaseLock (now e) POLLER_LOCK_KEY (lockToken p) r)))) (\<lambda>_.
       andThen (onPoller (\<lambda>p. p\<lparr>isLeader := False\<rparr>)) (\<lambda>_.
       ret reply)))))))))))"

record cursorStatus =
  cs_inMemoryLedger :: int
  cs_persistedLedger :: "int option"
  cs_chainTip :: int
  cs_lag :: int
  cs_healthy :: bool
  cs_isPollerLeader :: bool

definition getCursorStatus :: "env \<Rightarrow> cursorStatus nodeAct" where
  "getCursorStatus e =
     liftResult (latestLedger e) (\<lambda>tip.
     reads (\<lambda>(p, w). \<lparr>cs_inMemoryLedger = lastProcessedLedger p, cs_persistedLedger = eventCursor (db w),
       cs_chainTip = tip, cs_lag = tip - lastProcessedLedger p, cs_healthy = (tip - lastProcessedLedger p \<le> 100),
       cs_isPollerLeader = isLeader p\<rparr>))"

section \<open>Lemmas\<close>

subsection \<open>What the handlers leave alone\<close>

text \<open>Handlers write shipments, milestones, mail and metrics; the queue, the cursor and the locks are not theirs.\<close>

definition rest :: "world \<Rightarrow> db \<times> keyspace" where
  "rest w = ((db w)\<lparr>shipments := [], milestones := []\<rparr>, redis w)"

lemma rest_eqD:
  "rest w' = rest w \<Longrightarrow> failedEvents (db w') = failedEvents (db w) \<and> eventCursor (db w') = eventCursor (db w) \<and>
    users (db w') = users (db w) \<and> chainEvents (db w') = chainEvents (db w) \<and> nextId (db w') = nextId (db w) \<and>
    redis w' = redis w"
  unfolding rest_def by (cases "db w", cases "db w'") simp

lemma leaves_rest_calls [leaves_intros]:
  "leaves rest (updateMilestone t sid i f)"
  "leaves rest (updateShipment t sid g)"
  "leaves rest (notifyUser e addr ty title data)"
  "leaves rest (notifyWatchers e sid' ty title data)"
  "leaves rest (count m)"
  "leaves rest (publish out)"
  by (simp_all add: leaves_def rest_def run_updateMilestone run_updateShipment setMilestones_def setShipments_def
      publish_def split: option.split)

lemma leaves_rest_sync' [leaves_intros]: "leaves rest (syncStatusFromChain e sid)"
  unfolding syncStatusFromChain_def Let_def
  by (auto intro!: leaves_intros split: chainReply.splits option.splits)

lemma leaves_rest_marks [leaves_intros]:
  "leaves rest (markProofSubmitted e sid i h)" "leaves rest (markConfirmed e sid i paid)"
  "leaves rest (markDisputed e sid i)" "leaves rest (markResolved e sid i ok None)"
  unfolding markProofSubmitted_def markConfirmed_def markDisputed_def markResolved_def Let_def
  by (intro leaves_intros)+

lemma leaves_rest_markAt [leaves_intros]: "(\<And>i. leaves rest (mark i)) \<Longrightarrow> leaves rest (markAt sid idx mark)"
  unfolding markAt_def by (intro leaves_intros)

lemma leaves_case_json:
  assumes "leaves f m" "\<And>s. leaves f (k s)"
  shows "leaves f (case j of JStr s \<Rightarrow> k s | _ \<Rightarrow> m)"
  using assms by (cases j) simp_all

lemma leaves_rest_handleProof [leaves_intros]: "leaves rest (handleProofSubmitted e payload)"
  unfolding handleProofSubmitted_def Let_def by (intro leaves_intros)

lemma leaves_rest_handleConfirmed [leaves_intros]: "leaves rest (handleMilestoneConfirmed e payload)"
  unfolding handleMilestoneConfirmed_def confirmedNotices_def Let_def by (intro leaves_intros leaves_case_json)

lemma leaves_db_confirmedNotices: "leaves db (confirmedNotices e args amount)"
proof -
  have "leaves db (notifyUser e addr ty title data)" "leaves db (notifyWatchers e sid ty title data)" for addr sid ty title data
    by (simp_all add: leaves_def)
  then show ?thesis unfolding confirmedNotices_def Let_def by (intro leaves_intros leaves_case_json)
qed

lemma leaves_rest_handleDisputes [leaves_intros]:
  "leaves rest (handleDisputeRaised e payload)" "leaves rest (handleDisputeResolved e payload)"
  unfolding handleDisputeRaised_def handleDisputeResolved_def Let_def by (intro leaves_intros)+

lemma leaves_rest_handleCancelled [leaves_intros]: "leaves rest (handleShipmentCancelled e payload tx)"
  unfolding handleShipmentCancelled_def Let_def by (intro leaves_intros)

lemma leaves_rest_executeHandler [leaves_intros]: "leaves rest (executeHandler e name payload tx)"
  unfolding executeHandler_def by (intro leaves_intros)

lemma leaves_rest_alertAdmins [leaves_intros]: "leaves rest (alertAdmins e fe)"
  unfolding alertAdmins_def by (intro leaves_intros)

lemma total_publish [total_intros]: "neverFails (publish m)"
  by (simp add: neverFails_def publish_def)

lemma total_publishGraphqlUpdate [total_intros]: "neverFails (publishGraphqlUpdate g payload)"
  unfolding publishGraphqlUpdate_def publishShipment_def Let_def by (intro total_intros)

lemma leaves_rest_publishGraphqlUpdate [leaves_intros]: "leaves rest (publishGraphqlUpdate g payload)"
  unfolding publishGraphqlUpdate_def publishShipment_def Let_def by (intro leaves_intros)

text \<open>Processing an event may add a row to the raw events, and nothing else outside the handlers' part.\<close>

lemma leaves_queue_saveRawEvent [leaves_intros]:
  "leaves (\<lambda>w. (failedEvents (db w), eventCursor (db w), redis w, nextId (db w))) (saveRawEvent name ev payload)"
  by (simp add: leaves_def saveRawEvent_def Let_def)

lemma leaves_queue_processEvent:
  "leaves (\<lambda>w. (failedEvents (db w), eventCursor (db w), redis w, nextId (db w))) (processEvent e g ev)"
proof -
  have sub: "leaves (\<lambda>w. (failedEvents (db w), eventCursor (db w), redis w, nextId (db w))) m" if "leaves rest m" for m :: "unit act"
    using rest_eqD [OF leavesD [OF that]] by (simp add: leaves_def)
  show ?thesis unfolding processEvent_def Let_def 
    by (intro leaves_andThen leaves_queue_saveRawEvent) (intro sub leaves_intros)+
qed

subsection \<open>The callback\<close>

lemma run_onWorld [simp]: "onWorld m (p, w) = (fst (m w), (p, snd (m w)))"
  by (simp add: onWorld_def split: prod.splits)

lemma run_onPoller [simp]: "onPoller f (p, w) = (Inr (), (f p, w))"
  by (simp add: onPoller_def)

definition persistCursor :: "int \<Rightarrow> world \<Rightarrow> world" where
  "persistCursor c w = (case eventCursor (db w) of None \<Rightarrow> w | Some _ \<Rightarrow> w\<lparr>db := (db w)\<lparr>eventCursor := Some c\<rparr>\<rparr>)"

definition queued :: "env \<Rightarrow> rawEvent \<Rightarrow> exn \<Rightarrow> world \<Rightarrow> world" where
  "queued e ev x w = snd (saveToDlq e ev x (snd (count EventsFailed w)))"

text \<open>The callback always returns: processed or queued, and the cursor moved behind the event.\<close>

lemma run_onEvent:
  "onEvent e g ev (p, w) =
    (let p' = p\<lparr>lastProcessedLedger := max (lastProcessedLedger p) (ev_ledger ev + 1)\<rparr> in
     (Inr (), (p', persistCursor (lastProcessedLedger p')
        (case processEvent e g ev w of (Inr _, w1) \<Rightarrow> w1 | (Inl x, w1) \<Rightarrow> queued e ev x w1))))"
proof (cases "processEvent e g ev w")
  case (Pair r w1)
  have save: "fst (saveToDlq e ev x w2) = Inr ()" for x w2
    by (simp add: saveToDlq_def)
  from Pair show ?thesis
    by (cases r) (auto simp: onEvent_def persistCursor_def queued_def attempt_def andThen_def Let_def save
        split: option.splits)
qed

lemma cursor_persistCursor [simp]: "eventCursor (db (persistCursor c w)) = map_option (\<lambda>_. c) (eventCursor (db w))"
  by (simp add: persistCursor_def split: option.split)

lemma failedEvents_persistCursor [simp]: "failedEvents (db (persistCursor c w)) = failedEvents (db w)"
  by (simp add: persistCursor_def split: option.split)

lemma failedEvents_queued:
  "failedEvents (db (queued e ev x w)) =
    (let k = (\<lambda>r. fe_txHash r = orEmpty (ev_txHash ev) \<and> fe_eventName r = extractEventName ev) in
     if \<exists>r \<in> set (failedEvents (db w)). k r
     then updateWhere k (\<lambda>r. r\<lparr>attemptCount := attemptCount r + 1, lastAttemptAt := now e, fe_error := x\<rparr>) (failedEvents (db w))
     else failedEvents (db w) @ [\<lparr>fe_id = nextId (db w), fe_eventName = extractEventName ev, fe_ledger = ev_ledger ev,
       fe_txHash = orEmpty (ev_txHash ev), fe_payload = storedPayload (extractPayload ev), fe_error = x,
       attemptCount = 1, lastAttemptAt = now e, resolvedAt = None\<rparr>])"
  by (auto simp: queued_def saveToDlq_def Let_def)

lemma eventCursor_queued [simp]: "eventCursor (db (queued e ev x w)) = eventCursor (db w)"
  by (simp add: queued_def saveToDlq_def Let_def)

subsection \<open>Retries\<close>

definition retryOk :: "time \<Rightarrow> failedEvent \<Rightarrow> failedEvent" where
  "retryOk t r = r\<lparr>resolvedAt := Some t\<rparr>"

definition retryFail :: "time \<Rightarrow> exn \<Rightarrow> failedEvent \<Rightarrow> failedEvent" where
  "retryFail t x r = r\<lparr>attemptCount := attemptCount r + 1, lastAttemptAt := t, fe_error := x\<rparr>"

text \<open>What one run of the job does to a row.\<close>

definition retryOutcome :: "time \<Rightarrow> failedEvent \<Rightarrow> failedEvent \<Rightarrow> bool" where
  "retryOutcome t r r' \<longleftrightarrow> r' = retryOk t r \<or> (\<exists>x. r' = retryFail t x r)"

lemma retryOutcome_id: "retryOutcome t r r' \<Longrightarrow> fe_id r' = fe_id r"
  by (auto simp: retryOutcome_def retryOk_def retryFail_def)

lemma run_updateFailed:
  assumes "fe \<in> set (failedEvents (db w))"
  shows "updateFailed (fe_id fe) f w = (Inr (),
    w\<lparr>db := (db w)\<lparr>failedEvents := updateWhere (\<lambda>r. fe_id r = fe_id fe) f (failedEvents (db w))\<rparr>\<rparr>)"
proof -
  have "find (\<lambda>r. fe_id r = fe_id fe) (failedEvents (db w)) \<noteq> None"
    using assms by (auto simp: find_None_iff)
  then show ?thesis by (auto simp: updateFailed_def)
qed

lemma updateWhere_key:
  assumes "distinct (map key rows)" "r \<in> set rows"
  shows "updateWhere (\<lambda>x. key x = key r) f rows = updateWhere (\<lambda>x. x = r) f rows"
  using assms by (intro updateWhere_cong) (auto simp: distinct_map dest: inj_onD)

text \<open>A retry succeeds or fails, and accordingly updates exactly its row.\<close>

lemma run_retryOne:
  assumes "distinct (map fe_id (failedEvents (db w)))" "fe \<in> set (failedEvents (db w))"
  shows "\<exists>f w'. retryOne e fe w = (Inr (), w') \<and> (f = retryOk (now e) \<or> (\<exists>x. f = retryFail (now e) x)) \<and>
    failedEvents (db w') = updateWhere (\<lambda>r. r = fe) f (failedEvents (db w)) \<and> redis w' = redis w"
proof -
  obtain r w1 where h: "executeHandler e (fe_eventName fe) (fe_payload fe) (Some (fe_txHash fe)) w = (r, w1)"
    by fastforce
  have r1: "failedEvents (db w1) = failedEvents (db w)" "redis w1 = redis w"
    using rest_eqD [OF leaves_run [OF leaves_rest_executeHandler h]] by simp_all
  note up = run_updateFailed [of fe w1, unfolded r1, OF assms(2)]
  note key = updateWhere_key [OF assms]
  show ?thesis
  proof (cases r)
    case (Inr v)
    have "retryOne e fe w = (Inr (), w1\<lparr>db := (db w1)\<lparr>failedEvents :=
        updateWhere (\<lambda>r. r = fe) (retryOk (now e)) (failedEvents (db w))\<rparr>\<rparr>)"
      using h Inr up key by (simp add: retryOne_def attempt_def andThen_def retryOk_def [abs_def])
    then show ?thesis using r1 by auto
  next
    case (Inl x)
    let ?w2 = "w1\<lparr>db := (db w1)\<lparr>failedEvents := updateWhere (\<lambda>r. r = fe) (retryFail (now e) x) (failedEvents (db w))\<rparr>\<rparr>"
    have upd: "updateWhere (\<lambda>r. r = fe) (\<lambda>r. r\<lparr>attemptCount := attemptCount fe + 1, lastAttemptAt := now e, fe_error := x\<rparr>) rows
        = updateWhere (\<lambda>r. r = fe) (retryFail (now e) x) rows" for rows
      by (rule updateWhere_cong) (auto simp: retryFail_def)
    obtain w3 where a: "alertAdmins e fe ?w2 = (Inr (), w3)" "rest w3 = rest ?w2"
    proof -
      have "neverFails (alertAdmins e fe)" unfolding alertAdmins_def by (intro total_intros)
      then show ?thesis using that leaves_run [OF leaves_rest_alertAdmins] unfolding neverFails_def by fastforce
    qed
    have "retryOne e fe w = (Inr (), if attemptCount fe + 1 \<ge> MAX_ATTEMPTS then w3 else ?w2)"
      using h Inl up a(1) by (simp add: retryOne_def attempt_def andThen_def Let_def key upd)
    moreover have "failedEvents (db w3) = failedEvents (db ?w2)" "redis w3 = redis ?w2"
      using rest_eqD [OF a(2)] by simp_all
    ultimately show ?thesis using r1
      by (cases "attemptCount fe + 1 \<ge> MAX_ATTEMPTS") (auto intro!: exI [of _ "retryFail (now e) x"])
  qed
qed

lemma run_retries:
  assumes "distinct (map fe_id (failedEvents (db w)))" "distinct todo" "set todo \<subseteq> set (failedEvents (db w))"
  shows "\<exists>g w'. forEach todo (retryOne e) w = (Inr (), w') \<and> failedEvents (db w') = map g (failedEvents (db w)) \<and>
    (\<forall>r. if r \<in> set todo then retryOutcome (now e) r (g r) else g r = r) \<and> redis w' = redis w"
  using assms
proof (induction todo arbitrary: w)
  case Nil
  then show ?case by (intro exI [of _ id]) simp
next
  case (Cons fe todo)
  let ?rows = "failedEvents (db w)"
  obtain f w1 where 1: "retryOne e fe w = (Inr (), w1)" "retryOutcome (now e) fe (f fe)"
      "failedEvents (db w1) = updateWhere (\<lambda>r. r = fe) f ?rows" "redis w1 = redis w"
    using run_retryOne [of w fe e] Cons.prems by (auto simp: retryOutcome_def)
  have ids: "map fe_id (failedEvents (db w1)) = map fe_id ?rows"
    unfolding 1(3) by (rule map_updateWhere) (use retryOutcome_id [OF 1(2)] in auto)
  have sub: "set todo \<subseteq> set (failedEvents (db w1))"
  proof
    fix x assume "x \<in> set todo"
    then have "x \<in> set ?rows" "x \<noteq> fe" using Cons.prems by auto
    then show "x \<in> set (failedEvents (db w1))" by (auto simp: 1(3) in_set_updateWhere intro: bexI [of _ x])
  qed
  obtain g w' where 2: "forEach todo (retryOne e) w1 = (Inr (), w')" "failedEvents (db w') = map g (failedEvents (db w1))"
      "\<forall>r. if r \<in> set todo then retryOutcome (now e) r (g r) else g r = r" "redis w' = redis w1"
    using Cons.IH [of w1] Cons.prems ids sub by auto
  have "f fe \<notin> set todo"
  proof
    assume "f fe \<in> set todo"
    moreover from this have "f fe \<in> set ?rows" using Cons.prems(3) by auto
    ultimately show False
      using Cons.prems retryOutcome_id [OF 1(2)] by (auto simp: distinct_map dest: inj_onD)
  qed
  then have "g (f fe) = f fe" using 2(3) by (metis (full_types))
  then have "failedEvents (db w') = map (\<lambda>r. if r = fe then f fe else g r) ?rows"
    using 2(2) by (auto simp: 1(3) updateWhere_def)
  moreover have "\<forall>r. if r \<in> set (fe # todo) then retryOutcome (now e) r (if r = fe then f fe else g r)
      else (if r = fe then f fe else g r) = r"
    using 1(2) 2(3) by (metis (full_types) list.set_intros set_ConsD)
  moreover have "forEach (fe # todo) (retryOne e) w = (Inr (), w')" "redis w' = redis w"
    using 1(1,4) 2(1,4) by simp_all
  ultimately show ?case by blast
qed

section \<open>Properties\<close>


text \<open>One run of the retry job: every due row is settled or counted, all others stay as they are.\<close>

lemma retry_run:
  assumes "distinct (map fe_id (failedEvents (db w)))"
  shows "\<exists>g. failedEvents (db (snd (retryFailedEvents e True w))) = map g (failedEvents (db w)) \<and>
    (\<forall>r \<in> set (failedEvents (db w)). if retryDue (now e) r then retryOutcome (now e) r (g r) else g r = r)"
proof -
  have "distinct (filter (retryDue (now e)) (failedEvents (db w)))"
    using assms by (simp add: distinct_map)
  from run_retries [OF assms this, of e] obtain g w' where
    "forEach (filter (retryDue (now e)) (failedEvents (db w))) (retryOne e) w = (Inr (), w')"
    "failedEvents (db w') = map g (failedEvents (db w))"
    "\<forall>r. if r \<in> set (filter (retryDue (now e)) (failedEvents (db w))) then retryOutcome (now e) r (g r) else g r = r"
    by auto
  then show ?thesis by (intro exI [of _ g]) (auto simp: retryFailedEvents_def)
qed

text \<open>
  Four runs that leave the longest back-off (eight minutes) between them use up the attempts of
  every row.
\<close>

definition spaced :: "time \<Rightarrow> env list \<Rightarrow> bool" where
  "spaced t0 es \<longleftrightarrow> (\<forall>i < length es. (if i = 0 then t0 else now (es ! (i - 1))) + 480000 \<le> now (es ! i))"

definition settled :: "failedEvent \<Rightarrow> bool" where
  "settled r \<longleftrightarrow> resolvedAt r \<noteq> None \<or> attemptCount r \<ge> MAX_ATTEMPTS"

definition retryRuns :: "env list \<Rightarrow> world \<Rightarrow> world" where
  "retryRuns es w = fold (\<lambda>e w. snd (retryFailedEvents e True w)) es w"

lemma backoff_le: "1 \<le> attemptCount r \<Longrightarrow> attemptCount r < MAX_ATTEMPTS \<Longrightarrow> backoffMs r \<le> 480000"
proof -
  assume "1 \<le> attemptCount r" "attemptCount r < MAX_ATTEMPTS"
  then have "nat (attemptCount r - 1) \<le> 3" by (simp add: MAX_ATTEMPTS_def)
  then have "(2 :: int) ^ nat (attemptCount r - 1) \<le> 2 ^ 3" by (intro power_increasing) auto
  then show ?thesis by (simp add: backoffMs_def)
qed

lemma retry_step_progress:
  assumes "if retryDue t r then retryOutcome t r r' else r' = r"
    and "settled r \<or> (k \<le> attemptCount r \<and> lastAttemptAt r \<le> t0)" "1 \<le> k" "t0 + 480000 \<le> t"
  shows "settled r' \<or> (k + 1 \<le> attemptCount r' \<and> lastAttemptAt r' \<le> t)"
proof (cases "settled r")
  case True
  then have "\<not> retryDue t r" by (auto simp: settled_def retryDue_def)
  with assms(1) True show ?thesis by simp
next
  case False
  with assms backoff_le [of r] have "retryDue t r" by (auto simp: settled_def retryDue_def)
  with assms False show ?thesis by (auto simp: retryOutcome_def retryOk_def retryFail_def settled_def)
qed

lemma retryRuns_progress:
  assumes "distinct (map fe_id (failedEvents (db w)))" "spaced t0 es" "1 \<le> k"
    and "\<forall>r \<in> set (failedEvents (db w)). settled r \<or> (k \<le> attemptCount r \<and> lastAttemptAt r \<le> t0)"
  shows "\<forall>r \<in> set (failedEvents (db (retryRuns es w))). settled r \<or> k + int (length es) \<le> attemptCount r"
  using assms
proof (induction es arbitrary: w t0 k)
  case Nil
  then show ?case by (auto simp: retryRuns_def)
next
  case (Cons e es)
  let ?w1 = "snd (retryFailedEvents e True w)"
  obtain g where g: "failedEvents (db ?w1) = map g (failedEvents (db w))"
      "\<forall>r \<in> set (failedEvents (db w)). if retryDue (now e) r then retryOutcome (now e) r (g r) else g r = r"
    using retry_run [OF Cons.prems(1)] by blast
  have "fe_id (g r) = fe_id r" if "r \<in> set (failedEvents (db w))" for r
    using g(2) that retryOutcome_id by (metis (full_types))
  then have "map fe_id (failedEvents (db ?w1)) = map fe_id (failedEvents (db w))" by (simp add: g(1))
  moreover have "t0 + 480000 \<le> now e" "spaced (now e) es"
    using Cons.prems(2) unfolding spaced_def by (force, force split: if_splits)
  moreover from this(1) g(2) have "\<forall>r \<in> set (failedEvents (db ?w1)). settled r \<or> (k + 1 \<le> attemptCount r \<and> lastAttemptAt r \<le> now e)"
    using Cons.prems(3,4) retry_step_progress by (fastforce simp: g(1))
  ultimately show ?case
    using Cons.IH [of ?w1 "now e" "k + 1"] Cons.prems(1,3) by (simp add: retryRuns_def algebra_simps)
qed

subsection \<open>Replicas and their lock\<close>

text \<open>
  Several replicas share the world. \<open>granted n\<close> is the instant at which replica \<open>n\<close> last acquired or
  renewed the leader lock, as long as it considers itself the leader.
\<close>

record cluster =
  shared :: world
  replicas :: "string \<Rightarrow> poller"
  granted :: "string \<rightharpoonup> time"
  clock :: time

definition nodeRun :: "string \<Rightarrow> 'a nodeAct \<Rightarrow> cluster \<Rightarrow> cluster" where
  "nodeRun n m c = (case snd (m (replicas c n, shared c)) of (p, w) \<Rightarrow>
     c\<lparr>shared := w, replicas := (replicas c)(n := p)\<rparr>)"

definition noteLease :: "string \<Rightarrow> time \<Rightarrow> cluster \<Rightarrow> cluster" where
  "noteLease n t c = c\<lparr>clock := t,
     granted := (granted c)(n := if isLeader (replicas c n) then Some t else None)\<rparr>"

text \<open>
  The steps: the timer of a replica, its start and its shutdown, an event on an open stream, the
  retry job, a rewind, and anything another part of the program does that leaves the lock's key alone.
\<close>

inductive cstep :: "cluster \<Rightarrow> cluster \<Rightarrow> bool" where
  timer: "clock c \<le> now e \<Longrightarrow> cstep c (noteLease n (now e) (nodeRun n (tryBecomeLeader e) c))"
| start: "clock c \<le> now e \<Longrightarrow> \<not> isLeader (replicas c n) \<Longrightarrow>
    cstep c (noteLease n (now e) (nodeRun n (onModuleInit e False again) c))"
| shutdown: "clock c \<le> now e \<Longrightarrow> cstep c (noteLease n (now e) (nodeRun n (onModuleDestroy e) c))"
| event: "clock c \<le> now e \<Longrightarrow> stream (replicas c n) \<noteq> None \<Longrightarrow>
    cstep c ((nodeRun n (onEvent e g ev) c)\<lparr>clock := now e\<rparr>)"
| retry: "clock c \<le> now e \<Longrightarrow>
    cstep c ((nodeRun n (onWorld (retryFailedEvents e (isLeader (replicas c n)))) c)\<lparr>clock := now e\<rparr>)"
| rewind: "clock c \<le> now e \<Longrightarrow> cstep c ((nodeRun n (rewindCursor e l aid adr reason) c)\<lparr>clock := now e\<rparr>)"
| other: "clock c \<le> t \<Longrightarrow> redis w POLLER_LOCK_KEY = redis (shared c) POLLER_LOCK_KEY \<Longrightarrow>
    cstep c (c\<lparr>shared := w, clock := t\<rparr>)"

definition freshCluster :: "cluster \<Rightarrow> bool" where
  "freshCluster c \<longleftrightarrow> granted c = Map.empty \<and> (\<forall>n. lockToken (replicas c n) = n \<and> \<not> isLeader (replicas c n))"

inductive reachable :: "cluster \<Rightarrow> bool" where
  initial: "freshCluster c \<Longrightarrow> reachable c"
| step: "reachable c \<Longrightarrow> cstep c c' \<Longrightarrow> reachable c'"

definition leaderInv :: "cluster \<Rightarrow> bool" where
  "leaderInv c \<longleftrightarrow> (\<forall>n. lockToken (replicas c n) = n \<and> (isLeader (replicas c n) \<longleftrightarrow> granted c n \<noteq> None)) \<and>
     leasesOk (lockOwner POLLER_LOCK_KEY) POLLER_LOCK_TTL_MS (clock c) (redis (shared c)) (granted c)"

lemma lockOwner_cong: "r' key = r key \<Longrightarrow> lockOwner key t r' = lockOwner key t r"
  by (simp add: lockOwner_def lookupKey_def)

lemma leases_now: "leaderInv c \<Longrightarrow> clock c \<le> t \<Longrightarrow>
    leasesOk (lockOwner POLLER_LOCK_KEY) POLLER_LOCK_TTL_MS t (redis (shared c)) (granted c)"
  unfolding leaderInv_def by (metis redisLock.leases_time)

text \<open>A step that does not touch the lock, the token and the belief of the replica keeps the invariant.\<close>

lemma leaderInv_frame:
  assumes "leaderInv c" "clock c \<le> t" "redis w POLLER_LOCK_KEY = redis (shared c) POLLER_LOCK_KEY"
    and "lockToken p = lockToken (replicas c n)" "isLeader p = isLeader (replicas c n)"
  shows "leaderInv (c\<lparr>shared := w, replicas := (replicas c)(n := p), clock := t\<rparr>)"
proof -
  have "leasesOk (lockOwner POLLER_LOCK_KEY) POLLER_LOCK_TTL_MS t (redis w) (granted c)"
    using leases_now [OF assms(1,2)] lockOwner_cong [of "redis w" POLLER_LOCK_KEY "redis (shared c)"] assms(3)
    by (simp add: leasesOk_def)
  with assms show ?thesis by (auto simp: leaderInv_def)
qed

lemma leaderInv_update:
  assumes "leaderInv c" "lockToken p = n"
    and "leasesOk (lockOwner POLLER_LOCK_KEY) POLLER_LOCK_TTL_MS t (redis w)
      ((granted c)(n := if isLeader p then Some t else None))"
  shows "leaderInv (noteLease n t (c\<lparr>shared := w, replicas := (replicas c)(n := p)\<rparr>))"
  using assms by (auto simp: leaderInv_def noteLease_def)

lemma leaderInv_timer:
  assumes inv: "leaderInv c" and t: "clock c \<le> now e"
  shows "leaderInv (noteLease n (now e) (nodeRun n (tryBecomeLeader e) c))"
proof -
  let ?p = "replicas c n" and ?w = "shared c"
  obtain p w where run: "tryBecomeLeader e (?p, ?w) = (Inr (), (p, w))" and tok: "lockToken p = n"
    and lease: "leasesOk (lockOwner POLLER_LOCK_KEY) POLLER_LOCK_TTL_MS (now e) (redis w)
      ((granted c)(n := if isLeader p then Some (now e) else None))"
  proof (cases "isLeader ?p")
    case True
    obtain b r where rn: "renewLock (now e) POLLER_LOCK_KEY n POLLER_LOCK_TTL_MS (redis ?w) = (b, r)" by fastforce
    have tok: "lockToken ?p = n" using inv by (simp add: leaderInv_def)
    show thesis
    proof (cases b)
      case True
      then show thesis
        using that [of "?p" "?w\<lparr>redis := r\<rparr>"] rn tok \<open>isLeader ?p\<close> redisLock.leases_renew [OF leases_now [OF inv t]]
        by (simp add: tryBecomeLeader_def)
    next
      case False
      with rn have "r = redis ?w" by (simp add: renewLock_def split: if_splits)
      with False show thesis
        using that [of "?p\<lparr>stream := None, isLeader := False\<rparr>" "?w\<lparr>redis := r\<rparr>"] rn tok \<open>isLeader ?p\<close>
          redisLock.leases_drop [OF leases_now [OF inv t]]
        by (simp add: tryBecomeLeader_def stopStreamSubscription_def)
    qed
  next
    case False
    obtain b r where aq: "acquireLock (now e) POLLER_LOCK_KEY n POLLER_LOCK_TTL_MS (redis ?w) = (b, r)" by fastforce
    have tok: "lockToken ?p = n" using inv by (simp add: leaderInv_def)
    show thesis
    proof (cases b)
      case True
      then show thesis
        using that [of "?p\<lparr>isLeader := True, stream := Some (lastProcessedLedger ?p)\<rparr>" "?w\<lparr>redis := r\<rparr>"] aq tok False
          redisLock.leases_acquire [OF leases_now [OF inv t]]
        by (simp add: tryBecomeLeader_def startStreamSubscription_def)
    next
      case b: False
      with aq have "r = redis ?w" by (simp add: acquireLock_def split: if_splits)
      with b show thesis
        using that [of "?p" "?w\<lparr>redis := r\<rparr>"] aq tok False redisLock.leases_drop [OF leases_now [OF inv t]]
        by (simp add: tryBecomeLeader_def)
    qed
  qed
  show ?thesis using leaderInv_update [OF inv tok lease] run by (simp add: nodeRun_def)
qed

lemma total_onWorld [total_intros]: "neverFails m \<Longrightarrow> neverFails (onWorld m)"
  unfolding neverFails_def by (metis fst_conv run_onWorld surj_pair)

lemma total_onPoller [total_intros]: "neverFails (onPoller f)"
  by (simp add: neverFails_def)

lemma total_lockCall [total_intros]: "neverFails (lockCall f)"
  by (simp add: neverFails_def)

lemma total_tryBecomeLeader [total_intros]: "neverFails (tryBecomeLeader e)"
  unfolding tryBecomeLeader_def stopStreamSubscription_def startStreamSubscription_def by (intro total_intros)

lemma leaderInv_cong:
  assumes "\<And>m. lockToken (replicas c' m) = lockToken (replicas c m)" "\<And>m. isLeader (replicas c' m) = isLeader (replicas c m)"
    and "redis (shared c') = redis (shared c)" "granted c' = granted c" "clock c' = clock c"
  shows "leaderInv c = leaderInv c'"
  by (simp add: leaderInv_def assms)

lemma leaderInv_flag:
  "leaderInv (noteLease n t c) \<Longrightarrow> leaderInv (noteLease n t (nodeRun n (onPoller (leadershipTimer_update f)) c))"
  by (erule leaderInv_cong [THEN iffD1, rotated -1]) (simp_all add: noteLease_def nodeRun_def)

lemma leaderInv_start:
  assumes inv: "leaderInv c" and t: "clock c \<le> now e"
  shows "leaderInv (noteLease n (now e) (nodeRun n (onModuleInit e False again) c))"
proof -
  let ?p = "replicas c n" and ?w = "shared c"
  obtain q v where i: "initCursor e again (?p, ?w) = (Inr (), (q, v))" "lockToken q = lockToken ?p"
      "isLeader q = isLeader ?p" "redis v = redis ?w"
    by (cases "eventCursor (db ?w)"; cases "latestLedger e") (auto simp: initCursor_def)
  let ?c1 = "nodeRun n (initCursor e again) c"
  have c1: "?c1 = c\<lparr>shared := v, replicas := (replicas c)(n := q)\<rparr>" by (simp add: nodeRun_def i)
  have "leaderInv (c\<lparr>shared := v, replicas := (replicas c)(n := q), clock := clock c\<rparr>)"
    by (rule leaderInv_frame [OF inv]) (simp_all add: i)
  then have inv1: "leaderInv ?c1" by (simp add: c1)
  obtain p w where b: "tryBecomeLeader e (q, v) = (Inr (), (p, w))"
    using total_tryBecomeLeader [of e] by (force simp: neverFails_def)
  have "nodeRun n (onModuleInit e False again) c =
      nodeRun n (onPoller (\<lambda>p. p\<lparr>leadershipTimer := True\<rparr>)) (nodeRun n (tryBecomeLeader e) ?c1)"
    by (simp add: nodeRun_def onModuleInit_def i(1) b)
  then show ?thesis
    using leaderInv_flag [OF leaderInv_timer [OF inv1]] t by (simp add: c1)
qed

lemma leaderInv_shutdown:
  assumes inv: "leaderInv c" and t: "clock c \<le> now e"
  shows "leaderInv (noteLease n (now e) (nodeRun n (onModuleDestroy e) c))"
proof -
  let ?p = "replicas c n" and ?w = "shared c"
  have tok: "lockToken ?p = n" using inv by (simp add: leaderInv_def)
  have rel: "leasesOk (lockOwner POLLER_LOCK_KEY) POLLER_LOCK_TTL_MS (now e)
      (releaseLock (now e) POLLER_LOCK_KEY n (redis ?w)) ((granted c)(n := None))"
    by (rule redisLock.leases_release [OF leases_now [OF inv t]])
  have drop: "leasesOk (lockOwner POLLER_LOCK_KEY) POLLER_LOCK_TTL_MS (now e) (redis ?w) ((granted c)(n := None))"
    by (rule redisLock.leases_drop [OF leases_now [OF inv t]])
  show ?thesis
  proof (cases "isLeader ?p")
    case True
    have "nodeRun n (onModuleDestroy e) c = c\<lparr>shared := ?w\<lparr>redis := releaseLock (now e) POLLER_LOCK_KEY n (redis ?w)\<rparr>,
        replicas := (replicas c)(n := ?p\<lparr>leadershipTimer := False, stream := None, isLeader := False\<rparr>)\<rparr>"
      using True tok by (simp add: nodeRun_def onModuleDestroy_def stepDownAsLeader_def stopStreamSubscription_def)
    then show ?thesis using rel tok by (simp add: leaderInv_update [OF inv])
  next
    case False
    have "nodeRun n (onModuleDestroy e) c = c\<lparr>shared := ?w,
        replicas := (replicas c)(n := ?p\<lparr>leadershipTimer := False, stream := None\<rparr>)\<rparr>"
      using False by (simp add: nodeRun_def onModuleDestroy_def stepDownAsLeader_def stopStreamSubscription_def)
    then show ?thesis using drop tok False leaderInv_update [OF inv, of "?p\<lparr>leadershipTimer := False, stream := None\<rparr>" n "now e" ?w]
      by simp
  qed
qed

lemma leaves_redis_retry: "leaves redis (forEach todo (retryOne e))"
proof -
  have h: "leaves redis m" if "leaves rest m" for m :: "unit act"
    using rest_eqD [OF leavesD [OF that]] by (simp add: leaves_def)
  have u: "leaves redis (updateFailed fid f)" for fid f
    unfolding updateFailed_def by (intro leaves_intros) (simp add: leaves_def)
  show ?thesis unfolding retryOne_def Let_def
    by (intro leaves_forEach leaves_attempt leaves_andThen leaves_whenA u) (intro h leaves_intros)+
qed

lemma run_moveCursor:
  "\<exists>reply w'. moveCursor e l tip old aid adr reason (p, w) = (Inr reply, (p\<lparr>lastProcessedLedger := l, stream := Some l\<rparr>, w')) \<and>
    redis w' = redis w \<and> eventCursor (db w') = Some l \<and> rr_newLedger reply = l"
  by (simp add: moveCursor_def startStreamSubscription_def)

text \<open>A rewind by a leader leaves the lock alone; a follower that gets the lock gives it back.\<close>

lemma rewind_lock:
  "\<exists>r q v. rewindCursor e l aid adr reason (p, w) = (r, (q, v)) \<and> lockToken q = lockToken p \<and> isLeader q = isLeader p \<and>
    (redis v = redis w \<or> (\<not> isLeader p \<and> (\<exists>k. acquireLock (now e) POLLER_LOCK_KEY (lockToken p) POLLER_LOCK_TTL_MS (redis w) = (True, k) \<and>
       redis v = releaseLock (now e) POLLER_LOCK_KEY (lockToken p) k)))"
proof (cases "\<exists>tip old. latestLedger e = Inr tip \<and> l \<le> tip \<and> oldestLedger e = Inr old \<and> old \<le> l")
  case False
  then show ?thesis by (cases "latestLedger e"; cases "oldestLedger e") (auto simp: rewindCursor_def)
next
  case True
  then obtain tip old where ok: "latestLedger e = Inr tip" "l \<le> tip" "oldestLedger e = Inr old" "old \<le> l" by blast
  show ?thesis
  proof (cases "isLeader p")
    case True
    then show ?thesis using run_moveCursor [of e l tip old aid adr reason p w] ok by (auto simp: rewindCursor_def)
  next
    case False
    obtain b k where aq: "acquireLock (now e) POLLER_LOCK_KEY (lockToken p) POLLER_LOCK_TTL_MS (redis w) = (b, k)" by fastforce
    show ?thesis
    proof (cases b)
      case True
      obtain reply w' where "moveCursor e l tip old aid adr reason (p\<lparr>isLeader := True\<rparr>, w\<lparr>redis := k\<rparr>) =
          (Inr reply, (p\<lparr>isLeader := True, lastProcessedLedger := l, stream := Some l\<rparr>, w'))" "redis w' = k"
        using run_moveCursor [of e l tip old aid adr reason "p\<lparr>isLeader := True\<rparr>" "w\<lparr>redis := k\<rparr>"] by auto
      then show ?thesis using aq True False ok by (auto simp: rewindCursor_def)
    next
      case b: False
      with aq have "k = redis w" by (simp add: acquireLock_def split: if_splits)
      then show ?thesis using aq b False ok by (simp add: rewindCursor_def)
    qed
  qed
qed

lemma leaderInv_rewind:
  assumes inv: "leaderInv c" and t: "clock c \<le> now e"
  shows "leaderInv ((nodeRun n (rewindCursor e l aid adr reason) c)\<lparr>clock := now e\<rparr>)"
proof -
  let ?p = "replicas c n" and ?w = "shared c"
  obtain r q v where run: "rewindCursor e l aid adr reason (?p, ?w) = (r, (q, v))"
      "lockToken q = lockToken ?p" "isLeader q = isLeader ?p" and lock: "redis v = redis ?w \<or> (\<not> isLeader ?p \<and>
        (\<exists>k. acquireLock (now e) POLLER_LOCK_KEY (lockToken ?p) POLLER_LOCK_TTL_MS (redis ?w) = (True, k) \<and>
          redis v = releaseLock (now e) POLLER_LOCK_KEY (lockToken ?p) k))"
    using rewind_lock by blast
  have tok: "lockToken ?p = n" and g: "isLeader ?p \<longleftrightarrow> granted c n \<noteq> None" using inv by (auto simp: leaderInv_def)
  have "leasesOk (lockOwner POLLER_LOCK_KEY) POLLER_LOCK_TTL_MS (now e) (redis v) (granted c)"
  proof (cases "redis v = redis ?w")
    case True
    then show ?thesis using leases_now [OF inv t] by simp
  next
    case False
    with lock tok obtain k where k: "acquireLock (now e) POLLER_LOCK_KEY n POLLER_LOCK_TTL_MS (redis ?w) = (True, k)"
        "redis v = releaseLock (now e) POLLER_LOCK_KEY n k" "granted c n = None" using g by auto
    have "(granted c)(n \<mapsto> now e, n := None) = granted c" using k(3) by auto
    then show ?thesis
      using redisLock.leases_release [OF redisLock.leases_acquire [OF leases_now [OF inv t] k(1)], of n] k(2) by simp
  qed
  then show ?thesis using inv run by (auto simp: leaderInv_def nodeRun_def)
qed

lemma leaderInv_step: "cstep c c' \<Longrightarrow> leaderInv c \<Longrightarrow> leaderInv c'"
proof (induction rule: cstep.induct)
  case (timer c e n)
  then show ?case by (rule leaderInv_timer [rotated])
next
  case (start c e n again)
  then show ?case by (intro leaderInv_start)
next
  case (shutdown c e n)
  then show ?case by (intro leaderInv_shutdown)
next
  case (event c e n g ev)
  obtain r w1 where run: "processEvent e g ev (shared c) = (r, w1)" by fastforce
  have "redis w1 = redis (shared c)" using leaves_run [OF leaves_queue_processEvent run] by simp
  moreover have "redis (persistCursor k (queued e ev x w1)) = redis w1" "redis (persistCursor k w1) = redis w1" for k x
    by (auto simp: persistCursor_def queued_def saveToDlq_def Let_def split: option.split)
  ultimately show ?case using event run
    by (cases r) (auto simp: nodeRun_def run_onEvent Let_def intro!: leaderInv_frame)
next
  case (retry c e n)
  have "POLLER_LOCK_KEY \<noteq> getJobRedisKey ''failed-events-retry''"
    by (simp add: POLLER_LOCK_KEY_def getJobRedisKey_def)
  then have "redis (snd (retryFailedEvents e b (shared c))) POLLER_LOCK_KEY = redis (shared c) POLLER_LOCK_KEY" for b
    using leavesD [OF leaves_redis_retry] by (simp add: retryFailedEvents_def tracked_redis)
  with retry show ?case
    using leaderInv_frame [of c "now e" "snd (retryFailedEvents e (isLeader (replicas c n)) (shared c))" "replicas c n" n]
    by (simp add: nodeRun_def)
next
  case (rewind c e n l aid adr reason)
  then show ?case by (intro leaderInv_rewind)
next
  case (other c t w)
  then show ?case using leaderInv_frame [of c t w "replicas c undefined" undefined] by simp
qed

lemma reachable_leaderInv: "reachable c \<Longrightarrow> leaderInv c"
proof (induction rule: reachable.induct)
  case (initial c)
  then show ?case by (simp add: freshCluster_def leaderInv_def leasesOk_def)
qed (rule leaderInv_step)

section \<open>Properties of the replicas\<close>

text \<open>C11: there is one leader. In every reachable state of any number of replicas, under any interleaving of
  timers, starts, shutdowns, events, retries, rewinds and requests with a clock that does not go back, two replicas
  that both consider themselves leader and were granted the lock less than its 15 seconds ago are the same.\<close>

theorem leader_exclusive:
  assumes "reachable c" "isLeader (replicas c n)" "isLeader (replicas c m)"
    and "\<forall>k \<in> {n, m}. clock c < the (granted c k) + POLLER_LOCK_TTL_MS"
  shows "n = m"
proof -
  have inv: "leaderInv c" using assms(1) by (rule reachable_leaderInv)
  then obtain a b where "granted c n = Some a" "granted c m = Some b"
    using assms(2,3) unfolding leaderInv_def by blast
  with assms(4) inv show ?thesis
    using redisLock.leases_exclusive [of POLLER_LOCK_KEY POLLER_LOCK_TTL_MS "clock c" "redis (shared c)" "granted c" n a m b]
    by (simp add: leaderInv_def)
qed

definition poller0 :: "string \<Rightarrow> poller" where
  "poller0 n = \<lparr>lockToken = n, isLeader = False, lastProcessedLedger = 1, stream = None, leadershipTimer = False\<rparr>"

definition cluster0 :: cluster where
  "cluster0 = noteLease ''a'' 1000 (nodeRun ''a'' (tryBecomeLeader env0)
     \<lparr>shared = emptyWorld, replicas = poller0, granted = Map.empty, clock = 0\<rparr>)"

theorem leader_exclusive_witness:
  "reachable cluster0 \<and>
    {n. isLeader (replicas cluster0 n) \<and> clock cluster0 < the (granted cluster0 n) + POLLER_LOCK_TTL_MS} = {''a''}"
proof -
  have "freshCluster \<lparr>shared = emptyWorld, replicas = poller0, granted = Map.empty, clock = 0\<rparr>"
    by (simp add: freshCluster_def poller0_def)
  from reachable.initial [OF this] have r: "reachable cluster0"
    unfolding cluster0_def by (rule reachable.step) (use cstep.timer [of _ env0] in \<open>simp add: env0_def\<close>)
  have l: "isLeader (replicas cluster0 ''a'')" "granted cluster0 ''a'' = Some 1000" "clock cluster0 = 1000"
    by (simp_all add: cluster0_def noteLease_def nodeRun_def tryBecomeLeader_def poller0_def acquireLock_def lookupKey_def
        startStreamSubscription_def concrete_defs)
  let ?fresh = "\<lambda>n. clock cluster0 < the (granted cluster0 n) + POLLER_LOCK_TTL_MS"
  have fresh: "?fresh ''a''" by (simp only: l option.sel) (simp add: POLLER_LOCK_TTL_MS_def)
  have "n = ''a''" if "isLeader (replicas cluster0 n)" "?fresh n" for n
    by (rule leader_exclusive [OF r that(1) l(1)]) (simp only: ball_simps fresh that simp_thms)
  with l(1) fresh have "{n. isLeader (replicas cluster0 n) \<and> ?fresh n} = {''a''}" by blast
  with r show ?thesis by blast
qed

text \<open>C18: the dead letter queue drains. When the leader's retry job runs four times with at least the longest
  back-off (eight minutes) before each run and no new failures arrive, every row of the queue ends up resolved or
  has used all its attempts, whatever the handlers do.\<close>

theorem dlq_drains:
  assumes "distinct (map fe_id (failedEvents (db w)))" "length es = 4" "spaced t0 es"
    and "\<forall>r \<in> set (failedEvents (db w)). 1 \<le> attemptCount r \<and> lastAttemptAt r \<le> t0"
  shows "\<forall>r \<in> set (failedEvents (db (retryRuns es w))). resolvedAt r \<noteq> None \<or> attemptCount r \<ge> MAX_ATTEMPTS"
  using retryRuns_progress [OF assms(1,3), of 1] assms(2,4) by (auto simp: settled_def MAX_ATTEMPTS_def)

definition failed0 :: failedEvent where
  "failed0 = \<lparr>fe_id = 7, fe_eventName = ''dispute_raised'', fe_ledger = 3, fe_txHash = ''t'', fe_payload = JStr ''nowhere'',
     fe_error = PrismaP2025, attemptCount = 1, lastAttemptAt = 0, resolvedAt = None\<rparr>"

definition failing0 :: world where
  "failing0 = emptyWorld\<lparr>db := emptyDb\<lparr>failedEvents := [failed0]\<rparr>\<rparr>"

definition runs0 :: "env list" where
  "runs0 = map (\<lambda>k. env0\<lparr>now := k * 480000\<rparr>) [1, 2, 3, 4]"

theorem dlq_drains_witness:
  "filter (\<lambda>r. resolvedAt r = None \<and> attemptCount r < MAX_ATTEMPTS) (failedEvents (db (retryRuns runs0 failing0))) = []"
proof -
  have "\<forall>r \<in> set (failedEvents (db (retryRuns runs0 failing0))). resolvedAt r \<noteq> None \<or> attemptCount r \<ge> MAX_ATTEMPTS"
    by (rule dlq_drains [where ?t0.0 = 0])
      (auto simp: failing0_def failed0_def runs0_def concrete_defs spaced_def less_Suc_eq numeral_eq_Suc)
  then show ?thesis by (simp add: filter_empty_conv not_less)
qed

definition lostEvent :: rawEvent where
  "lostEvent = \<lparr>ev_topics = [''shipment_cancelled''], ev_value = JsonValue (JStr ''nowhere''), ev_ledger = 9, ev_txHash = Some ''t9''\<rparr>"


section \<open>Replays\<close>

lemma confirmed_after_mark:
  assumes "markConfirmed e sid i paid w = (Inr m, w1)"
  shows "alreadyConfirmed (findMilestone sid i w1)"
proof -
  from assms obtain m0 where m0: "findMilestone sid i w = Some m0"
    and w1: "w1 = setMilestones (updateWhere (\<lambda>r. mKey r = (sid, i)) (\<lambda>r. (confirmRow e paid r)\<lparr>m_updatedAt := now e\<rparr>)) w"
    by (auto simp: markConfirmed_def success_iffs run_updateMilestone split: option.splits if_splits)
  then show ?thesis
    using findMilestone_key [OF m0]
    by (simp add: findMilestone_def setMilestones_def find_updateWhere confirmRow_def alreadyConfirmed_def)
qed


definition confirmPayload :: json where
  "confirmPayload = JArr [JStr ''S'', JNum 0, JNum 500]"

definition submitted0 :: world where
  "submitted0 = emptyWorld\<lparr>db := emptyDb\<lparr>shipments := [shipment0 ''S''], milestones := [milestone0 1 ''S'' 0 100 PROOF_SUBMITTED]\<rparr>\<rparr>"


section \<open>Limits of the listener\<close>

text \<open>
  A page ends after 100 events, possibly in the middle of a ledger, but both positions move behind the
  ledger of the last event: what the page cut off is below every later start.
\<close>

lemma pollOnce_moves_past_page:
  assumes "stream p = Some l" "getEvents l = Inr evs" "ev \<in> set evs"
  shows "\<exists>p' w' l'. pollOnce e g getEvents (p, w) = (Inr (), (p', w')) \<and> stream p' = Some l' \<and> ev_ledger ev < l' \<and>
    ev_ledger ev < lastProcessedLedger p'"
proof -
  let ?body = "\<lambda>ev. andThen (onEvent e g ev) (\<lambda>_.
      onPoller (\<lambda>p. p\<lparr>stream := map_option (\<lambda>c. max c (ev_ledger ev + 1)) (stream p)\<rparr>))"
  have step: "\<exists>p' w'. ?body x (q, v) = (Inr (), (p', w')) \<and> stream p' = map_option (\<lambda>c. max c (ev_ledger x + 1)) (stream q) \<and>
      lastProcessedLedger p' = max (lastProcessedLedger q) (ev_ledger x + 1)" for x q v
    by (simp add: run_onEvent Let_def)
  have "\<exists>p' w' l'. forEach xs ?body (q, v) = (Inr (), (p', w')) \<and> stream p' = Some l' \<and> k \<le> l' \<and>
      lastProcessedLedger q \<le> lastProcessedLedger p' \<and>
      (\<forall>x \<in> set xs. ev_ledger x < l' \<and> ev_ledger x < lastProcessedLedger p')" if "stream q = Some k" for xs q v k
    using that
  proof (induction xs arbitrary: q v k)
    case (Cons x xs)
    obtain q1 v1 where 1: "?body x (q, v) = (Inr (), (q1, v1))" "stream q1 = Some (max k (ev_ledger x + 1))"
        "lastProcessedLedger q1 = max (lastProcessedLedger q) (ev_ledger x + 1)"
      using step [of x q v] Cons.prems by auto
    from Cons.IH [OF 1(2), of v1] obtain p' w' l' where 2: "forEach xs ?body (q1, v1) = (Inr (), (p', w'))" "stream p' = Some l'"
        "max k (ev_ledger x + 1) \<le> l'" "lastProcessedLedger q1 \<le> lastProcessedLedger p'"
        "\<forall>x \<in> set xs. ev_ledger x < l' \<and> ev_ledger x < lastProcessedLedger p'" by blast
    show ?case by (intro exI [of _ p'] exI [of _ w'] exI [of _ l']) (use 1 2 in auto)
  qed simp
  from this [OF assms(1), of evs w] assms show ?thesis
    by (auto simp: pollOnce_def fetchContractEvents_def)
qed

text \<open>
  A rewind served by a follower gives the lock back but leaves the stream open: it goes on consuming
  events although the lock is free for another replica.
\<close>

lemma rewind_on_follower_keeps_stream:
  assumes "\<not> isLeader p" "lookupKey (now e) (redis w) POLLER_LOCK_KEY = None"
    and "latestLedger e = Inr tip" "oldestLedger e = Inr old" "old \<le> l" "l \<le> tip"
  shows "\<exists>reply p' w'. rewindCursor e l aid adr reason (p, w) = (Inr reply, (p', w')) \<and> \<not> isLeader p' \<and>
    stream p' = Some l \<and> lockOwner POLLER_LOCK_KEY (now e) (redis w') = None"
proof -
  let ?r = "(redis w)(POLLER_LOCK_KEY \<mapsto> \<lparr>content = Text (lockToken p), expiresAt = Some (now e + POLLER_LOCK_TTL_MS)\<rparr>)"
  obtain reply w' where "moveCursor e l tip old aid adr reason (p\<lparr>isLeader := True\<rparr>, w\<lparr>redis := ?r\<rparr>) =
      (Inr reply, (p\<lparr>isLeader := True, lastProcessedLedger := l, stream := Some l\<rparr>, w'))" "redis w' = ?r"
    using run_moveCursor [of e l tip old aid adr reason "p\<lparr>isLeader := True\<rparr>" "w\<lparr>redis := ?r\<rparr>"] by auto
  then show ?thesis using assms
    by (simp add: rewindCursor_def acquireLock_def releaseLock_def lockOwner_def liveEntry_def POLLER_LOCK_TTL_MS_def)
qed

text \<open>
  The queue identifies events by transaction and name: a second failing event of the same transaction and
  name only counts up the row of the first, and a row that was resolved stays resolved.
\<close>

lemma dlq_collision_drops_payload:
  assumes "r \<in> set (failedEvents (db w))" "fe_txHash r = orEmpty (ev_txHash ev)" "fe_eventName r = extractEventName ev"
  shows "map (\<lambda>r. (fe_id r, fe_payload r, resolvedAt r)) (failedEvents (db (queued e ev x w))) =
    map (\<lambda>r. (fe_id r, fe_payload r, resolvedAt r)) (failedEvents (db w))"
  using assms by (auto simp: failedEvents_queued Let_def map_updateWhere)

end
