(* ===== verification/Backfill.thy ===== *)
theory Backfill
  imports Events
begin

text \<open>
  \<open>BackfillService\<close> (\<open>src/src/modules/events/backfill.service.ts\<close>): an administrator replays a range of ledgers
  through the handlers of the listener. The scanning loop need not end, so it is a partial function whose
  value is \<open>None\<close> when it does not. The answers of the node are a parameter indexed by the round of the loop; the
  timer that renews the lock meanwhile is not part of the sequential job.
\<close>

section \<open>Starting\<close>

definition BACKFILL_LOCK_KEY :: string where
  "BACKFILL_LOCK_KEY = ''chainsettle:event-backfill:lock''"

definition BACKFILL_LOCK_TTL_MS :: int where
  "BACKFILL_LOCK_TTL_MS = 30000"

definition BATCH_SIZE :: int where
  "BATCH_SIZE = 1000"

definition MAX_BACKFILL_RANGE :: int where
  "MAX_BACKFILL_RANGE = 100000"

definition startBackfill :: "env \<Rightarrow> int \<Rightarrow> int \<Rightarrow> uuid option \<Rightarrow> address option \<Rightarrow> backfillRun act" where
  "startBackfill e fromLedger toLedger actorId actorAddress =
     require (fromLedger \<le> toLedger) BadRequestException (
     require (toLedger - fromLedger \<le> MAX_BACKFILL_RANGE) BadRequestException (
     liftResult (latestLedger e) (\<lambda>tip.
     liftResult (oldestLedger e) (\<lambda>oldest.
     require (oldest \<le> fromLedger) BadRequestException (
     require (toLedger \<le> tip) BadRequestException (
     andThen (lockCall (acquireLock (now e) BACKFILL_LOCK_KEY (randomUuid e) BACKFILL_LOCK_TTL_MS)) (\<lambda>acquired.
     require acquired ConflictException (
     andThen freshId (\<lambda>i.
     let run = \<lparr>bf_id = i, bf_status = BF_PENDING, bf_fromLedger = fromLedger, bf_toLedger = toLedger, bf_processedCount = 0,
                bf_errorCount = 0, bf_currentLedger = None, bf_errorSummary = [], bf_startedAt = now e,
                bf_completedAt = None, bf_initiatedBy = actorAddress\<rparr> in
     andThen (modifyDb (\<lambda>d. d\<lparr>backfillRuns := backfillRuns d @ [run]\<rparr>)) (\<lambda>_.
     andThen (auditRecord \<lparr>au_actorId = actorId, au_actorAddress = (case actorAddress of Some a \<Rightarrow> a | None \<Rightarrow> ''SYSTEM''),
        au_action = ''events.backfill.start'', au_resourceType = ''BackfillRun'', au_resourceId = ByUuid i,
        au_metadata = JObj [(''fromLedger'', JNum fromLedger), (''toLedger'', JNum toLedger),
          (''span'', JNum (toLedger - fromLedger)), (''chainTip'', JNum tip), (''oldestAvailable'', JNum oldest)]\<rparr>) (\<lambda>_.
     ret run)))))))))))"

section \<open>The job\<close>

record progress =
  processedCount :: nat
  errorCount :: nat
  errorSummary :: "backfillError list"
  currentLedger :: int

definition updateRun :: "uuid \<Rightarrow> (backfillRun \<Rightarrow> backfillRun) \<Rightarrow> world \<Rightarrow> world" where
  "updateRun rid f w = w\<lparr>db := (db w)\<lparr>backfillRuns := updateWhere (\<lambda>r. bf_id r = rid) f (backfillRuns (db w))\<rparr>\<rparr>"

text \<open>One event: a throwing handler is counted and summarised.\<close>

definition backfillEvent :: "env \<Rightarrow> rawEvent \<Rightarrow> progress \<times> world \<Rightarrow> progress \<times> world" where
  "backfillEvent e ev = (\<lambda>(st, w). case processEventForBackfill e ev w of
      (Inr _, w') \<Rightarrow> (st\<lparr>processedCount := Suc (processedCount st)\<rparr>, w')
    | (Inl x, w') \<Rightarrow> (st\<lparr>errorCount := Suc (errorCount st), errorSummary := errorSummary st @
        [\<lparr>be_ledger = ev_ledger ev, be_txHash = orEmpty (ev_txHash ev), be_eventName = extractEventName ev, be_error = x\<rparr>]\<rparr>, w'))"

definition batchEnd :: "int \<Rightarrow> int \<Rightarrow> int" where
  "batchEnd l toLedger = min (l + BATCH_SIZE - 1) toLedger"

definition batchEvents :: "int \<Rightarrow> int \<Rightarrow> rawEvent list \<Rightarrow> rawEvent list" where
  "batchEvents l toLedger evs = filter (\<lambda>ev. l \<le> ev_ledger ev \<and> ev_ledger ev \<le> batchEnd l toLedger) evs"

text \<open>Where the next round starts: a full page is read again from its last ledger in the window.\<close>

definition nextLedger :: "int \<Rightarrow> int \<Rightarrow> rawEvent list \<Rightarrow> int" where
  "nextLedger l toLedger evs =
     (let batch = batchEvents l toLedger evs; lastEventLedger = Max (set (map ev_ledger batch)) in
      if length evs \<ge> 100 \<and> batch \<noteq> [] \<and> lastEventLedger < batchEnd l toLedger
      then lastEventLedger else batchEnd l toLedger + 1)"

definition lastN :: "nat \<Rightarrow> 'a list \<Rightarrow> 'a list" where
  "lastN n xs = drop (length xs - n) xs"

definition backfillRound :: "env \<Rightarrow> (int \<Rightarrow> rpcError + rawEvent list) \<Rightarrow> uuid \<Rightarrow> int \<Rightarrow> progress \<times> world \<Rightarrow> progress \<times> world" where
  "backfillRound e getEvents rid toLedger = (\<lambda>(st, w).
     let l = currentLedger st;
         evs = fetchContractEvents getEvents l;
         (st1, w1) = fold (backfillEvent e) (batchEvents l toLedger evs) (st, w);
         st2 = st1\<lparr>currentLedger := nextLedger l toLedger evs\<rparr>
     in (st2, updateRun rid (\<lambda>r. r\<lparr>bf_processedCount := processedCount st2, bf_errorCount := errorCount st2,
          bf_currentLedger := Some (min (currentLedger st2) toLedger), bf_errorSummary := lastN 500 (errorSummary st2)\<rparr>) w1))"

partial_function (option) backfillLoop :: "env \<Rightarrow> (nat \<Rightarrow> int \<Rightarrow> rpcError + rawEvent list) \<Rightarrow> uuid \<Rightarrow> int \<Rightarrow> nat \<Rightarrow> progress \<times> world
    \<Rightarrow> (progress \<times> world) option" where
  "backfillLoop e rpc rid toLedger n s =
     (if currentLedger (fst s) \<le> toLedger
      then backfillLoop e rpc rid toLedger (Suc n) (backfillRound e (rpc n) rid toLedger s)
      else Some s)"

text \<open>\<open>runBackfillJob\<close>. The model of the database does not fail, so the branch for fatal errors is not reached.\<close>

definition runBackfillJob :: "env \<Rightarrow> (nat \<Rightarrow> int \<Rightarrow> rpcError + rawEvent list) \<Rightarrow> uuid \<Rightarrow> int \<Rightarrow> int \<Rightarrow> string \<Rightarrow> uuid option
    \<Rightarrow> address option \<Rightarrow> world \<Rightarrow> world option" where
  "runBackfillJob e rpc rid fromLedger toLedger token actorId actorAddress w0 =
     (let w1 = updateRun rid (\<lambda>r. r\<lparr>bf_status := BF_RUNNING, bf_currentLedger := Some fromLedger\<rparr>) w0;
          st0 = \<lparr>processedCount = 0, errorCount = 0, errorSummary = [], currentLedger = fromLedger\<rparr>
      in case backfillLoop e rpc rid toLedger 0 (st0, w1) of
           None \<Rightarrow> None
         | Some (st, w2) \<Rightarrow>
             let w3 = updateRun rid (\<lambda>r. r\<lparr>bf_status := BF_COMPLETED, bf_completedAt := Some (now e),
                   bf_processedCount := processedCount st, bf_errorCount := errorCount st,
                   bf_currentLedger := Some toLedger, bf_errorSummary := lastN 500 (errorSummary st)\<rparr>) w2;
                 w4 = snd (auditRecord \<lparr>au_actorId = actorId, au_actorAddress = (case actorAddress of Some a \<Rightarrow> a | None \<Rightarrow> ''SYSTEM''),
                   au_action = ''events.backfill.complete'', au_resourceType = ''BackfillRun'', au_resourceId = ByUuid rid,
                   au_metadata = JObj [(''fromLedger'', JNum fromLedger), (''toLedger'', JNum toLedger),
                     (''processedCount'', JNum (int (processedCount st))), (''errorCount'', JNum (int (errorCount st)))]\<rparr> w3)
             in Some (w4\<lparr>redis := releaseLock (now e) BACKFILL_LOCK_KEY token (redis w4)\<rparr>))"

text \<open>Progress as reported: rounding is \<open>Math.round\<close> of a non-negative quotient.\<close>

definition progressPct :: "backfillRun \<Rightarrow> int" where
  "progressPct run =
     (let total = bf_toLedger run - bf_fromLedger run + 1;
          done = (case bf_currentLedger run of None \<Rightarrow> 0 | Some c \<Rightarrow> min (c - bf_fromLedger run + 1) total)
      in if total > 0 then (200 * done + total) div (2 * total) else 0)"

definition getBackfillRun :: "uuid \<Rightarrow> (backfillRun \<times> int) act" where
  "getBackfillRun rid =
     andThen (reads (\<lambda>w. find (\<lambda>r. bf_id r = rid) (backfillRuns (db w)))) (\<lambda>found.
     requireSome found NotFoundException (\<lambda>run. ret (run, progressPct run)))"

section \<open>Lemmas\<close>

lemma ledger_backfillEvent [simp]: "currentLedger (fst (backfillEvent e ev s)) = currentLedger (fst s)"
  by (cases s) (auto simp: backfillEvent_def split: prod.splits sum.splits)

lemma ledger_backfillEvents [simp]: "currentLedger (fst (fold (backfillEvent e) evs s)) = currentLedger (fst s)"
  by (induction evs arbitrary: s) simp_all

lemma ledger_backfillRound [simp]:
  "currentLedger (fst (backfillRound e getEvents rid toLedger s)) =
    nextLedger (currentLedger (fst s)) toLedger (fetchContractEvents getEvents (currentLedger (fst s)))"
  by (cases s) (auto simp: backfillRound_def Let_def split: prod.splits)

definition handled :: "progress \<times> world \<Rightarrow> nat" where
  "handled s = processedCount (fst s) + errorCount (fst s)"

lemma handled_backfillEvents: "handled (fold (backfillEvent e) evs s) = handled s + length evs"
proof (induction evs arbitrary: s)
  case (Cons ev evs)
  have "handled (backfillEvent e ev s) = Suc (handled s)"
    by (cases s) (auto simp: backfillEvent_def handled_def split: prod.splits sum.splits)
  with Cons show ?case by simp
qed (simp add: handled_def)

lemma handled_backfillRound:
  "handled (backfillRound e getEvents rid toLedger s) =
    handled s + length (batchEvents (currentLedger (fst s)) toLedger (fetchContractEvents getEvents (currentLedger (fst s))))"
  using handled_backfillEvents [of e "batchEvents (currentLedger (fst s)) toLedger
      (fetchContractEvents getEvents (currentLedger (fst s)))" s]
  by (cases s) (auto simp: backfillRound_def handled_def Let_def split: prod.splits)

text \<open>A page that sends the loop back to where it is.\<close>

definition stuckPage :: "int \<Rightarrow> int \<Rightarrow> rawEvent list \<Rightarrow> bool" where
  "stuckPage l toLedger evs \<longleftrightarrow> length evs \<ge> 100 \<and> l < batchEnd l toLedger \<and>
     batchEvents l toLedger evs \<noteq> [] \<and> list_all (\<lambda>ev. ev_ledger ev = l) (batchEvents l toLedger evs)"

lemma nextLedger_stuck: "stuckPage l toLedger evs \<Longrightarrow> nextLedger l toLedger evs = l"
proof -
  assume stuck: "stuckPage l toLedger evs"
  then have "set (map ev_ledger (batchEvents l toLedger evs)) = {l}"
    by (auto simp: stuckPage_def list_all_iff) (metis image_eqI last_in_set)
  then show ?thesis using stuck by (simp add: nextLedger_def stuckPage_def Let_def)
qed

lemma nextLedger_progress:
  assumes "\<not> stuckPage l toLedger evs" "l \<le> toLedger"
  shows "l < nextLedger l toLedger evs"
proof -
  let ?b = "batchEvents l toLedger evs"
  have "l \<le> batchEnd l toLedger" using assms(2) by (simp add: batchEnd_def BATCH_SIZE_def)
  moreover have "l < Max (set (map ev_ledger ?b))" if page: "length evs \<ge> 100" "?b \<noteq> []" "Max (set (map ev_ledger ?b)) < batchEnd l toLedger"
  proof -
    have ge: "l \<le> ev_ledger ev" if "ev \<in> set ?b" for ev using that by (simp add: batchEvents_def)
    moreover have "l < batchEnd l toLedger"
    proof -
      obtain ev where ev: "ev \<in> set ?b" using page(2) by (cases ?b) auto
      then have "ev_ledger ev \<le> Max (set (map ev_ledger ?b))" by (intro Max_ge) auto
      with ge [OF ev] page(3) show ?thesis by simp
    qed
    ultimately obtain ev where "ev \<in> set ?b" "ev_ledger ev \<noteq> l" "l \<le> ev_ledger ev"
      using assms(1) page by (auto simp: stuckPage_def list_all_iff)
    then show ?thesis by (intro less_le_trans [OF _ Max_ge [of _ "ev_ledger ev"]]) auto
  qed
  ultimately show ?thesis by (auto simp: nextLedger_def Let_def)
qed

lemma backfillLoop_returns:
  assumes "\<And>n l. currentLedger (fst s) \<le> l \<Longrightarrow> l \<le> toLedger \<Longrightarrow> \<not> stuckPage l toLedger (fetchContractEvents (rpc n) l)"
  shows "\<exists>r. backfillLoop e rpc rid toLedger n s = Some r"
  using assms
proof (induction "nat (toLedger + 1 - currentLedger (fst s))" arbitrary: n s rule: less_induct)
  case less
  show ?case
  proof (cases "currentLedger (fst s) \<le> toLedger")
    case False
    then show ?thesis by (simp add: backfillLoop.simps)
  next
    case True
    let ?s' = "backfillRound e (rpc n) rid toLedger s"
    have l: "currentLedger (fst s) < currentLedger (fst ?s')"
      using nextLedger_progress [OF less.prems [OF order_refl True] True, of n] by simp
    then have "\<exists>r. backfillLoop e rpc rid toLedger (Suc n) ?s' = Some r"
      using less.prems True by (intro less.hyps) auto
    then show ?thesis using True by (simp add: backfillLoop.simps [of e rpc rid toLedger n s])
  qed
qed

lemma backfillLoop_diverges:
  assumes "\<And>n. stuckPage l toLedger (fetchContractEvents (rpc n) l)" "currentLedger (fst s) = l"
  shows "backfillLoop e rpc rid toLedger n s = None"
proof -
  have l: "l \<le> toLedger" using assms(1) by (force simp: stuckPage_def batchEnd_def)
  have "currentLedger (fst s) \<noteq> l" if "backfillLoop e rpc rid toLedger n s = Some r" for n s r
  proof (rule backfillLoop.raw_induct [where P = "\<lambda>e rpc' rid to' n s r. rpc' = rpc \<longrightarrow> to' = toLedger \<longrightarrow>
      currentLedger (fst s) \<noteq> l", THEN mp, THEN mp, OF _ that refl refl])
    fix loop e rpc' rid to' n s r
    assume ih: "\<And>e rpc' rid to' n s r. loop e rpc' rid to' n s = Some r \<Longrightarrow> rpc' = rpc \<longrightarrow> to' = toLedger \<longrightarrow> currentLedger (fst s) \<noteq> l"
      and step: "(if currentLedger (fst s) \<le> to' then loop e rpc' rid to' (Suc n) (backfillRound e (rpc' n) rid to' s) else Some s) = Some r"
    show "rpc' = rpc \<longrightarrow> to' = toLedger \<longrightarrow> currentLedger (fst s) \<noteq> l"
    proof (intro impI notI)
      assume *: "rpc' = rpc" "to' = toLedger" "currentLedger (fst s) = l"
      with step l have "loop e rpc' rid to' (Suc n) (backfillRound e (rpc' n) rid to' s) = Some r" by simp
      from ih [OF this] * nextLedger_stuck [OF assms(1)] show False by simp
    qed
  qed
  then show ?thesis using assms(2) by (metis option.exhaust)
qed

text \<open>A short page is complete: the scan moves on by whole windows and meets every event of the range once.\<close>

lemma nextLedger_short: "length evs < 100 \<Longrightarrow> nextLedger l toLedger evs = batchEnd l toLedger + 1"
  by (simp add: nextLedger_def Let_def)

lemma window_split:
  assumes "l \<le> toLedger"
  shows "length (filter (\<lambda>ev. l \<le> ev_ledger ev \<and> ev_ledger ev \<le> toLedger) h) =
    length (batchEvents l toLedger (filter (\<lambda>ev. l \<le> ev_ledger ev) h)) +
    length (filter (\<lambda>ev. batchEnd l toLedger + 1 \<le> ev_ledger ev \<and> ev_ledger ev \<le> toLedger) h)"
proof -
  have "l \<le> batchEnd l toLedger" "batchEnd l toLedger \<le> toLedger"
    using assms by (simp_all add: batchEnd_def BATCH_SIZE_def)
  then show ?thesis by (induction h) (auto simp: batchEvents_def)
qed

lemma backfillLoop_counts:
  assumes "length h < 100" "\<And>n l. fetchContractEvents (rpc n) l = filter (\<lambda>ev. l \<le> ev_ledger ev) h"
    and "backfillLoop e rpc rid toLedger n s = Some r"
  shows "handled r = handled s + length (filter (\<lambda>ev. currentLedger (fst s) \<le> ev_ledger ev \<and> ev_ledger ev \<le> toLedger) h)"
  using assms
proof (induction "nat (toLedger + 1 - currentLedger (fst s))" arbitrary: n s rule: less_induct)
  case less
  let ?l = "currentLedger (fst s)"
  show ?case
  proof (cases "?l \<le> toLedger")
    case False
    then have "filter (\<lambda>ev. ?l \<le> ev_ledger ev \<and> ev_ledger ev \<le> toLedger) h = []" by (auto simp: filter_empty_conv)
    with False less.prems(3) show ?thesis by (simp add: backfillLoop.simps)
  next
    case True
    let ?s' = "backfillRound e (rpc n) rid toLedger s"
    have len: "length (filter (\<lambda>ev. ?l \<le> ev_ledger ev) h) < 100"
      using less.prems(1) length_filter_le [of "\<lambda>ev. ?l \<le> ev_ledger ev" h] by linarith
    then have l': "currentLedger (fst ?s') = batchEnd ?l toLedger + 1"
      by (simp add: less.prems(2) nextLedger_short)
    then have "nat (toLedger + 1 - currentLedger (fst ?s')) < nat (toLedger + 1 - ?l)"
      using True by (simp add: batchEnd_def BATCH_SIZE_def)
    moreover have "backfillLoop e rpc rid toLedger (Suc n) ?s' = Some r"
      using less.prems(3) True by (simp add: backfillLoop.simps [of e rpc rid toLedger n s])
    ultimately have "handled r = handled ?s' + length (filter (\<lambda>ev. currentLedger (fst ?s') \<le> ev_ledger ev \<and> ev_ledger ev \<le> toLedger) h)"
      using less.hyps [of ?s' "Suc n"] less.prems(1,2) by simp
    then show ?thesis
      using window_split [OF True, of h] by (simp add: nextLedger_short [OF len] handled_backfillRound less.prems(2))
  qed
qed

lemma runBackfillJob_of_loop:
  assumes "\<And>s. currentLedger (fst s) = fromLedger \<Longrightarrow> handled s = 0 \<Longrightarrow>
      \<exists>st w. backfillLoop e rpc rid toLedger 0 s = Some (st, w) \<and> Q (processedCount st) (errorCount st)"
  shows "\<exists>w'. runBackfillJob e rpc rid fromLedger toLedger token aid adr w = Some w' \<and>
    (\<forall>r \<in> set (backfillRuns (db w')). bf_id r = rid \<longrightarrow> bf_status r = BF_COMPLETED \<and> bf_currentLedger r = Some toLedger \<and>
       Q (bf_processedCount r) (bf_errorCount r)) \<and>
    lockOwner BACKFILL_LOCK_KEY (now e) (redis w') \<noteq> Some token"
proof -
  let ?s = "(\<lparr>processedCount = 0, errorCount = 0, errorSummary = [], currentLedger = fromLedger\<rparr>,
      updateRun rid (\<lambda>r. r\<lparr>bf_status := BF_RUNNING, bf_currentLedger := Some fromLedger\<rparr>) w)"
  obtain st v where "backfillLoop e rpc rid toLedger 0 ?s = Some (st, v)" "Q (processedCount st) (errorCount st)"
    using assms [of ?s] by (auto simp: handled_def)
  then show ?thesis
    by (simp add: runBackfillJob_def Let_def updateRun_def ball_updateWhere lockOwner_Some_iff releaseLock_def)
qed

section \<open>Properties\<close>

text \<open>C21: a backfill ends. If no page of the node sends the scan back to where it is (a full page whose events in the
  window all lie in its first ledger), the job returns for every range: its run is COMPLETED at the end
  of the range, and its lock is no longer held by its token.\<close>

theorem backfill_completes:
  assumes "\<And>n l. fromLedger \<le> l \<Longrightarrow> l \<le> toLedger \<Longrightarrow> \<not> stuckPage l toLedger (fetchContractEvents (rpc n) l)"
  shows "\<exists>w'. runBackfillJob e rpc rid fromLedger toLedger token aid adr w = Some w' \<and>
    (\<forall>r \<in> set (backfillRuns (db w')). bf_id r = rid \<longrightarrow> bf_status r = BF_COMPLETED \<and> bf_currentLedger r = Some toLedger) \<and>
    lockOwner BACKFILL_LOCK_KEY (now e) (redis w') \<noteq> Some token"
proof -
  have "\<exists>st w. backfillLoop e rpc rid toLedger 0 s = Some (st, w) \<and> True" if "currentLedger (fst s) = fromLedger" for s
    using backfillLoop_returns [of s toLedger rpc e rid 0] assms that by (metis surj_pair)
  from runBackfillJob_of_loop [where Q = "\<lambda>_ _. True", OF this] show ?thesis by auto
qed

theorem backfill_completes_witness:
  "\<exists>w'. runBackfillJob env0 (\<lambda>_ l. Inr [lostEvent]) 7 1 5000 ''t'' None None emptyWorld = Some w'"
proof -
  have "\<not> stuckPage l 5000 (fetchContractEvents (\<lambda>l. Inr [lostEvent]) l)" for l
    by (simp add: stuckPage_def fetchContractEvents_def)
  then show ?thesis using backfill_completes [of 1 5000 "\<lambda>_ l. Inr [lostEvent]" env0 7 "''t''" None None emptyWorld] by blast
qed



text \<open>C40: a backfill of an old range does not end. On a chain in ledger order where the first ledger of the range
  has an event, the rest of the range (of less than a batch) has none, and a full page of events exists from there on,
  the scan re-reads the first ledger for ever: the job never returns, so it never releases its lock.\<close>

theorem backfill_never_ends:
  assumes "sorted (map ev_ledger h)" "ev0 \<in> set h" "ev_ledger ev0 = fromLedger"
    and "fromLedger < toLedger" "toLedger < fromLedger + BATCH_SIZE"
    and "\<forall>ev \<in> set h. \<not> (fromLedger < ev_ledger ev \<and> ev_ledger ev \<le> toLedger)"
    and "100 \<le> length (filter (\<lambda>ev. fromLedger \<le> ev_ledger ev) h)"
  shows "runBackfillJob e (\<lambda>_ l. Inr (take 100 (filter (\<lambda>ev. l \<le> ev_ledger ev) h))) rid fromLedger toLedger token aid adr w = None"
proof -
  let ?f = "filter (\<lambda>ev. fromLedger \<le> ev_ledger ev) h"
  obtain x xs where f: "?f = x # xs" using assms(7) by (cases ?f) auto
  have "x \<in> set ?f" by (simp add: f)
  then have ge: "fromLedger \<le> ev_ledger x" by simp
  have "sorted (map ev_ledger ?f)" using assms(1) by (simp add: sorted_filter)
  moreover have "ev0 \<in> set ?f" using assms(2,3) by simp
  ultimately have "ev_ledger x \<le> fromLedger" using assms(3) by (auto simp: f)
  with ge have x: "ev_ledger x = fromLedger" by simp
  have be: "batchEnd fromLedger toLedger = toLedger" using assms(5) by (simp add: batchEnd_def)
  have mem: "x \<in> set (batchEvents fromLedger toLedger (take 100 ?f))"
    using x assms(4) by (simp add: batchEvents_def be f)
  have all: "ev_ledger ev = fromLedger" if "ev \<in> set (batchEvents fromLedger toLedger (take 100 ?f))" for ev
  proof -
    have "ev \<in> set h" "fromLedger \<le> ev_ledger ev" "ev_ledger ev \<le> toLedger"
      using that in_set_takeD [of ev 100 ?f] by (auto simp: batchEvents_def be)
    then show ?thesis using assms(6) by force
  qed
  have "stuckPage fromLedger toLedger (take 100 ?f)"
    unfolding stuckPage_def be list_all_iff
  proof (intro conjI ballI)
    show "batchEvents fromLedger toLedger (take 100 ?f) \<noteq> []" using mem by (metis empty_iff empty_set)
    show "100 \<le> length (take 100 ?f)" using assms(7) by simp
    show "fromLedger < toLedger" by (rule assms(4))
    show "ev_ledger ev = fromLedger" if "ev \<in> set (batchEvents fromLedger toLedger (take 100 ?f))" for ev
      using that by (rule all)
  qed
  then show ?thesis
    by (simp add: runBackfillJob_def Let_def backfillLoop_diverges [of fromLedger toLedger] fetchContractEvents_def)
qed

definition busyChain :: "rawEvent list" where
  "busyChain = lostEvent # replicate 100 (lostEvent\<lparr>ev_ledger := 5000\<rparr>)"

theorem backfill_never_ends_witness:
  "runBackfillJob env0 (\<lambda>_ l. Inr (take 100 (filter (\<lambda>ev. l \<le> ev_ledger ev) busyChain))) 7 9 20 ''t'' None None emptyWorld = None"
  by (rule backfill_never_ends [of busyChain lostEvent 9 20])
    (auto simp: busyChain_def lostEvent_def BATCH_SIZE_def)

text \<open>
  \<open>fetchContractEvents\<close> answers a failing node with an empty page, which the job takes for a quiet window: while
  the node is unreachable a backfill reports COMPLETED without an error.
\<close>

lemma backfill_hides_outage:
  "\<exists>w'. runBackfillJob e (\<lambda>_ _. Inl err) rid fromLedger toLedger token aid adr w = Some w' \<and>
    (\<forall>r \<in> set (backfillRuns (db w')). bf_id r = rid \<longrightarrow> bf_status r = BF_COMPLETED \<and> bf_processedCount r + bf_errorCount r = 0)"
proof -
  have fetch: "fetchContractEvents (\<lambda>_. Inl err) l = []" for l by (simp add: fetchContractEvents_def)
  have "\<exists>st w. backfillLoop e (\<lambda>_ _. Inl err) rid toLedger 0 s = Some (st, w) \<and> processedCount st + errorCount st = 0"
    if s: "currentLedger (fst s) = fromLedger" "handled s = 0" for s
  proof -
    obtain r where r: "backfillLoop e (\<lambda>_ _. Inl err) rid toLedger 0 s = Some r"
      using backfillLoop_returns [of s toLedger "\<lambda>_ _. Inl err" e rid 0] by (auto simp: fetch stuckPage_def)
    then show ?thesis
      using backfillLoop_counts [of "[]" "\<lambda>_ _. Inl err", OF _ _ r] fetch s by (cases r) (auto simp: handled_def)
  qed
  from runBackfillJob_of_loop [where Q = "\<lambda>p q. p + q = 0", OF this] show ?thesis by blast
qed

end
