(* ===== verification/Deadlines.thy ===== *)
theory Deadlines
  imports Milestones Job_Tracker
begin

text \<open>
  What surrounds the due date of a milestone (\<open>src/src/modules/milestones\<close>): requests to extend it
  (\<open>extension-requests.service.ts\<close>), the checklist of proof items (\<open>milestone-checklist.service.ts\<close>), and the hourly
  jobs that remind about overdue milestones (\<open>milestone-deadline.job.ts\<close>) and escalate old disputes
  (\<open>dispute-escalation.job.ts\<close>).
\<close>

section \<open>Extension requests\<close>

definition CLOSED_STATUSES :: "milestoneStatus list" where
  "CLOSED_STATUSES = [CONFIRMED, RESOLVED]"

definition isoOrNull :: "time option \<Rightarrow> json" where
  "isoOrNull t = (case t of None \<Rightarrow> JNull | Some d \<Rightarrow> JStr (isoString d))"

definition listExtensions :: "string \<Rightarrow> int \<Rightarrow> extensionRequest list act" where
  "listExtensions sid i = andThen (findOne sid i) (\<lambda>m.
     reads (\<lambda>w. sort_key (\<lambda>x. - x_createdAt x) (filter (\<lambda>x. x_milestoneId x = m_id m) (extensionRequests (db w)))))"

definition pendingFor :: "uuid \<Rightarrow> extensionRequest \<Rightarrow> bool" where
  "pendingFor mid x \<longleftrightarrow> x_milestoneId x = mid \<and> x_status x = EXT_PENDING"

text \<open>The insertion is guarded by a partial unique index on the pending requests of a milestone.\<close>

definition insertExtension :: "extensionRequest \<Rightarrow> unit act" where
  "insertExtension x =
     andThen (reads (\<lambda>w. list_ex (pendingFor (x_milestoneId x)) (extensionRequests (db w)))) (\<lambda>dup.
     require (\<not> dup) PrismaP2002 (
     modifyDb (\<lambda>d. d\<lparr>extensionRequests := extensionRequests d @ [x]\<rparr>)))"

definition requestExtension :: "env \<Rightarrow> string \<Rightarrow> int \<Rightarrow> time \<Rightarrow> string \<Rightarrow> address \<Rightarrow> uuid option \<Rightarrow> extensionRequest act" where
  "requestExtension e sid i proposed reason caller callerId =
     andThen (reads (findShipment sid)) (\<lambda>found.
     requireSome found NotFoundException (\<lambda>s.
     require (supplierAddress s = caller \<or> logisticsAddress s = caller) ForbiddenException (
     andThen (findOne sid i) (\<lambda>m.
     require (m_status m \<notin> set CLOSED_STATUSES) ConflictException (
     require (proposed > now e) BadRequestException (
     require (case dueAt m of None \<Rightarrow> True | Some d \<Rightarrow> proposed > d) BadRequestException (
     andThen (reads (\<lambda>w. list_ex (pendingFor (m_id m)) (extensionRequests (db w)))) (\<lambda>pending.
     require (\<not> pending) ConflictException (
     andThen freshId (\<lambda>xid.
     let x = \<lparr>x_id = xid, x_milestoneId = m_id m, requestedBy = caller, proposedDueAt = proposed, previousDueAt = dueAt m,
              x_reason = trim reason, x_status = EXT_PENDING, decidedAt = None, decidedBy = None, x_createdAt = now e\<rparr> in
     andThen (attempt (insertExtension x) (\<lambda>err. throw (if err = PrismaP2002 then ConflictException else err))) (\<lambda>_.
     andThen (auditRecord \<lparr>au_actorId = callerId, au_actorAddress = caller, au_action = ''milestone.extension.requested'',
        au_resourceType = ''DeadlineExtensionRequest'', au_resourceId = ByUuid xid,
        au_metadata = JObj [(''shipmentId'', JStr sid), (''milestoneIndex'', JNum i), (''previousDueAt'', isoOrNull (dueAt m)),
          (''proposedDueAt'', JStr (isoString proposed))]\<rparr>) (\<lambda>_.
     andThen (notifyUser e (buyerAddress s) N_DEADLINE_EXTENSION_REQUESTED ''Deadline extension requested''
        (JObj [(''shipmentId'', JStr sid), (''milestoneIndex'', JNum i), (''requestId'', JNum (int xid)),
          (''proposedDueAt'', JStr (isoString proposed))])) (\<lambda>_.
     ret x)))))))))))))"

text \<open>
  A decision reads and checks the request first, and then writes in one transaction; other requests may
  be served between the two phases.
\<close>

definition decideExtensionRead :: "string \<Rightarrow> int \<Rightarrow> uuid \<Rightarrow> address \<Rightarrow> (milestone \<times> extensionRequest) act" where
  "decideExtensionRead sid i xid caller =
     andThen (reads (findShipment sid)) (\<lambda>found.
     requireSome found NotFoundException (\<lambda>s.
     require (buyerAddress s = caller) ForbiddenException (
     andThen (findOne sid i) (\<lambda>m.
     andThen (reads (\<lambda>w. find (\<lambda>x. x_id x = xid \<and> x_milestoneId x = m_id m) (extensionRequests (db w)))) (\<lambda>foundX.
     requireSome foundX NotFoundException (\<lambda>x.
     require (x_status x = EXT_PENDING) ConflictException (
     ret (m, x))))))))"

definition decideExtensionCommit :: "env \<Rightarrow> string \<Rightarrow> int \<Rightarrow> extensionRequestStatus \<Rightarrow> json \<Rightarrow> address \<Rightarrow> uuid option
    \<Rightarrow> milestone \<times> extensionRequest \<Rightarrow> extensionRequest act" where
  "decideExtensionCommit e sid i decision note caller callerId = (\<lambda>(m, x).
     let approved = (decision = EXT_APPROVED) in
     andThen (transaction (
       andThen (reads (\<lambda>w. list_ex (\<lambda>r. x_id r = x_id x \<and> x_status r = EXT_PENDING) (extensionRequests (db w)))) (\<lambda>updated.
       andThen (modifyDb (\<lambda>d. d\<lparr>extensionRequests := updateWhere (\<lambda>r. x_id r = x_id x \<and> x_status r = EXT_PENDING)
          (\<lambda>r. r\<lparr>x_status := decision, decidedAt := Some (now e), decidedBy := Some caller\<rparr>) (extensionRequests d)\<rparr>)) (\<lambda>_.
       andThen (whenA approved (ignore (updateMilestoneById (now e) (m_id m) (\<lambda>r.
          r\<lparr>dueAt := Some (proposedDueAt x), overdueNotifiedAt := None, overdueReminder3dAt := None\<rparr>)))) (\<lambda>_.
       ret updated))))) (\<lambda>updated.
     require updated ConflictException (
     andThen (auditRecord \<lparr>au_actorId = callerId, au_actorAddress = caller,
        au_action = (if approved then ''milestone.extension.approved'' else ''milestone.extension.denied''),
        au_resourceType = ''DeadlineExtensionRequest'', au_resourceId = ByUuid (x_id x),
        au_metadata = JObj [(''shipmentId'', JStr sid), (''milestoneIndex'', JNum i), (''previousDueAt'', isoOrNull (dueAt m)),
          (''proposedDueAt'', JStr (isoString (proposedDueAt x))), (''note'', note)]\<rparr>) (\<lambda>_.
     andThen (notifyUser e (requestedBy x) N_DEADLINE_EXTENSION_DECIDED
        (if approved then ''Deadline extension approved'' else ''Deadline extension denied'')
        (JObj [(''shipmentId'', JStr sid), (''milestoneIndex'', JNum i), (''requestId'', JNum (int (x_id x))),
          (''status'', JStr (if approved then ''APPROVED'' else ''DENIED''))])) (\<lambda>_.
     ret (x\<lparr>x_status := decision, decidedAt := Some (now e), decidedBy := Some caller\<rparr>))))))"

definition decideExtension :: "env \<Rightarrow> string \<Rightarrow> int \<Rightarrow> uuid \<Rightarrow> extensionRequestStatus \<Rightarrow> json \<Rightarrow> address \<Rightarrow> uuid option
    \<Rightarrow> extensionRequest act" where
  "decideExtension e sid i xid decision note caller callerId =
     andThen (decideExtensionRead sid i xid caller) (decideExtensionCommit e sid i decision note caller callerId)"

definition approveExtension :: "env \<Rightarrow> string \<Rightarrow> int \<Rightarrow> uuid \<Rightarrow> json \<Rightarrow> address \<Rightarrow> uuid option \<Rightarrow> extensionRequest act" where
  "approveExtension e sid i xid note caller callerId = decideExtension e sid i xid EXT_APPROVED note caller callerId"

definition denyExtension :: "env \<Rightarrow> string \<Rightarrow> int \<Rightarrow> uuid \<Rightarrow> json \<Rightarrow> address \<Rightarrow> uuid option \<Rightarrow> extensionRequest act" where
  "denyExtension e sid i xid note caller callerId = decideExtension e sid i xid EXT_DENIED note caller callerId"

section \<open>Checklists\<close>

record checklistSummary =
  cl_total :: nat
  cl_completed :: nat
  cl_requiredTotal :: nat
  cl_requiredCompleted :: nat

definition summarize :: "checklistItem list \<Rightarrow> checklistSummary" where
  "summarize items =
     (let done = (\<lambda>c. c_completedAt c \<noteq> None) in
      \<lparr>cl_total = length items, cl_completed = length (filter done items),
       cl_requiredTotal = length (filter c_required items),
       cl_requiredCompleted = length (filter done (filter c_required items))\<rparr>)"

definition listChecklist :: "string \<Rightarrow> int \<Rightarrow> (checklistItem list \<times> checklistSummary) act" where
  "listChecklist sid i = andThen (findOne sid i) (\<lambda>m.
     reads (\<lambda>w. let items = sort_key c_createdAt (filter (\<lambda>c. c_milestoneId c = m_id m) (checklistItems (db w)))
                in (items, summarize items)))"

definition addChecklistItem :: "env \<Rightarrow> string \<Rightarrow> int \<Rightarrow> string \<Rightarrow> bool option \<Rightarrow> address \<Rightarrow> uuid option \<Rightarrow> checklistItem act" where
  "addChecklistItem e sid i label req caller callerId =
     andThen (reads (findShipment sid)) (\<lambda>found.
     requireSome found NotFoundException (\<lambda>s.
     require (buyerAddress s = caller) ForbiddenException (
     andThen (findOne sid i) (\<lambda>m.
     require (m_status m = PENDING) ConflictException (
     andThen freshId (\<lambda>cid.
     let c = \<lparr>c_id = cid, c_milestoneId = m_id m, c_label = trim label, c_required = (case req of None \<Rightarrow> True | Some b \<Rightarrow> b),
              c_completedAt = None, c_completedBy = None, c_createdAt = now e\<rparr> in
     andThen (modifyDb (\<lambda>d. d\<lparr>checklistItems := checklistItems d @ [c]\<rparr>)) (\<lambda>_.
     andThen (auditRecord \<lparr>au_actorId = callerId, au_actorAddress = caller, au_action = ''milestone.checklist.item_added'',
        au_resourceType = ''MilestoneChecklistItem'', au_resourceId = ByUuid cid,
        au_metadata = JObj [(''shipmentId'', JStr sid), (''milestoneIndex'', JNum i), (''label'', JStr (c_label c)),
          (''required'', JBool (c_required c))]\<rparr>) (\<lambda>_.
     ret c))))))))"

definition findItem :: "uuid \<Rightarrow> uuid \<Rightarrow> checklistItem act" where
  "findItem mid cid = andThen (reads (\<lambda>w. find (\<lambda>c. c_id c = cid \<and> c_milestoneId c = mid) (checklistItems (db w)))) (\<lambda>found.
     requireSome found NotFoundException ret)"

definition updateChecklistItem :: "env \<Rightarrow> string \<Rightarrow> int \<Rightarrow> uuid \<Rightarrow> bool \<Rightarrow> address \<Rightarrow> uuid option \<Rightarrow> checklistItem act" where
  "updateChecklistItem e sid i cid completed caller callerId =
     andThen (reads (findShipment sid)) (\<lambda>found.
     requireSome found NotFoundException (\<lambda>s.
     require (supplierAddress s = caller \<or> logisticsAddress s = caller) ForbiddenException (
     andThen (findOne sid i) (\<lambda>m.
     andThen (findItem (m_id m) cid) (\<lambda>c.
     let f = (\<lambda>r. if completed then r\<lparr>c_completedAt := Some (now e), c_completedBy := Some caller\<rparr>
                  else r\<lparr>c_completedAt := None, c_completedBy := None\<rparr>) in
     andThen (modifyDb (\<lambda>d. d\<lparr>checklistItems := updateWhere (\<lambda>r. c_id r = c_id c) f (checklistItems d)\<rparr>)) (\<lambda>_.
     andThen (auditRecord \<lparr>au_actorId = callerId, au_actorAddress = caller,
        au_action = (if completed then ''milestone.checklist.item_completed'' else ''milestone.checklist.item_reopened''),
        au_resourceType = ''MilestoneChecklistItem'', au_resourceId = ByUuid (c_id c),
        au_metadata = JObj [(''shipmentId'', JStr sid), (''milestoneIndex'', JNum i)]\<rparr>) (\<lambda>_.
     ret (f c))))))))"

definition removeChecklistItem :: "string \<Rightarrow> int \<Rightarrow> uuid \<Rightarrow> address \<Rightarrow> uuid option \<Rightarrow> uuid act" where
  "removeChecklistItem sid i cid caller callerId =
     andThen (reads (findShipment sid)) (\<lambda>found.
     requireSome found NotFoundException (\<lambda>s.
     require (buyerAddress s = caller) ForbiddenException (
     andThen (findOne sid i) (\<lambda>m.
     require (m_status m = PENDING) ConflictException (
     andThen (findItem (m_id m) cid) (\<lambda>c.
     andThen (modifyDb (\<lambda>d. d\<lparr>checklistItems := filter (\<lambda>r. c_id r \<noteq> c_id c) (checklistItems d)\<rparr>)) (\<lambda>_.
     andThen (auditRecord \<lparr>au_actorId = callerId, au_actorAddress = caller, au_action = ''milestone.checklist.item_removed'',
        au_resourceType = ''MilestoneChecklistItem'', au_resourceId = ByUuid (c_id c),
        au_metadata = JObj [(''shipmentId'', JStr sid), (''milestoneIndex'', JNum i), (''label'', JStr (c_label c))]\<rparr>) (\<lambda>_.
     ret (c_id c)))))))))"

section \<open>Overdue milestones\<close>

definition openStatus :: "milestone \<Rightarrow> bool" where
  "openStatus m \<longleftrightarrow> m_status m \<in> {PENDING, PROOF_SUBMITTED} \<and> deletedAt m = None"

definition overdueSelect :: "time \<Rightarrow> milestone \<Rightarrow> bool" where
  "overdueSelect t m \<longleftrightarrow> openStatus m \<and> overdueNotifiedAt m = None \<and> (case dueAt m of None \<Rightarrow> False | Some d \<Rightarrow> d < t)"

definition escalationSelect :: "time \<Rightarrow> milestone \<Rightarrow> bool" where
  "escalationSelect cutoff m \<longleftrightarrow> openStatus m \<and> overdueReminder3dAt m = None \<and>
     (case overdueNotifiedAt m of None \<Rightarrow> False | Some n \<Rightarrow> n < cutoff)"

definition overdueNotice :: "env \<Rightarrow> string \<Rightarrow> int \<Rightarrow> bool \<Rightarrow> milestone \<Rightarrow> address \<Rightarrow> unit act" where
  "overdueNotice e title threshold escalation m addr = ignore (notifyUser e addr N_MILESTONE_OVERDUE title
     (JObj [(''shipmentId'', JStr (m_shipmentId m)), (''milestoneIndex'', JNum (milestoneIndex m)),
       (''dueAt'', isoOrNull (dueAt m)), (''threshold'', JNum threshold), (''recipient'', JStr addr),
       (''escalation'', JBool escalation)]))"

text \<open>Both notices go to buyer and supplier and are recorded on the milestone; errors are logged only.\<close>

definition notifyParties :: "env \<Rightarrow> string \<Rightarrow> int \<Rightarrow> bool \<Rightarrow> (milestone \<Rightarrow> milestone) \<Rightarrow> milestone \<Rightarrow> unit act" where
  "notifyParties e title threshold escalation f m =
     attempt
       (andThen (reads (findShipment (m_shipmentId m))) (\<lambda>found.
        requireSome found RuntimeError (\<lambda>s.
        require (dueAt m \<noteq> None) RuntimeError (
        andThen (overdueNotice e title threshold escalation m (buyerAddress s)) (\<lambda>_.
        andThen (overdueNotice e title threshold escalation m (supplierAddress s)) (\<lambda>_.
        ignore (updateMilestoneById (now e) (m_id m) f)))))))
       (\<lambda>_. ret ())"

definition notifyOverdue :: "env \<Rightarrow> milestone \<Rightarrow> unit act" where
  "notifyOverdue e m = notifyParties e (''Milestone '' @ showInt (milestoneIndex m) @ '' overdue'') (reminder1Days e) False
     (\<lambda>r. r\<lparr>overdueNotifiedAt := Some (now e)\<rparr>) m"

definition notifyEscalation :: "env \<Rightarrow> milestone \<Rightarrow> unit act" where
  "notifyEscalation e m = notifyParties e (''Milestone '' @ showInt (milestoneIndex m) @ '' overdue - escalation'') (reminder3Days e) True
     (\<lambda>r. r\<lparr>overdueReminder3dAt := Some (now e)\<rparr>) m"

definition checkOverdue :: "env \<Rightarrow> unit act" where
  "checkOverdue e =
     andThen (reads (\<lambda>w. filter (overdueSelect (now e)) (milestones (db w)))) (\<lambda>overdue.
     andThen (forEach overdue (notifyOverdue e)) (\<lambda>_.
     andThen (reads (\<lambda>w. filter (escalationSelect (now e - reminder3Days e * 24 * 60 * 60 * 1000)) (milestones (db w)))) (\<lambda>late.
     forEach late (notifyEscalation e))))"

definition checkAndNotifyOverdue :: "env \<Rightarrow> bool \<Rightarrow> unit act" where
  "checkAndNotifyOverdue e hasRedis =
     (if hasRedis then runTrackedJob e False ''milestone-deadline'' (checkOverdue e) else checkOverdue e)"

section \<open>Old disputes\<close>

definition disputeSelect :: "env \<Rightarrow> milestone \<Rightarrow> bool" where
  "disputeSelect e m \<longleftrightarrow> m_status m = DISPUTED \<and> disputeEscalatedAt m = None \<and>
     m_updatedAt m < now e - disputeEscalationDays e * 24 * 60 * 60 * 1000"

definition arbiterAway :: "env \<Rightarrow> shipment \<Rightarrow> world \<Rightarrow> time option" where
  "arbiterAway e s w = (case findUser (arbiterAddress s) w of None \<Rightarrow> None
     | Some u \<Rightarrow> (case arbiterAwayUntil u of None \<Rightarrow> None | Some t \<Rightarrow> if t > now e then Some t else None))"

definition escalate :: "env \<Rightarrow> address list \<Rightarrow> milestone \<Rightarrow> unit act" where
  "escalate e admins m =
     attempt
       (andThen (reads (findShipment (m_shipmentId m))) (\<lambda>found.
        requireSome found RuntimeError (\<lambda>s.
        andThen (reads (arbiterAway e s)) (\<lambda>away.
        andThen (forEach admins (\<lambda>a. ignore (notifyUser e a N_SYSTEM_ALERT
          (''Unresolved dispute - shipment '' @ s_id s @ '' milestone '' @ showInt (milestoneIndex m))
          (JObj [(''shipmentId'', JStr (s_id s)), (''milestoneIndex'', JNum (milestoneIndex m)),
            (''arbiterAddress'', JStr (arbiterAddress s)), (''arbiterAway'', JBool (away \<noteq> None)),
            (''arbiterAwayUntil'', isoOrNull away)])))) (\<lambda>_.
        ignore (updateMilestoneById (now e) (m_id m) (\<lambda>r. r\<lparr>disputeEscalatedAt := Some (now e)\<rparr>)))))))
       (\<lambda>_. ret ())"

definition escalateDisputes :: "env \<Rightarrow> unit act" where
  "escalateDisputes e =
     andThen (reads (\<lambda>w. filter (disputeSelect e) (milestones (db w)))) (\<lambda>overdue.
     andThen (reads (\<lambda>w. map stellarAddress (filter (\<lambda>u. u_role u = ADMIN) (users (db w))))) (\<lambda>admins.
     forEach overdue (escalate e admins)))"

definition checkAndEscalateDisputes :: "env \<Rightarrow> bool \<Rightarrow> unit act" where
  "checkAndEscalateDisputes e hasRedis =
     (if hasRedis then runTrackedJob e False ''dispute-escalation'' (escalateDisputes e) else escalateDisputes e)"

section \<open>Lemmas on extension requests\<close>

definition decided :: "env \<Rightarrow> extensionRequestStatus \<Rightarrow> address \<Rightarrow> extensionRequest \<Rightarrow> extensionRequest" where
  "decided e decision caller r = r\<lparr>x_status := decision, decidedAt := Some (now e), decidedBy := Some caller\<rparr>"

definition moveDue :: "env \<Rightarrow> time \<Rightarrow> milestone \<Rightarrow> milestone" where
  "moveDue e t r = r\<lparr>dueAt := Some t, overdueNotifiedAt := None, overdueReminder3dAt := None, m_updatedAt := now e\<rparr>"

text \<open>The effect of the writing phase on the database.\<close>

definition decideDb :: "env \<Rightarrow> extensionRequestStatus \<Rightarrow> address \<Rightarrow> milestone \<Rightarrow> extensionRequest \<Rightarrow> db \<Rightarrow> db" where
  "decideDb e decision caller m x d = d\<lparr>
     extensionRequests := updateWhere (\<lambda>r. x_id r = x_id x \<and> x_status r = EXT_PENDING) (decided e decision caller) (extensionRequests d),
     milestones := (if decision = EXT_APPROVED then updateWhere (\<lambda>r. m_id r = m_id m) (moveDue e (proposedDueAt x)) (milestones d)
                    else milestones d)\<rparr>"

lemma decideExtensionCommit_db:
  assumes "m \<in> set (milestones (db w))"
  shows "db (snd (decideExtensionCommit e sid i decision note caller cid (m, x) w)) = decideDb e decision caller m x (db w)"
    and "fst (decideExtensionCommit e sid i decision note caller cid (m, x) w) =
      (if list_ex (\<lambda>r. x_id r = x_id x \<and> x_status r = EXT_PENDING) (extensionRequests (db w)) then Inr (decided e decision caller x)
       else Inl ConflictException)"
proof -
  have f: "find (\<lambda>r. m_id r = m_id m) (milestones (db w)) \<noteq> None" using assms by (auto simp: find_None_iff)
  then show "db (snd (decideExtensionCommit e sid i decision note caller cid (m, x) w)) = decideDb e decision caller m x (db w)"
    by (auto simp: decideExtensionCommit_def Let_def andThen_def transaction_def run_updateMilestoneById setMilestones_def
        ignore_def decideDb_def decided_def [abs_def] moveDue_def [abs_def])
  from f show "fst (decideExtensionCommit e sid i decision note caller cid (m, x) w) =
      (if list_ex (\<lambda>r. x_id r = x_id x \<and> x_status r = EXT_PENDING) (extensionRequests (db w)) then Inr (decided e decision caller x)
       else Inl ConflictException)"
    by (auto simp: decideExtensionCommit_def Let_def andThen_def transaction_def run_updateMilestoneById setMilestones_def
        ignore_def decided_def)
qed

lemma decideExtensionRead_success:
  "decideExtensionRead sid i xid caller w = (Inr (m, x), w') \<longleftrightarrow> w' = w \<and>
    (\<exists>s. findShipment sid w = Some s \<and> buyerAddress s = caller) \<and> findLiveMilestone sid i w = Some m \<and>
    find (\<lambda>x. x_id x = xid \<and> x_milestoneId x = m_id m) (extensionRequests (db w)) = Some x \<and> x_status x = EXT_PENDING"
  by (auto simp: decideExtensionRead_def findOne_def success_iffs)

lemma decideExtensionRead_readOnly: "readOnly (decideExtensionRead sid i xid caller)"
  unfolding decideExtensionRead_def by (intro leaves_intros findOne_readOnly)

lemma decideExtension_effect:
  "db (snd (decideExtension e sid i xid decision note caller cid w)) = db w \<or>
    (\<exists>m x. m \<in> set (milestones (db w)) \<and> x \<in> set (extensionRequests (db w)) \<and> pendingFor (m_id m) x \<and>
       db (snd (decideExtension e sid i xid decision note caller cid w)) = decideDb e decision caller m x (db w))"
proof (cases "decideExtensionRead sid i xid caller w")
  case (Pair r w')
  have w': "w' = w" using leaves_run [OF decideExtensionRead_readOnly Pair] by simp
  show ?thesis
  proof (cases r)
    case (Inl y)
    then show ?thesis using Pair w' by (simp add: decideExtension_def)
  next
    case (Inr mx)
    obtain m x where mx: "mx = (m, x)" by fastforce
    from Pair Inr mx w' have h: "findLiveMilestone sid i w = Some m"
        "find (\<lambda>x. x_id x = xid \<and> x_milestoneId x = m_id m) (extensionRequests (db w)) = Some x" "x_status x = EXT_PENDING"
      by (auto simp: decideExtensionRead_success)
    have "m \<in> set (milestones (db w))" using findLiveMilestone_key [OF h(1)] by simp
    moreover have "x \<in> set (extensionRequests (db w))" "pendingFor (m_id m) x"
      using find_Some_prop [OF h(2)] h(3) by (auto simp: pendingFor_def)
    ultimately show ?thesis
      using Pair Inr mx w' decideExtensionCommit_db(1) [of m w e sid i decision "note" caller cid x]
      by (auto simp: decideExtension_def)
  qed
qed

lemma requestExtension_effect:
  "\<exists>d. db (snd (requestExtension e sid i proposed reason caller cid w)) = d \<and> milestones d = milestones (db w) \<and>
    (extensionRequests d = extensionRequests (db w) \<and> nextId d \<ge> nextId (db w) \<or>
     (\<exists>m x. m \<in> set (milestones (db w)) \<and> extensionRequests d = extensionRequests (db w) @ [x] \<and> x_id x = nextId (db w) \<and>
        nextId d = Suc (nextId (db w)) \<and> x_milestoneId x = m_id m \<and> x_status x = EXT_PENDING \<and>
        \<not> list_ex (pendingFor (m_id m)) (extensionRequests (db w)) \<and>
        (case dueAt m of None \<Rightarrow> True | Some t \<Rightarrow> t < proposedDueAt x)))"
proof (cases "findShipment sid w")
  case None
  then show ?thesis by (simp add: requestExtension_def)
next
  case (Some s)
  show ?thesis
  proof (cases "findLiveMilestone sid i w")
    case None
    then show ?thesis using Some by (simp add: requestExtension_def findOne_def)
  next
    case m: (Some m)
    have "m \<in> set (milestones (db w))" using findLiveMilestone_key [OF m] by simp
    then show ?thesis using Some m
      by (auto simp: requestExtension_def findOne_def insertExtension_def andThen_def attempt_def Let_def split: option.split)
  qed
qed

subsection \<open>Requests and decisions as a state machine\<close>

datatype extensionCall =
    RequestExt env string int time string address
  | ApproveExt env string int uuid address
  | DenyExt env string int uuid address

definition extensionStep :: "extensionCall \<Rightarrow> world \<Rightarrow> world" where
  "extensionStep c w = (case c of
      RequestExt e sid i proposed reason caller \<Rightarrow> snd (requestExtension e sid i proposed reason caller None w)
    | ApproveExt e sid i xid caller \<Rightarrow> snd (approveExtension e sid i xid JNull caller None w)
    | DenyExt e sid i xid caller \<Rightarrow> snd (denyExtension e sid i xid JNull caller None w))"

definition notEarlier :: "time option \<Rightarrow> time option \<Rightarrow> bool" where
  "notEarlier d d' \<longleftrightarrow> (case d of None \<Rightarrow> True | Some a \<Rightarrow> (case d' of None \<Rightarrow> False | Some b \<Rightarrow> a \<le> b))"

text \<open>
  Rows have distinct identifiers, a milestone has at most one pending request, and a pending request
  asks for a later date than the milestone has.
\<close>

definition extensionsOk :: "db \<Rightarrow> bool" where
  "extensionsOk d \<longleftrightarrow> distinct (map m_id (milestones d)) \<and> distinct (map x_id (extensionRequests d)) \<and>
     (\<forall>x \<in> set (extensionRequests d). x_id x < nextId d) \<and>
     (\<forall>x \<in> set (extensionRequests d). \<forall>y \<in> set (extensionRequests d).
        pendingFor (x_milestoneId y) x \<longrightarrow> pendingFor (x_milestoneId y) y \<longrightarrow> x = y) \<and>
     (\<forall>x \<in> set (extensionRequests d). \<forall>m \<in> set (milestones d). pendingFor (m_id m) x \<longrightarrow>
        (case dueAt m of None \<Rightarrow> True | Some t \<Rightarrow> t < proposedDueAt x))"

definition dueKept :: "milestone list \<Rightarrow> milestone list \<Rightarrow> bool" where
  "dueKept ms0 ms \<longleftrightarrow> list_all2 (\<lambda>m m'. m_id m' = m_id m \<and> notEarlier (dueAt m) (dueAt m')) ms0 ms"

lemma notEarlier_trans: "notEarlier a b \<Longrightarrow> notEarlier b c \<Longrightarrow> notEarlier a c"
  by (auto simp: notEarlier_def split: option.splits)

lemma dueKept_refl: "dueKept ms ms"
  by (auto simp: dueKept_def notEarlier_def list.rel_refl split: option.splits intro: list_all2_refl)

lemma dueKept_trans: "dueKept a b \<Longrightarrow> dueKept b c \<Longrightarrow> dueKept a c"
  unfolding dueKept_def by (rule list_all2_trans) (auto intro: notEarlier_trans)

lemma decideDb_ok:
  assumes ok: "extensionsOk d" and m: "m \<in> set (milestones d)" and x: "x \<in> set (extensionRequests d)" "pendingFor (m_id m) x"
    and dec: "decision \<noteq> EXT_PENDING"
  shows "extensionsOk (decideDb e decision caller m x d) \<and> dueKept (milestones d) (milestones (decideDb e decision caller m x d))"
proof -
  let ?d = "decideDb e decision caller m x d"
  let ?upd = "\<lambda>r. if x_id r = x_id x \<and> x_status r = EXT_PENDING then decided e decision caller r else r"
  have xs: "extensionRequests ?d = map ?upd (extensionRequests d)" by (simp add: decideDb_def updateWhere_def)
  have same: "r = x" if "r \<in> set (extensionRequests d)" "x_id r = x_id x" for r
    using ok x(1) that by (auto simp: extensionsOk_def distinct_map dest: inj_onD)
  have pend: "r' = r \<and> r \<noteq> x" if "r \<in> set (extensionRequests d)" "r' = ?upd r" "x_status r' = EXT_PENDING" for r r'
    using that same [of r] x(2) dec by (auto simp: decided_def pendingFor_def split: if_splits)
  have old: "a \<in> set (extensionRequests d) \<and> a \<noteq> x" if a: "a \<in> set (extensionRequests ?d)" "x_status a = EXT_PENDING" for a
  proof -
    from a(1) obtain r where "r \<in> set (extensionRequests d)" "a = ?upd r" unfolding xs by auto
    with pend [OF this a(2)] show ?thesis by simp
  qed
  have ids: "map x_id (extensionRequests ?d) = map x_id (extensionRequests d)" "map m_id (milestones ?d) = map m_id (milestones d)"
    by (auto simp: decideDb_def decided_def moveDue_def intro!: map_updateWhere)
  have late: "t < proposedDueAt x" if "k \<in> set (milestones d)" "m_id k = m_id m" "dueAt k = Some t" for k t
    using ok x that unfolding extensionsOk_def by (metis option.simps(5))
  have due: "dueKept (milestones d) (milestones ?d)"
    by (auto simp: dueKept_def decideDb_def updateWhere_def list_all2_map2 list_all2_same moveDue_def notEarlier_def
        split: option.splits dest: late)
  have "\<forall>r \<in> set (extensionRequests ?d). x_id r < nextId ?d"
    using ok x(1) by (auto simp: extensionsOk_def decided_def decideDb_def in_set_updateWhere)
  moreover have "\<forall>a \<in> set (extensionRequests ?d). \<forall>b \<in> set (extensionRequests ?d).
      pendingFor (x_milestoneId b) a \<longrightarrow> pendingFor (x_milestoneId b) b \<longrightarrow> a = b"
  proof (intro ballI impI)
    fix a b assume "a \<in> set (extensionRequests ?d)" "b \<in> set (extensionRequests ?d)"
      and p: "pendingFor (x_milestoneId b) a" "pendingFor (x_milestoneId b) b"
    then have "a \<in> set (extensionRequests d)" "b \<in> set (extensionRequests d)" using old by (simp_all add: pendingFor_def)
    with ok p show "a = b" by (simp add: extensionsOk_def)
  qed
  moreover have "\<forall>a \<in> set (extensionRequests ?d). \<forall>k \<in> set (milestones ?d). pendingFor (m_id k) a \<longrightarrow>
      (case dueAt k of None \<Rightarrow> True | Some t \<Rightarrow> t < proposedDueAt a)"
  proof (intro ballI impI)
    fix a k assume a: "a \<in> set (extensionRequests ?d)" and k: "k \<in> set (milestones ?d)" and p: "pendingFor (m_id k) a"
    from a p have "a \<in> set (extensionRequests d)" "a \<noteq> x" using old by (simp_all add: pendingFor_def)
    moreover from this p x ok have "m_id k \<noteq> m_id m" by (auto simp: extensionsOk_def pendingFor_def)
    then have "k \<in> set (milestones d)" using k by (auto simp: decideDb_def in_set_updateWhere moveDue_def split: if_splits)
    ultimately show "case dueAt k of None \<Rightarrow> True | Some t \<Rightarrow> t < proposedDueAt a"
      using ok p by (simp add: extensionsOk_def)
  qed
  ultimately show ?thesis using ok ids due by (simp add: extensionsOk_def)
qed

lemma requestExtension_ok:
  assumes ok: "extensionsOk (db w)"
  shows "extensionsOk (db (snd (requestExtension e sid i proposed reason caller cid w)))"
proof -
  let ?d = "db (snd (requestExtension e sid i proposed reason caller cid w))"
  from requestExtension_effect [of e sid i proposed reason caller cid w]
  have ms: "milestones ?d = milestones (db w)" by auto
  from requestExtension_effect [of e sid i proposed reason caller cid w] consider
      (same) "extensionRequests ?d = extensionRequests (db w)" "nextId ?d \<ge> nextId (db w)"
    | (new) m x where "m \<in> set (milestones (db w))" "extensionRequests ?d = extensionRequests (db w) @ [x]" "x_id x = nextId (db w)"
        "nextId ?d = Suc (nextId (db w))" "x_milestoneId x = m_id m" "x_status x = EXT_PENDING"
        "\<not> list_ex (pendingFor (m_id m)) (extensionRequests (db w))" "case dueAt m of None \<Rightarrow> True | Some t \<Rightarrow> t < proposedDueAt x"
    by auto
  then show ?thesis
  proof cases
    case same
    then show ?thesis using ok ms by (fastforce simp: extensionsOk_def)
  next
    case new
    have u: "k = m" if "k \<in> set (milestones (db w))" "m_id k = m_id m" for k
      using ok new(1) that by (auto simp: extensionsOk_def distinct_map dest: inj_onD)
    have "distinct (map x_id (extensionRequests ?d))" using ok new by (auto simp: extensionsOk_def)
    moreover have "\<forall>r \<in> set (extensionRequests ?d). x_id r < nextId ?d" using ok new by (auto simp: extensionsOk_def less_SucI)
    moreover have "\<forall>a \<in> set (extensionRequests ?d). \<forall>b \<in> set (extensionRequests ?d).
        pendingFor (x_milestoneId b) a \<longrightarrow> pendingFor (x_milestoneId b) b \<longrightarrow> a = b"
      using ok new(2,5,7) by (auto simp: extensionsOk_def list_ex_iff pendingFor_def)
    moreover have "\<forall>a \<in> set (extensionRequests ?d). \<forall>k \<in> set (milestones ?d). pendingFor (m_id k) a \<longrightarrow>
        (case dueAt k of None \<Rightarrow> True | Some t \<Rightarrow> t < proposedDueAt a)"
      using ok new(2,5,8) u ms by (auto simp: extensionsOk_def pendingFor_def)
    ultimately show ?thesis using ok ms by (simp add: extensionsOk_def)
  qed
qed

definition extensionInv :: "milestone list \<Rightarrow> world \<Rightarrow> bool" where
  "extensionInv ms0 w \<longleftrightarrow> extensionsOk (db w) \<and> dueKept ms0 (milestones (db w))"

lemma extensionInv_decide:
  assumes "extensionInv ms0 w" "decision \<noteq> EXT_PENDING"
  shows "extensionInv ms0 (snd (decideExtension e sid i xid decision nt caller cid w))"
  using decideExtension_effect [of e sid i xid decision nt caller cid w] decideDb_ok [of "db w" _ _ decision e caller] assms
  by (auto simp: extensionInv_def intro: dueKept_trans)

interpretation extensionRuns: step_system extensionStep "extensionInv ms0"
proof
  fix w c assume inv: "extensionInv ms0 w"
  show "extensionInv ms0 (extensionStep c w)"
  proof (cases c)
    case (RequestExt e sid i proposed reason caller)
    then show ?thesis
      using inv requestExtension_ok [of w e sid i proposed reason caller None]
        requestExtension_effect [of e sid i proposed reason caller None w]
      by (auto simp: extensionInv_def extensionStep_def)
  qed (use inv in \<open>auto simp: extensionStep_def approveExtension_def denyExtension_def intro!: extensionInv_decide\<close>)
qed

section \<open>Lemmas on the jobs\<close>

definition stamped :: "env \<Rightarrow> (milestone \<Rightarrow> milestone) \<Rightarrow> milestone \<Rightarrow> milestone" where
  "stamped e f r = (f r)\<lparr>m_updatedAt := now e\<rparr>"

lemma fold_stamp:
  assumes "distinct (map m_id sel)" "\<And>r. m_id (g r) = m_id r"
  shows "fold (\<lambda>m r. if m_id r = m_id m then g r else r) sel r = (if m_id r \<in> m_id ` set sel then g r else r)"
  using assms by (induction sel arbitrary: r) (auto simp: image_iff)

text \<open>What the milestones must satisfy for a job to go through: distinct identifiers, and every milestone has its shipment.\<close>

definition jobReady :: "db \<Rightarrow> bool" where
  "jobReady d \<longleftrightarrow> distinct (map m_id (milestones d)) \<and>
     (\<forall>m \<in> set (milestones d). \<exists>s \<in> set (shipments d). s_id s = m_shipmentId m)"

lemma jobReady_shipment:
  assumes "jobReady (db w)" "m \<in> set (milestones (db w))"
  shows "findShipment (m_shipmentId m) w \<noteq> None"
  using assms by (auto simp: jobReady_def findShipment_def find_None_iff)

definition overMilestones :: "(milestone list \<Rightarrow> milestone list) \<Rightarrow> db \<Rightarrow> db" where
  "overMilestones f d = d\<lparr>milestones := f (milestones d)\<rparr>"

text \<open>A body that, for each selected milestone, sends mail and stamps the row.\<close>

definition stamps :: "(milestone \<Rightarrow> unit act) \<Rightarrow> (milestone \<Rightarrow> milestone) \<Rightarrow> milestone \<Rightarrow> bool" where
  "stamps body g m \<longleftrightarrow> (\<forall>w. findShipment (m_shipmentId m) w \<noteq> None \<longrightarrow>
     find (\<lambda>r. m_id r = m_id m) (milestones (db w)) \<noteq> None \<longrightarrow>
     (\<exists>w'. body m w = (Inr (), w') \<and> db w' = overMilestones (updateWhere (\<lambda>r. m_id r = m_id m) g) (db w)))"

lemma forEach_stamps:
  assumes "\<forall>m \<in> set sel. stamps body g m" "\<And>r. m_id (g r) = m_id r"
    and "\<forall>m \<in> set sel. findShipment (m_shipmentId m) w \<noteq> None \<and> m_id m \<in> set (map m_id (milestones (db w)))"
  shows "\<exists>w'. forEach sel body w = (Inr (), w') \<and>
    db w' = overMilestones (fold (\<lambda>m. updateWhere (\<lambda>r. m_id r = m_id m) g) sel) (db w)"
  using assms(1,3)
proof (induction sel arbitrary: w)
  case Nil
  then show ?case by (simp add: overMilestones_def)
next
  case (Cons m sel)
  have "find (\<lambda>r. m_id r = m_id m) (milestones (db w)) \<noteq> None"
    using Cons.prems(2) by (auto simp: find_None_iff)
  then obtain w1 where 1: "body m w = (Inr (), w1)" "db w1 = overMilestones (updateWhere (\<lambda>r. m_id r = m_id m) g) (db w)"
    using Cons.prems by (auto simp: stamps_def)
  have "map m_id (milestones (db w1)) = map m_id (milestones (db w))"
    unfolding 1(2) overMilestones_def by (simp add: map_updateWhere assms(2))
  moreover have "findShipment sid w1 = findShipment sid w" for sid by (simp add: findShipment_def 1(2) overMilestones_def)
  ultimately obtain w2 where "forEach sel body w1 = (Inr (), w2)"
      "db w2 = overMilestones (fold (\<lambda>m. updateWhere (\<lambda>r. m_id r = m_id m) g) sel) (db w1)"
    using Cons.IH [of w1] Cons.prems by auto
  then show ?case using 1 by (simp add: overMilestones_def)
qed

lemma forEach_stamps_selected:
  assumes ready: "jobReady (db w)" and step: "\<And>m. m \<in> set (milestones (db w)) \<Longrightarrow> P m \<Longrightarrow> stamps body g m" and g: "\<And>r. m_id (g r) = m_id r"
  shows "\<exists>w'. forEach (filter P (milestones (db w))) body w = (Inr (), w') \<and>
    db w' = overMilestones (map (\<lambda>r. if P r then g r else r)) (db w)"
proof -
  let ?rows = "milestones (db w)" and ?sel = "filter P (milestones (db w))"
  have dist: "distinct (map m_id ?rows)" using ready by (simp add: jobReady_def)
  have sel: "distinct (map m_id ?sel)" using dist by (simp add: distinct_map_filter)
  have "(if m_id r \<in> m_id ` set ?sel then g r else r) = (if P r then g r else r)" if "r \<in> set ?rows" for r
    using that dist by (auto simp: distinct_map dest: inj_onD)
  then have "fold (\<lambda>m. updateWhere (\<lambda>r. m_id r = m_id m) g) ?sel ?rows = map (\<lambda>r. if P r then g r else r) ?rows"
    unfolding fold_updateWhere fold_stamp [OF sel g] by simp
  moreover obtain w' where "forEach ?sel body w = (Inr (), w')"
      "db w' = overMilestones (fold (\<lambda>m. updateWhere (\<lambda>r. m_id r = m_id m) g) ?sel) (db w)"
    using forEach_stamps [of ?sel body g w] step g jobReady_shipment [OF ready] by auto
  ultimately show ?thesis by (simp add: overMilestones_def)
qed

lemma stamps_notifyParties:
  assumes "dueAt m \<noteq> None"
  shows "stamps (notifyParties e title th esc f) (stamped e f) m"
  unfolding stamps_def
proof (intro allI impI)
  fix w assume w: "findShipment (m_shipmentId m) w \<noteq> None" "find (\<lambda>r. m_id r = m_id m) (milestones (db w)) \<noteq> None"
  then obtain s m0 where s: "findShipment (m_shipmentId m) w = Some s" "find (\<lambda>r. m_id r = m_id m) (milestones (db w)) = Some m0" by auto
  have n: "\<exists>mb. overdueNotice e title th esc m a v = (Inr (), v\<lparr>mail := mb\<rparr>)" for a v
    by (auto simp: overdueNotice_def ignore_def)
  obtain mb1 where 1: "overdueNotice e title th esc m (buyerAddress s) w = (Inr (), w\<lparr>mail := mb1\<rparr>)" using n by blast
  obtain mb2 where 2: "overdueNotice e title th esc m (supplierAddress s) (w\<lparr>mail := mb1\<rparr>) = (Inr (), w\<lparr>mail := mb2\<rparr>)"
    using n [of "supplierAddress s" "w\<lparr>mail := mb1\<rparr>"] by auto
  from assms s 1 2 show "\<exists>w'. notifyParties e title th esc f m w = (Inr (), w') \<and>
      db w' = overMilestones (updateWhere (\<lambda>r. m_id r = m_id m) (stamped e f)) (db w)"
    by (auto simp: notifyParties_def attempt_def ignore_def run_updateMilestoneById setMilestones_def overMilestones_def
        stamped_def [abs_def])
qed

definition markOverdue :: "env \<Rightarrow> milestone \<Rightarrow> milestone" where
  "markOverdue e r = (if overdueSelect (now e) r then stamped e (\<lambda>r. r\<lparr>overdueNotifiedAt := Some (now e)\<rparr>) r else r)"

definition markEscalated :: "env \<Rightarrow> milestone \<Rightarrow> milestone" where
  "markEscalated e r = (if escalationSelect (now e - reminder3Days e * 24 * 60 * 60 * 1000) r
     then stamped e (\<lambda>r. r\<lparr>overdueReminder3dAt := Some (now e)\<rparr>) r else r)"

lemma markOverdue_keys [simp]: "m_id (markOverdue e r) = m_id r" "m_shipmentId (markOverdue e r) = m_shipmentId r"
  "dueAt (markOverdue e r) = dueAt r"
  by (simp_all add: markOverdue_def stamped_def)

lemma markOverdue_dated: "overdueNotifiedAt (markOverdue e r) = Some t \<Longrightarrow> overdueNotifiedAt r \<noteq> None \<or> dueAt r \<noteq> None"
  by (auto simp: markOverdue_def stamped_def overdueSelect_def split: if_splits option.splits)

text \<open>One run of the deadline job, row by row.\<close>

definition datedNotices :: "db \<Rightarrow> bool" where
  "datedNotices d \<longleftrightarrow> (\<forall>m \<in> set (milestones d). overdueNotifiedAt m \<noteq> None \<longrightarrow> dueAt m \<noteq> None)"

lemma run_checkOverdue:
  assumes ready: "jobReady (db w)" and dated: "datedNotices (db w)"
  shows "\<exists>w'. checkOverdue e w = (Inr (), w') \<and> db w' = overMilestones (map (\<lambda>r. markEscalated e (markOverdue e r))) (db w)"
proof -
  let ?P = "overdueSelect (now e)" and ?Q = "escalationSelect (now e - reminder3Days e * 24 * 60 * 60 * 1000)"
  have s1: "stamps (notifyOverdue e) (stamped e (\<lambda>r. r\<lparr>overdueNotifiedAt := Some (now e)\<rparr>)) m" if "?P m" for m
    using stamps_notifyParties [of m] that unfolding stamps_def notifyOverdue_def by (auto simp: overdueSelect_def split: option.splits)
  obtain w1 where 1: "forEach (filter ?P (milestones (db w))) (notifyOverdue e) w = (Inr (), w1)"
      "db w1 = overMilestones (map (markOverdue e)) (db w)"
    using forEach_stamps_selected [OF ready s1] by (auto simp: stamped_def markOverdue_def [abs_def])
  have ready1: "jobReady (db w1)" "datedNotices (db w1)"
    using ready dated by (auto simp: 1(2) overMilestones_def jobReady_def datedNotices_def comp_def dest: markOverdue_dated)
  have s2: "stamps (notifyEscalation e) (stamped e (\<lambda>r. r\<lparr>overdueReminder3dAt := Some (now e)\<rparr>)) m"
    if "m \<in> set (milestones (db w1))" "?Q m" for m
  proof -
    have "dueAt m \<noteq> None" using ready1(2) that by (auto simp: datedNotices_def escalationSelect_def split: option.splits)
    then show ?thesis using stamps_notifyParties [of m] unfolding stamps_def notifyEscalation_def by auto
  qed
  obtain w2 where 2: "forEach (filter ?Q (milestones (db w1))) (notifyEscalation e) w1 = (Inr (), w2)"
      "db w2 = overMilestones (map (markEscalated e)) (db w1)"
    using forEach_stamps_selected [OF ready1(1) s2] by (auto simp: stamped_def markEscalated_def [abs_def])
  from 1 2 show ?thesis by (simp add: checkOverdue_def overMilestones_def comp_def)
qed

lemma marks_done:
  assumes "0 \<le> reminder3Days e" "r' = markEscalated e (markOverdue e r)"
  shows "\<not> overdueSelect (now e) r'" "\<not> escalationSelect (now e - reminder3Days e * 24 * 60 * 60 * 1000) r'"
  using assms by (auto simp: markEscalated_def markOverdue_def stamped_def overdueSelect_def escalationSelect_def openStatus_def
      split: option.splits)

section \<open>Properties\<close>

text \<open>Deadlines only move into the future. From a database where pending requests ask for later dates, no
  sequence of extension requests, approvals and denials by any callers moves a milestone's due date back or removes it, and
  a milestone never has two pending requests.\<close>

lemma deadline_never_moves_back:
  assumes "extensionsOk (db w)" "w' = fold extensionStep calls w"
  shows "list_all2 (\<lambda>m m'. m_id m' = m_id m \<and> notEarlier (dueAt m) (dueAt m')) (milestones (db w)) (milestones (db w')) \<and>
    (\<forall>x \<in> set (extensionRequests (db w')). \<forall>y \<in> set (extensionRequests (db w')).
      x_status x = EXT_PENDING \<longrightarrow> x_status y = EXT_PENDING \<longrightarrow> x_milestoneId x = x_milestoneId y \<longrightarrow> x = y)"
proof -
  have "extensionInv (milestones (db w)) w" using assms(1) by (simp add: extensionInv_def dueKept_refl)
  from extensionRuns.run_inv [OF this, of calls] assms(2) have "extensionInv (milestones (db w)) w'" by simp
  then show ?thesis
    by (auto simp: extensionInv_def dueKept_def extensionsOk_def pendingFor_def)
qed

definition extensionWorld :: world where
  "extensionWorld = emptyWorld\<lparr>db := emptyDb\<lparr>shipments := [shipment0 ''S''],
     milestones := [(milestone0 1 ''S'' 0 100 PENDING)\<lparr>dueAt := Some 2000\<rparr>]\<rparr>\<rparr>"

lemma deadline_never_moves_back_witness:
  "\<exists>w'. w' = fold extensionStep [RequestExt env0 ''S'' 0 5000 ''storm'' ''GS'', ApproveExt env0 ''S'' 0 100 ''GB''] extensionWorld \<and>
     map dueAt (milestones (db w')) = [Some 5000] \<and>
     list_all2 (\<lambda>m m'. m_id m' = m_id m \<and> notEarlier (dueAt m) (dueAt m')) (milestones (db extensionWorld)) (milestones (db w'))"
proof -
  let ?calls = "[RequestExt env0 ''S'' 0 5000 ''storm'' ''GS'', ApproveExt env0 ''S'' 0 100 ''GB'']"
  have "extensionsOk (db extensionWorld)" by (simp add: extensionsOk_def extensionWorld_def concrete_defs)
  note kept = deadline_never_moves_back [OF this refl, of ?calls, THEN conjunct1]
  have "map dueAt (milestones (db (fold extensionStep ?calls extensionWorld))) = [Some 5000]"
    by (simp add: extensionWorld_def extensionStep_def approveExtension_def decideExtension_def decideExtensionRead_def
        decideExtensionCommit_def requestExtension_def insertExtension_def findOne_def findLiveMilestone_def findShipment_def
        CLOSED_STATUSES_def pendingFor_def attempt_def transaction_def run_updateMilestoneById setMilestones_def ignore_def
        andThen_def notifyMail_def findUser_def concrete_defs Let_def)
  with kept show ?thesis by (intro exI [of _ "fold extensionStep ?calls extensionWorld"] conjI refl)
qed

text \<open>Overdue reminders are sent once. After a run of the deadline job every open milestone that is past its due date
  is marked as notified, and a second run at the same instant finds nothing to do: no mail is sent and no row of
  the database changes.\<close>

lemma overdue_reminders_sent_once:
  assumes "jobReady (db w)" "datedNotices (db w)" "0 \<le> reminder3Days e" "w1 = snd (checkAndNotifyOverdue e hasRedis w)"
  shows "(\<forall>m \<in> set (milestones (db w1)). openStatus m \<longrightarrow> (\<exists>d. dueAt m = Some d \<and> d < now e) \<longrightarrow> overdueNotifiedAt m \<noteq> None) \<and>
    (\<lambda>v. (db v, mail v, audit v)) (snd (checkAndNotifyOverdue e hasRedis w1)) = (\<lambda>v. (db v, mail v, audit v)) w1"
proof -
  obtain w' where "checkOverdue e w = (Inr (), w')" "db w' = overMilestones (map (\<lambda>r. markEscalated e (markOverdue e r))) (db w)"
    using run_checkOverdue [OF assms(1,2)] by blast
  then have "db w1 = overMilestones (map (\<lambda>r. markEscalated e (markOverdue e r))) (db w)"
    by (simp add: assms(4) checkAndNotifyOverdue_def)
  then have none: "\<not> overdueSelect (now e) m" "\<not> escalationSelect (now e - reminder3Days e * 24 * 60 * 60 * 1000) m"
    if "m \<in> set (milestones (db w1))" for m
    using that marks_done [OF assms(3)] by (auto simp: overMilestones_def)
  from none(1) have noticed: "\<forall>m \<in> set (milestones (db w1)). openStatus m \<longrightarrow> (\<exists>d. dueAt m = Some d \<and> d < now e) \<longrightarrow> overdueNotifiedAt m \<noteq> None"
    by (fastforce simp: overdueSelect_def)
  have "filter (overdueSelect (now e)) (milestones (db w1)) = []"
      "filter (escalationSelect (now e - reminder3Days e * 24 * 60 * 60 * 1000)) (milestones (db w1)) = []"
    using none by (simp_all add: filter_empty_conv)
  then have "checkOverdue e w1 = (Inr (), w1)" by (simp add: checkOverdue_def)
  with noticed show ?thesis
    using run_runTrackedJob(2) [of e False "''milestone-deadline''" "checkOverdue e" w1] by (simp add: checkAndNotifyOverdue_def)
qed

lemma overdue_reminders_sent_once_witness:
  "\<exists>m. milestones (db (snd (checkAndNotifyOverdue (env0\<lparr>now := 3000\<rparr>) True extensionWorld))) = [m] \<and> overdueNotifiedAt m \<noteq> None"
proof -
  let ?e = "env0\<lparr>now := 3000\<rparr>"
  have r: "jobReady (db extensionWorld)" "datedNotices (db extensionWorld)" "0 \<le> reminder3Days ?e"
    by (simp_all add: jobReady_def datedNotices_def extensionWorld_def concrete_defs)
  obtain w' where "checkOverdue ?e extensionWorld = (Inr (), w')"
      "db w' = overMilestones (map (\<lambda>r. markEscalated ?e (markOverdue ?e r))) (db extensionWorld)"
    using run_checkOverdue [OF r(1,2)] by blast
  then obtain m where m: "milestones (db (snd (checkAndNotifyOverdue ?e True extensionWorld))) = [m]"
      "m = markEscalated ?e (markOverdue ?e ((milestone0 1 ''S'' 0 100 PENDING)\<lparr>dueAt := Some 2000\<rparr>))"
    by (simp add: checkAndNotifyOverdue_def overMilestones_def extensionWorld_def)
  then have "openStatus m" "dueAt m = Some 2000"
    by (auto simp: openStatus_def markEscalated_def markOverdue_def stamped_def milestone0_def)
  with m(1) show ?thesis
    using overdue_reminders_sent_once [OF r refl, of True] by auto
qed

text \<open>
  The transaction of a decision does not fail when the request was already decided: an approval that
  lost the race against a denial is answered with a conflict, but has moved the due date.
\<close>

lemma lost_approval_moves_deadline:
  assumes "decideExtensionRead sid i xid caller w = (Inr (m, x), w)" "distinct (map x_id (extensionRequests (db w)))"
    and "distinct (map m_id (milestones (db w)))"
    and w1: "w1 = snd (decideExtensionCommit e sid i EXT_DENIED nt caller cid (m, x) w)"
  shows "fst (decideExtensionCommit e' sid i EXT_APPROVED nt' caller cid' (m, x) w1) = Inl ConflictException"
    and "\<exists>r \<in> set (milestones (db (snd (decideExtensionCommit e' sid i EXT_APPROVED nt' caller cid' (m, x) w1)))).
      m_id r = m_id m \<and> dueAt r = Some (proposedDueAt x)"
proof -
  have m: "m \<in> set (milestones (db w))" using assms(1) findLiveMilestone_key [of sid i w m] by (simp add: decideExtensionRead_success)
  have d1: "db w1 = decideDb e EXT_DENIED caller m x (db w)" unfolding w1 by (rule decideExtensionCommit_db(1) [OF m])
  have m1: "m \<in> set (milestones (db w1))" using m by (simp add: d1 decideDb_def)
  have "\<not> list_ex (\<lambda>r. x_id r = x_id x \<and> x_status r = EXT_PENDING) (extensionRequests (db w1))"
    using updateWhere_falsifies [of "\<lambda>r. x_id r = x_id x \<and> x_status r = EXT_PENDING" "decided e EXT_DENIED caller"]
    by (auto simp: d1 decideDb_def list_ex_iff decided_def)
  then show "fst (decideExtensionCommit e' sid i EXT_APPROVED nt' caller cid' (m, x) w1) = Inl ConflictException"
    using decideExtensionCommit_db(2) [OF m1] by simp
  show "\<exists>r \<in> set (milestones (db (snd (decideExtensionCommit e' sid i EXT_APPROVED nt' caller cid' (m, x) w1)))).
      m_id r = m_id m \<and> dueAt r = Some (proposedDueAt x)"
  proof (rule bexI [of _ "moveDue e' (proposedDueAt x) m"])
    show "moveDue e' (proposedDueAt x) m \<in> set (milestones (db (snd (decideExtensionCommit e' sid i EXT_APPROVED nt' caller cid' (m, x) w1))))"
      unfolding decideExtensionCommit_db(1) [OF m1] decideDb_def using m1 by (auto simp: in_set_updateWhere intro: bexI [of _ m])
  qed (simp add: moveDue_def)
qed

end
