(* ===== verification/Reconciliation.thy ===== *)
theory Reconciliation
  imports Shipments Job_Tracker
begin

text \<open>
  \<open>ReconciliationJob\<close> (\<open>src/src/modules/events/reconciliation.job.ts\<close>): once a week every ACTIVE shipment is compared with
  the contract, administrators are alerted about differences, and shipments that the contract has completed or
  cancelled are corrected. The specification is a function on a single shipment; the job refines it.
\<close>

section \<open>The job\<close>

definition RECONCILIATION_LOCK_TTL_MS :: int where
  "RECONCILIATION_LOCK_TTL_MS = 60 * 60 * 1000"

definition RECONCILIATION_LOCK_KEY :: string where
  "RECONCILIATION_LOCK_KEY = ''chainsettle:reconciliation:lock''"

fun statusName :: "shipmentStatus \<Rightarrow> string" where
  "statusName ACTIVE = ''ACTIVE''"
| "statusName COMPLETED = ''COMPLETED''"
| "statusName CANCELLED = ''CANCELLED''"

record drift =
  mismatchCount :: nat
  driftErrors :: "exn list"

text \<open>One shipment. \<open>ChainFails\<close> is a contract call that throws, which is recorded as an error of the run.\<close>

definition reconcileOne :: "env \<Rightarrow> address list \<Rightarrow> shipment \<Rightarrow> drift \<Rightarrow> drift act" where
  "reconcileOne e admins s acc = (case chainGetShipment e (s_id s) of
      ChainFails \<Rightarrow> ret (acc\<lparr>driftErrors := driftErrors acc @ [ExternalError]\<rparr>)
    | ChainNull \<Rightarrow> ret acc
    | ChainShipment st _ \<Rightarrow>
        (case statusMap st of
           None \<Rightarrow> ret acc
         | Some onChain \<Rightarrow>
             if onChain = s_status s then ret acc else
             andThen (forEach admins (\<lambda>a. ignore (notifyUser e a N_SYSTEM_ALERT ''Contract state drift detected''
               (JObj [(''shipmentId'', JStr (s_id s)), (''dbStatus'', JStr (statusName (s_status s))), (''onChainStatus'', JStr st)])))) (\<lambda>_.
             andThen (whenA (onChain = COMPLETED \<or> onChain = CANCELLED) (syncStatusFromChain e (s_id s))) (\<lambda>_.
             ret (acc\<lparr>mismatchCount := Suc (mismatchCount acc)\<rparr>)))))"

fun reconcileAll :: "env \<Rightarrow> address list \<Rightarrow> shipment list \<Rightarrow> drift \<Rightarrow> drift act" where
  "reconcileAll e admins [] acc = ret acc"
| "reconcileAll e admins (s # ss) acc = andThen (reconcileOne e admins s acc) (reconcileAll e admins ss)"

definition executeReconciliation :: "env \<Rightarrow> unit act" where
  "executeReconciliation e =
     andThen freshId (\<lambda>rid.
     andThen (modifyDb (\<lambda>d. d\<lparr>reconciliationRuns := reconciliationRuns d @ [\<lparr>rc_id = rid, rc_startedAt = now e,
        rc_completedAt = None, rc_checkedCount = 0, rc_mismatchCount = 0, rc_errors = []\<rparr>]\<rparr>)) (\<lambda>_.
     andThen (reads (\<lambda>w. filter (\<lambda>s. s_status s = ACTIVE) (shipments (db w)))) (\<lambda>active.
     andThen (reads (\<lambda>w. map stellarAddress (filter (\<lambda>u. u_role u = ADMIN) (users (db w))))) (\<lambda>admins.
     andThen (reconcileAll e admins active \<lparr>mismatchCount = 0, driftErrors = []\<rparr>) (\<lambda>acc.
     modifyDb (\<lambda>d. d\<lparr>reconciliationRuns := updateWhere (\<lambda>r. rc_id r = rid)
        (\<lambda>r. r\<lparr>rc_completedAt := Some (now e), rc_checkedCount := length active,
          rc_mismatchCount := mismatchCount acc, rc_errors := driftErrors acc\<rparr>) (reconciliationRuns d)\<rparr>))))))"

definition runReconciliation :: "env \<Rightarrow> bool \<Rightarrow> unit act" where
  "runReconciliation e hasRedis =
     (if hasRedis then runTrackedJob e False ''reconciliation''
        (withJobLock e RECONCILIATION_LOCK_KEY (randomUuid e) RECONCILIATION_LOCK_TTL_MS (executeReconciliation e))
      else executeReconciliation e)"

section \<open>Specification\<close>

text \<open>What the contract says about a shipment, and the shipment corrected by it.\<close>

definition onChain :: "env \<Rightarrow> string \<Rightarrow> (shipmentStatus \<times> int) option" where
  "onChain e sid = (case chainGetShipment e sid of
      ChainShipment st released \<Rightarrow>
        (case statusMap st of None \<Rightarrow> None
         | Some mapped \<Rightarrow> Some (mapped, case released of None \<Rightarrow> 0 | Some r \<Rightarrow> r))
    | _ \<Rightarrow> None)"

definition mirrored :: "env \<Rightarrow> shipment \<Rightarrow> shipment" where
  "mirrored e s = (case onChain e (s_id s) of
      Some (mapped, amount) \<Rightarrow> if fitsBigint amount then s\<lparr>s_status := mapped, releasedAmount := amount, s_updatedAt := now e\<rparr> else s
    | None \<Rightarrow> s)"

definition corrects :: "env \<Rightarrow> string \<Rightarrow> bool" where
  "corrects e sid \<longleftrightarrow> (case onChain e sid of Some (mapped, _) \<Rightarrow> mapped \<noteq> ACTIVE | None \<Rightarrow> False)"

definition reconciled :: "env \<Rightarrow> shipment \<Rightarrow> shipment" where
  "reconciled e s = (if s_status s = ACTIVE \<and> corrects e (s_id s) then mirrored e s else s)"

section \<open>Lemmas\<close>

lemma s_id_mirrored [simp]: "s_id (mirrored e s) = s_id s"
  by (auto simp: mirrored_def split: option.split)

lemma s_id_reconciled [simp]: "s_id (reconciled e s) = s_id s"
  by (simp add: reconciled_def)

lemma run_sync: "syncStatusFromChain e sid w = (Inr (), setShipments (updateWhere (\<lambda>r. s_id r = sid) (mirrored e)) w)"
proof -
  have none: "setShipments (updateWhere (\<lambda>r. s_id r = sid) (mirrored e)) w = w" if "\<And>r. s_id r = sid \<Longrightarrow> mirrored e r = r"
  proof -
    have "updateWhere (\<lambda>r. s_id r = sid) (mirrored e) rows = rows" for rows
      using that by (induction rows) auto
    then show ?thesis by (simp add: setShipments_def)
  qed
  show ?thesis
  proof (cases "onChain e sid")
    case None
    then show ?thesis using none
      by (auto simp: mirrored_def onChain_def syncStatusFromChain_def split: chainReply.splits option.splits)
  next
    case (Some ma)
    obtain mapped amount where ma: "ma = (mapped, amount)" by fastforce
    have sync: "syncStatusFromChain e sid w = attempt (require (fitsBigint amount) RuntimeError (ignore (updateShipment (now e) sid
        (\<lambda>s. s\<lparr>s_status := mapped, releasedAmount := amount\<rparr>)))) (\<lambda>_. ret ()) w"
      using Some ma by (auto simp: onChain_def syncStatusFromChain_def split: chainReply.splits option.splits)
    have upd: "updateWhere (\<lambda>r. s_id r = sid) (mirrored e) rows =
        updateWhere (\<lambda>r. s_id r = sid) (\<lambda>s. s\<lparr>s_status := mapped, releasedAmount := amount, s_updatedAt := now e\<rparr>) rows" if "fitsBigint amount" for rows
      using Some ma that by (intro updateWhere_cong) (auto simp: mirrored_def)
    have miss: "updateWhere (\<lambda>r. s_id r = sid) f (shipments (db w)) = shipments (db w)" if "findShipment sid w = None" for f
      using that by (intro updateWhere_none) (auto simp: findShipment_def find_None_iff)
    show ?thesis
    proof (cases "fitsBigint amount")
      case False
      then show ?thesis using none Some ma by (auto simp: sync mirrored_def attempt_def)
    next
      case True
      then show ?thesis
        by (cases "findShipment sid w") (simp_all add: sync attempt_def ignore_def run_updateShipment setShipments_def upd miss)
    qed
  qed
qed

lemma run_alerts:
  "\<exists>w1. forEach admins (\<lambda>a. ignore (notifyUser e a ty title data)) w = (Inr (), w1) \<and> db w1 = db w \<and> redis w1 = redis w"
proof (induction admins arbitrary: w)
  case (Cons a admins)
  show ?case using Cons.IH [of "w\<lparr>mail := snd (notifyMail e a ty title data w)\<rparr>"] by simp
qed simp

lemma run_reconcileOne:
  assumes "s_status s = ACTIVE"
  shows "\<exists>acc' w'. reconcileOne e admins s acc w = (Inr acc', w') \<and> redis w' = redis w \<and>
    db w' = (if corrects e (s_id s) then (db w)\<lparr>shipments := updateWhere (\<lambda>r. s_id r = s_id s) (mirrored e) (shipments (db w))\<rparr> else db w)"
proof (cases "onChain e (s_id s)")
  case None
  then show ?thesis
    by (auto simp: reconcileOne_def onChain_def corrects_def split: chainReply.splits option.splits)
next
  case (Some ma)
  then obtain st rel mapped where chain: "chainGetShipment e (s_id s) = ChainShipment st rel" "statusMap st = Some mapped" "fst ma = mapped"
    by (auto simp: onChain_def split: chainReply.splits option.splits)
  show ?thesis
  proof (cases "mapped = ACTIVE")
    case True
    then show ?thesis using chain Some assms by (cases ma) (simp add: reconcileOne_def corrects_def)
  next
    case False
    obtain w1 where 1: "forEach admins (\<lambda>a. ignore (notifyUser e a N_SYSTEM_ALERT ''Contract state drift detected''
        (JObj [(''shipmentId'', JStr (s_id s)), (''dbStatus'', JStr (statusName ACTIVE)), (''onChainStatus'', JStr st)]))) w = (Inr (), w1)"
        "db w1 = db w" "redis w1 = redis w"
      using run_alerts by blast
    have m: "mapped = COMPLETED \<or> mapped = CANCELLED" using False by (cases mapped) auto
    show ?thesis using chain Some assms False 1 m
      by (cases ma) (auto simp: reconcileOne_def corrects_def run_sync setShipments_def)
  qed
qed

lemma run_reconcileAll:
  assumes "\<forall>s \<in> set ss. s_status s = ACTIVE"
  shows "\<exists>acc' w'. reconcileAll e admins ss acc w = (Inr acc', w') \<and> redis w' = redis w \<and>
    db w' = (db w)\<lparr>shipments := fold (\<lambda>s. updateWhere (\<lambda>r. s_id r = s_id s) (mirrored e))
      (filter (\<lambda>s. corrects e (s_id s)) ss) (shipments (db w))\<rparr>"
  using assms
proof (induction ss arbitrary: acc w)
  case (Cons s ss)
  obtain acc1 w1 where 1: "reconcileOne e admins s acc w = (Inr acc1, w1)" "redis w1 = redis w"
      "db w1 = (if corrects e (s_id s) then (db w)\<lparr>shipments := updateWhere (\<lambda>r. s_id r = s_id s) (mirrored e) (shipments (db w))\<rparr> else db w)"
    using run_reconcileOne [of s e admins acc w] Cons.prems by auto
  obtain acc2 w2 where "reconcileAll e admins ss acc1 w1 = (Inr acc2, w2)" "redis w2 = redis w1"
      "db w2 = (db w1)\<lparr>shipments := fold (\<lambda>s. updateWhere (\<lambda>r. s_id r = s_id s) (mirrored e))
        (filter (\<lambda>s. corrects e (s_id s)) ss) (shipments (db w1))\<rparr>"
    using Cons.IH [of acc1 w1] Cons.prems by auto
  with 1 show ?case by (cases "corrects e (s_id s)") simp_all
qed simp

lemma fold_mirror:
  assumes "distinct (map s_id sel)"
  shows "fold (\<lambda>s r. if s_id r = s_id s then mirrored e r else r) sel r = (if s_id r \<in> s_id ` set sel then mirrored e r else r)"
  using assms by (induction sel arbitrary: r) (auto simp: image_iff)

lemma execute_shipments:
  assumes dist: "distinct (map s_id (shipments (db w)))"
  shows "\<exists>w'. executeReconciliation e w = (Inr (), w') \<and> shipments (db w') = map (reconciled e) (shipments (db w))"
proof -
  let ?rows = "shipments (db w)" and ?act = "filter (\<lambda>s. s_status s = ACTIVE) (shipments (db w))"
  let ?sel = "filter (\<lambda>s. corrects e (s_id s)) ?act"
  have sel: "distinct (map s_id ?sel)" using dist by (simp add: distinct_map_filter)
  have "fold (\<lambda>s r. if s_id r = s_id s then mirrored e r else r) ?sel r = reconciled e r" if "r \<in> set ?rows" for r
    unfolding fold_mirror [OF sel] reconciled_def using that dist by (auto simp: distinct_map dest: inj_onD)
  then have rows: "fold (\<lambda>s. updateWhere (\<lambda>r. s_id r = s_id s) (mirrored e)) ?sel ?rows = map (reconciled e) ?rows"
    unfolding fold_updateWhere by simp
  let ?run = "\<lparr>rc_id = nextId (db w), rc_startedAt = now e, rc_completedAt = None, rc_checkedCount = 0, rc_mismatchCount = 0, rc_errors = []\<rparr>"
  let ?w1 = "w\<lparr>db := (db w)\<lparr>nextId := Suc (nextId (db w)), reconciliationRuns := reconciliationRuns (db w) @ [?run]\<rparr>\<rparr>"
  let ?admins = "map stellarAddress (filter (\<lambda>u. u_role u = ADMIN) (users (db w)))"
  obtain acc w2 where "reconcileAll e ?admins ?act \<lparr>mismatchCount = 0, driftErrors = []\<rparr> ?w1 = (Inr acc, w2)"
      "shipments (db w2) = map (reconciled e) ?rows"
    using run_reconcileAll [of ?act e ?admins "\<lparr>mismatchCount = 0, driftErrors = []\<rparr>" ?w1] rows by auto
  then show ?thesis by (simp add: executeReconciliation_def)
qed

section \<open>Properties\<close>

text \<open>C23: reconciliation refines its specification. Unless another run holds the lock, a run changes the table of shipments
  exactly as the function \<open>reconciled\<close> prescribes for each shipment on its own: an ACTIVE shipment that the contract reports as
  completed or cancelled takes over the contract's status and released amount, every other shipment is untouched; while
  another run holds the lock, no shipment changes.\<close>

theorem reconciliation_refines_spec:
  assumes "distinct (map s_id (shipments (db w)))"
  shows "shipments (db (snd (runReconciliation e hasRedis w))) =
    (if hasRedis \<and> existsKey (now e) RECONCILIATION_LOCK_KEY (redis w) then shipments (db w)
     else map (reconciled e) (shipments (db w)))"
proof (cases "hasRedis \<and> lookupKey (now e) (redis w) RECONCILIATION_LOCK_KEY \<noteq> None")
  case True
  then show ?thesis by (auto simp: runReconciliation_def jobLock_db existsKey_def)
next
  case False
  have "shipments (db (snd (executeReconciliation e v))) = map (reconciled e) (shipments (db v))" if "db v = db w" for v
    using execute_shipments [of v e] that assms by auto
  with False show ?thesis by (auto simp: runReconciliation_def jobLock_db existsKey_def)
qed

definition drifted0 :: world where
  "drifted0 = emptyWorld\<lparr>db := emptyDb\<lparr>shipments := [shipment0 ''S'', shipment0 ''T'']\<rparr>\<rparr>"

theorem reconciliation_refines_spec_witness:
  "map s_status (shipments (db (snd (runReconciliation
     (env0\<lparr>chainGetShipment := (\<lambda>sid. if sid = ''S'' then ChainShipment ''Completed'' (Some 1000) else ChainFails)\<rparr>) True drifted0))))
     = [COMPLETED, ACTIVE]"
proof -
  let ?e = "env0\<lparr>chainGetShipment := (\<lambda>sid. if sid = ''S'' then ChainShipment ''Completed'' (Some 1000) else ChainFails)\<rparr>"
  have "distinct (map s_id (shipments (db drifted0)))" by (simp add: drifted0_def concrete_defs)
  from reconciliation_refines_spec [OF this, of ?e True] show ?thesis
    by (simp add: drifted0_def concrete_defs existsKey_def lookupKey_def reconciled_def corrects_def onChain_def mirrored_def
        statusMap_def fitsBigint_def)
qed

end
