(* ===== verification/Service.thy ===== *)
theory Service
  imports Shipment_Edits Deadlines Events Reconciliation
begin

text \<open>
  The backend as a whole: every request of the shipment, approval and milestone services, every event of the contract,
  and the scheduled jobs on milestones, as the steps of one system on the database. Two facts hold over every sequence of
  steps: the constraints of the schema, and the terms of every escrow.
\<close>

section \<open>Requests, events and jobs\<close>

datatype request =
    CreateShipment createDto
  | CloneShipment string address string string
  | ReplaceArbiter string address address
  | ArbiterAccept string address
  | ArbiterDecline string address
  | CancelShipment string address string
  | ArchiveShipment string address
  | UnarchiveShipment string address
  | ForceSync string uuid address
  | UpdateShipment string address updateDto "string option"
  | ReplaceTags string "string list option" "address option" "uuid option" "string option"
  | AddTag string address string
  | RemoveTag string address string
  | AddNote string uuid string
  | FavoriteShipment string uuid
  | UnfavoriteShipment string uuid
  | WatchShipment string address
  | UnwatchShipment string address
  | CreateTracking string address trackingDto
  | Approve string address "string option"
  | SubmitProof string int address upload
  | ConfirmMilestone string int address string string
  | BulkConfirm string address "bulkItem list"
  | RejectProof string int address string
  | BulkReject string address "int list" string
  | SubmitEvidence string int address string "upload option"
  | AppendMilestone string address appendDto
  | RebalancePlan string address "(int \<times> int) list"
  | RemoveMilestone string int address "uuid option"
  | RequestExtension string int time string address "uuid option"
  | DecideExtension string int uuid extensionRequestStatus json address "uuid option"
  | AddChecklistItem string int string "bool option" address "uuid option"
  | UpdateChecklistItem string int uuid bool address "uuid option"
  | RemoveChecklistItem string int uuid address "uuid option"
  | ChainEvent bool rawEvent
  | QueueFailedEvent rawEvent exn
  | RetryFailedEvents bool
  | RetryFailedEvent uuid
  | OverdueJob bool
  | EscalationJob bool
  | ReconciliationJob bool

fun serve :: "env \<Rightarrow> request \<Rightarrow> unit act" where
  "serve e (CreateShipment dto) = ignore (create e dto)"
| "serve e (CloneShipment sid caller amount tx) = ignore (clone e sid caller amount tx)"
| "serve e (ReplaceArbiter sid caller a) = ignore (replaceArbiter e sid caller a)"
| "serve e (ArbiterAccept sid caller) = ignore (arbiterAccept e sid caller)"
| "serve e (ArbiterDecline sid caller) = ignore (arbiterDecline e sid caller)"
| "serve e (CancelShipment sid caller tx) = ignore (cancel e sid caller tx)"
| "serve e (ArchiveShipment sid caller) = ignore (archive e sid caller)"
| "serve e (UnarchiveShipment sid caller) = ignore (unarchive e sid caller)"
| "serve e (ForceSync sid uid a) = ignore (adminForceSync e sid uid a)"
| "serve e (UpdateShipment sid caller dto m) = ignore (update e sid caller dto m)"
| "serve e (ReplaceTags sid ts caller uid m) = ignore (replaceTags e sid ts caller uid m)"
| "serve e (AddTag sid caller t) = ignore (addTag e sid caller t)"
| "serve e (RemoveTag sid caller t) = ignore (removeTag sid caller t)"
| "serve e (AddNote sid uid body) = ignore (addNote e sid uid body)"
| "serve e (FavoriteShipment sid uid) = favoriteShipment sid uid"
| "serve e (UnfavoriteShipment sid uid) = unfavoriteShipment sid uid"
| "serve e (WatchShipment sid a) = ignore (watchShipment sid a)"
| "serve e (UnwatchShipment sid a) = unwatchShipment sid a"
| "serve e (CreateTracking sid caller dto) = ignore (createTracking e sid caller dto)"
| "serve e (Approve sid a note) = ignore (approve e sid a note)"
| "serve e (SubmitProof sid i caller file) = ignore (submitProof e sid i caller file)"
| "serve e (ConfirmMilestone sid i caller tx paid) = ignore (confirmFromApi e sid i caller tx paid)"
| "serve e (BulkConfirm sid caller items) = ignore (bulkConfirmFromApi e sid caller items)"
| "serve e (RejectProof sid i caller reason) = ignore (rejectProof e sid i caller reason)"
| "serve e (BulkReject sid caller is reason) = ignore (bulkRejectFromApi e sid caller is reason)"
| "serve e (SubmitEvidence sid i a body file) = ignore (submitDisputeEvidence e sid i a body file)"
| "serve e (AppendMilestone sid caller dto) = ignore (appendMilestone e sid caller dto)"
| "serve e (RebalancePlan sid caller us) = ignore (rebalance e sid caller us)"
| "serve e (RemoveMilestone sid i caller uid) = ignore (removeMilestone e sid i caller uid)"
| "serve e (RequestExtension sid i t reason caller uid) = ignore (requestExtension e sid i t reason caller uid)"
| "serve e (DecideExtension sid i x st note caller uid) = ignore (decideExtension e sid i x st note caller uid)"
| "serve e (AddChecklistItem sid i label req caller uid) = ignore (addChecklistItem e sid i label req caller uid)"
| "serve e (UpdateChecklistItem sid i c done caller uid) = ignore (updateChecklistItem e sid i c done caller uid)"
| "serve e (RemoveChecklistItem sid i c caller uid) = ignore (removeChecklistItem sid i c caller uid)"
| "serve e (ChainEvent publisher ev) = processEvent e publisher ev"
| "serve e (QueueFailedEvent ev x) = saveToDlq e ev x"
| "serve e (RetryFailedEvents leader) = retryFailedEvents e leader"
| "serve e (RetryFailedEvent i) = retryFailedEventById e i"
| "serve e (OverdueJob hasRedis) = checkAndNotifyOverdue e hasRedis"
| "serve e (EscalationJob hasRedis) = checkAndEscalateDisputes e hasRedis"
| "serve e (ReconciliationJob hasRedis) = runReconciliation e hasRedis"

definition serveStep :: "env \<times> request \<Rightarrow> world \<Rightarrow> world" where
  "serveStep = (\<lambda>(e, r) w. snd (serve e r w))"

section \<open>What every step keeps\<close>

text \<open>The terms of an escrow, and the terms of all shipments of a database.\<close>

definition terms :: "shipment \<Rightarrow> address \<times> address \<times> address \<times> address \<times> int \<times> nat" where
  "terms s = (buyerAddress s, supplierAddress s, logisticsAddress s, tokenAddress s, totalAmount s, tokenDecimals s)"

definition termsOf :: "db \<Rightarrow> (string \<times> address \<times> address \<times> address \<times> address \<times> int \<times> nat) set" where
  "termsOf d = (\<lambda>s. (s_id s, terms s)) ` set (shipments d)"

definition serviceInv :: "(string \<times> address \<times> address \<times> address \<times> address \<times> int \<times> nat) set \<Rightarrow> world \<Rightarrow> bool" where
  "serviceInv K w \<longleftrightarrow> wf_db (db w) \<and> K \<subseteq> termsOf (db w)"

named_theorems inv_intros \<open>actions that keep the constraints of the schema and the terms of the escrows\<close>

lemma inv_leaves: "leaves db m \<Longrightarrow> keeps (serviceInv K) m"
  by (simp add: leaves_def keeps_def serviceInv_def)

lemma inv_modifyDb:
  assumes "\<And>d. wf_db d \<Longrightarrow> wf_db (f d)" and "\<And>d. shipments (f d) = shipments d"
  shows "keeps (serviceInv K) (modifyDb f)"
  using assms by (simp add: keeps_def serviceInv_def termsOf_def)

lemma wf_other_tables:
  assumes "wf_db d" and "shipments d' = shipments d" "milestones d' = milestones d" "approvals d' = approvals d"
    "chainEvents d' = chainEvents d" "failedEvents d' = failedEvents d" "nextId d \<le> nextId d'"
  shows "wf_db d'"
  using assms by (force simp: wf_db_def)

lemma wf_mapMilestones:
  assumes "wf_db d" and "\<And>m. m_id (f m) = m_id m" "\<And>m. mKey (f m) = mKey m"
  shows "wf_db (d\<lparr>milestones := updateWhere p f (milestones d)\<rparr>)"
  using assms by (simp add: wf_db_def map_updateWhere ball_updateWhere)

lemma inv_table:
  assumes "\<And>d. shipments (f d) = shipments d \<and> milestones (f d) = milestones d \<and> approvals (f d) = approvals d \<and>
    chainEvents (f d) = chainEvents d \<and> failedEvents (f d) = failedEvents d \<and> nextId d \<le> nextId (f d)"
  shows "keeps (serviceInv K) (modifyDb f)"
  using assms by (intro inv_modifyDb) (auto intro: wf_other_tables)

lemma inv_freshId [inv_intros]: "keeps (serviceInv K) freshId"
  unfolding freshId_def by (rule keepsI) (auto simp: serviceInv_def termsOf_def elim: wf_other_tables)

lemma inv_updateMilestone:
  assumes "\<And>m. m_id (f m) = m_id m" "\<And>m. mKey (f m) = mKey m"
  shows "keeps (serviceInv K) (updateMilestone t sid i f)" "keeps (serviceInv K) (updateMilestoneById t mid f)"
  unfolding updateMilestone_def updateMilestoneById_def
  by (intro keeps_intros inv_modifyDb wf_mapMilestones; simp add: assms)+

lemma inv_mapShipments:
  assumes "\<And>s. s_id (f s) = s_id s" "\<And>s. terms (f s) = terms s"
  shows "keeps (serviceInv K) (modifyDb (\<lambda>d. d\<lparr>shipments := updateWhere p f (shipments d)\<rparr>))"
proof
  fix w assume w: "serviceInv K w"
  let ?rows = "updateWhere p f (shipments (db w))"
  have "map (\<lambda>s. (s_id s, terms s)) ?rows = map (\<lambda>s. (s_id s, terms s)) (shipments (db w))"
    by (rule map_updateWhere) (simp add: assms)
  then have "(\<lambda>s. (s_id s, terms s)) ` set ?rows = termsOf (db w)"
    unfolding termsOf_def by (simp flip: set_map)
  moreover have ids: "map s_id ?rows = map s_id (shipments (db w))"
    by (rule map_updateWhere) (simp add: assms)
  have "(\<exists>s \<in> set ?rows. s_id s = k) \<longleftrightarrow> k \<in> set (map s_id ?rows)" for k by auto
  then have "(\<exists>s \<in> set ?rows. s_id s = k) \<longleftrightarrow> (\<exists>s \<in> set (shipments (db w)). s_id s = k)" for k
    unfolding ids by auto
  ultimately show "serviceInv K (snd (modifyDb (\<lambda>d. d\<lparr>shipments := updateWhere p f (shipments d)\<rparr>) w))"
    using w ids by (simp add: serviceInv_def wf_db_def termsOf_def)
qed

lemma inv_updateShipment:
  assumes "\<And>s. s_id (f s) = s_id s" "\<And>s. terms (f s) = terms s"
  shows "keeps (serviceInv K) (updateShipment t sid f)"
  unfolding updateShipment_def by (intro keeps_intros inv_mapShipments) (use assms in \<open>simp_all add: terms_def\<close>)

lemma keeps_transaction [inv_intros]: "keeps P m \<Longrightarrow> keeps P (transaction m)"
  by (force simp: keeps_def transaction_def split: prod.splits sum.splits)

lemma inv_tracked [inv_intros]: "keeps (serviceInv K) m \<Longrightarrow> keeps (serviceInv K) (runTrackedJob e b name m)"
  by (simp add: keeps_def serviceInv_def)

lemma inv_jobLock [inv_intros]:
  assumes "keeps (serviceInv K) m"
  shows "keeps (serviceInv K) (withJobLock e key token ttl m)"
proof -
  have "keeps (serviceInv K) (lockCall f)" for f :: "keyspace \<Rightarrow> 'a \<times> keyspace" by (rule inv_leaves) (simp add: leaves_def)
  moreover have "keeps (serviceInv K) (finallyDo m (lockCall f))" for f :: "keyspace \<Rightarrow> unit \<times> keyspace"
    using assms by (auto simp: keeps_def run_finallyDo serviceInv_def)
  moreover have "keeps (serviceInv K) (lockCall f)" for f :: "keyspace \<Rightarrow> bool \<times> keyspace" by (rule inv_leaves) (simp add: leaves_def)
  ultimately show ?thesis unfolding withJobLock_def by (intro keeps_intros)
qed

text \<open>Side channels touch nothing of the database.\<close>

lemma inv_side_channels [inv_intros]:
  "keeps (serviceInv K) (notifyUser e a ty title data)" "keeps (serviceInv K) (notifyWatchers e sid ty title data)"
  "keeps (serviceInv K) (auditRecord x)" "keeps (serviceInv K) (count mt)" "keeps (serviceInv K) (invalidateUserCache a)"
  "keeps (serviceInv K) (arbiterInvite e a sid)" "keeps (serviceInv K) (announceCreated e dto)"
  "keeps (serviceInv K) (publish out)" "keeps (serviceInv K) (recordJobSkipped e b name)"
  by (auto intro!: inv_leaves leaves_intros simp: leaves_def publish_def withMail_def recordJobSkipped_def)

lemma inv_readOnly: "readOnly m \<Longrightarrow> keeps (serviceInv K) m"
  by (simp add: leaves_def keeps_def)

lemmas inv_reading [inv_intros] = inv_readOnly [OF findOne_readOnly] inv_readOnly [OF findOneWithShipment_readOnly]
  inv_readOnly [OF assertQuorum_readOnly] inv_readOnly [OF assertIfMatch_readOnly] inv_readOnly [OF updateCheck_readOnly]
  inv_readOnly [OF creationGates_readOnly] inv_readOnly [OF mergeRequest_readOnly] inv_readOnly [OF decideExtensionRead_readOnly]

section \<open>Shipments\<close>

lemma inv_insertShipment [inv_intros]: "keeps (serviceInv K) (insertShipment e s ms)"
proof (rule atomic_keepsI [OF atomic_insertShipment])
  fix w u w' assume w: "serviceInv K w" and run: "insertShipment e s ms w = (Inr u, w')"
  then obtain d' where d': "insertShipment e s ms w = (Inr (), w\<lparr>db := d'\<rparr>)" "w' = w\<lparr>db := d'\<rparr>"
    by (auto simp: insertShipment_success_iff)
  from w insertShipment_effect [OF d'(1)] show "serviceInv K w'"
    by (auto simp: d'(2) serviceInv_def termsOf_def)
qed

lemmas inv_writes = inv_updateShipment inv_updateMilestone inv_mapShipments

lemma inv_create [inv_intros]: "keeps (serviceInv K) (create e dto)"
  unfolding create_def Let_def case_prod_beta by (intro keeps_intros inv_intros inv_writes)

lemma inv_clone [inv_intros]: "keeps (serviceInv K) (clone e sid caller amount tx)"
  unfolding clone_def Let_def by (intro keeps_intros inv_intros inv_writes)

lemma inv_sync [inv_intros]: "keeps (serviceInv K) (syncStatusFromChain e sid)"
proof -
  have "keeps (serviceInv K) (updateShipment (now e) sid (\<lambda>s. s\<lparr>s_status := st, releasedAmount := a\<rparr>))" for st a
    by (rule inv_updateShipment) (simp_all add: terms_def)
  then show ?thesis
    unfolding syncStatusFromChain_def Let_def by (cases "chainGetShipment e sid") (auto intro!: keeps_intros)
qed

lemma inv_shipment_requests [inv_intros]:
  "keeps (serviceInv K) (replaceArbiter e sid caller arbiter)" "keeps (serviceInv K) (arbiterAnswer e st ty title sid caller)"
  "keeps (serviceInv K) (cancel e sid caller tx)" "keeps (serviceInv K) (archive e sid caller)"
  "keeps (serviceInv K) (unarchive e sid caller)" "keeps (serviceInv K) (adminForceSync e sid uid a)"
  unfolding replaceArbiter_def arbiterAnswer_def cancel_def archive_def unarchive_def adminForceSync_def
  by (intro keeps_intros inv_intros inv_writes; simp add: terms_def)+

lemma inv_conditionalUpdate:
  assumes "\<And>s. s_id (f s) = s_id s" "\<And>s. terms (f s) = terms s"
  shows "keeps (serviceInv K) (conditionalUpdate e s m f)"
  unfolding conditionalUpdate_def by (intro keeps_intros inv_updateShipment) (simp_all add: assms)

lemma inv_edits [inv_intros]:
  "keeps (serviceInv K) (update e sid caller dto m)" "keeps (serviceInv K) (replaceTags e sid ts caller' uid m)"
  "keeps (serviceInv K) (addTag e sid caller t)" "keeps (serviceInv K) (removeTag sid caller t)"
  unfolding update_def updateCommit_def replaceTags_def addTag_def removeTag_def Let_def
  by (intro keeps_intros inv_intros inv_conditionalUpdate inv_writes; simp add: terms_def applyUpdate_def)+

lemma inv_extras [inv_intros]:
  "keeps (serviceInv K) (addNote e sid uid body)" "keeps (serviceInv K) (favoriteShipment sid uid)"
  "keeps (serviceInv K) (unfavoriteShipment sid uid)" "keeps (serviceInv K) (watchShipment sid a)"
  "keeps (serviceInv K) (unwatchShipment sid a)" "keeps (serviceInv K) (createTracking e sid caller td)"
  unfolding addNote_def favoriteShipment_def unfavoriteShipment_def watchShipment_def unwatchShipment_def
    createTracking_def notifyBoth_def Let_def
  by (intro keeps_intros inv_intros inv_table; simp)+

section \<open>Approvals and milestones\<close>

lemma inv_approve [inv_intros]: "keeps (serviceInv K) (approve e sid addr note)"
proof (rule atomic_keepsI)
  show "atomic (approve e sid addr note)" unfolding approve_def by (intro atomic_intros atomic_total total_intros)
next
  fix w v w' assume w: "serviceInv K w" and run: "approve e sid addr note w = (Inr v, w')"
  let ?new = "\<lparr>ap_shipmentId = sid, approverAddress = addr, ap_note = note, ap_createdAt = now e\<rparr>"
  from run have "find (\<lambda>a. ap_shipmentId a = sid \<and> approverAddress a = addr) (approvals (db w)) = None"
    and w': "w' = w\<lparr>db := (db w)\<lparr>approvals := approvals (db w) @ [?new]\<rparr>\<rparr>"
    by (auto simp: approve_def success_iffs)
  then have "(sid, addr) \<notin> (\<lambda>a. (ap_shipmentId a, approverAddress a)) ` set (approvals (db w))"
    by (auto simp: find_None_iff_ball)
  with w show "serviceInv K w'" by (auto simp: w' serviceInv_def termsOf_def wf_db_def)
qed

lemma inv_appendMilestone [inv_intros]: "keeps (serviceInv K) (appendMilestone e sid caller dto)"
proof (rule atomic_keepsI [OF atomic_appendMilestone])
  fix w m w' assume w: "serviceInv K w" and "appendMilestone e sid caller dto w = (Inr m, w')"
  note eff = appendMilestone_effect [OF this(2)]
  then show "serviceInv K w'"
    using w append_keeps_wf [of "db w" sid] by (auto simp: serviceInv_def termsOf_def findShipment_None_iff)
qed

lemma inv_marks [inv_intros]:
  "keeps (serviceInv K) (markProofSubmitted e sid i hash)" "keeps (serviceInv K) (markConfirmed e sid i paid)"
  "keeps (serviceInv K) (markDisputed e sid i)" "keeps (serviceInv K) (markResolved e sid i ok amount)"
  unfolding markProofSubmitted_def markConfirmed_def markDisputed_def markResolved_def Let_def
  by (intro keeps_intros inv_intros inv_updateMilestone; simp add: confirmRow_def)+

lemma inv_notices [inv_intros]:
  "keeps (serviceInv K) (paymentReleasedNotice e s i tx paid)" "keeps (serviceInv K) (proofRejectedNotice e s reason i)"
  unfolding paymentReleasedNotice_def proofRejectedNotice_def by (intro keeps_intros inv_intros)+

lemma inv_batches [inv_intros]:
  "keeps (serviceInv K) (confirmBatch e sid items amounts)" "keeps (serviceInv K) (settleBatch e sid s items)"
  unfolding confirmBatch_def settleBatch_def case_prod_beta
  by (intro keeps_intros inv_intros inv_updateMilestone; simp add: confirmRow_def)+

lemma inv_milestone_requests [inv_intros]:
  "keeps (serviceInv K) (submitProof e sid i caller file)" "keeps (serviceInv K) (confirmFromApi e sid i caller tx paid)"
  "keeps (serviceInv K) (bulkConfirmFromApi e sid caller items)" "keeps (serviceInv K) (rejectProof e sid i caller reason)"
  "keeps (serviceInv K) (bulkRejectFromApi e sid caller is reason)" "keeps (serviceInv K) (submitDisputeEvidence e sid i a body upl)"
  "keeps (serviceInv K) (rebalance e sid caller us)" "keeps (serviceInv K) (removeMilestone e sid i caller uid)"
  unfolding submitProof_def addProofSubmission_def confirmFromApi_def bulkConfirmFromApi_def rejectProof_def bulkRejectFromApi_def
    submitDisputeEvidence_def rebalance_def removeMilestone_def Let_def case_prod_beta
  by (intro keeps_intros inv_intros inv_updateMilestone inv_table; simp add: rejectRow_def)+

section \<open>Events and jobs\<close>

lemma inv_saveRawEvent [inv_intros]: "keeps (serviceInv K) (saveRawEvent name ev payload)"
proof
  fix w assume w: "serviceInv K w"
  then have "(orEmpty (ev_txHash ev), name) \<notin> (\<lambda>r. (ce_txHash r, ce_eventName r)) ` set (chainEvents (db w))"
    if "\<not> (\<exists>r \<in> set (chainEvents (db w)). ce_txHash r = orEmpty (ev_txHash ev) \<and> ce_eventName r = name)"
    using that by auto
  with w show "serviceInv K (snd (saveRawEvent name ev payload w))"
    by (auto simp: saveRawEvent_def Let_def serviceInv_def termsOf_def wf_db_def)
qed

lemma inv_saveToDlq [inv_intros]: "keeps (serviceInv K) (saveToDlq e ev x)"
proof
  fix w assume w: "serviceInv K w"
  let ?key = "(orEmpty (ev_txHash ev), extractEventName ev)"
  have new: "?key \<notin> (\<lambda>r. (fe_txHash r, fe_eventName r)) ` set (failedEvents (db w))"
    if "\<not> (\<exists>r \<in> set (failedEvents (db w)). fe_txHash r = fst ?key \<and> fe_eventName r = snd ?key)"
    using that by auto
  have "nextId (db w) \<notin> fe_id ` set (failedEvents (db w))" using w by (auto simp: serviceInv_def wf_db_def)
  with w new show "serviceInv K (snd (saveToDlq e ev x w))"
    by (auto simp: saveToDlq_def Let_def serviceInv_def termsOf_def wf_db_def map_updateWhere ball_updateWhere less_Suc_eq)
qed

lemma inv_updateFailed [inv_intros]:
  assumes "\<And>r. fe_id (f r) = fe_id r" "\<And>r. fe_txHash (f r) = fe_txHash r" "\<And>r. fe_eventName (f r) = fe_eventName r"
  shows "keeps (serviceInv K) (updateFailed i f)"
  unfolding updateFailed_def
  by (intro keeps_intros inv_modifyDb) (auto simp: wf_db_def map_updateWhere ball_updateWhere assms)

lemma inv_handlers [inv_intros]:
  "keeps (serviceInv K) (handleProofSubmitted e payload)" "keeps (serviceInv K) (handleMilestoneConfirmed e payload)"
  "keeps (serviceInv K) (handleDisputeRaised e payload)" "keeps (serviceInv K) (handleDisputeResolved e payload)"
  "keeps (serviceInv K) (handleShipmentCancelled e payload tx)"
  unfolding handleProofSubmitted_def handleMilestoneConfirmed_def handleDisputeRaised_def handleDisputeResolved_def
    handleShipmentCancelled_def markAt_def Let_def
  by (intro keeps_intros inv_intros inv_writes inv_leaves [OF leaves_db_confirmedNotices]; simp add: terms_def)+

lemma inv_executeHandler [inv_intros]: "keeps (serviceInv K) (executeHandler e name payload tx)"
  unfolding executeHandler_def by (intro keeps_intros inv_intros)

lemma inv_graphql [inv_intros]: "keeps (serviceInv K) (publishGraphqlUpdate b payload)"
  unfolding publishGraphqlUpdate_def publishShipment_def Let_def by (intro keeps_intros inv_intros)

lemma inv_alertAdmins [inv_intros]: "keeps (serviceInv K) (alertAdmins e fe)"
  unfolding alertAdmins_def by (intro keeps_intros inv_intros)

lemma inv_processing [inv_intros]:
  "keeps (serviceInv K) (processEvent e b ev)" "keeps (serviceInv K) (retryFailedEventById e i)" "keeps (serviceInv K) (retryOne e fe)"
  unfolding processEvent_def retryFailedEventById_def retryOne_def Let_def by (intro keeps_intros inv_intros; simp)+

lemma inv_retryFailedEvents [inv_intros]: "keeps (serviceInv K) (retryFailedEvents e leader)"
  unfolding retryFailedEvents_def by (intro keeps_intros inv_intros)

lemma inv_extensions [inv_intros]:
  "keeps (serviceInv K) (requestExtension e sid i t reason caller uid)" "keeps (serviceInv K) (decideExtension e sid i x st note caller uid)"
  "keeps (serviceInv K) (addChecklistItem e sid i label req caller uid)" "keeps (serviceInv K) (updateChecklistItem e sid i c b caller uid)"
  "keeps (serviceInv K) (removeChecklistItem sid i c caller uid)"
  unfolding requestExtension_def insertExtension_def decideExtension_def decideExtensionCommit_def addChecklistItem_def
    updateChecklistItem_def removeChecklistItem_def findItem_def Let_def case_prod_beta
  by (intro keeps_intros inv_intros inv_updateMilestone inv_table; simp)+

lemma inv_notifyParties [inv_intros]:
  assumes "\<And>m. m_id (f m) = m_id m" "\<And>m. mKey (f m) = mKey m"
  shows "keeps (serviceInv K) (notifyParties e title n b f m)"
  unfolding notifyParties_def overdueNotice_def by (intro keeps_intros inv_intros inv_updateMilestone) (simp_all add: assms)

lemma inv_milestone_jobs [inv_intros]:
  "keeps (serviceInv K) (checkAndNotifyOverdue e b)" "keeps (serviceInv K) (checkAndEscalateDisputes e b)"
  unfolding checkAndNotifyOverdue_def checkOverdue_def notifyOverdue_def notifyEscalation_def checkAndEscalateDisputes_def
    escalateDisputes_def escalate_def Let_def
  by (intro keeps_intros inv_intros inv_updateMilestone; simp)+

lemma inv_reconciliation [inv_intros]: "keeps (serviceInv K) (runReconciliation e b)"
proof -
  have one: "keeps (serviceInv K) (reconcileOne e admins s acc)" for admins s acc
    unfolding reconcileOne_def by (cases "chainGetShipment e (s_id s)") (auto intro!: keeps_intros inv_intros)
  have all: "keeps (serviceInv K) (reconcileAll e admins ss acc)" for admins ss acc
    by (induction ss arbitrary: acc) (auto simp only: reconcileAll.simps intro!: keeps_intros one)
  show ?thesis unfolding runReconciliation_def executeReconciliation_def
    by (intro keeps_intros inv_intros inv_table all; simp)
qed

section \<open>The whole service\<close>

lemma inv_serve: "keeps (serviceInv K) (serve e r)"
  by (cases r) (simp_all add: keeps_ignore inv_intros arbiterAccept_def arbiterDecline_def)

interpretation service: step_system serveStep "serviceInv K"
proof
  fix w :: world and l :: "env \<times> request"
  assume "serviceInv K w"
  then show "serviceInv K (serveStep l w)" by (cases l) (simp add: serveStep_def keepsD [OF inv_serve])
qed





end
