(* ===== verification/Auth.thy ===== *)
theory Auth
  imports Kyc
begin

text \<open>
  \<open>AuthService\<close>, \<open>SessionService\<close> and \<open>JwtStrategy\<close> (\<open>src/src/modules/auth/\<close>): sign-in with a signed nonce, JWT
  sessions and their revocation, account (de)activation, impersonation, profiles, and the verification of
  e-mail addresses and phone numbers. The JWT library and the signature check of the Stellar SDK are
  parameters; the random parts of nonces, one-time codes and session identifiers are arguments or part of the environment.
\<close>

section \<open>Tokens\<close>

text \<open>The payloads the service signs; a field that is not part of a payload is \<open>None\<close> or \<open>False\<close>.\<close>

record claims =
  sub :: uuid
  cl_stellarAddress :: "address option"
  cl_role :: "userRole option"
  jti :: "string option"
  cl_email :: "string option"
  isImpersonation :: bool
  impersonatorAdminId :: "uuid option"

text \<open>
  The JWT library: \<open>signJwt t ttl c\<close> is the token signed at \<open>t\<close> that lives for \<open>ttl\<close> seconds, and
  \<open>verifyJwt t s\<close> the payload of a token with a good signature that has not expired at \<open>t\<close>.
\<close>

record jwtLib =
  signJwt :: "time \<Rightarrow> int \<Rightarrow> claims \<Rightarrow> string"
  verifyJwt :: "time \<Rightarrow> string \<Rightarrow> claims option"

definition uuidText :: "uuid \<Rightarrow> string" where
  "uuidText i = digits i"

section \<open>SessionService\<close>

definition SESSION_SET_PREFIX :: string where
  "SESSION_SET_PREFIX = ''chainsettle:sessions:''"

definition BLOCKLIST_PREFIX :: string where
  "BLOCKLIST_PREFIX = ''chainsettle:blocklist:''"

definition isDigit :: "char \<Rightarrow> bool" where
  "isDigit c \<longleftrightarrow> 48 \<le> (of_char c :: nat) \<and> (of_char c :: nat) \<le> 57"

text \<open>\<open>/^(\d+)([smhd]?)$/\<close>, with seven days when it does not match.\<close>

definition parseExpiry :: "string \<Rightarrow> int" where
  "parseExpiry expiry =
     (let ds = takeWhile isDigit expiry; unit = dropWhile isDigit expiry;
          value = (case readNat 0 ds of None \<Rightarrow> 0 | Some n \<Rightarrow> int n) in
      if ds = [] then 7 * 24 * 60 * 60
      else if unit = [] \<or> unit = ''s'' then value
      else if unit = ''m'' then value * 60
      else if unit = ''h'' then value * 3600
      else if unit = ''d'' then value * 86400
      else 7 * 24 * 60 * 60)"

definition onRedis :: "(keyspace \<Rightarrow> keyspace) \<Rightarrow> unit act" where
  "onRedis f = modify (\<lambda>w. w\<lparr>redis := f (redis w)\<rparr>)"

definition registerSession :: "env \<Rightarrow> uuid \<Rightarrow> string \<Rightarrow> unit act" where
  "registerSession e uid j = onRedis (sadd (now e) (SESSION_SET_PREFIX @ uuidText uid) [j])"

definition revokeAllSessions :: "env \<Rightarrow> int \<Rightarrow> uuid \<Rightarrow> string \<Rightarrow> bool \<Rightarrow> nat act" where
  "revokeAllSessions e jwtTtlSeconds uid currentJti includeCurrent =
     (let key = SESSION_SET_PREFIX @ uuidText uid in
      andThen (reads (\<lambda>w. smembers (now e) key (redis w))) (\<lambda>allJtis.
      let jtis = (if includeCurrent then allJtis else filter (\<lambda>j. j \<noteq> currentJti) allJtis) in
      if jtis = [] then ret 0 else
      andThen (onRedis (fold (\<lambda>j. setKey (now e) (BLOCKLIST_PREFIX @ j) (Text ''1'') (Some jwtTtlSeconds)) jtis)) (\<lambda>_.
      andThen (onRedis (srem (now e) key jtis)) (\<lambda>_.
      ret (length jtis)))))"

definition isRevoked :: "time \<Rightarrow> string \<Rightarrow> keyspace \<Rightarrow> bool" where
  "isRevoked t j r = existsKey t (BLOCKLIST_PREFIX @ j) r"

section \<open>JwtStrategy\<close>

text \<open>The user object a request gets: the impersonation fields of the payload are not copied.\<close>

record requestUser =
  ru_id :: uuid
  ru_stellarAddress :: "address option"
  ru_role :: "userRole option"
  ru_jti :: "string option"
  ru_isImpersonation :: bool

definition validateJwt :: "time \<Rightarrow> claims \<Rightarrow> requestUser act" where
  "validateJwt t c =
     andThen (reads (\<lambda>w. case jti c of Some (ch # cs) \<Rightarrow> isRevoked t (ch # cs) (redis w) | _ \<Rightarrow> False)) (\<lambda>revoked.
     require (\<not> revoked) UnauthorizedException (
     ret \<lparr>ru_id = sub c, ru_stellarAddress = cl_stellarAddress c, ru_role = cl_role c, ru_jti = jti c,
       ru_isImpersonation = False\<rparr>))"

text \<open>A request with a bearer token: signature and expiry are checked by the library first.\<close>

definition authenticate :: "jwtLib \<Rightarrow> time \<Rightarrow> string \<Rightarrow> requestUser act" where
  "authenticate lib t token = (case verifyJwt lib t token of
      None \<Rightarrow> throw UnauthorizedException
    | Some c \<Rightarrow> validateJwt t c)"

text \<open>\<open>ImpersonationGuard.canActivate\<close> on a handler that is marked or not.\<close>

definition canActivate :: "bool \<Rightarrow> requestUser \<Rightarrow> unit act" where
  "canActivate blocked u = require (\<not> (blocked \<and> ru_isImpersonation u)) ForbiddenException (ret ())"

section \<open>Signing in\<close>

definition NONCE_PREFIX :: string where
  "NONCE_PREFIX = ''chainsettle:nonce:''"

definition NONCE_TTL_MS :: int where
  "NONCE_TTL_MS = 5 * 60 * 1000"

definition generateNonce :: "env \<Rightarrow> string \<Rightarrow> address \<Rightarrow> string act" where
  "generateNonce e random addr =
     (let nonce = ''chainsettle:'' @ addr @ '':'' @ showInt (now e) @ '':'' @ random in
      andThen (onRedis (setPx (now e) (NONCE_PREFIX @ addr) nonce NONCE_TTL_MS)) (\<lambda>_. ret nonce))"

definition getText :: "time \<Rightarrow> string \<Rightarrow> keyspace \<Rightarrow> string option" where
  "getText t key r = (case lookupKey t r key of Some (Text s) \<Rightarrow> Some s | _ \<Rightarrow> None)"

definition recordFailedLoginIfKnownUser :: "address \<Rightarrow> string \<Rightarrow> unit act" where
  "recordFailedLoginIfKnownUser addr userAgent =
     andThen (reads (findUser addr)) (\<lambda>existing.
     case existing of None \<Rightarrow> ret ()
     | Some u \<Rightarrow> auditRecord \<lparr>au_actorId = Some (u_id u), au_actorAddress = stellarAddress u, au_action = ''LOGIN_FAILED'',
         au_resourceType = ''User'', au_resourceId = ByUuid (u_id u),
         au_metadata = JObj [(''userAgent'', JStr userAgent), (''reason'', JStr ''Signature verification failed'')]\<rparr>)"

definition newUser :: "uuid \<Rightarrow> address \<Rightarrow> user" where
  "newUser i a = \<lparr>u_id = i, stellarAddress = a, email = None, u_role = BUYER, u_kycStatus = UNVERIFIED, kycReference = None,
     kycVerifiedAt = None, kycExpiresAt = None, kycSubmittedAt = None, kycReminder30dSentAt = None,
     kycReminder7dSentAt = None, phoneNumber = None, phoneVerified = False, pendingPhone = None, arbiterAwayUntil = None,
     emailVerified = False, pendingEmail = None, u_name = None, deactivatedAt = None, avatarCid = None,
     displayCurrency = ''USD'', u_locale = ''en'', awayMessage = None,
     listedInDirectory = True, arbiterAvailable = True, u_organization = None\<rparr>"

text \<open>\<open>user.upsert\<close>: the update touches \<open>updatedAt\<close> only, which the model leaves out.\<close>

definition upsertUser :: "address \<Rightarrow> user act" where
  "upsertUser addr =
     andThen (reads (findUser addr)) (\<lambda>existing.
     case existing of Some u \<Rightarrow> ret u
     | None \<Rightarrow>
         andThen freshId (\<lambda>i.
         andThen (modifyDb (\<lambda>d. d\<lparr>users := users d @ [newUser i addr]\<rparr>)) (\<lambda>_.
         ret (newUser i addr))))"

definition accessClaims :: "user \<Rightarrow> string \<Rightarrow> claims" where
  "accessClaims u j = \<lparr>sub = u_id u, cl_stellarAddress = Some (stellarAddress u), cl_role = Some (u_role u), jti = Some j,
     cl_email = None, isImpersonation = False, impersonatorAdminId = None\<rparr>"

text \<open>
  \<open>login\<close>: \<open>verify addr message signature\<close> is the check of the SDK, \<open>None\<close> where it throws. The field
  \<open>signedNonce\<close> of the request is not used.
\<close>

definition login :: "jwtLib \<Rightarrow> int \<Rightarrow> (address \<Rightarrow> string \<Rightarrow> string \<Rightarrow> bool option) \<Rightarrow> env \<Rightarrow> address \<Rightarrow> string \<Rightarrow> string
    \<Rightarrow> (string \<times> user) act" where
  "login lib jwtTtlSeconds verify e addr signature userAgent =
     (let key = NONCE_PREFIX @ addr in
      andThen (reads (\<lambda>w. getText (now e) key (redis w))) (\<lambda>stored.
      requireSome (if stored = Some [] then None else stored) UnauthorizedException (\<lambda>nonce.
      if verify addr nonce signature \<noteq> Some True
      then andThen (recordFailedLoginIfKnownUser addr userAgent) (\<lambda>_. throw UnauthorizedException)
      else
        andThen (onRedis (del key)) (\<lambda>_.
        andThen (upsertUser addr) (\<lambda>u.
        let j = randomUuid e in
        andThen (registerSession e (u_id u) j) (\<lambda>_.
        andThen (auditRecord \<lparr>au_actorId = Some (u_id u), au_actorAddress = stellarAddress u, au_action = ''LOGIN_SUCCESS'',
           au_resourceType = ''User'', au_resourceId = ByUuid (u_id u),
           au_metadata = JObj [(''userAgent'', JStr userAgent), (''sessionId'', JStr j)]\<rparr>) (\<lambda>_.
        ret (signJwt lib (now e) jwtTtlSeconds (accessClaims u j), u))))))))"

text \<open>
  \<open>logout\<close>, \<open>getSessions\<close> and \<open>revokeSession\<close> call \<open>invalidateSession\<close>, \<open>listSessions\<close> and \<open>revokeSession\<close> of the
  session service, which has no such methods: the call throws.
\<close>

definition logout :: "uuid \<Rightarrow> string \<Rightarrow> int \<Rightarrow> unit act" where
  "logout uid j expiry = throw RuntimeError"

definition getSessions :: "uuid \<Rightarrow> string list act" where
  "getSessions uid = throw RuntimeError"

definition revokeSession :: "uuid \<Rightarrow> string \<Rightarrow> unit act" where
  "revokeSession uid sessionId = throw RuntimeError"

section \<open>Accounts\<close>

text \<open>\<open>user.update\<close> by id: P2025 when there is no such row.\<close>

definition updateUser :: "uuid \<Rightarrow> (user \<Rightarrow> user) \<Rightarrow> unit act" where
  "updateUser uid f =
     andThen (reads (findUserById uid)) (\<lambda>found.
     requireSome found PrismaP2025 (\<lambda>_. updateUserById uid f))"

definition userAudit :: "uuid \<Rightarrow> address \<Rightarrow> string \<Rightarrow> uuid \<Rightarrow> json \<Rightarrow> unit act" where
  "userAudit actor actorAddress action target meta = auditRecord \<lparr>au_actorId = Some actor, au_actorAddress = actorAddress,
     au_action = action, au_resourceType = ''User'', au_resourceId = ByUuid target, au_metadata = meta\<rparr>"

fun roleName :: "userRole \<Rightarrow> string" where
  "roleName BUYER = ''BUYER''"
| "roleName SUPPLIER = ''SUPPLIER''"
| "roleName LOGISTICS = ''LOGISTICS''"
| "roleName ARBITER = ''ARBITER''"
| "roleName ADMIN = ''ADMIN''"

text \<open>The profile as returned: the row and the avatar's address.\<close>

definition getProfile :: "uuid \<Rightarrow> (user \<times> string option) act" where
  "getProfile uid =
     andThen (reads (findUserById uid)) (\<lambda>found.
     requireSome found UnauthorizedException (\<lambda>u.
     require (deactivatedAt u = None) UnauthorizedException (
     ret (u, if avatarCid u = Some [] then None else map_option (\<lambda>cid. ''/api/v1/ipfs/'' @ cid) (avatarCid u)))))"

definition partyOf :: "address \<Rightarrow> shipment \<Rightarrow> bool" where
  "partyOf a s \<longleftrightarrow> buyerAddress s = a \<or> supplierAddress s = a \<or> logisticsAddress s = a \<or> arbiterAddress s = a"

definition deactivateUser :: "env \<Rightarrow> uuid \<Rightarrow> time act" where
  "deactivateUser e uid =
     andThen (reads (findUserById uid)) (\<lambda>found.
     requireSome found NotFoundException (\<lambda>u.
     require (deactivatedAt u = None) ConflictException (
     andThen (reads (\<lambda>w. length (filter (\<lambda>s. s_status s = ACTIVE \<and> partyOf (stellarAddress u) s) (shipments (db w))))) (\<lambda>activeCount.
     require (activeCount = 0) ConflictException (
     andThen (updateUser uid (\<lambda>r. r\<lparr>deactivatedAt := Some (now e)\<rparr>)) (\<lambda>_.
     andThen (userAudit (u_id u) (stellarAddress u) ''USER_DEACTIVATED'' (u_id u)
        (JObj [(''deactivatedAt'', JStr (isoString (now e)))])) (\<lambda>_.
     ret (now e))))))))"

definition adminSetActive :: "env \<Rightarrow> uuid \<Rightarrow> bool \<Rightarrow> uuid \<Rightarrow> address \<Rightarrow> time option act" where
  "adminSetActive e uid active adminId adminAddress =
     require (active \<or> uid \<noteq> adminId) BadRequestException (
     andThen (reads (findUserById uid)) (\<lambda>found.
     requireSome found NotFoundException (\<lambda>u.
     if (deactivatedAt u = None) = active then ret (deactivatedAt u)
     else
       let since = (if active then None else Some (now e)) in
       andThen (updateUser uid (\<lambda>r. r\<lparr>deactivatedAt := since\<rparr>)) (\<lambda>_.
       andThen (userAudit adminId adminAddress (if active then ''ADMIN_USER_REACTIVATED'' else ''ADMIN_USER_DEACTIVATED'') uid
          (JObj [(''targetUserId'', JNum (int uid)), (''targetStellarAddress'', JStr (stellarAddress u))])) (\<lambda>_.
       ret since)))))"

text \<open>The counts of the administrator's view, with the notifications of the mailbox; \<open>read\<close> says which ones were read.\<close>

record adminUserDetail =
  ad_user :: user
  shipmentCount :: nat
  activeApiKeyCount :: nat
  webhookCount :: nat
  unreadNotificationCount :: nat

definition getAdminUserDetail :: "(notification \<Rightarrow> bool) \<Rightarrow> uuid \<Rightarrow> adminUserDetail act" where
  "getAdminUserDetail isRead uid =
     andThen (reads (findUserById uid)) (\<lambda>found.
     requireSome found NotFoundException (\<lambda>u.
     reads (\<lambda>w. \<lparr>ad_user = u,
       shipmentCount = length (filter (partyOf (stellarAddress u)) (shipments (db w))),
       activeApiKeyCount = length (filter (\<lambda>k. ak_userId k = uid \<and> revokedAt k = None) (apiKeys (db w))),
       webhookCount = length (filter (\<lambda>x. we_userId x = uid) (webhookEndpoints (db w))),
       unreadNotificationCount = length (filter (\<lambda>n. n_userId n = uid \<and> \<not> isRead n) (notifications (mail w)))\<rparr>)))"

definition getPublicProfile :: "address \<Rightarrow> user act" where
  "getPublicProfile addr = andThen (reads (findUser addr)) (\<lambda>found. requireSome found NotFoundException ret)"

definition AVATAR_MIME_TYPES :: "string list" where
  "AVATAR_MIME_TYPES = [''image/png'', ''image/jpeg'', ''image/webp'']"

definition uploadAvatar :: "env \<Rightarrow> bool \<Rightarrow> uuid \<Rightarrow> upload option \<Rightarrow> string act" where
  "uploadAvatar e hasIpfs uid file =
     requireSome file BadRequestException (\<lambda>f.
     require (mimetype f \<in> set AVATAR_MIME_TYPES) BadRequestException (
     require (fsize f \<le> 2 * 1024 * 1024) PayloadTooLargeException (
     require hasIpfs BadRequestException (
     liftResult (ipfsUpload e (if originalname f = [] then f\<lparr>originalname := ''avatar''\<rparr> else f)) (\<lambda>cid.
     andThen (updateUser uid (\<lambda>r. r\<lparr>avatarCid := Some cid\<rparr>)) (\<lambda>_.
     ret cid))))))"

definition deleteAvatar :: "uuid \<Rightarrow> unit act" where
  "deleteAvatar uid =
     andThen (reads (findUserById uid)) (\<lambda>found.
     requireSome found NotFoundException (\<lambda>_.
     updateUser uid (\<lambda>r. r\<lparr>avatarCid := None\<rparr>)))"

text \<open>\<open>ttl\<close> is the configured lifetime of an impersonation token; its payload has no \<open>jti\<close>.\<close>

definition impersonationClaims :: "user \<Rightarrow> uuid \<Rightarrow> claims" where
  "impersonationClaims u adminId = \<lparr>sub = u_id u, cl_stellarAddress = Some (stellarAddress u), cl_role = Some (u_role u), jti = None,
     cl_email = None, isImpersonation = True, impersonatorAdminId = Some adminId\<rparr>"

definition impersonateUser :: "jwtLib \<Rightarrow> string \<Rightarrow> env \<Rightarrow> uuid \<Rightarrow> uuid \<Rightarrow> address \<Rightarrow> (string \<times> user) act" where
  "impersonateUser lib expiresIn e targetId adminId adminAddress =
     require (targetId \<noteq> adminId) BadRequestException (
     andThen (reads (findUserById targetId)) (\<lambda>found.
     requireSome found NotFoundException (\<lambda>target.
     require (deactivatedAt target = None) ForbiddenException (
     require (u_role target \<noteq> ADMIN) ForbiddenException (
     andThen (userAudit adminId adminAddress ''admin.impersonate'' (u_id target)
        (JObj [(''targetUserId'', JNum (int (u_id target))), (''targetStellarAddress'', JStr (stellarAddress target)),
          (''targetRole'', JStr (roleName (u_role target))), (''expiresIn'', JStr expiresIn)])) (\<lambda>_.
     ret (signJwt lib (now e) (parseExpiry expiresIn) (impersonationClaims target adminId), target)))))))"

record forceLogoutReply =
  revokedSessionsCount :: nat
  revokedApiKeysCount :: nat

definition revokeApiKeysOf :: "time \<Rightarrow> uuid \<Rightarrow> nat act" where
  "revokeApiKeysOf t uid =
     andThen (reads (\<lambda>w. length (filter (\<lambda>k. ak_userId k = uid \<and> revokedAt k = None) (apiKeys (db w))))) (\<lambda>n.
     andThen (modifyDb (\<lambda>d. d\<lparr>apiKeys := updateWhere (\<lambda>k. ak_userId k = uid \<and> revokedAt k = None)
        (\<lambda>k. k\<lparr>revokedAt := Some t, gracePeriodEndsAt := None\<rparr>) (apiKeys d)\<rparr>)) (\<lambda>_.
     ret n))"

definition forceLogoutUser :: "int \<Rightarrow> env \<Rightarrow> uuid \<Rightarrow> uuid \<Rightarrow> address \<Rightarrow> bool option \<Rightarrow> forceLogoutReply act" where
  "forceLogoutUser jwtTtlSeconds e targetId adminId adminAddress revokeApiKeys =
     andThen (reads (findUserById targetId)) (\<lambda>found.
     requireSome found NotFoundException (\<lambda>target.
     let keysToo = (revokeApiKeys = Some True) in
     andThen (revokeAllSessions e jwtTtlSeconds (u_id target) [] True) (\<lambda>sessions.
     andThen (if keysToo then revokeApiKeysOf (now e) (u_id target) else ret 0) (\<lambda>keys.
     andThen (userAudit adminId adminAddress ''ADMIN_FORCE_LOGOUT'' (u_id target)
        (JObj [(''targetUserId'', JNum (int (u_id target))), (''targetStellarAddress'', JStr (stellarAddress target)),
          (''revokedSessionsCount'', JNum (int sessions)), (''revokedApiKeysCount'', JNum (int keys)),
          (''revokeApiKeys'', JBool keysToo)])) (\<lambda>_.
     ret \<lparr>revokedSessionsCount = sessions, revokedApiKeysCount = keys\<rparr>)))))"

definition getUserDisplayCurrency :: "uuid \<Rightarrow> world \<Rightarrow> string" where
  "getUserDisplayCurrency uid w = (case findUserById uid w of None \<Rightarrow> ''USD'' | Some u \<Rightarrow> displayCurrency u)"

definition updateUserRole :: "uuid \<Rightarrow> uuid \<Rightarrow> address \<Rightarrow> userRole \<Rightarrow> (user \<times> string option) act" where
  "updateUserRole uid callerId callerAddress newRole =
     andThen (reads (findUserById uid)) (\<lambda>found.
     requireSome found UnauthorizedException (\<lambda>u.
     require (uid \<noteq> callerId \<or> newRole = ADMIN) ConflictException (
     andThen (updateUser uid (\<lambda>r. r\<lparr>u_role := newRole\<rparr>)) (\<lambda>_.
     andThen (userAudit callerId callerAddress ''USER_ROLE_CHANGED'' uid
        (JObj [(''from'', JStr (roleName (u_role u))), (''to'', JStr (roleName newRole))])) (\<lambda>_.
     getProfile uid)))))"

section \<open>E-mail addresses\<close>

definition getVerificationTokenKey :: "uuid \<Rightarrow> string" where
  "getVerificationTokenKey uid = ''chainsettle:email-verification-token:'' @ uuidText uid"

definition verificationClaims :: "uuid \<Rightarrow> string \<Rightarrow> claims" where
  "verificationClaims uid addr = \<lparr>sub = uid, cl_stellarAddress = None, cl_role = None, jti = None, cl_email = Some addr,
     isImpersonation = False, impersonatorAdminId = None\<rparr>"

definition sendVerificationEmail :: "jwtLib \<Rightarrow> env \<Rightarrow> uuid \<Rightarrow> string \<Rightarrow> unit act" where
  "sendVerificationEmail lib e uid addr =
     (let token = signJwt lib (now e) (24 * 60 * 60) (verificationClaims uid addr) in
      andThen (onRedis (setPx (now e) (getVerificationTokenKey uid) token (24 * 60 * 60 * 1000))) (\<lambda>_.
      withMail (\<lambda>mb. ((), if isEmailSuppressed addr mb then mb else send (VerificationMail addr token) mb))))"

record updateProfileDto =
  up_name :: "string option"
  up_email :: "string option"
  up_displayCurrency :: "string option"
  up_locale :: "string option"

definition applyProfile :: "updateProfileDto \<Rightarrow> bool \<Rightarrow> user \<Rightarrow> user" where
  "applyProfile dto emailChanged u =
     (let u1 = (case up_name dto of None \<Rightarrow> u | Some n \<Rightarrow> u\<lparr>u_name := Some n\<rparr>);
          u2 = (case up_displayCurrency dto of None \<Rightarrow> u1 | Some c \<Rightarrow> u1\<lparr>displayCurrency := toUpperCase c\<rparr>);
          u3 = (case up_locale dto of None \<Rightarrow> u2 | Some l \<Rightarrow> u2\<lparr>u_locale := toLowerCase l\<rparr>)
      in if emailChanged then u3\<lparr>pendingEmail := up_email dto\<rparr> else u3)"

definition emailTaken :: "uuid \<Rightarrow> string \<Rightarrow> world \<Rightarrow> bool" where
  "emailTaken uid addr w \<longleftrightarrow> (case find (\<lambda>u. email u = Some addr) (users (db w)) of None \<Rightarrow> False | Some u \<Rightarrow> u_id u \<noteq> uid)"

definition updateProfile :: "jwtLib \<Rightarrow> env \<Rightarrow> uuid \<Rightarrow> updateProfileDto \<Rightarrow> (user \<times> string option) act" where
  "updateProfile lib e uid dto =
     andThen (reads (findUserById uid)) (\<lambda>found.
     requireSome found UnauthorizedException (\<lambda>u.
     let emailChanged = (up_email dto \<noteq> None \<and> up_email dto \<noteq> email u) in
     andThen (case up_email dto of
        Some addr \<Rightarrow>
          if emailChanged then
            andThen (reads (emailTaken uid addr)) (\<lambda>taken.
            require (\<not> taken) ConflictException (sendVerificationEmail lib e uid addr))
          else ret ()
      | None \<Rightarrow> ret ()) (\<lambda>_.
     andThen (updateUser uid (applyProfile dto emailChanged)) (\<lambda>_.
     getProfile uid))))"

definition verifyEmail :: "jwtLib \<Rightarrow> env \<Rightarrow> string \<Rightarrow> unit act" where
  "verifyEmail lib e token =
     requireSome (verifyJwt lib (now e) token) UnauthorizedException (\<lambda>payload.
     andThen (reads (\<lambda>w. getText (now e) (getVerificationTokenKey (sub payload)) (redis w))) (\<lambda>stored.
     require (stored = Some token \<and> token \<noteq> []) UnauthorizedException (
     andThen (reads (findUserById (sub payload))) (\<lambda>found.
     requireSome found UnauthorizedException (\<lambda>u.
     requireSome (case cl_email payload of Some a \<Rightarrow> if pendingEmail u = Some a then Some a else None | None \<Rightarrow> None)
        UnauthorizedException (\<lambda>addr.
     andThen (reads (emailTaken (u_id u) addr)) (\<lambda>taken.
     require (\<not> taken) ConflictException (
     andThen (updateUser (u_id u) (\<lambda>r. r\<lparr>email := Some addr, emailVerified := True, pendingEmail := None\<rparr>)) (\<lambda>_.
     onRedis (del (getVerificationTokenKey (u_id u))))))))))))"

definition resendVerificationEmail :: "jwtLib \<Rightarrow> env \<Rightarrow> uuid \<Rightarrow> unit act" where
  "resendVerificationEmail lib e uid =
     andThen (reads (findUserById uid)) (\<lambda>found.
     requireSome found NotFoundException (\<lambda>u.
     requireSome (if pendingEmail u = Some [] then None else pendingEmail u) BadRequestException (\<lambda>addr.
     sendVerificationEmail lib e (u_id u) addr)))"

section \<open>Phone numbers\<close>

definition PHONE_OTP_PREFIX :: string where
  "PHONE_OTP_PREFIX = ''chainsettle:phone-otp:''"

definition PHONE_OTP_TTL_MS :: int where
  "PHONE_OTP_TTL_MS = 5 * 60 * 1000"

text \<open>\<open>generateOtp\<close> from six random digits.\<close>

definition generateOtp :: "nat list \<Rightarrow> string" where
  "generateOtp ds = concat (map digits (take 6 ds))"

definition sendPhoneVerificationOtp :: "env \<Rightarrow> nat list \<Rightarrow> uuid \<Rightarrow> string \<Rightarrow> unit act" where
  "sendPhoneVerificationOtp e random uid phone =
     andThen (reads (findUserById uid)) (\<lambda>existing.
     require (\<not> (case existing of None \<Rightarrow> False | Some u \<Rightarrow> phoneVerified u \<and> phoneNumber u = Some phone)) BadRequestException (
     andThen (onRedis (setPx (now e) (PHONE_OTP_PREFIX @ uuidText uid) (generateOtp random) PHONE_OTP_TTL_MS)) (\<lambda>_.
     onRedis (setPx (now e) (PHONE_OTP_PREFIX @ uuidText uid @ '':pending'') phone PHONE_OTP_TTL_MS))))"

definition verifyPhone :: "env \<Rightarrow> uuid \<Rightarrow> string \<Rightarrow> string act" where
  "verifyPhone e uid otp =
     (let key = PHONE_OTP_PREFIX @ uuidText uid; pendingKey = PHONE_OTP_PREFIX @ uuidText uid @ '':pending'' in
      andThen (reads (\<lambda>w. getText (now e) key (redis w))) (\<lambda>storedOtp.
      andThen (reads (\<lambda>w. getText (now e) pendingKey (redis w))) (\<lambda>pending.
      require (storedOtp = Some otp \<and> otp \<noteq> []) UnauthorizedException (
      requireSome (if pending = Some [] then None else pending) BadRequestException (\<lambda>phone.
      andThen (onRedis (del key)) (\<lambda>_.
      andThen (onRedis (del pendingKey)) (\<lambda>_.
      andThen (updateUser uid (\<lambda>r. r\<lparr>phoneNumber := Some phone, phoneVerified := True, pendingPhone := None\<rparr>)) (\<lambda>_.
      ret phone))))))))"

section \<open>Lemmas\<close>

lemma run_onRedis [simp]: "onRedis f w = (Inr (), w\<lparr>redis := f (redis w)\<rparr>)"
  by (simp add: onRedis_def)

subsection \<open>Which keys an operation touches\<close>

text \<open>The keys of the session service, as a function of the user and of the session.\<close>

definition sessionKeys :: "world \<Rightarrow> (uuid \<Rightarrow> entry option) \<times> (string \<Rightarrow> entry option)" where
  "sessionKeys w = (\<lambda>u. redis w (SESSION_SET_PREFIX @ uuidText u), \<lambda>j. redis w (BLOCKLIST_PREFIX @ j))"

lemmas prefix_defs = SESSION_SET_PREFIX_def BLOCKLIST_PREFIX_def NONCE_PREFIX_def PHONE_OTP_PREFIX_def
  getVerificationTokenKey_def

lemma leaves_sessionKeys_db [leaves_intros]:
  "leaves sessionKeys (modifyDb f)" "leaves sessionKeys (auditRecord a)" "leaves sessionKeys freshId"
  "leaves sessionKeys (updateUserById uid g)" "leaves sessionKeys (withMail h)"
  by (simp_all add: leaves_def sessionKeys_def modifyDb_def auditRecord_def freshId_def updateUserById_def withMail_def
      andThen_def split: prod.splits)

lemma leaves_sessionKeys_set [leaves_intros]:
  "leaves sessionKeys (onRedis (setPx t (NONCE_PREFIX @ a) v ttl))"
  "leaves sessionKeys (onRedis (setPx t (PHONE_OTP_PREFIX @ b) v ttl))"
  "leaves sessionKeys (onRedis (setPx t (getVerificationTokenKey uid) v ttl))"
  "leaves sessionKeys (onRedis (del (NONCE_PREFIX @ a)))"
  "leaves sessionKeys (onRedis (del (PHONE_OTP_PREFIX @ b)))"
  "leaves sessionKeys (onRedis (del (getVerificationTokenKey uid)))"
  by (simp_all add: leaves_def sessionKeys_def setPx_def del_def prefix_defs)

lemma leaves_sessionKeys_updateUser [leaves_intros]: "leaves sessionKeys (updateUser uid f)"
  unfolding updateUser_def by (intro leaves_intros)

text \<open>Every operation of the service apart from sign-in and revocation leaves the sessions alone.\<close>

lemma leaves_sessionKeys_auth [leaves_intros]:
  "leaves sessionKeys (generateNonce e rnd a)" "leaves sessionKeys (recordFailedLoginIfKnownUser a ua)"
  "leaves sessionKeys (upsertUser a)" "leaves sessionKeys (userAudit i b act k m)" "leaves sessionKeys (getProfile uid)"
  "leaves sessionKeys (sendVerificationEmail lib e uid b)" "leaves sessionKeys (revokeApiKeysOf t uid)"
  unfolding generateNonce_def recordFailedLoginIfKnownUser_def upsertUser_def userAudit_def getProfile_def
    sendVerificationEmail_def revokeApiKeysOf_def Let_def
  by (intro leaves_intros)+

lemma leaves_sessionKeys_accounts:
  "leaves sessionKeys (deactivateUser e uid)" "leaves sessionKeys (adminSetActive e uid on i b)"
  "leaves sessionKeys (uploadAvatar e ipfs uid file)" "leaves sessionKeys (deleteAvatar uid)"
  "leaves sessionKeys (impersonateUser lib x e uid i b)" "leaves sessionKeys (updateUserRole uid i b role)"
  "leaves sessionKeys (updateProfile lib e uid dto)" "leaves sessionKeys (verifyEmail lib e token)"
  "leaves sessionKeys (resendVerificationEmail lib e uid)" "leaves sessionKeys (sendPhoneVerificationOtp e ds uid ph)"
  "leaves sessionKeys (verifyPhone e uid otp)" "leaves sessionKeys (logout uid j x')"
  unfolding deactivateUser_def adminSetActive_def uploadAvatar_def deleteAvatar_def impersonateUser_def updateUserRole_def
    updateProfile_def verifyEmail_def resendVerificationEmail_def sendPhoneVerificationOtp_def verifyPhone_def logout_def Let_def
  by (intro leaves_intros)+

subsection \<open>Revocation\<close>

text \<open>A session is refused up to an instant if its blocklist entry does not expire before.\<close>

definition blockedUntil :: "keyspace \<Rightarrow> string \<Rightarrow> time \<Rightarrow> bool" where
  "blockedUntil r j x \<longleftrightarrow> (case r (BLOCKLIST_PREFIX @ j) of None \<Rightarrow> False
     | Some en \<Rightarrow> (case expiresAt en of None \<Rightarrow> True | Some y \<Rightarrow> x \<le> y))"

definition registered :: "keyspace \<Rightarrow> uuid \<Rightarrow> string \<Rightarrow> bool" where
  "registered r u j \<longleftrightarrow> (\<exists>ms. r (SESSION_SET_PREFIX @ uuidText u) = Some \<lparr>content = Members ms, expiresAt = None\<rparr> \<and> j \<in> set ms)"

definition sessionSetsOk :: "keyspace \<Rightarrow> bool" where
  "sessionSetsOk r \<longleftrightarrow> (\<forall>u. r (SESSION_SET_PREFIX @ uuidText u) = None \<or>
     (\<exists>ms. r (SESSION_SET_PREFIX @ uuidText u) = Some \<lparr>content = Members ms, expiresAt = None\<rparr>))"

lemma blockedUntil_revoked: "blockedUntil r j x \<Longrightarrow> t < x \<Longrightarrow> isRevoked t j r"
  by (auto simp: blockedUntil_def isRevoked_def existsKey_def lookupKey_def liveEntry_def split: option.splits)

lemma sessionKeys_eqD:
  "sessionKeys w' = sessionKeys w \<Longrightarrow> blockedUntil (redis w') j x = blockedUntil (redis w) j x"
  "sessionKeys w' = sessionKeys w \<Longrightarrow> registered (redis w') u j = registered (redis w) u j"
  "sessionKeys w' = sessionKeys w \<Longrightarrow> sessionSetsOk (redis w') = sessionSetsOk (redis w)"
  by (simp_all add: sessionKeys_def blockedUntil_def registered_def sessionSetsOk_def fun_eq_iff)

lemma block_all:
  "fold (\<lambda>j. setKey t (BLOCKLIST_PREFIX @ j) v (Some ttl)) js r k =
    (if \<exists>j \<in> set js. k = BLOCKLIST_PREFIX @ j
     then Some \<lparr>content = v, expiresAt = (if ttl = 0 then None else Some (t + ttl * 1000))\<rparr> else r k)"
  by (induction js arbitrary: r) (auto simp: setKey_def)

lemma session_key_not_blocked [simp]: "SESSION_SET_PREFIX @ a \<noteq> BLOCKLIST_PREFIX @ b" "BLOCKLIST_PREFIX @ b \<noteq> SESSION_SET_PREFIX @ a"
  by (simp_all add: prefix_defs)

lemma sessions_of_blocked:
  "sessionSetsOk (fold (\<lambda>j. setKey t (BLOCKLIST_PREFIX @ j) v (Some ttl)) js r) = sessionSetsOk r"
  "registered (fold (\<lambda>j. setKey t (BLOCKLIST_PREFIX @ j) v (Some ttl)) js r) u j = registered r u j"
  by (simp_all add: sessionSetsOk_def registered_def block_all)

lemma srem_blocklist: "srem t (SESSION_SET_PREFIX @ a) js r (BLOCKLIST_PREFIX @ j) = r (BLOCKLIST_PREFIX @ j)"
  by (simp add: srem_def Let_def split: option.split rvalue.split)

lemma srem_same:
  assumes "r key = Some \<lparr>content = Members ms, expiresAt = None\<rparr>"
  shows "srem t key js r key = (if filter (\<lambda>m. m \<notin> set js) ms = [] then None
    else Some \<lparr>content = Members (filter (\<lambda>m. m \<notin> set js) ms), expiresAt = None\<rparr>)"
  using assms by (simp add: srem_def lookupKey_def liveEntry_def Let_def)

lemma srem_absent: "r key = None \<Longrightarrow> srem t key js r = r"
  by (simp add: srem_def lookupKey_def)

lemma srem_sessions:
  assumes "sessionSetsOk r"
  shows "sessionSetsOk (srem t key js r)"
  unfolding sessionSetsOk_def
proof
  fix u
  let ?k = "SESSION_SET_PREFIX @ uuidText u"
  show "srem t key js r ?k = None \<or> (\<exists>ms. srem t key js r ?k = Some \<lparr>content = Members ms, expiresAt = None\<rparr>)"
  proof (cases "key = ?k")
    case True
    then show ?thesis
      using assms [unfolded sessionSetsOk_def, rule_format, of u] by (auto simp: srem_same srem_absent split: if_splits)
  next
    case False
    then have "srem t key js r ?k = r ?k" by (simp add: srem_def Let_def split: option.split rvalue.split)
    then show ?thesis using assms by (simp add: sessionSetsOk_def)
  qed
qed

lemma srem_registered:
  assumes "registered r u j" "j \<notin> set js"
  shows "registered (srem t key js r) u j"
proof (cases "key = SESSION_SET_PREFIX @ uuidText u")
  case True
  then show ?thesis
    using assms by (auto simp: registered_def srem_same filter_empty_conv)
next
  case False
  then have "srem t key js r (SESSION_SET_PREFIX @ uuidText u) = r (SESSION_SET_PREFIX @ uuidText u)"
    by (simp add: srem_def Let_def split: option.split rvalue.split)
  then show ?thesis using assms(1) by (simp add: registered_def)
qed

text \<open>
  What a revocation does to the keys: the chosen sessions of the user are blocked for the lifetime of a
  token from now on; a session that leaves a set is blocked; nothing else is unblocked.
\<close>

lemma revokeAll_effect:
  assumes ok: "sessionSetsOk (redis w)" and run: "revokeAllSessions e ttl uid cur incl w = (res, w')"
  shows "\<exists>n. res = Inr n" "sessionSetsOk (redis w')"
    and "\<And>j x. blockedUntil (redis w) j x \<Longrightarrow> x \<le> now e + ttl * 1000 \<Longrightarrow> blockedUntil (redis w') j x"
    and "\<And>u j. registered (redis w) u j \<Longrightarrow> registered (redis w') u j \<or> blockedUntil (redis w') j (now e + ttl * 1000)"
    and "\<And>j. registered (redis w) uid j \<Longrightarrow> incl \<Longrightarrow> blockedUntil (redis w') j (now e + ttl * 1000)"
proof -
  define key all where "key = SESSION_SET_PREFIX @ uuidText uid" and "all = smembers (now e) key (redis w)"
  define js where "js = (if incl then all else filter (\<lambda>j. j \<noteq> cur) all)"
  define r1 where "r1 = fold (\<lambda>j. setKey (now e) (BLOCKLIST_PREFIX @ j) (Text ''1'') (Some ttl)) js (redis w)"
  have members: "j \<in> set all" if "registered (redis w) uid j" for j
    using that by (auto simp: registered_def all_def key_def smembers_def lookupKey_def liveEntry_def)
  have cases: "js = [] \<and> res = Inr 0 \<and> w' = w \<or> js \<noteq> [] \<and> res = Inr (length js) \<and> redis w' = srem (now e) key js r1"
    using run by (auto simp: revokeAllSessions_def Let_def js_def all_def key_def r1_def split: if_splits)
  have blocked: "blockedUntil (srem (now e) key js r1) j (now e + ttl * 1000)" if "j \<in> set js" for j
    using that by (auto simp: blockedUntil_def key_def srem_blocklist r1_def block_all)
  show "\<exists>n. res = Inr n" using cases by auto
  show "sessionSetsOk (redis w')"
    using cases ok srem_sessions by (auto simp: r1_def sessions_of_blocked)
  show "blockedUntil (redis w') j x" if "blockedUntil (redis w) j x" "x \<le> now e + ttl * 1000" for j x
    using that cases by (auto simp: blockedUntil_def key_def srem_blocklist r1_def block_all split: option.splits if_splits)
  show "blockedUntil (redis w') j (now e + ttl * 1000)" if "registered (redis w) uid j" incl for j
    using members [OF that(1)] that(2) blocked [of j] cases by (auto simp: js_def)
  show "registered (redis w') u j \<or> blockedUntil (redis w') j (now e + ttl * 1000)" if reg: "registered (redis w) u j" for u j
  proof -
    have "registered r1 u j" using reg by (simp add: r1_def sessions_of_blocked)
    then show ?thesis using cases reg blocked [of j] srem_registered [of r1 u j js "now e" key] by (cases "j \<in> set js") auto
  qed
qed

subsection \<open>Signing in\<close>

lemma login_success:
  assumes "login lib ttl verify e addr sig ua w = (Inr (tok, u), w')"
  obtains nonce w1 where "getText (now e) (NONCE_PREFIX @ addr) (redis w) = Some nonce" "nonce \<noteq> []"
    "verify addr nonce sig = Some True" "upsertUser addr (w\<lparr>redis := del (NONCE_PREFIX @ addr) (redis w)\<rparr>) = (Inr u, w1)"
    "tok = signJwt lib (now e) ttl (accessClaims u (randomUuid e))" "db w' = db w1"
    "redis w' = sadd (now e) (SESSION_SET_PREFIX @ uuidText (u_id u)) [randomUuid e] (redis w1)"
proof -
  from assms obtain nonce where n: "getText (now e) (NONCE_PREFIX @ addr) (redis w) = Some nonce" "nonce \<noteq> []"
    by (auto simp: login_def Let_def success_iffs split: if_splits)
  have v: "verify addr nonce sig = Some True"
    using assms n by (auto simp: login_def Let_def success_iffs split: if_splits)
  obtain w1 where up: "upsertUser addr (w\<lparr>redis := del (NONCE_PREFIX @ addr) (redis w)\<rparr>) = (Inr u, w1)"
      and rest: "andThen (registerSession e (u_id u) (randomUuid e)) (\<lambda>_.
        andThen (auditRecord \<lparr>au_actorId = Some (u_id u), au_actorAddress = stellarAddress u, au_action = ''LOGIN_SUCCESS'',
           au_resourceType = ''User'', au_resourceId = ByUuid (u_id u),
           au_metadata = JObj [(''userAgent'', JStr ua), (''sessionId'', JStr (randomUuid e))]\<rparr>) (\<lambda>_.
        ret (signJwt lib (now e) ttl (accessClaims u (randomUuid e)), u))) w1 = (Inr (tok, u), w')"
    using assms n v by (auto simp: login_def Let_def success_iffs)
  show thesis
    by (rule that [OF n v up]) (use rest in \<open>auto simp: success_iffs registerSession_def auditRecord_def\<close>)
qed

lemma total_upsertUser: "neverFails (upsertUser a)"
  unfolding upsertUser_def by (intro total_intros)

lemma login_failure:
  assumes "login lib ttl verify e addr sig ua w = (Inl x, w')"
  shows "x = UnauthorizedException \<and> sessionKeys w' = sessionKeys w"
proof -
  let ?stored = "getText (now e) (NONCE_PREFIX @ addr) (redis w)"
  let ?v = "w\<lparr>redis := del (NONCE_PREFIX @ addr) (redis w)\<rparr>"
  consider "?stored = None \<or> ?stored = Some []"
    | nonce where "?stored = Some nonce" "nonce \<noteq> []" "verify addr nonce sig \<noteq> Some True"
    | nonce where "?stored = Some nonce" "nonce \<noteq> []" "verify addr nonce sig = Some True"
    by (cases ?stored) auto
  then show ?thesis
  proof cases
    case 1
    with assms show ?thesis by (auto simp: login_def Let_def)
  next
    case 2
    have "neverFails (recordFailedLoginIfKnownUser addr ua)"
      unfolding recordFailedLoginIfKnownUser_def by (intro total_intros)
    then obtain v where v: "recordFailedLoginIfKnownUser addr ua w = (Inr (), v)"
      by (auto simp: neverFails_def)
    with 2 assms have "x = UnauthorizedException" "w' = v" by (auto simp: login_def Let_def)
    with leaves_run [OF leaves_sessionKeys_auth(2) v] show ?thesis by simp
  next
    case 3
    obtain u v where "upsertUser addr ?v = (Inr u, v)" using total_upsertUser [unfolded neverFails_def] by blast
    with 3 assms show ?thesis by (simp add: login_def Let_def registerSession_def auditRecord_def)
  qed
qed

subsection \<open>The life of sessions\<close>

text \<open>
  A run of the service. \<open>issued\<close> is a history: the user, session, instant and text of every token that a login
  has returned. Between two calls time may pass; \<open>call\<close> is any other operation, of this service (lemmas
  \<open>leaves_sessionKeys_auth\<close> and \<open>leaves_sessionKeys_accounts\<close>) or of another one, that does not write the keys of the sessions.
\<close>

record authState =
  aworld :: world
  aclock :: time
  issued :: "(uuid \<times> string \<times> time \<times> string) list"

definition noteLogin :: "env \<Rightarrow> (string \<times> user) result \<Rightarrow> (uuid \<times> string \<times> time \<times> string) list \<Rightarrow> (uuid \<times> string \<times> time \<times> string) list" where
  "noteLogin e res h = (case res of Inl _ \<Rightarrow> h | Inr (tok, u) \<Rightarrow> (u_id u, randomUuid e, now e, tok) # h)"

inductive authStep :: "jwtLib \<Rightarrow> int \<Rightarrow> authState \<Rightarrow> authState \<Rightarrow> bool" for lib ttl where
  signIn: "\<lbrakk>aclock c \<le> now e; randomUuid e \<noteq> []; login lib ttl verify e addr sig ua (aworld c) = (res, w')\<rbrakk>
    \<Longrightarrow> authStep lib ttl c \<lparr>aworld = w', aclock = now e, issued = noteLogin e res (issued c)\<rparr>"
| revokeAll: "\<lbrakk>aclock c \<le> now e; revokeAllSessions e ttl uid cur incl (aworld c) = (n, w')\<rbrakk>
    \<Longrightarrow> authStep lib ttl c \<lparr>aworld = w', aclock = now e, issued = issued c\<rparr>"
| forceLogout: "\<lbrakk>aclock c \<le> now e; forceLogoutUser ttl e uid admin adr ks (aworld c) = (reply, w')\<rbrakk>
    \<Longrightarrow> authStep lib ttl c \<lparr>aworld = w', aclock = now e, issued = issued c\<rparr>"
| call: "\<lbrakk>aclock c \<le> t; sessionKeys w' = sessionKeys (aworld c)\<rbrakk>
    \<Longrightarrow> authStep lib ttl c \<lparr>aworld = w', aclock = t, issued = issued c\<rparr>"

inductive authReachable :: "jwtLib \<Rightarrow> int \<Rightarrow> authState \<Rightarrow> bool" for lib ttl where
  start: "sessionSetsOk (redis (aworld c)) \<Longrightarrow> issued c = [] \<Longrightarrow> authReachable lib ttl c"
| step: "authReachable lib ttl c \<Longrightarrow> authStep lib ttl c c' \<Longrightarrow> authReachable lib ttl c'"

inductive_cases authStepE: "authStep lib ttl c c'"

text \<open>
  Every token ever issued can be revoked: its session is in the set of its user, or is blocked until the token expires.
\<close>

definition tokenTracked :: "int \<Rightarrow> keyspace \<Rightarrow> uuid \<times> string \<times> time \<times> string \<Rightarrow> bool" where
  "tokenTracked ttl r = (\<lambda>(u, j, iat, tok). registered r u j \<or> blockedUntil r j (iat + ttl * 1000))"

definition tokenShaped :: "jwtLib \<Rightarrow> int \<Rightarrow> time \<Rightarrow> uuid \<times> string \<times> time \<times> string \<Rightarrow> bool" where
  "tokenShaped lib ttl t = (\<lambda>(u, j, iat, tok). iat \<le> t \<and> j \<noteq> [] \<and> (\<exists>usr. tok = signJwt lib iat ttl (accessClaims usr j)))"

definition authInv :: "jwtLib \<Rightarrow> int \<Rightarrow> authState \<Rightarrow> bool" where
  "authInv lib ttl c \<longleftrightarrow> sessionSetsOk (redis (aworld c)) \<and>
     list_all (\<lambda>x. tokenTracked ttl (redis (aworld c)) x \<and> tokenShaped lib ttl (aclock c) x) (issued c)"

text \<open>The part of the invariant that a single operation has to respect.\<close>

definition sessionsKept :: "int \<Rightarrow> time \<Rightarrow> keyspace \<Rightarrow> keyspace \<Rightarrow> bool" where
  "sessionsKept ttl t r r' \<longleftrightarrow> (sessionSetsOk r \<longrightarrow> sessionSetsOk r' \<and>
     (\<forall>j x. blockedUntil r j x \<longrightarrow> x \<le> t + ttl * 1000 \<longrightarrow> blockedUntil r' j x) \<and>
     (\<forall>u j. registered r u j \<longrightarrow> registered r' u j \<or> blockedUntil r' j (t + ttl * 1000)))"

lemma blockedUntil_mono: "blockedUntil r j x \<Longrightarrow> y \<le> x \<Longrightarrow> blockedUntil r j y"
  by (auto simp: blockedUntil_def split: option.splits)

lemma kept_keys:
  assumes "sessionKeys w' = sessionKeys w"
  shows "sessionsKept ttl t (redis w) (redis w')"
  unfolding sessionsKept_def sessionKeys_eqD [OF assms] by simp

lemma kept_revokeAll: "revokeAllSessions e ttl uid cur incl w = (n, w') \<Longrightarrow> sessionsKept ttl (now e) (redis w) (redis w')"
  unfolding sessionsKept_def by (auto dest: revokeAll_effect)

lemma sadd_blocklist: "sadd t (SESSION_SET_PREFIX @ a) js r (BLOCKLIST_PREFIX @ j) = r (BLOCKLIST_PREFIX @ j)"
  by (simp add: sadd_def split: option.split rvalue.split)

lemma sadd_sessions:
  assumes "sessionSetsOk r"
  shows "sessionSetsOk (sadd t (SESSION_SET_PREFIX @ uuidText u) [j] r)"
    and "registered (sadd t (SESSION_SET_PREFIX @ uuidText u) [j] r) u j"
    and "registered r u' j' \<Longrightarrow> registered (sadd t (SESSION_SET_PREFIX @ uuidText u) [j] r) u' j'"
proof -
  let ?key = "SESSION_SET_PREFIX @ uuidText u"
  obtain ms where ms: "sadd t ?key [j] r = r(?key \<mapsto> \<lparr>content = Members ms, expiresAt = None\<rparr>)" "j \<in> set ms"
      "\<And>ms'. r ?key = Some \<lparr>content = Members ms', expiresAt = None\<rparr> \<Longrightarrow> set ms' \<subseteq> set ms"
  proof (cases "r ?key")
    case None
    then show ?thesis by (intro that [of "[j]"]) (simp_all add: sadd_def lookupKey_def)
  next
    case (Some en)
    then obtain ms where "r ?key = Some \<lparr>content = Members ms, expiresAt = None\<rparr>"
      using assms [unfolded sessionSetsOk_def, rule_format, of u] by auto
    then show ?thesis
      by (intro that [of "ms @ filter (\<lambda>m. m \<notin> set ms) [j]"]) (auto simp: sadd_def lookupKey_def liveEntry_def)
  qed
  show "sessionSetsOk (sadd t ?key [j] r)" using assms by (simp add: ms(1) sessionSetsOk_def)
  show "registered (sadd t ?key [j] r) u j" using ms(2) by (simp add: ms(1) registered_def)
  show "registered (sadd t ?key [j] r) u' j'" if "registered r u' j'"
    using that ms(3) by (auto simp: ms(1) registered_def)
qed

lemma kept_forceLogout:
  assumes "forceLogoutUser ttl e uid admin adr ks w = (reply, w')"
  shows "sessionsKept ttl (now e) (redis w) (redis w')"
    and "sessionSetsOk (redis w) \<Longrightarrow> reply = Inr ok \<Longrightarrow> registered (redis w) uid j \<Longrightarrow> blockedUntil (redis w') j (now e + ttl * 1000)"
proof -
  have frame: "leaves sessionKeys (andThen (if ks = Some True then revokeApiKeysOf (now e) i else ret 0) k)"
    if "\<And>x. leaves sessionKeys (k x)" for i and k :: "nat \<Rightarrow> 'a act"
    by (intro leaves_intros that)
  have "sessionsKept ttl (now e) (redis w) (redis w') \<and>
    (sessionSetsOk (redis w) \<longrightarrow> reply = Inr ok \<longrightarrow> registered (redis w) uid j \<longrightarrow> blockedUntil (redis w') j (now e + ttl * 1000))"
  proof (cases "findUserById uid w")
    case None
    with assms have "reply = Inl NotFoundException" "w' = w" by (auto simp: forceLogoutUser_def)
    then show ?thesis by (simp add: kept_keys)
  next
    case (Some u)
    then have u: "u_id u = uid" by (auto simp: findUserById_def dest: find_Some_prop)
    obtain res w1 where run: "revokeAllSessions e ttl uid [] True w = (res, w1)" by fastforce
    obtain n where n: "res = Inr n"
      using run by (auto simp: revokeAllSessions_def Let_def split: if_splits)
    have "sessionKeys w' = sessionKeys w1"
      using assms Some u run [unfolded n]
      by (auto simp: forceLogoutUser_def Let_def elim!: leaves_run [rotated] intro!: frame leaves_intros)
    then show ?thesis
      using kept_revokeAll [OF run] revokeAll_effect(5) [OF _ run]
      by (simp add: sessionsKept_def sessionKeys_eqD [of w' w1])
  qed
  then show "sessionsKept ttl (now e) (redis w) (redis w')"
    and "sessionSetsOk (redis w) \<Longrightarrow> reply = Inr ok \<Longrightarrow> registered (redis w) uid j \<Longrightarrow> blockedUntil (redis w') j (now e + ttl * 1000)"
    by blast+
qed

lemma kept_login:
  assumes "login lib ttl verify e addr sig ua w = (res, w')"
  shows "sessionsKept ttl (now e) (redis w) (redis w')"
    and "res = Inr (tok, u) \<Longrightarrow> sessionSetsOk (redis w) \<Longrightarrow> registered (redis w') (u_id u) (randomUuid e) \<and>
      tok = signJwt lib (now e) ttl (accessClaims u (randomUuid e))"
proof -
  have ok: "sessionsKept ttl (now e) (redis w) (redis w') \<and> (sessionSetsOk (redis w) \<longrightarrow> registered (redis w') (u_id u) (randomUuid e) \<and>
      tok = signJwt lib (now e) ttl (accessClaims u (randomUuid e)))" if "res = Inr (tok, u)" for tok u
  proof -
    from login_success [OF assms [unfolded that]] obtain w1
      where up: "upsertUser addr (w\<lparr>redis := del (NONCE_PREFIX @ addr) (redis w)\<rparr>) = (Inr u, w1)"
        and tok: "tok = signJwt lib (now e) ttl (accessClaims u (randomUuid e))"
        and w': "redis w' = sadd (now e) (SESSION_SET_PREFIX @ uuidText (u_id u)) [randomUuid e] (redis w1)" by blast
    have "sessionKeys w1 = sessionKeys (w\<lparr>redis := del (NONCE_PREFIX @ addr) (redis w)\<rparr>)"
      by (rule leaves_run [OF leaves_sessionKeys_auth(3) up])
    also have "\<dots> = sessionKeys w" by (simp add: sessionKeys_def del_def prefix_defs)
    finally have keys: "sessionKeys w1 = sessionKeys w" .
    have "blockedUntil (redis w') j x = blockedUntil (redis w1) j x" for j x
      by (simp add: blockedUntil_def w' sadd_blocklist)
    then show ?thesis
      using sadd_sessions [of "redis w1"] tok by (simp add: sessionsKept_def w' sessionKeys_eqD [OF keys])
  qed
  show "sessionsKept ttl (now e) (redis w) (redis w')"
  proof (cases res)
    case (Inl x)
    then show ?thesis using login_failure [OF assms [unfolded Inl]] kept_keys by blast
  next
    case (Inr r)
    then show ?thesis using ok by (cases r) blast
  qed
  show "res = Inr (tok, u) \<Longrightarrow> sessionSetsOk (redis w) \<Longrightarrow> registered (redis w') (u_id u) (randomUuid e) \<and>
      tok = signJwt lib (now e) ttl (accessClaims u (randomUuid e))"
    using ok by blast
qed

lemma tracked_kept:
  assumes "sessionsKept ttl t r r'" "sessionSetsOk r" "tokenTracked ttl r x" "tokenShaped lib ttl t0 x" "t0 \<le> t"
  shows "tokenTracked ttl r' x \<and> tokenShaped lib ttl t x"
proof -
  obtain u j iat tok where x: "x = (u, j, iat, tok)" by (cases x)
  then have "iat \<le> t" using assms(4,5) by (simp add: tokenShaped_def)
  then have "registered r' u j \<or> blockedUntil r' j (iat + ttl * 1000)"
    using assms(1-3) blockedUntil_mono [of r' j "t + ttl * 1000" "iat + ttl * 1000"]
    by (auto simp: x tokenTracked_def sessionsKept_def)
  then show ?thesis using assms(4,5) by (auto simp: x tokenTracked_def tokenShaped_def)
qed

lemma authInv_kept:
  assumes "authInv lib ttl c" "sessionsKept ttl t (redis (aworld c)) (redis w')" "aclock c \<le> t"
  shows "authInv lib ttl \<lparr>aworld = w', aclock = t, issued = issued c\<rparr>"
  using assms tracked_kept [OF assms(2) _ _ _ assms(3)]
  by (auto simp: authInv_def list_all_iff sessionsKept_def)

lemma authStep_inv:
  assumes "authInv lib ttl c" "authStep lib ttl c c'"
  shows "authInv lib ttl c'"
  using assms(2)
proof cases
  case (signIn e verify addr sig ua res w')
  note kept = authInv_kept [OF assms(1) kept_login(1) [OF signIn(4)] signIn(2)]
  show ?thesis
  proof (cases res)
    case (Inl x)
    then show ?thesis using kept signIn(1) by (simp add: noteLogin_def)
  next
    case (Inr r)
    obtain tok u where r: "r = (tok, u)" by fastforce
    from kept_login(2) [OF signIn(4), of tok u] Inr r assms(1)
    show ?thesis using kept signIn by (auto simp: authInv_def noteLogin_def tokenTracked_def tokenShaped_def)
  qed
next
  case (revokeAll e uid cur incl n w')
  then show ?thesis using authInv_kept [OF assms(1) kept_revokeAll] by simp
next
  case (forceLogout e uid admin adr ks reply w')
  then show ?thesis using authInv_kept [OF assms(1) kept_forceLogout(1)] by simp
next
  case (call t w')
  then show ?thesis using authInv_kept [OF assms(1) kept_keys] by simp
qed

lemma authStep_kept:
  assumes "authStep lib ttl c c'"
  shows "sessionsKept ttl (aclock c') (redis (aworld c)) (redis (aworld c')) \<and> aclock c \<le> aclock c'"
  using assms by cases (auto intro: kept_login(1) kept_revokeAll kept_forceLogout(1) kept_keys)

lemma reachable_authInv: "authReachable lib ttl c \<Longrightarrow> authInv lib ttl c"
proof (induction rule: authReachable.induct)
  case (start c)
  then show ?case by (simp add: authInv_def)
qed (rule authStep_inv)

text \<open>A blocked session stays blocked as long as a token of it could live.\<close>

lemma blocked_for_good:
  assumes "(authStep lib ttl)\<^sup>*\<^sup>* c c'" "sessionSetsOk (redis (aworld c))" "iat \<le> aclock c"
    and "blockedUntil (redis (aworld c)) j (iat + ttl * 1000)"
  shows "sessionSetsOk (redis (aworld c')) \<and> iat \<le> aclock c' \<and> blockedUntil (redis (aworld c')) j (iat + ttl * 1000)"
  using assms
proof (induction rule: rtranclp_induct)
  case base
  then show ?case by simp
next
  case (step c1 c2)
  then show ?case using authStep_kept [OF step.hyps(2)] by (auto simp: sessionsKept_def)
qed

section \<open>Properties\<close>

text \<open>
  The documented behaviour of the JWT library that the sessions rely on: a token that verifies carries the session
  identifier it was signed with, and has not outlived its lifetime.
\<close>

definition jwtSound :: "jwtLib \<Rightarrow> bool" where
  "jwtSound lib \<longleftrightarrow> (\<forall>t ttl c t' c'. verifyJwt lib t' (signJwt lib t ttl c) = Some c' \<longrightarrow> jti c' = jti c \<and> t' < t + ttl * 1000)"


text \<open>C13: a nonce signs in once. A login succeeds only with a signature, valid for the address, of the nonce that is stored for
  it and has not expired; the account it returns is the one of that address; and afterwards the nonce is gone, so
  that no request for the address, with whatever signature, succeeds before a new nonce has been asked for.\<close>

theorem login_uses_nonce_once:
  assumes "login lib ttl verify e addr sig ua w = (Inr (tok, u), w')"
  shows "(\<exists>nonce. lookupKey (now e) (redis w) (NONCE_PREFIX @ addr) = Some (Text nonce) \<and> verify addr nonce sig = Some True) \<and>
    stellarAddress u = addr \<and> u \<in> set (users (db w')) \<and>
    login lib ttl verify' e' addr sig' ua' w' = (Inl UnauthorizedException, w')"
proof -
  from login_success [OF assms] obtain nonce w1
    where n: "getText (now e) (NONCE_PREFIX @ addr) (redis w) = Some nonce" "verify addr nonce sig = Some True"
      and up: "upsertUser addr (w\<lparr>redis := del (NONCE_PREFIX @ addr) (redis w)\<rparr>) = (Inr u, w1)"
      and w': "db w' = db w1" "redis w' = sadd (now e) (SESSION_SET_PREFIX @ uuidText (u_id u)) [randomUuid e] (redis w1)" by blast
  have u: "stellarAddress u = addr \<and> u \<in> set (users (db w1)) \<and> redis w1 = del (NONCE_PREFIX @ addr) (redis w)"
    using up by (auto simp: upsertUser_def findUser_def freshId_def modifyDb_def newUser_def split: option.splits dest: find_Some_prop)
  then have "redis w' (NONCE_PREFIX @ addr) = None"
    by (simp add: w' sadd_def del_def prefix_defs split: option.split rvalue.split)
  then have "login lib ttl verify' e' addr sig' ua' w' = (Inl UnauthorizedException, w')"
    by (simp add: login_def Let_def getText_def lookupKey_def)
  with n u w' show ?thesis by (auto simp: getText_def split: option.splits rvalue.splits)
qed

text \<open>A small JWT library: the text of a token is its expiry and its session.\<close>

definition jwt0 :: jwtLib where
  "jwt0 = \<lparr>signJwt = (\<lambda>t ttl c. case jti c of None \<Rightarrow> []
       | Some j \<Rightarrow> if t + ttl * 1000 < 0 then [] else digits (nat (t + ttl * 1000)) @ '':'' @ j),
     verifyJwt = (\<lambda>t s. case readNat 0 (takeWhile isDigit s) of
         Some x \<Rightarrow> if s \<noteq> [] \<and> t < int x then Some \<lparr>sub = 1, cl_stellarAddress = Some ''GB'', cl_role = Some BUYER,
           jti = Some (tl (dropWhile isDigit s)), cl_email = None, isImpersonation = False, impersonatorAdminId = None\<rparr> else None
       | None \<Rightarrow> None)\<rparr>"

lemma jwt0_sound: "jwtSound jwt0"
proof -
  have d: "isDigit ch" if "ch \<in> set (digits n)" for ch n using digit_chars [OF that] by (simp add: isDigit_def)
  have "takeWhile isDigit (digits n @ CHR '':'' # j) = digits n" "dropWhile isDigit (digits n @ CHR '':'' # j) = CHR '':'' # j" for n j
    using d by (simp_all add: takeWhile_append2 dropWhile_append2 isDigit_def)
  then show ?thesis
    by (auto simp: jwtSound_def jwt0_def readNat_digits split: option.splits if_splits)
qed

definition loginWorld :: world where
  "loginWorld = emptyWorld\<lparr>db := emptyDb\<lparr>users := [user0 1 ''GB'']\<rparr>,
     redis := [''chainsettle:nonce:GB'' \<mapsto> \<lparr>content = Text ''n'', expiresAt = Some 5000\<rparr>]\<rparr>"

definition signs0 :: "address \<Rightarrow> string \<Rightarrow> string \<Rightarrow> bool option" where
  "signs0 a n s = Some (s = a @ n)"

theorem login_uses_nonce_once_witness:
  "\<exists>tok u w'. login jwt0 60 signs0 env0 ''GB'' ''GBn'' ''ua'' loginWorld = (Inr (tok, u), w') \<and> u_id u = 1 \<and>
    login jwt0 60 signs0 env0 ''GB'' ''GBn'' ''ua'' w' = (Inl UnauthorizedException, w')"
proof -
  have "\<exists>tok u w'. login jwt0 60 signs0 env0 ''GB'' ''GBn'' ''ua'' loginWorld = (Inr (tok, u), w') \<and> u_id u = 1"
    by (simp add: login_def loginWorld_def getText_def lookupKey_def liveEntry_def NONCE_PREFIX_def signs0_def upsertUser_def
        findUser_def concrete_defs registerSession_def Let_def auditRecord_def)
  then show ?thesis using login_uses_nonce_once by blast
qed


subsection \<open>One-time codes\<close>

lemma run_updateUser:
  "updateUser uid f w = (case findUserById uid w of None \<Rightarrow> (Inl PrismaP2025, w)
    | Some _ \<Rightarrow> (Inr (), w\<lparr>db := (db w)\<lparr>users := updateWhere (\<lambda>u. u_id u = uid) f (users (db w))\<rparr>\<rparr>))"
  by (simp add: updateUser_def split: option.split)

lemma generateOtp_nonempty: "length ds = 6 \<Longrightarrow> generateOtp ds \<noteq> []"
  by (cases ds) (auto simp: generateOtp_def)

lemma run_verifyPhone:
  "verifyPhone e uid otp w =
    (if \<not> (getText (now e) (PHONE_OTP_PREFIX @ uuidText uid) (redis w) = Some otp \<and> otp \<noteq> []) then (Inl UnauthorizedException, w)
     else case getText (now e) (PHONE_OTP_PREFIX @ uuidText uid @ '':pending'') (redis w) of
       None \<Rightarrow> (Inl BadRequestException, w)
     | Some phone \<Rightarrow> if phone = [] then (Inl BadRequestException, w) else
         andThen (updateUser uid (\<lambda>r. r\<lparr>phoneNumber := Some phone, phoneVerified := True, pendingPhone := None\<rparr>)) (\<lambda>_. ret phone)
           (w\<lparr>redis := del (PHONE_OTP_PREFIX @ uuidText uid @ '':pending'') (del (PHONE_OTP_PREFIX @ uuidText uid) (redis w))\<rparr>))"
  by (simp add: verifyPhone_def Let_def andThen_def split: option.split)

text \<open>A phone number is verified by the code that was sent for it. Within five minutes of a request for a code, presenting exactly
  that code succeeds and stores the requested number as verified, after which no code is accepted any more;
  any other code is refused with 401 and changes nothing.\<close>

lemma phone_code_roundtrip:
  assumes "sendPhoneVerificationOtp e ds uid phone w = (Inr (), w1)" "length ds = 6" "phone \<noteq> []" "findUserById uid w = Some u"
    and "now e \<le> now e'" "now e' < now e + PHONE_OTP_TTL_MS"
  shows "(\<exists>w2. verifyPhone e' uid (generateOtp ds) w1 = (Inr phone, w2) \<and>
      (\<exists>u'. findUserById uid w2 = Some u' \<and> phoneNumber u' = Some phone \<and> phoneVerified u') \<and>
      (\<forall>e'' otp. verifyPhone e'' uid otp w2 = (Inl UnauthorizedException, w2))) \<and>
    (\<forall>otp. otp \<noteq> generateOtp ds \<longrightarrow> verifyPhone e' uid otp w1 = (Inl UnauthorizedException, w1))"
proof -
  let ?k = "PHONE_OTP_PREFIX @ uuidText uid"
  let ?p = "PHONE_OTP_PREFIX @ uuidText uid @ '':pending''"
  have w1: "w1 = w\<lparr>redis := setPx (now e) ?p phone PHONE_OTP_TTL_MS (setPx (now e) ?k (generateOtp ds) PHONE_OTP_TTL_MS (redis w))\<rparr>"
    using assms(1,4) by (auto simp: sendPhoneVerificationOtp_def split: if_splits)
  have code: "getText (now e') ?k (redis w1) = Some (generateOtp ds)" and pend: "getText (now e') ?p (redis w1) = Some phone"
    using assms(6) by (simp_all add: w1 setPx_def getText_def lookupKey_def liveEntry_def)
  have u: "findUserById uid (w1\<lparr>redis := r\<rparr>) = Some u" for r
    using assms(4) by (simp add: w1 findUserById_def)
  define f where "f = (\<lambda>r. r\<lparr>phoneNumber := Some phone, phoneVerified := True, pendingPhone := None\<rparr> :: user)"
  define w2 where "w2 = w1\<lparr>redis := del ?p (del ?k (redis w1)), db := (db w1)\<lparr>users := updateWhere (\<lambda>u. u_id u = uid) f (users (db w1))\<rparr>\<rparr>"
  have "verifyPhone e' uid (generateOtp ds) w1 = (Inr phone, w2)"
    using code pend assms(3) generateOtp_nonempty [OF assms(2)] u by (simp add: run_verifyPhone run_updateUser w2_def f_def)
  moreover have "findUserById uid w2 = Some (f u)"
  proof -
    have "find (\<lambda>x. u_id x = uid) (updateWhere (\<lambda>x. u_id x = uid) f (users (db w))) = Some (f u)"
      using assms(4) by (auto simp: find_updateWhere f_def findUserById_def dest: find_Some_prop)
    then show ?thesis by (simp add: findUserById_def w2_def w1)
  qed
  moreover have "verifyPhone e'' uid otp w2 = (Inl UnauthorizedException, w2)" for e'' otp
    by (simp add: run_verifyPhone w2_def getText_def lookupKey_def del_def)
  moreover have "verifyPhone e' uid otp w1 = (Inl UnauthorizedException, w1)" if "otp \<noteq> generateOtp ds" for otp
    using that code by (simp add: run_verifyPhone)
  ultimately show ?thesis by (auto simp: f_def)
qed

theorem phone_code_roundtrip_witness:
  "\<exists>w1 w2. sendPhoneVerificationOtp env0 [1, 2, 3, 4, 5, 6] 1 ''+1'' loginWorld = (Inr (), w1) \<and>
    verifyPhone (env0\<lparr>now := 2000\<rparr>) 1 (generateOtp [1, 2, 3, 4, 5, 6]) w1 = (Inr ''+1'', w2)"
proof -
  have u: "findUserById 1 loginWorld = Some (user0 1 ''GB'')"
    by (simp add: findUserById_def loginWorld_def concrete_defs)
  then obtain w1 where s: "sendPhoneVerificationOtp env0 [1, 2, 3, 4, 5, 6] 1 ''+1'' loginWorld = (Inr (), w1)"
    by (simp add: sendPhoneVerificationOtp_def user0_def)
  from phone_code_roundtrip [OF s _ _ u, of "env0\<lparr>now := 2000\<rparr>"] s show ?thesis
    by (auto simp: env0_def PHONE_OTP_TTL_MS_def)
qed

subsection \<open>What the checks do not cover\<close>

text \<open>A deactivated account signs in like any other: neither \<open>login\<close> nor \<open>JwtStrategy\<close> looks at \<open>deactivatedAt\<close>.\<close>

lemma deactivated_user_signs_in:
  assumes "findUser addr w = Some u" "deactivatedAt u = Some d"
    and "getText (now e) (NONCE_PREFIX @ addr) (redis w) = Some nonce" "nonce \<noteq> []" "verify addr nonce sig = Some True"
  shows "\<exists>tok w'. login lib ttl verify e addr sig ua w = (Inr (tok, u), w')"
  using assms by (simp add: login_def Let_def upsertUser_def findUser_def registerSession_def auditRecord_def)

text \<open>The request of an impersonation token is not recognised as such, so \<open>ImpersonationGuard\<close> lets it pass.\<close>

lemma impersonation_passes_guard:
  assumes "verifyJwt lib t tok = Some (impersonationClaims u admin)"
  shows "\<exists>ru. authenticate lib t tok w = (Inr ru, w) \<and> canActivate True ru w = (Inr (), w)"
  using assms by (simp add: authenticate_def validateJwt_def impersonationClaims_def canActivate_def)

text \<open>The token of a verification mail is accepted as a bearer token.\<close>

lemma verification_token_authenticates:
  assumes "verifyJwt lib t tok = Some (verificationClaims uid a)"
  shows "\<exists>ru. authenticate lib t tok w = (Inr ru, w) \<and> ru_id ru = uid"
  using assms by (simp add: authenticate_def validateJwt_def verificationClaims_def)

end
