(* ===== verification/Api_Keys.thy ===== *)
theory Api_Keys
  imports Auth
begin

text \<open>
  API keys (\<open>src/src/modules/auth/\<close>): the controller that creates, rotates and revokes them
  (\<open>api-keys.controller.ts\<close>), the strategy that accepts them (\<open>api-key.strategy.ts\<close>), the guard for their scopes
  (\<open>api-key.guard.ts\<close>), usage counters, and the daily job that warns about keys close to expiry
  (\<open>api-key-expiry.job.ts\<close>). The plaintext of a new key is an argument; only its hash is stored.
\<close>

section \<open>Managing keys\<close>

definition API_KEY_SCOPES :: "string list" where
  "API_KEY_SCOPES = [''read'', ''write'']"

definition findKey :: "uuid \<Rightarrow> world \<Rightarrow> apiKey option" where
  "findKey i w = find (\<lambda>k. ak_id k = i) (apiKeys (db w))"

definition findKeyByHash :: "string \<Rightarrow> world \<Rightarrow> apiKey option" where
  "findKeyByHash h w = find (\<lambda>k. keyHash k = h) (apiKeys (db w))"

text \<open>\<open>apiKey.create\<close>: the hash is unique.\<close>

definition insertKey :: "apiKey \<Rightarrow> unit act" where
  "insertKey k =
     andThen (reads (findKeyByHash (keyHash k))) (\<lambda>dup.
     require (dup = None) PrismaP2002 (
     modifyDb (\<lambda>d. d\<lparr>apiKeys := apiKeys d @ [k]\<rparr>)))"

definition updateKey :: "uuid \<Rightarrow> (apiKey \<Rightarrow> apiKey) \<Rightarrow> unit act" where
  "updateKey i f =
     andThen (reads (findKey i)) (\<lambda>found.
     requireSome found PrismaP2025 (\<lambda>_.
     modifyDb (\<lambda>d. d\<lparr>apiKeys := updateWhere (\<lambda>k. ak_id k = i) f (apiKeys d)\<rparr>)))"

definition listKeys :: "uuid \<Rightarrow> world \<Rightarrow> apiKey list" where
  "listKeys uid w = sort_key (\<lambda>k. - ak_createdAt k) (filter (\<lambda>k. ak_userId k = uid \<and> revokedAt k = None) (apiKeys (db w)))"

definition newKey :: "uuid \<Rightarrow> uuid \<Rightarrow> string \<Rightarrow> string \<Rightarrow> string list \<Rightarrow> time option \<Rightarrow> uuid option \<Rightarrow> time \<Rightarrow> apiKey" where
  "newKey i uid h name sc expiry from t = \<lparr>ak_id = i, ak_userId = uid, keyHash = h, ak_name = name, scopes = sc, lastUsedAt = None,
     ak_expiresAt = expiry, expiryWarningSentAt = None, ak_createdAt = t, revokedAt = None, rotatedFromId = from,
     gracePeriodEndsAt = None\<rparr>"

definition createKey :: "env \<Rightarrow> string \<Rightarrow> uuid \<Rightarrow> string \<Rightarrow> string list option \<Rightarrow> time option \<Rightarrow> apiKey act" where
  "createKey e plaintext uid name sc expiry =
     andThen freshId (\<lambda>i.
     let k = newKey i uid (sha256Hex e plaintext) name (case sc of None \<Rightarrow> API_KEY_SCOPES | Some s \<Rightarrow> s) expiry None (now e) in
     andThen (insertKey k) (\<lambda>_. ret k))"

text \<open>The end of the grace period in which the old key stays usable.\<close>

definition graceEnd :: "time \<Rightarrow> int option \<Rightarrow> time option" where
  "graceEnd t grace = (case grace of None \<Rightarrow> None | Some g \<Rightarrow> if g > 0 then Some (t + g * 1000) else None)"

text \<open>The transaction: revoke the old key and create its replacement.\<close>

definition replaceKey :: "env \<Rightarrow> string \<Rightarrow> apiKey \<Rightarrow> time option \<Rightarrow> apiKey act" where
  "replaceKey e plaintext existing graceEnds = transaction (
     andThen (updateKey (ak_id existing) (\<lambda>k. k\<lparr>revokedAt := Some (now e), gracePeriodEndsAt := graceEnds\<rparr>)) (\<lambda>_.
     andThen freshId (\<lambda>j.
     let k = newKey j (ak_userId existing) (sha256Hex e plaintext) (ak_name existing) (scopes existing) None (Some (ak_id existing)) (now e) in
     andThen (insertKey k) (\<lambda>_. ret k))))"

definition rotateKey :: "env \<Rightarrow> string \<Rightarrow> uuid \<Rightarrow> address option \<Rightarrow> uuid \<Rightarrow> int option \<Rightarrow> (apiKey \<times> time option) act" where
  "rotateKey e plaintext uid adr i gracePeriodSeconds =
     andThen (reads (findKey i)) (\<lambda>found.
     requireSome (case found of None \<Rightarrow> None | Some k \<Rightarrow> if ak_userId k = uid then Some k else None) NotFoundException (\<lambda>existing.
     require (revokedAt existing = None) ConflictException (
     let graceEnds = graceEnd (now e) gracePeriodSeconds in
     andThen (replaceKey e plaintext existing graceEnds) (\<lambda>k.
     andThen (auditRecord \<lparr>au_actorId = Some uid, au_actorAddress = (case adr of None \<Rightarrow> [] | Some a \<Rightarrow> a),
        au_action = ''API_KEY_ROTATED'', au_resourceType = ''api_key'', au_resourceId = ByUuid (ak_id k),
        au_metadata = JObj [(''oldKeyId'', JNum (int (ak_id existing))), (''newKeyId'', JNum (int (ak_id k))),
          (''gracePeriodSeconds'', JNum (case gracePeriodSeconds of None \<Rightarrow> 0 | Some g \<Rightarrow> g)),
          (''gracePeriodEndsAt'', case graceEnds of None \<Rightarrow> JNull | Some t \<Rightarrow> JStr (isoString t))]\<rparr>) (\<lambda>_.
     ret (k, graceEnds))))))"

definition revokeKey :: "env \<Rightarrow> uuid \<Rightarrow> uuid \<Rightarrow> unit act" where
  "revokeKey e uid i =
     andThen (reads (findKey i)) (\<lambda>found.
     requireSome (case found of None \<Rightarrow> None | Some k \<Rightarrow> if revokedAt k = None then Some k else None) NotFoundException (\<lambda>k.
     require (ak_userId k = uid) ForbiddenException (
     updateKey i (\<lambda>r. r\<lparr>revokedAt := Some (now e)\<rparr>))))"

section \<open>Usage\<close>

definition API_KEY_USAGE_PREFIX :: string where
  "API_KEY_USAGE_PREFIX = ''chainsettle:api-key:usage:''"

definition API_KEY_USAGE_TTL_SECONDS :: int where
  "API_KEY_USAGE_TTL_SECONDS = 31 * 24 * 60 * 60"

definition usageKey :: "uuid \<Rightarrow> time \<Rightarrow> string" where
  "usageKey i t = API_KEY_USAGE_PREFIX @ uuidText i @ '':'' @ take 10 (isoString t)"

definition counter :: "time \<Rightarrow> string \<Rightarrow> keyspace \<Rightarrow> int" where
  "counter t key r = (case getText t key r of None \<Rightarrow> 0 | Some s \<Rightarrow> (case parseBigInt s of None \<Rightarrow> 0 | Some n \<Rightarrow> n))"

text \<open>\<open>INCR\<close>, and \<open>EXPIRE\<close> when the counter has just been created.\<close>

definition recordUsage :: "time \<Rightarrow> string \<Rightarrow> keyspace \<Rightarrow> keyspace" where
  "recordUsage t key r =
     (let val = counter t key r + 1 in
      if val = 1 then r(key \<mapsto> \<lparr>content = Text (showInt val), expiresAt = Some (t + API_KEY_USAGE_TTL_SECONDS * 1000)\<rparr>)
      else r(key \<mapsto> \<lparr>content = Text (showInt val), expiresAt = (case r key of None \<Rightarrow> None | Some en \<Rightarrow> expiresAt en)\<rparr>))"

definition getUsage :: "env \<Rightarrow> uuid \<Rightarrow> uuid \<Rightarrow> (int \<times> int list) act" where
  "getUsage e uid i =
     andThen (reads (findKey i)) (\<lambda>found.
     requireSome found NotFoundException (\<lambda>k.
     require (ak_userId k = uid) ForbiddenException (
     reads (\<lambda>w. let daily = map (\<lambda>d. counter (now e) (usageKey i (now e - int d * 24 * 60 * 60 * 1000)) (redis w)) (rev [0..<30])
                in (sum_list daily, daily)))))"

section \<open>Accepting a key\<close>

definition inGracePeriod :: "time \<Rightarrow> apiKey \<Rightarrow> bool" where
  "inGracePeriod t k \<longleftrightarrow> (case gracePeriodEndsAt k of None \<Rightarrow> False | Some g \<Rightarrow> t < g)"

definition validateApiKey :: "env \<Rightarrow> string option \<Rightarrow> (user option \<times> string list) act" where
  "validateApiKey e header =
     requireSome (if header = Some [] then None else header) UnauthorizedException (\<lambda>rawKey.
     andThen (reads (findKeyByHash (sha256Hex e rawKey))) (\<lambda>found.
     requireSome found UnauthorizedException (\<lambda>k.
     require (revokedAt k = None \<or> inGracePeriod (now e) k) UnauthorizedException (
     require (case ak_expiresAt k of None \<Rightarrow> True | Some x \<Rightarrow> now e < x) UnauthorizedException (
     andThen (reads (findUserById (ak_userId k))) (\<lambda>owner.
     require (case owner of None \<Rightarrow> True | Some u \<Rightarrow> deactivatedAt u = None) UnauthorizedException (
     andThen (attempt (updateKey (ak_id k) (\<lambda>r. r\<lparr>lastUsedAt := Some (now e)\<rparr>)) (\<lambda>_. ret ())) (\<lambda>_.
     andThen (onRedis (recordUsage (now e) (usageKey (ak_id k) (now e)))) (\<lambda>_.
     ret (owner, scopes k))))))))))"

definition WRITE_METHODS :: "string list" where
  "WRITE_METHODS = [''POST'', ''PUT'', ''PATCH'', ''DELETE'']"

definition handleRequest :: "string \<Rightarrow> user option \<times> string list \<Rightarrow> (user option \<times> string list) act" where
  "handleRequest meth u =
     require (toUpperCase meth \<notin> set WRITE_METHODS \<or> ''write'' \<in> set (snd u)) ForbiddenException (ret u)"

definition guardApiKey :: "env \<Rightarrow> string \<Rightarrow> string option \<Rightarrow> (user option \<times> string list) act" where
  "guardApiKey e meth header = andThen (validateApiKey e header) (handleRequest meth)"

section \<open>Expiry warnings\<close>

definition WARNING_WINDOW_MS :: int where
  "WARNING_WINDOW_MS = 7 * 24 * 60 * 60 * 1000"

definition expiringSelect :: "time \<Rightarrow> apiKey \<Rightarrow> bool" where
  "expiringSelect t k \<longleftrightarrow> revokedAt k = None \<and> expiryWarningSentAt k = None \<and>
     (case ak_expiresAt k of None \<Rightarrow> False | Some x \<Rightarrow> t < x \<and> x \<le> t + WARNING_WINDOW_MS)"

text \<open>\<open>Math.ceil\<close> of a quotient of milliseconds.\<close>

definition daysLeft :: "time \<Rightarrow> time \<Rightarrow> int" where
  "daysLeft t x = - ((t - x) div (24 * 60 * 60 * 1000))"

definition sendExpiryWarning :: "env \<Rightarrow> apiKey \<Rightarrow> unit act" where
  "sendExpiryWarning e k =
     attempt
       (andThen (reads (findUserById (ak_userId k))) (\<lambda>found.
        requireSome found RuntimeError (\<lambda>u.
        requireSome (ak_expiresAt k) RuntimeError (\<lambda>x.
        let n = daysLeft (now e) x in
        andThen (notifyUser e (stellarAddress u) N_SYSTEM_ALERT
          (''API key '' @ [CHR 0x22] @ ak_name k @ [CHR 0x22] @ '' expires in '' @ showInt n @ '' day'' @ (if n = 1 then [] else ''s''))
          (JObj [(''apiKeyId'', JNum (int (ak_id k))), (''apiKeyName'', JStr (ak_name k)), (''expiresAt'', JStr (isoString x)),
            (''daysLeft'', JNum n)])) (\<lambda>_.
        updateKey (ak_id k) (\<lambda>r. r\<lparr>expiryWarningSentAt := Some (now e)\<rparr>))))))
       (\<lambda>_. ret ())"

definition warnExpiringKeys :: "env \<Rightarrow> unit act" where
  "warnExpiringKeys e =
     andThen (reads (\<lambda>w. filter (expiringSelect (now e)) (apiKeys (db w)))) (\<lambda>due.
     forEach due (sendExpiryWarning e))"

section \<open>Lemmas\<close>

text \<open>When a stored key is accepted.\<close>

definition keyLive :: "time \<Rightarrow> apiKey \<Rightarrow> bool" where
  "keyLive t k \<longleftrightarrow> (revokedAt k = None \<or> inGracePeriod t k) \<and> (case ak_expiresAt k of None \<Rightarrow> True | Some x \<Rightarrow> t < x)"

definition ownerActive :: "apiKey \<Rightarrow> world \<Rightarrow> bool" where
  "ownerActive k w \<longleftrightarrow> (case findUserById (ak_userId k) w of None \<Rightarrow> True | Some u \<Rightarrow> deactivatedAt u = None)"

lemma run_updateKey:
  "updateKey i f w = (case findKey i w of None \<Rightarrow> (Inl PrismaP2025, w)
    | Some _ \<Rightarrow> (Inr (), w\<lparr>db := (db w)\<lparr>apiKeys := updateWhere (\<lambda>k. ak_id k = i) f (apiKeys (db w))\<rparr>\<rparr>))"
  by (simp add: updateKey_def modifyDb_def split: option.split)

lemma total_stamp: "neverFails (attempt (updateKey i f) (\<lambda>_. ret ()))"
  by (intro total_intros)

lemma validateApiKey_result:
  assumes "raw \<noteq> []"
  shows "fst (validateApiKey e (Some raw) w) = (case findKeyByHash (sha256Hex e raw) w of None \<Rightarrow> Inl UnauthorizedException
    | Some k \<Rightarrow> if keyLive (now e) k \<and> ownerActive k w then Inr (findUserById (ak_userId k) w, scopes k) else Inl UnauthorizedException)"
proof (cases "findKeyByHash (sha256Hex e raw) w")
  case None
  then show ?thesis using assms by (simp add: validateApiKey_def)
next
  case (Some k)
  obtain v where "attempt (updateKey (ak_id k) (\<lambda>r. r\<lparr>lastUsedAt := Some (now e)\<rparr>)) (\<lambda>_. ret ()) w = (Inr (), v)"
    using total_stamp [of "ak_id k" "\<lambda>r. r\<lparr>lastUsedAt := Some (now e)\<rparr>"] by (auto simp: neverFails_def)
  then show ?thesis using assms Some by (simp add: validateApiKey_def keyLive_def ownerActive_def)
qed

definition wf_keys :: "db \<Rightarrow> bool" where
  "wf_keys d \<longleftrightarrow> distinct (map ak_id (apiKeys d)) \<and> distinct (map keyHash (apiKeys d)) \<and> (\<forall>k \<in> set (apiKeys d). ak_id k < nextId d)"

lemma run_insertKey:
  "insertKey k w = (if findKeyByHash (keyHash k) w = None
    then (Inr (), w\<lparr>db := (db w)\<lparr>apiKeys := apiKeys (db w) @ [k]\<rparr>\<rparr>) else (Inl PrismaP2002, w))"
  by (simp add: insertKey_def modifyDb_def)

lemma keyHash_newKey [simp]: "keyHash (newKey i uid h name sc expiry from t) = h"
  by (simp add: newKey_def)

lemma replaceKey_success:
  assumes "replaceKey e plaintext old ends w = (Inr k, w')"
  shows "k = newKey (nextId (db w)) (ak_userId old) (sha256Hex e plaintext) (ak_name old) (scopes old) None (Some (ak_id old)) (now e)"
    and "findKeyByHash (sha256Hex e plaintext) w = None"
    and "apiKeys (db w') = updateWhere (\<lambda>k. ak_id k = ak_id old)
      (\<lambda>k. k\<lparr>revokedAt := Some (now e), gracePeriodEndsAt := ends\<rparr>) (apiKeys (db w)) @ [k]"
    and "users (db w') = users (db w)"
proof -
  define f where "f = (\<lambda>k. k\<lparr>revokedAt := Some (now e), gracePeriodEndsAt := ends\<rparr> :: apiKey)"
  define v where "v = w\<lparr>db := (db w)\<lparr>apiKeys := updateWhere (\<lambda>k. ak_id k = ak_id old) f (apiKeys (db w)), nextId := Suc (nextId (db w))\<rparr>\<rparr>"
  define n where "n = newKey (nextId (db w)) (ak_userId old) (sha256Hex e plaintext) (ak_name old) (scopes old) None (Some (ak_id old)) (now e)"
  have hash: "findKeyByHash h v = None \<longleftrightarrow> findKeyByHash h w = None" for h
    by (simp add: findKeyByHash_def v_def find_updateWhere f_def)
  obtain r where "findKey (ak_id old) w = Some r"
    using assms by (cases "findKey (ak_id old) w") (auto simp: replaceKey_def transaction_def run_updateKey)
  then have "replaceKey e plaintext old ends w = transaction (\<lambda>w. andThen (insertKey n) (\<lambda>_. ret n) v) w"
    unfolding replaceKey_def f_def [symmetric] transaction_def
    by (simp add: run_updateKey freshId_def modifyDb_def v_def n_def Let_def)
  then have "k = n \<and> findKeyByHash (sha256Hex e plaintext) w = None \<and> w' = v\<lparr>db := (db v)\<lparr>apiKeys := apiKeys (db v) @ [n]\<rparr>\<rparr>"
    using assms hash by (auto simp: transaction_def run_insertKey n_def andThen_def split: if_splits)
  then show "k = newKey (nextId (db w)) (ak_userId old) (sha256Hex e plaintext) (ak_name old) (scopes old) None (Some (ak_id old)) (now e)"
    and "findKeyByHash (sha256Hex e plaintext) w = None"
    and "apiKeys (db w') = updateWhere (\<lambda>k. ak_id k = ak_id old)
      (\<lambda>k. k\<lparr>revokedAt := Some (now e), gracePeriodEndsAt := ends\<rparr>) (apiKeys (db w)) @ [k]"
    and "users (db w') = users (db w)"
    by (simp_all add: n_def v_def f_def)
qed

lemma rotateKey_success:
  assumes "rotateKey e plaintext uid adr i grace w = (Inr (k, ends), w')"
  obtains old w1 where "findKey i w = Some old" "ak_id old = i" "ak_userId old = uid" "revokedAt old = None"
    "ends = graceEnd (now e) grace" "replaceKey e plaintext old ends w = (Inr k, w1)" "db w' = db w1"
proof -
  from assms obtain old where old: "findKey i w = Some old" "ak_userId old = uid" "revokedAt old = None"
    by (auto simp: rotateKey_def success_iffs split: option.splits if_splits)
  moreover from old(1) have "ak_id old = i" by (auto simp: findKey_def dest: find_Some_prop)
  moreover obtain w1 where "replaceKey e plaintext old (graceEnd (now e) grace) w = (Inr k, w1)" "db w' = db w1" "ends = graceEnd (now e) grace"
    using assms old by (auto simp: rotateKey_def success_iffs Let_def auditRecord_def)
  ultimately show thesis by (intro that) auto
qed

lemma find_appended: "find p xs = Some x \<Longrightarrow> find p (xs @ ys) = Some x" "find p xs = None \<Longrightarrow> find p (xs @ ys) = find p ys"
  by (simp_all add: find_append)

section \<open>Properties\<close>

text \<open>C16: rotation swaps a key without a gap and without an overlap beyond the grace period. After a rotation the new key is accepted at once,
  for the same account and with the same scopes, and the old key is accepted exactly as long as the grace period
  lasts (and its own expiry allows), at once refused without one.\<close>

theorem api_key_rotation_window:
  assumes "rotateKey e plaintext uid adr i grace w = (Inr (k, ends), w')" "wf_keys (db w)"
    and "findKeyByHash (sha256Hex e raw) w = Some old" "ak_id old = i" "raw \<noteq> []" "plaintext \<noteq> []"
    and "findUserById uid w = Some u" "deactivatedAt u = None" "sha256Hex e' = sha256Hex e"
  shows "fst (validateApiKey e' (Some plaintext) w') = Inr (Some u, scopes old) \<and>
    ((\<exists>r. fst (validateApiKey e' (Some raw) w') = Inr r) \<longleftrightarrow>
      (case grace of None \<Rightarrow> False | Some g \<Rightarrow> now e' < now e + g * 1000 \<and> 0 < g) \<and>
      (case ak_expiresAt old of None \<Rightarrow> True | Some x \<Rightarrow> now e' < x))"
proof -
  from rotateKey_success [OF assms(1)] obtain old' w1 where o': "findKey i w = Some old'" "ak_id old' = i" "ak_userId old' = uid"
      and ends: "ends = graceEnd (now e) grace" and rep: "replaceKey e plaintext old' ends w = (Inr k, w1)" and w': "db w' = db w1" by blast
  have mem: "old \<in> set (apiKeys (db w))" "old' \<in> set (apiKeys (db w))"
    using assms(3) o'(1) by (auto simp: findKeyByHash_def findKey_def dest: find_Some_prop)
  then have same: "old' = old" using assms(2,4) o'(2) by (auto simp: wf_keys_def distinct_map dest: inj_onD)
  note k = replaceKey_success [OF rep, unfolded same]
  define f where "f = (\<lambda>k. k\<lparr>revokedAt := Some (now e), gracePeriodEndsAt := ends\<rparr> :: apiKey)"
  have rows: "apiKeys (db w') = updateWhere (\<lambda>k. ak_id k = i) f (apiKeys (db w)) @ [k]" "users (db w') = users (db w)"
    using k(3,4) w' assms(4) by (simp_all add: f_def)
  have user: "findUserById uid w' = Some u" using assms(7) rows(2) by (simp add: findUserById_def)
  have fnd: "find (\<lambda>r. keyHash r = h) (updateWhere p f xs) = map_option (\<lambda>r. if p r then f r else r) (find (\<lambda>r. keyHash r = h) xs)" for h p xs
    by (rule find_updateWhere) (simp add: f_def)
  have new: "findKeyByHash (sha256Hex e plaintext) w' = Some k"
    using k(1,2) by (simp add: findKeyByHash_def rows(1) find_append fnd newKey_def)
  have oldF: "findKeyByHash (sha256Hex e raw) w' = Some (f old)"
    using assms(3,4) by (simp add: findKeyByHash_def rows(1) find_append fnd)
  show ?thesis
    using new oldF user assms(5,6,8,9) o'(3) same k(1)
    by (auto simp: validateApiKey_result keyLive_def ownerActive_def newKey_def f_def inGracePeriod_def ends graceEnd_def
        split: option.splits if_splits)
qed

definition key0 :: apiKey where
  "key0 = newKey 7 1 ''hash:old'' ''ci'' [''read''] None None 0"

definition keyWorld :: world where
  "keyWorld = emptyWorld\<lparr>db := emptyDb\<lparr>users := [user0 1 ''GB''], apiKeys := [key0]\<rparr>\<rparr>"

definition hashEnv :: "time \<Rightarrow> env" where
  "hashEnv t = env0\<lparr>now := t, sha256Hex := (\<lambda>s. ''hash:'' @ s)\<rparr>"

theorem api_key_rotation_window_witness:
  "\<exists>k ends w' u. rotateKey (hashEnv 1000) ''new'' 1 None 7 (Some 60) keyWorld = (Inr (k, ends), w') \<and>
    fst (validateApiKey (hashEnv 2000) (Some ''new'') w') = Inr (Some u, [''read'']) \<and>
    \<not> (\<exists>r. fst (validateApiKey (hashEnv 61000) (Some ''old'') w') = Inr r) \<and>
    (\<exists>r. fst (validateApiKey (hashEnv 60999) (Some ''old'') w') = Inr r)"
proof -
  have "\<exists>k ends w'. rotateKey (hashEnv 1000) ''new'' 1 None 7 (Some 60) keyWorld = (Inr (k, ends), w')"
    by (simp add: rotateKey_def keyWorld_def key0_def newKey_def findKey_def replaceKey_def transaction_def run_updateKey freshId_def
        modifyDb_def run_insertKey findKeyByHash_def hashEnv_def concrete_defs auditRecord_def Let_def)
  then obtain k ends w' where r: "rotateKey (hashEnv 1000) ''new'' 1 None 7 (Some 60) keyWorld = (Inr (k, ends), w')" by blast
  have hyps: "wf_keys (db keyWorld)" "findKeyByHash (sha256Hex (hashEnv 1000) ''old'') keyWorld = Some key0" "ak_id key0 = 7"
      "findUserById 1 keyWorld = Some (user0 1 ''GB'')" "deactivatedAt (user0 1 ''GB'') = None"
    by (simp_all add: wf_keys_def keyWorld_def key0_def newKey_def findKeyByHash_def findUserById_def hashEnv_def concrete_defs)
  have "fst (validateApiKey (hashEnv t) (Some ''new'') w') = Inr (Some (user0 1 ''GB''), [''read'']) \<and>
      ((\<exists>r. fst (validateApiKey (hashEnv t) (Some ''old'') w') = Inr r) \<longleftrightarrow> t < 61000)" for t
    using api_key_rotation_window [OF r hyps(1-3) _ _ hyps(4,5), of "hashEnv t"]
    by (simp add: hashEnv_def key0_def newKey_def)
  with r show ?thesis by (intro exI [of _ k] exI [of _ ends] exI [of _ w'] exI [of _ "user0 1 ''GB''"]) simp
qed

subsection \<open>Keys in their grace period\<close>

text \<open>
  A key in its grace period can neither be revoked by its owner, who gets a 404, nor by a forced logout that revokes the
  keys: both only consider keys that are not revoked yet.
\<close>

lemma grace_key_cannot_be_revoked:
  assumes "findKey i w = Some k" "revokedAt k \<noteq> None"
  shows "revokeKey e uid i w = (Inl NotFoundException, w)"
  using assms by (auto simp: revokeKey_def)

lemma grace_key_survives_forced_logout:
  assumes "k \<in> set (apiKeys (db w))" "revokedAt k \<noteq> None"
  shows "k \<in> set (apiKeys (db (snd (revokeApiKeysOf t uid w))))"
  using assms by (force simp: revokeApiKeysOf_def modifyDb_def in_set_updateWhere)

text \<open>A key with only the read scope never passes the guard of a mutating request.\<close>

lemma read_only_key_cannot_write:
  assumes "guardApiKey e ''POST'' header w = (Inr (u, sc), w')"
  shows "''write'' \<in> set sc"
  using assms by (auto simp: guardApiKey_def handleRequest_def success_iffs WRITE_METHODS_def toUpperCase_def)

end
