(* ===== verification/Webhooks.thy ===== *)
theory Webhooks
  imports Shipment_Edits Kyc
begin

text \<open>
  \<open>WebhooksService\<close> (\<open>src/src/modules/webhooks/webhooks.service.ts\<close>) and the rules for custom headers
  (\<open>webhook-headers.util.ts\<close>): registration of endpoints, signed deliveries, the automatic retry queue and manual
  retries. The HTTP client, the HMAC, the cipher, random numbers and the configured limit are the fields of \<open>hookLib\<close>.
  Texts are sequences of bytes. Concurrent deliveries of one batch touch different rows and are made one after the other.
\<close>

section \<open>Retry policy\<close>

text \<open>What \<open>axios.post\<close> does: it resolves with a status and a body, or rejects with a response or with an error code.\<close>

datatype postReply = Answered int string | Refused int string | NetworkError string string

record hookLib =
  post :: "string \<Rightarrow> string \<Rightarrow> (string \<times> string) list \<Rightarrow> postReply"
  hmacHex :: "string \<Rightarrow> string \<Rightarrow> string"
  random01 :: rat
  randomSecret :: string
  maxPayloadBytes :: nat
  encryptValue :: "string \<Rightarrow> string"
  decryptValue :: "string \<Rightarrow> string option"
  idOrder :: "uuid \<Rightarrow> nat"

definition MAX_AUTO_ATTEMPTS :: int where
  "MAX_AUTO_ATTEMPTS = 5"

definition RETRYABLE_STATUS_CODES :: "int list" where
  "RETRYABLE_STATUS_CODES = [429, 500, 502, 503, 504]"

definition RETRYABLE_ERROR_CODES :: "string list" where
  "RETRYABLE_ERROR_CODES = [''ECONNREFUSED'', ''ECONNRESET'', ''ETIMEDOUT'', ''ENOTFOUND'', ''ERR_NETWORK'']"

definition baseDelaySeconds :: "int \<Rightarrow> int" where
  "baseDelaySeconds n = 30 * 4 ^ nat (n - 1)"

definition withJitter :: "rat \<Rightarrow> int \<Rightarrow> int" where
  "withJitter rnd seconds = \<lfloor>of_int seconds * (1 + (rnd - 1 / 2) * (1 / 2)) + 1 / 2\<rfloor>"

definition nextRetryDate :: "hookLib \<Rightarrow> time \<Rightarrow> int \<Rightarrow> time" where
  "nextRetryDate lib t attempts = t + withJitter (random01 lib) (baseDelaySeconds attempts) * 1000"

definition isRetryable :: "postReply \<Rightarrow> bool" where
  "isRetryable r = (case r of
      Answered _ _ \<Rightarrow> False
    | Refused st _ \<Rightarrow> st \<in> set RETRYABLE_STATUS_CODES
    | NetworkError code _ \<Rightarrow> code \<in> set RETRYABLE_ERROR_CODES \<or> code = ''ECONNABORTED'')"

definition replyStatus :: "postReply \<Rightarrow> int option" where
  "replyStatus r = (case r of Answered st _ \<Rightarrow> Some st | Refused st _ \<Rightarrow> Some st | NetworkError _ _ \<Rightarrow> None)"

definition replyBody :: "postReply \<Rightarrow> string" where
  "replyBody r = take 1000 (case r of Answered _ b \<Rightarrow> b | Refused _ b \<Rightarrow> b | NetworkError _ msg \<Rightarrow> msg)"

section \<open>Bodies and signatures\<close>

primrec jsonStringify :: "json \<Rightarrow> string" where
  "jsonStringify JNull = ''null''"
| "jsonStringify (JBool b) = (if b then ''true'' else ''false'')"
| "jsonStringify (JNum i) = showInt i"
| "jsonStringify (JStr s) = jsonQuote s"
| "jsonStringify (JArr xs) = ''['' @ joinComma (map jsonStringify xs) @ '']''"
| "jsonStringify (JObj kvs) = ''{'' @ joinComma (map (\<lambda>(k, v). jsonQuote k @ '':'' @ v) (map (map_prod id jsonStringify) kvs)) @ ''}''"

definition buildBody :: "time \<Rightarrow> string \<Rightarrow> json \<Rightarrow> string" where
  "buildBody t eventType payload = jsonStringify (JObj [(''eventType'', JStr eventType), (''payload'', payload),
     (''timestamp'', JStr (isoString t))])"

definition signBody :: "hookLib \<Rightarrow> string \<Rightarrow> string \<Rightarrow> string" where
  "signBody lib secret body = ''sha256='' @ hmacHex lib secret body"

definition signBodyV2 :: "hookLib \<Rightarrow> string \<Rightarrow> int \<Rightarrow> string \<Rightarrow> string" where
  "signBodyV2 lib secret ts body = ''t='' @ showInt ts @ '',v1='' @ hmacHex lib secret (showInt ts @ ''.'' @ body)"

definition nowUnixSeconds :: "time \<Rightarrow> int" where
  "nowUnixSeconds t = t div 1000"

definition exceedsLimit :: "hookLib \<Rightarrow> string \<Rightarrow> bool" where
  "exceedsLimit lib body \<longleftrightarrow> length body > maxPayloadBytes lib"

section \<open>Custom headers\<close>

definition RESERVED_HEADERS :: "string list" where
  "RESERVED_HEADERS = [''host'', ''content-length'', ''content-type'']"

definition isReservedHeader :: "string \<Rightarrow> bool" where
  "isReservedHeader name \<longleftrightarrow> toLowerCase name \<in> set RESERVED_HEADERS \<or> startsWith ''x-chainsettle-'' (toLowerCase name)"

definition MAX_HEADERS :: nat where
  "MAX_HEADERS = 10"

definition MAX_HEADERS_TOTAL_BYTES :: nat where
  "MAX_HEADERS_TOTAL_BYTES = 1024"

definition headerChar :: "char \<Rightarrow> bool" where
  "headerChar c \<longleftrightarrow> (let n = (of_char c :: nat) in
     48 \<le> n \<and> n \<le> 57 \<or> 65 \<le> n \<and> n \<le> 90 \<or> 97 \<le> n \<and> n \<le> 122 \<or> n \<in> {33, 35, 36, 37, 38, 39, 42, 43, 45, 46, 94, 95, 96, 124, 126})"

fun headersOk :: "(string \<times> string) list \<Rightarrow> nat \<Rightarrow> bool" where
  "headersOk [] bytes = True"
| "headersOk ((name, value) # hs) bytes \<longleftrightarrow>
     name \<noteq> [] \<and> list_all headerChar name \<and> \<not> isReservedHeader name \<and>
     bytes + length name + length value \<le> MAX_HEADERS_TOTAL_BYTES \<and> headersOk hs (bytes + length name + length value)"

definition validateHeaders :: "(string \<times> string) list \<Rightarrow> bool" where
  "validateHeaders hs \<longleftrightarrow> length hs \<le> MAX_HEADERS \<and> headersOk hs 0"

definition maskHeaders :: "(string \<times> string) list \<Rightarrow> (string \<times> string) list" where
  "maskHeaders hs = map (\<lambda>(n, _). (n, concat (replicate 8 [CHR 0xE2, CHR 0x80, CHR 0xA2]))) hs"

definition encryptHeaders :: "hookLib \<Rightarrow> (string \<times> string) list \<Rightarrow> (string \<times> string) list" where
  "encryptHeaders lib hs = map (\<lambda>(n, v). (n, encryptValue lib v)) hs"

text \<open>A value that cannot be decrypted is skipped.\<close>

definition decryptHeaders :: "hookLib \<Rightarrow> (string \<times> string) list option \<Rightarrow> (string \<times> string) list" where
  "decryptHeaders lib hs = (case hs of None \<Rightarrow> []
     | Some xs \<Rightarrow> List.map_filter (\<lambda>(n, v). case decryptValue lib v of None \<Rightarrow> None | Some x \<Rightarrow> Some (n, x)) xs)"

text \<open>The headers of a signed delivery, and those of a manual retry, where they follow the custom ones.\<close>

definition signedHeaders :: "int \<Rightarrow> string \<Rightarrow> string \<Rightarrow> (string \<times> string) list" where
  "signedHeaders ts signature signatureV2 = [(''Content-Type'', ''application/json''), (''X-ChainSettle-Timestamp'', showInt ts),
     (''X-ChainSettle-Signature'', signature), (''X-ChainSettle-Signature-V2'', signatureV2)]"

definition buildDeliveryHeaders :: "hookLib \<Rightarrow> string option \<Rightarrow> webhookEndpoint \<Rightarrow> int \<Rightarrow> string \<Rightarrow> string \<Rightarrow> (string \<times> string) list" where
  "buildDeliveryHeaders lib requestId ep ts signature signatureV2 =
     decryptHeaders lib (we_headers ep) @ signedHeaders ts signature signatureV2 @
     (case requestId of None \<Rightarrow> [] | Some [] \<Rightarrow> [] | Some i \<Rightarrow> [(''X-Request-ID'', i)])"

section \<open>Endpoints\<close>

definition findEndpoint :: "uuid \<Rightarrow> world \<Rightarrow> webhookEndpoint option" where
  "findEndpoint i w = find (\<lambda>x. we_id x = i) (webhookEndpoints (db w))"

definition ownedEndpoint :: "uuid \<Rightarrow> uuid \<Rightarrow> world \<Rightarrow> webhookEndpoint option" where
  "ownedEndpoint i uid w = find (\<lambda>x. we_id x = i \<and> we_userId x = uid) (webhookEndpoints (db w))"

definition updateEndpoint :: "uuid \<Rightarrow> (webhookEndpoint \<Rightarrow> webhookEndpoint) \<Rightarrow> unit act" where
  "updateEndpoint i f = modifyDb (\<lambda>d. d\<lparr>webhookEndpoints := updateWhere (\<lambda>x. we_id x = i) f (webhookEndpoints d)\<rparr>)"

definition actorAddress :: "uuid \<Rightarrow> world \<Rightarrow> address" where
  "actorAddress uid w = (case findUserById uid w of None \<Rightarrow> ''unknown'' | Some u \<Rightarrow> stellarAddress u)"

definition register :: "hookLib \<Rightarrow> env \<Rightarrow> uuid \<Rightarrow> string \<Rightarrow> string list \<Rightarrow> (string \<times> string) list option \<Rightarrow> (webhookEndpoint \<times> string) act" where
  "register lib e uid url events headers =
     require (case headers of None \<Rightarrow> True | Some hs \<Rightarrow> validateHeaders hs) BadRequestException (
     andThen freshId (\<lambda>i.
     let ep = \<lparr>we_id = i, we_userId = uid, we_url = url, we_secret = sha256Hex e (randomSecret lib), we_events = events,
               we_headers = map_option (encryptHeaders lib) headers, we_active = True, we_createdAt = now e\<rparr> in
     andThen (modifyDb (\<lambda>d. d\<lparr>webhookEndpoints := webhookEndpoints d @ [ep]\<rparr>)) (\<lambda>_.
     ret (ep, randomSecret lib))))"

record updateWebhookDto =
  uw_url :: "string option"
  uw_events :: "string list option"
  uw_active :: "bool option"
  uw_headers :: "(string \<times> string) list option"

definition applyWebhook :: "hookLib \<Rightarrow> updateWebhookDto \<Rightarrow> webhookEndpoint \<Rightarrow> webhookEndpoint" where
  "applyWebhook lib dto ep =
     (let e1 = (case uw_url dto of None \<Rightarrow> ep | Some x \<Rightarrow> ep\<lparr>we_url := x\<rparr>);
          e2 = (case uw_events dto of None \<Rightarrow> e1 | Some x \<Rightarrow> e1\<lparr>we_events := x\<rparr>);
          e3 = (case uw_active dto of None \<Rightarrow> e2 | Some x \<Rightarrow> e2\<lparr>we_active := x\<rparr>)
      in case uw_headers dto of None \<Rightarrow> e3
         | Some hs \<Rightarrow> e3\<lparr>we_headers := (if hs = [] then None else Some (encryptHeaders lib hs))\<rparr>)"

definition changedKeys :: "updateWebhookDto \<Rightarrow> string list" where
  "changedKeys dto = (if uw_url dto = None then [] else [''url'']) @ (if uw_events dto = None then [] else [''events'']) @
     (if uw_active dto = None then [] else [''active'']) @ (if uw_headers dto = None then [] else [''headers''])"

definition updateWebhook :: "hookLib \<Rightarrow> uuid \<Rightarrow> uuid \<Rightarrow> updateWebhookDto \<Rightarrow> webhookEndpoint act" where
  "updateWebhook lib uid i dto =
     andThen (reads (ownedEndpoint i uid)) (\<lambda>found.
     requireSome found NotFoundException (\<lambda>existing.
     require (case uw_headers dto of None \<Rightarrow> True | Some hs \<Rightarrow> validateHeaders hs) BadRequestException (
     andThen (updateEndpoint i (applyWebhook lib dto)) (\<lambda>_.
     andThen (reads (actorAddress uid)) (\<lambda>a.
     andThen (auditRecord \<lparr>au_actorId = Some uid, au_actorAddress = a, au_action = ''WEBHOOK_UPDATED'',
        au_resourceType = ''WebhookEndpoint'', au_resourceId = ByUuid i,
        au_metadata = JObj [(''fields'', JArr (map JStr (changedKeys dto)))]\<rparr>) (\<lambda>_.
     ret (applyWebhook lib dto existing)))))))"

definition findForUser :: "hookLib \<Rightarrow> uuid \<Rightarrow> world \<Rightarrow> (webhookEndpoint \<times> (string \<times> string) list) list" where
  "findForUser lib uid w = map (\<lambda>x. (x, maskHeaders (decryptHeaders lib (we_headers x))))
     (filter (\<lambda>x. we_userId x = uid) (webhookEndpoints (db w)))"

text \<open>Deleting an endpoint deletes its deliveries (\<open>onDelete: Cascade\<close>).\<close>

definition removeWebhook :: "uuid \<Rightarrow> uuid \<Rightarrow> webhookEndpoint act" where
  "removeWebhook i uid =
     andThen (reads (ownedEndpoint i uid)) (\<lambda>found.
     requireSome found NotFoundException (\<lambda>ep.
     andThen (modifyDb (\<lambda>d. d\<lparr>webhookEndpoints := filter (\<lambda>x. we_id x \<noteq> i) (webhookEndpoints d),
        webhookDeliveries := filter (\<lambda>x. wd_endpointId x \<noteq> i) (webhookDeliveries d)\<rparr>)) (\<lambda>_.
     ret ep)))"

definition rotateSecret :: "hookLib \<Rightarrow> env \<Rightarrow> uuid \<Rightarrow> uuid \<Rightarrow> string act" where
  "rotateSecret lib e i uid =
     andThen (reads (findEndpoint i)) (\<lambda>found.
     requireSome found NotFoundException (\<lambda>ep.
     require (we_userId ep = uid) ForbiddenException (
     andThen (updateEndpoint i (\<lambda>x. x\<lparr>we_secret := sha256Hex e (randomSecret lib)\<rparr>)) (\<lambda>_.
     andThen (reads (actorAddress uid)) (\<lambda>a.
     andThen (auditRecord \<lparr>au_actorId = Some uid, au_actorAddress = a, au_action = ''WEBHOOK_SECRET_ROTATED'',
        au_resourceType = ''WebhookEndpoint'', au_resourceId = ByUuid i, au_metadata = JNull\<rparr>) (\<lambda>_.
     ret (randomSecret lib)))))))"

section \<open>Deliveries\<close>

definition findDelivery :: "uuid \<Rightarrow> world \<Rightarrow> webhookDelivery option" where
  "findDelivery i w = find (\<lambda>x. wd_id x = i) (webhookDeliveries (db w))"

definition updateDelivery :: "uuid \<Rightarrow> (webhookDelivery \<Rightarrow> webhookDelivery) \<Rightarrow> webhookDelivery act" where
  "updateDelivery i f =
     andThen (reads (findDelivery i)) (\<lambda>found.
     requireSome found PrismaP2025 (\<lambda>d.
     andThen (modifyDb (\<lambda>x. x\<lparr>webhookDeliveries := updateWhere (\<lambda>r. wd_id r = i) f (webhookDeliveries x)\<rparr>)) (\<lambda>_.
     ret (f d))))"

definition recordDeliveryMetric :: "int option \<Rightarrow> unit act" where
  "recordDeliveryMetric st = count (WebhookDelivered (case st of None \<Rightarrow> False | Some c \<Rightarrow> 200 \<le> c \<and> c < 300) st)"

text \<open>\<open>axios.post\<close>: the request leaves, and the receiver's answer comes back.\<close>

definition axiosPost :: "hookLib \<Rightarrow> string \<Rightarrow> string \<Rightarrow> (string \<times> string) list \<Rightarrow> postReply act" where
  "axiosPost lib url body hs =
     andThen (modify (\<lambda>w. w\<lparr>mail := (mail w)\<lparr>outbox := outbox (mail w) @ [WebhookPost url body hs]\<rparr>\<rparr>)) (\<lambda>_.
     ret (post lib url body hs))"

definition tooLargeText :: "hookLib \<Rightarrow> string \<Rightarrow> string" where
  "tooLargeText lib body = ''Payload exceeds max size ('' @ showInt (int (length body)) @ ''/'' @
     showInt (int (maxPayloadBytes lib)) @ '' bytes)''"

definition signedBy :: "hookLib \<Rightarrow> env \<Rightarrow> string \<Rightarrow> string \<Rightarrow> (string \<times> string) list" where
  "signedBy lib e secret body = (let ts = nowUnixSeconds (now e) in
     signedHeaders ts (signBody lib secret body) (signBodyV2 lib secret ts body))"

definition handleFailure :: "hookLib \<Rightarrow> env \<Rightarrow> webhookDelivery \<Rightarrow> postReply \<Rightarrow> unit act" where
  "handleFailure lib e d err =
     (if isRetryable err \<and> \<not> wd_attemptCount d \<ge> MAX_AUTO_ATTEMPTS
      then ignore (updateDelivery (wd_id d) (\<lambda>r. r\<lparr>statusCode := replyStatus err, responseBody := Some (replyBody err),
             nextRetryAt := Some (nextRetryDate lib (now e) (wd_attemptCount d)), permanentlyFailedAt := None\<rparr>))
      else ignore (updateDelivery (wd_id d) (\<lambda>r. r\<lparr>statusCode := replyStatus err, responseBody := Some (replyBody err),
             nextRetryAt := None, permanentlyFailedAt := Some (now e)\<rparr>)))"

definition deliverOnce :: "hookLib \<Rightarrow> env \<Rightarrow> string \<Rightarrow> json \<Rightarrow> webhookEndpoint \<Rightarrow> unit act" where
  "deliverOnce lib e eventType payload ep =
     (let body = buildBody (now e) eventType payload in
     andThen freshId (\<lambda>i.
     let d = \<lparr>wd_id = i, wd_endpointId = we_id ep, wd_eventType = eventType, wd_payload = payload, statusCode = None,
              responseBody = None, deliveredAt = None, nextRetryAt = None, wd_attemptCount = 1,
              permanentlyFailedAt = None, wd_createdAt = now e\<rparr> in
     andThen (modifyDb (\<lambda>x. x\<lparr>webhookDeliveries := webhookDeliveries x @ [d]\<rparr>)) (\<lambda>_.
     if exceedsLimit lib body then
       andThen (updateDelivery i (\<lambda>r. r\<lparr>statusCode := None, responseBody := Some (tooLargeText lib body),
          nextRetryAt := None, permanentlyFailedAt := Some (now e)\<rparr>)) (\<lambda>_.
       recordDeliveryMetric None)
     else
       andThen (axiosPost lib (we_url ep) body (signedBy lib e (we_secret ep) body)) (\<lambda>reply.
       case reply of
         Answered st _ \<Rightarrow>
           andThen (updateDelivery i (\<lambda>r. r\<lparr>statusCode := Some st, responseBody := Some (replyBody reply),
              deliveredAt := Some (now e), nextRetryAt := None\<rparr>)) (\<lambda>_.
           recordDeliveryMetric (Some st))
       | _ \<Rightarrow>
           andThen (recordDeliveryMetric (replyStatus reply)) (\<lambda>_.
           handleFailure lib e d reply)))))"

definition executeRetry :: "hookLib \<Rightarrow> env \<Rightarrow> webhookEndpoint \<times> webhookDelivery \<Rightarrow> unit act" where
  "executeRetry lib e = (\<lambda>(ep, d).
     let body = buildBody (now e) (wd_eventType d) (wd_payload d) in
     andThen (updateDelivery (wd_id d) (\<lambda>r. r\<lparr>wd_attemptCount := wd_attemptCount d + 1, nextRetryAt := None\<rparr>)) (\<lambda>updated.
     if exceedsLimit lib body then
       andThen (updateDelivery (wd_id d) (\<lambda>r. r\<lparr>statusCode := None, responseBody := Some (tooLargeText lib body),
          nextRetryAt := None, permanentlyFailedAt := Some (now e)\<rparr>)) (\<lambda>_.
       recordDeliveryMetric None)
     else
       andThen (axiosPost lib (we_url ep) body (signedBy lib e (we_secret ep) body)) (\<lambda>reply.
       case reply of
         Answered st _ \<Rightarrow>
           andThen (updateDelivery (wd_id d) (\<lambda>r. r\<lparr>statusCode := Some st, responseBody := Some (replyBody reply),
              deliveredAt := Some (now e), nextRetryAt := None, permanentlyFailedAt := None\<rparr>)) (\<lambda>_.
           recordDeliveryMetric (Some st))
       | _ \<Rightarrow>
           andThen (recordDeliveryMetric (replyStatus reply)) (\<lambda>_.
           handleFailure lib e updated reply))))"

text \<open>\<open>Promise.allSettled\<close>: a rejected element does not affect the others.\<close>

definition allSettled :: "'x list \<Rightarrow> ('x \<Rightarrow> unit act) \<Rightarrow> unit act" where
  "allSettled xs f = forEach xs (\<lambda>x. attempt (f x) (\<lambda>_. ret ()))"

definition subscribers :: "string \<Rightarrow> world \<Rightarrow> webhookEndpoint list" where
  "subscribers eventType w = filter (\<lambda>ep. we_active ep \<and> eventType \<in> set (we_events ep)) (webhookEndpoints (db w))"

definition dispatch :: "hookLib \<Rightarrow> env \<Rightarrow> string \<Rightarrow> json \<Rightarrow> unit act" where
  "dispatch lib e eventType payload =
     andThen (reads (subscribers eventType)) (\<lambda>eps.
     allSettled eps (deliverOnce lib e eventType payload))"

definition RETRY_BATCH :: nat where
  "RETRY_BATCH = 50"

definition deliveryDue :: "time \<Rightarrow> webhookDelivery \<Rightarrow> bool" where
  "deliveryDue t d \<longleftrightarrow> (case nextRetryAt d of None \<Rightarrow> False | Some x \<Rightarrow> x \<le> t) \<and> permanentlyFailedAt d = None \<and> deliveredAt d = None"

text \<open>The due deliveries with their endpoints (a required relation).\<close>

definition dueDeliveries :: "time \<Rightarrow> world \<Rightarrow> (webhookEndpoint \<times> webhookDelivery) list" where
  "dueDeliveries t w = List.map_filter (\<lambda>d. map_option (\<lambda>ep. (ep, d)) (findEndpoint (wd_endpointId d) w))
     (take RETRY_BATCH (filter (deliveryDue t) (webhookDeliveries (db w))))"

definition processRetryQueue :: "hookLib \<Rightarrow> env \<Rightarrow> unit act" where
  "processRetryQueue lib e =
     andThen (reads (dueDeliveries (now e))) (\<lambda>due.
     if due = [] then ret () else allSettled due (executeRetry lib e))"

section \<open>Manual retries and test pings\<close>

definition ownedDelivery :: "uuid \<Rightarrow> uuid \<Rightarrow> world \<Rightarrow> webhookDelivery option" where
  "ownedDelivery i endpointId w = find (\<lambda>x. wd_id x = i \<and> wd_endpointId x = endpointId) (webhookDeliveries (db w))"

definition retryDelivery :: "hookLib \<Rightarrow> env \<Rightarrow> string option \<Rightarrow> uuid \<Rightarrow> uuid \<Rightarrow> uuid \<Rightarrow> unit act" where
  "retryDelivery lib e requestId endpointId deliveryId uid =
     andThen (reads (ownedEndpoint endpointId uid)) (\<lambda>found.
     requireSome found ForbiddenException (\<lambda>ep.
     andThen (reads (ownedDelivery deliveryId endpointId)) (\<lambda>found.
     requireSome found NotFoundException (\<lambda>d.
     let body = buildBody (now e) (wd_eventType d) (wd_payload d);
         ts = nowUnixSeconds (now e) in
     if exceedsLimit lib body then
       andThen (updateDelivery deliveryId (\<lambda>r. r\<lparr>statusCode := None, responseBody := Some (tooLargeText lib body),
          wd_attemptCount := wd_attemptCount d + 1, nextRetryAt := None, permanentlyFailedAt := Some (now e)\<rparr>)) (\<lambda>_.
       recordDeliveryMetric None)
     else
       andThen (axiosPost lib (we_url ep) body (buildDeliveryHeaders lib requestId ep ts
         (signBody lib (we_secret ep) body) (signBodyV2 lib (we_secret ep) ts body))) (\<lambda>reply.
       case reply of
         Answered st _ \<Rightarrow>
           andThen (updateDelivery deliveryId (\<lambda>r. r\<lparr>statusCode := Some st, responseBody := Some (replyBody reply),
              deliveredAt := Some (now e), wd_attemptCount := wd_attemptCount d + 1, nextRetryAt := None,
              permanentlyFailedAt := None\<rparr>)) (\<lambda>_.
           recordDeliveryMetric (Some st))
       | _ \<Rightarrow>
           andThen (updateDelivery deliveryId (\<lambda>r. r\<lparr>statusCode := replyStatus reply, responseBody := Some (replyBody reply),
              wd_attemptCount := wd_attemptCount d + 1, permanentlyFailedAt := None\<rparr>)) (\<lambda>_.
           recordDeliveryMetric (replyStatus reply)))))))"

definition replayFailedDeliveries :: "hookLib \<Rightarrow> env \<Rightarrow> string option \<Rightarrow> uuid \<Rightarrow> time \<Rightarrow> time \<Rightarrow> nat act" where
  "replayFailedDeliveries lib e requestId endpointId from to =
     andThen (reads (findEndpoint endpointId)) (\<lambda>found.
     requireSome found NotFoundException (\<lambda>ep.
     andThen (reads (\<lambda>w. map wd_id (filter (\<lambda>d. wd_endpointId d = endpointId \<and> deliveredAt d = None \<and>
        from \<le> wd_createdAt d \<and> wd_createdAt d \<le> to) (webhookDeliveries (db w))))) (\<lambda>ids.
     andThen (allSettled ids (\<lambda>i. retryDelivery lib e requestId endpointId i (we_userId ep))) (\<lambda>_.
     ret (length ids)))))"

record pingResult =
  pr_endpointId :: uuid
  pr_success :: bool
  pr_statusCode :: "int option"

definition sendTestPing :: "hookLib \<Rightarrow> env \<Rightarrow> webhookEndpoint \<Rightarrow> pingResult act" where
  "sendTestPing lib e ep =
     (let body = buildBody (now e) ''WEBHOOK_TEST'' (JObj [(''message'', JStr ''This is a test ping from ChainSettle'')]) in
      if exceedsLimit lib body then ret \<lparr>pr_endpointId = we_id ep, pr_success = False, pr_statusCode = None\<rparr>
      else andThen (axiosPost lib (we_url ep) body (signedBy lib e (we_secret ep) body)) (\<lambda>reply.
        ret \<lparr>pr_endpointId = we_id ep, pr_success = (case reply of Answered _ _ \<Rightarrow> True | _ \<Rightarrow> False),
             pr_statusCode = replyStatus reply\<rparr>))"

fun pingAll :: "hookLib \<Rightarrow> env \<Rightarrow> webhookEndpoint list \<Rightarrow> pingResult list act" where
  "pingAll lib e [] = ret []"
| "pingAll lib e (ep # eps) = andThen (sendTestPing lib e ep) (\<lambda>r. andThen (pingAll lib e eps) (\<lambda>rs. ret (r # rs)))"

definition bulkTest :: "hookLib \<Rightarrow> env \<Rightarrow> uuid \<Rightarrow> pingResult list act" where
  "bulkTest lib e uid =
     andThen (reads (\<lambda>w. filter (\<lambda>ep. we_userId ep = uid \<and> we_active ep) (webhookEndpoints (db w)))) (pingAll lib e)"

section \<open>Inspection\<close>

datatype retryState = Succeeded | PermanentlyFailed | PendingRetry time | Pending

definition describeRetryStatus :: "webhookDelivery \<Rightarrow> retryState \<times> int" where
  "describeRetryStatus d =
     (if deliveredAt d \<noteq> None then (Succeeded, wd_attemptCount d)
      else if permanentlyFailedAt d \<noteq> None then (PermanentlyFailed, wd_attemptCount d)
      else case nextRetryAt d of Some t \<Rightarrow> (PendingRetry t, wd_attemptCount d) | None \<Rightarrow> (Pending, wd_attemptCount d))"

definition DELIVERY_RESPONSE_BODY_MAX :: nat where
  "DELIVERY_RESPONSE_BODY_MAX = 10 * 1024"

definition shownDelivery :: "webhookDelivery \<Rightarrow> webhookDelivery \<times> (retryState \<times> int)" where
  "shownDelivery d = (d\<lparr>responseBody := map_option (take DELIVERY_RESPONSE_BODY_MAX) (responseBody d)\<rparr>, describeRetryStatus d)"

definition getDelivery :: "uuid \<Rightarrow> uuid \<Rightarrow> uuid \<Rightarrow> (webhookDelivery \<times> (retryState \<times> int)) act" where
  "getDelivery uid endpointId deliveryId =
     andThen (reads (ownedEndpoint endpointId uid)) (\<lambda>found.
     requireSome found NotFoundException (\<lambda>_.
     andThen (reads (ownedDelivery deliveryId endpointId)) (\<lambda>found.
     requireSome found NotFoundException (\<lambda>d. ret (shownDelivery d)))))"

text \<open>\<open>orderBy: { id: "desc" }\<close>: the identifiers are random, so this is not the order of creation.\<close>

definition deliveriesById :: "hookLib \<Rightarrow> (webhookDelivery \<Rightarrow> bool) \<Rightarrow> world \<Rightarrow> webhookDelivery list" where
  "deliveriesById lib p w = rev (sort_key (\<lambda>d. idOrder lib (wd_id d)) (filter p (webhookDeliveries (db w))))"

definition getFailedDeliveries :: "hookLib \<Rightarrow> uuid \<Rightarrow> uuid \<Rightarrow> nat \<Rightarrow> nat \<Rightarrow> ((webhookDelivery \<times> (retryState \<times> int)) list \<times> nat) act" where
  "getFailedDeliveries lib uid endpointId page limit =
     andThen (reads (ownedEndpoint endpointId uid)) (\<lambda>found.
     requireSome found NotFoundException (\<lambda>_.
     andThen (reads (deliveriesById lib (\<lambda>d. wd_endpointId d = endpointId \<and> deliveredAt d = None))) (\<lambda>ds.
     ret (map shownDelivery (take limit (drop ((page - 1) * limit) ds)), length ds))))"

definition laterOf :: "time option \<Rightarrow> time option \<Rightarrow> time option" where
  "laterOf latest d = (case d of None \<Rightarrow> latest | Some x \<Rightarrow>
     (case latest of None \<Rightarrow> Some x | Some l \<Rightarrow> if x > l then Some x else Some l))"

record deliverySummary =
  ds_total :: nat
  ds_successCount :: nat
  ds_failureCount :: nat
  ds_lastDeliveryAt :: "time option"

definition findOneWithSummary :: "hookLib \<Rightarrow> uuid \<Rightarrow> uuid \<Rightarrow> (webhookEndpoint \<times> (string \<times> string) list \<times> deliverySummary) act" where
  "findOneWithSummary lib uid i =
     andThen (reads (ownedEndpoint i uid)) (\<lambda>found.
     requireSome found NotFoundException (\<lambda>ep.
     andThen (reads (deliveriesById lib (\<lambda>d. wd_endpointId d = i))) (\<lambda>ds.
     let recent = take 20 ds;
         ok = length (filter (\<lambda>d. case statusCode d of None \<Rightarrow> False | Some c \<Rightarrow> 200 \<le> c \<and> c < 300) recent) in
     ret (ep, maskHeaders (decryptHeaders lib (we_headers ep)),
       \<lparr>ds_total = length recent, ds_successCount = ok, ds_failureCount = length recent - ok,
        ds_lastDeliveryAt = foldl (\<lambda>l d. laterOf l (deliveredAt d)) None recent\<rparr>))))"

section \<open>What an attempt does to its row\<close>

definition setDeliveries :: "(webhookDelivery list \<Rightarrow> webhookDelivery list) \<Rightarrow> world \<Rightarrow> world" where
  "setDeliveries f w = w\<lparr>db := (db w)\<lparr>webhookDeliveries := f (webhookDeliveries (db w))\<rparr>\<rparr>"

definition tooLargeRow :: "hookLib \<Rightarrow> time \<Rightarrow> string \<Rightarrow> webhookDelivery \<Rightarrow> webhookDelivery" where
  "tooLargeRow lib t body r = r\<lparr>statusCode := None, responseBody := Some (tooLargeText lib body), nextRetryAt := None,
     permanentlyFailedAt := Some t\<rparr>"

definition failedRow :: "hookLib \<Rightarrow> time \<Rightarrow> int \<Rightarrow> postReply \<Rightarrow> webhookDelivery \<Rightarrow> webhookDelivery" where
  "failedRow lib t n err r = r\<lparr>statusCode := replyStatus err, responseBody := Some (replyBody err),
     nextRetryAt := (if isRetryable err \<and> n < 5 then Some (nextRetryDate lib t n) else None),
     permanentlyFailedAt := (if isRetryable err \<and> n < 5 then None else Some t)\<rparr>"

definition retryRow :: "hookLib \<Rightarrow> env \<Rightarrow> webhookEndpoint \<Rightarrow> webhookDelivery \<Rightarrow> webhookDelivery \<Rightarrow> webhookDelivery" where
  "retryRow lib e ep d r =
     (let body = buildBody (now e) (wd_eventType d) (wd_payload d);
          r' = r\<lparr>wd_attemptCount := wd_attemptCount d + 1, nextRetryAt := None\<rparr>;
          reply = post lib (we_url ep) body (signedBy lib e (we_secret ep) body)
      in if exceedsLimit lib body then tooLargeRow lib (now e) body r'
         else case reply of
             Answered st _ \<Rightarrow> r'\<lparr>statusCode := Some st, responseBody := Some (replyBody reply), deliveredAt := Some (now e),
               nextRetryAt := None, permanentlyFailedAt := None\<rparr>
           | _ \<Rightarrow> failedRow lib (now e) (wd_attemptCount d + 1) reply r')"

lemma findDelivery_id: "findDelivery i w = Some d \<Longrightarrow> wd_id d = i"
  unfolding findDelivery_def by (drule find_Some_prop) simp

lemma run_updateDelivery:
  "updateDelivery i f w =
    (case findDelivery i w of None \<Rightarrow> (Inl PrismaP2025, w)
     | Some d \<Rightarrow> (Inr (f d), setDeliveries (updateWhere (\<lambda>r. wd_id r = i) f) w))"
  by (simp add: updateDelivery_def setDeliveries_def split: option.split)

lemma findDelivery_setDeliveries:
  "(\<And>r. wd_id (f r) = wd_id r) \<Longrightarrow> findDelivery j (setDeliveries (updateWhere (\<lambda>r. wd_id r = i) f) w) =
    map_option (\<lambda>r. if wd_id r = i then f r else r) (findDelivery j w)"
  by (simp add: findDelivery_def setDeliveries_def find_updateWhere)

lemma findDelivery_cong: "db w' = db w \<Longrightarrow> findDelivery i w' = findDelivery i w"
  by (simp add: findDelivery_def)

lemma run_axiosPost: "axiosPost lib url body hs w =
  (Inr (post lib url body hs), w\<lparr>mail := (mail w)\<lparr>outbox := outbox (mail w) @ [WebhookPost url body hs]\<rparr>\<rparr>)"
  by (simp add: axiosPost_def)

lemma db_setDeliveries: "db (setDeliveries f w) = (db w)\<lparr>webhookDeliveries := f (webhookDeliveries (db w))\<rparr>"
  by (simp add: setDeliveries_def)

lemma updateWhere_twice:
  "(\<And>r. p r \<Longrightarrow> p (f r)) \<Longrightarrow> updateWhere p g (updateWhere p f rows) = updateWhere p (\<lambda>r. g (f r)) rows"
  by (induction rows) auto

text \<open>A failed attempt updates its own row; a row that is there is found.\<close>

lemma run_handleFailure:
  assumes "findDelivery (wd_id d) w \<noteq> None"
  shows "handleFailure lib e d err w =
    (Inr (), setDeliveries (updateWhere (\<lambda>r. wd_id r = wd_id d) (failedRow lib (now e) (wd_attemptCount d) err)) w)"
  using assms by (auto simp: handleFailure_def ignore_def run_updateDelivery failedRow_def [abs_def] MAX_AUTO_ATTEMPTS_def cong: if_cong)

lemma executeRetry_row:
  assumes "findDelivery (wd_id d) w \<noteq> None"
  shows "\<exists>w'. executeRetry lib e (ep, d) w = (Inr (), w') \<and>
    db w' = db (setDeliveries (updateWhere (\<lambda>r. wd_id r = wd_id d) (retryRow lib e ep d)) w)"
proof -
  obtain d0 where d0: "findDelivery (wd_id d) w = Some d0" using assms by blast
  let ?bump = "\<lambda>r. r\<lparr>wd_attemptCount := wd_attemptCount d + 1, nextRetryAt := None\<rparr>"
  define w1 where "w1 = setDeliveries (updateWhere (\<lambda>r. wd_id r = wd_id d) ?bump) w"
  have id0: "wd_id d0 = wd_id d" by (rule findDelivery_id [OF d0])
  have run1: "andThen (updateDelivery (wd_id d) ?bump) k w = k (?bump d0) w1" for k :: "webhookDelivery \<Rightarrow> unit act"
    by (simp add: run_updateDelivery d0 w1_def)
  have f1: "findDelivery (wd_id d) w' = Some (?bump d0)" if "db w' = db w1" for w'
    using findDelivery_cong [OF that] by (simp add: w1_def findDelivery_setDeliveries d0 id0)
  have w1_rows: "updateWhere (\<lambda>r. wd_id r = wd_id d) g (webhookDeliveries (db w1)) =
      updateWhere (\<lambda>r. wd_id r = wd_id d) (\<lambda>r. g (?bump r)) (webhookDeliveries (db w))" for g
    by (simp add: w1_def db_setDeliveries updateWhere_twice)
  have w1_db: "(db w1)\<lparr>webhookDeliveries := rows\<rparr> = (db w)\<lparr>webhookDeliveries := rows\<rparr>" for rows
    by (simp add: w1_def db_setDeliveries)
  let ?body = "buildBody (now e) (wd_eventType d) (wd_payload d)"
  show ?thesis
  proof (cases "exceedsLimit lib ?body")
    case True
    then show ?thesis
      by (simp add: executeRetry_def Let_def run1 run_updateDelivery f1 recordDeliveryMetric_def retryRow_def [abs_def]
          tooLargeRow_def [abs_def] db_setDeliveries w1_rows w1_db)
  next
    case False
    then show ?thesis
      by (cases "post lib (we_url ep) ?body (signedBy lib e (we_secret ep) ?body)")
        (simp_all add: executeRetry_def Let_def run1 run_updateDelivery f1 id0 run_axiosPost recordDeliveryMetric_def
          run_handleFailure retryRow_def [abs_def] db_setDeliveries w1_rows w1_db)
  qed
qed

text \<open>One run of the queue treats every row on its own.\<close>

definition retryOnce :: "hookLib \<Rightarrow> env \<Rightarrow> (webhookEndpoint \<times> webhookDelivery) list \<Rightarrow> webhookDelivery \<Rightarrow> webhookDelivery" where
  "retryOnce lib e due r = (case find (\<lambda>p. wd_id (snd p) = wd_id r) due of None \<Rightarrow> r | Some (ep, d) \<Rightarrow> retryRow lib e ep d r)"

lemma retryRow_id [simp]: "wd_id (retryRow lib e ep d r) = wd_id r" "wd_endpointId (retryRow lib e ep d r) = wd_endpointId r"
  by (simp_all add: retryRow_def Let_def tooLargeRow_def failedRow_def split: postReply.split)

lemma retryOnce_id [simp]: "wd_id (retryOnce lib e due r) = wd_id r" "wd_endpointId (retryOnce lib e due r) = wd_endpointId r"
  by (simp_all add: retryOnce_def split: option.split prod.split)

lemma retryOnce_absent: "wd_id r \<notin> (wd_id \<circ> snd) ` set due \<Longrightarrow> retryOnce lib e due r = r"
proof -
  assume "wd_id r \<notin> (wd_id \<circ> snd) ` set due"
  then have "find (\<lambda>p. wd_id (snd p) = wd_id r) due = None" by (auto simp: find_None_iff image_iff)
  then show ?thesis by (simp add: retryOnce_def)
qed

lemma retryOnce_Cons:
  assumes "distinct (map (wd_id \<circ> snd) ((ep, d) # due))"
  shows "retryOnce lib e ((ep, d) # due) r = retryOnce lib e due (if wd_id r = wd_id d then retryRow lib e ep d r else r)"
proof (cases "wd_id r = wd_id d")
  case True
  with assms have "retryOnce lib e due (retryRow lib e ep d r) = retryRow lib e ep d r"
    by (intro retryOnce_absent) (simp add: comp_def)
  with True show ?thesis by (simp add: retryOnce_def)
qed (auto simp: retryOnce_def)

lemma findDelivery_None: "findDelivery i w = None \<longleftrightarrow> i \<notin> wd_id ` set (webhookDeliveries (db w))"
  by (auto simp: findDelivery_def find_None_iff)

lemma run_allSettled_retry:
  assumes "distinct (map (wd_id \<circ> snd) due)" and "(wd_id \<circ> snd) ` set due \<subseteq> wd_id ` set (webhookDeliveries (db w))"
  shows "\<exists>w'. allSettled due (executeRetry lib e) w = (Inr (), w') \<and>
    db w' = (db w)\<lparr>webhookDeliveries := map (retryOnce lib e due) (webhookDeliveries (db w))\<rparr>"
  using assms
proof (induction due arbitrary: w)
  case Nil
  have "retryOnce lib e [] = (\<lambda>r. r)" by (simp add: retryOnce_def fun_eq_iff)
  then show ?case by (simp add: allSettled_def)
next
  case (Cons x due)
  obtain ep d where x: "x = (ep, d)" by (cases x)
  have "findDelivery (wd_id d) w \<noteq> None" using Cons.prems(2) x by (simp add: findDelivery_None)
  from executeRetry_row [OF this] obtain w1 where w1: "executeRetry lib e (ep, d) w = (Inr (), w1)"
    "db w1 = db (setDeliveries (updateWhere (\<lambda>r. wd_id r = wd_id d) (retryRow lib e ep d)) w)" by blast
  have ids: "map wd_id (webhookDeliveries (db w1)) = map wd_id (webhookDeliveries (db w))"
    by (simp add: w1(2) db_setDeliveries map_updateWhere)
  have "wd_id ` set (webhookDeliveries (db w1)) = wd_id ` set (webhookDeliveries (db w))"
    using arg_cong [OF ids, of set] by simp
  with Cons.IH [of w1] Cons.prems obtain w2 where w2: "allSettled due (executeRetry lib e) w1 = (Inr (), w2)"
    "db w2 = (db w1)\<lparr>webhookDeliveries := map (retryOnce lib e due) (webhookDeliveries (db w1))\<rparr>" by auto
  have "map (retryOnce lib e due) (webhookDeliveries (db w1)) = map (retryOnce lib e (x # due)) (webhookDeliveries (db w))"
    using retryOnce_Cons [OF Cons.prems(1) [unfolded x]] by (simp add: x w1(2) db_setDeliveries updateWhere_def)
  then have "db w2 = (db w)\<lparr>webhookDeliveries := map (retryOnce lib e (x # due)) (webhookDeliveries (db w))\<rparr>"
    by (simp add: w2(2)) (simp add: w1(2) db_setDeliveries)
  moreover have "allSettled (x # due) (executeRetry lib e) w = (Inr (), w2)"
    using w1(1) w2(1) by (simp add: allSettled_def x)
  ultimately show ?case by blast
qed

lemma set_map_filter_pair: "set (List.map_filter (\<lambda>d. map_option (\<lambda>x. (x, d)) (g d)) ds) = {(x, d). d \<in> set ds \<and> g d = Some x}"
  by (induction ds) (auto simp: List.map_filter_simps split: option.split)

lemma distinct_map_filter_pair:
  "distinct (map f ds) \<Longrightarrow> distinct (map (f \<circ> snd) (List.map_filter (\<lambda>d. map_option (\<lambda>x. (x, d)) (g d)) ds))"
  by (induction ds) (force simp: List.map_filter_simps set_map_filter_pair split: option.split)+

abbreviation retryBatch :: "time \<Rightarrow> world \<Rightarrow> webhookDelivery list" where
  "retryBatch t w \<equiv> take RETRY_BATCH (filter (deliveryDue t) (webhookDeliveries (db w)))"

lemma due_distinct:
  assumes "distinct (map wd_id (webhookDeliveries (db w)))"
  shows "distinct (map (wd_id \<circ> snd) (dueDeliveries t w))"
proof -
  have "distinct (map wd_id (retryBatch t w))"
    using assms by (simp add: distinct_map_filter take_map [symmetric])
  then show ?thesis unfolding dueDeliveries_def by (rule distinct_map_filter_pair)
qed

lemma set_due: "set (dueDeliveries t w) = {(ep, d). d \<in> set (retryBatch t w) \<and> findEndpoint (wd_endpointId d) w = Some ep}"
  by (simp add: dueDeliveries_def set_map_filter_pair)

lemma run_processRetryQueue:
  assumes "distinct (map wd_id (webhookDeliveries (db w)))"
  shows "\<exists>w'. processRetryQueue lib e w = (Inr (), w') \<and>
    db w' = (db w)\<lparr>webhookDeliveries := map (retryOnce lib e (dueDeliveries (now e) w)) (webhookDeliveries (db w))\<rparr>"
proof -
  have "(wd_id \<circ> snd) ` set (dueDeliveries (now e) w) \<subseteq> wd_id ` set (webhookDeliveries (db w))"
    by (auto simp: set_due dest: in_set_takeD)
  from run_allSettled_retry [OF due_distinct [OF assms] this] show ?thesis
    by (cases "dueDeliveries (now e) w = []") (auto simp: processRetryQueue_def allSettled_def)
qed

section \<open>No delivery is lost\<close>

definition rowOk :: "webhookDelivery \<Rightarrow> bool" where
  "rowOk d \<longleftrightarrow> (case describeRetryStatus d of
      (Succeeded, n) \<Rightarrow> 1 \<le> n \<and> n \<le> MAX_AUTO_ATTEMPTS
    | (PermanentlyFailed, n) \<Rightarrow> 1 \<le> n \<and> n \<le> MAX_AUTO_ATTEMPTS
    | (PendingRetry _, n) \<Rightarrow> 1 \<le> n \<and> n < MAX_AUTO_ATTEMPTS
    | (Pending, _) \<Rightarrow> False)"

definition hookInv :: "world \<Rightarrow> bool" where
  "hookInv w \<longleftrightarrow>
     distinct (map wd_id (webhookDeliveries (db w))) \<and>
     (\<forall>d \<in> set (webhookDeliveries (db w)). wd_id d < nextId (db w) \<and> findEndpoint (wd_endpointId d) w \<noteq> None \<and> rowOk d)"

definition awaiting :: "webhookDelivery \<Rightarrow> bool" where
  "awaiting d \<longleftrightarrow> (case fst (describeRetryStatus d) of PendingRetry _ \<Rightarrow> True | _ \<Rightarrow> False)"

text \<open>The requests and jobs of the component, manual retries apart.\<close>

datatype hookOp =
    OpRegister uuid string "string list" "(string \<times> string) list option"
  | OpUpdate uuid uuid updateWebhookDto
  | OpRemove uuid uuid
  | OpRotate uuid uuid
  | OpDispatch string json
  | OpBulkTest uuid
  | OpQueue

fun hookAct :: "hookLib \<Rightarrow> env \<Rightarrow> hookOp \<Rightarrow> unit act" where
  "hookAct lib e (OpRegister uid url evs hs) = ignore (register lib e uid url evs hs)"
| "hookAct lib e (OpUpdate uid i dto) = ignore (updateWebhook lib uid i dto)"
| "hookAct lib e (OpRemove i uid) = ignore (removeWebhook i uid)"
| "hookAct lib e (OpRotate i uid) = ignore (rotateSecret lib e i uid)"
| "hookAct lib e (OpDispatch ev payload) = dispatch lib e ev payload"
| "hookAct lib e (OpBulkTest uid) = ignore (bulkTest lib e uid)"
| "hookAct lib e OpQueue = processRetryQueue lib e"

definition hookStep :: "hookLib \<times> env \<times> hookOp \<Rightarrow> world \<Rightarrow> world" where
  "hookStep = (\<lambda>(lib, e, op) w. snd (hookAct lib e op w))"

lemmas rowOk_defs = rowOk_def describeRetryStatus_def MAX_AUTO_ATTEMPTS_def

lemma retryRow_ok:
  assumes "rowOk r" and "deliveryDue t r"
  shows "rowOk (retryRow lib e ep r r)"
  using assms by (auto simp: rowOk_defs deliveryDue_def retryRow_def Let_def tooLargeRow_def failedRow_def
      split: postReply.split option.splits)

lemma retryRow_awaiting:
  assumes "deliveryDue t r" and "awaiting (retryRow lib e ep r r)"
  shows "wd_attemptCount (retryRow lib e ep r r) = wd_attemptCount r + 1 \<and> wd_attemptCount r < 4 \<and>
    nextRetryAt (retryRow lib e ep r r) = Some (nextRetryDate lib (now e) (wd_attemptCount r + 1))"
  using assms by (auto simp: awaiting_def describeRetryStatus_def deliveryDue_def retryRow_def Let_def tooLargeRow_def
      failedRow_def split: postReply.splits option.splits if_splits)

lemma in_batch: "r \<in> set (retryBatch t w) \<Longrightarrow> r \<in> set (webhookDeliveries (db w)) \<and> deliveryDue t r"
  by (auto dest: in_set_takeD)

lemma retryOnce_cases:
  assumes w: "hookInv w" and r: "r \<in> set (webhookDeliveries (db w))"
  shows "r \<notin> set (retryBatch t w) \<and> retryOnce lib e (dueDeliveries t w) r = r \<or>
    r \<in> set (retryBatch t w) \<and> (\<exists>ep. retryOnce lib e (dueDeliveries t w) r = retryRow lib e ep r r)"
proof -
  have same: "d = r" if "d \<in> set (retryBatch t w)" "wd_id d = wd_id r" for d
    using w r that in_batch [of d t w] by (auto simp: hookInv_def distinct_map dest: inj_onD)
  show ?thesis
  proof (cases "r \<in> set (retryBatch t w)")
    case True
    obtain ep0 where "findEndpoint (wd_endpointId r) w = Some ep0" using w r by (auto simp: hookInv_def)
    with True have "(ep0, r) \<in> set (dueDeliveries t w)" by (simp add: set_due)
    then have "find (\<lambda>p. wd_id (snd p) = wd_id r) (dueDeliveries t w) \<noteq> None"
      by (auto simp only: find_None_iff_ball snd_conv)
    then obtain ep d where f: "find (\<lambda>p. wd_id (snd p) = wd_id r) (dueDeliveries t w) = Some (ep, d)" by fastforce
    with find_Some_prop [OF f] same [of d] have "d = r" by (simp add: set_due)
    with True f show ?thesis by (auto simp: retryOnce_def)
  next
    case False
    then have "wd_id r \<notin> (wd_id \<circ> snd) ` set (dueDeliveries t w)" using same by (force simp: set_due)
    with False show ?thesis by (simp add: retryOnce_absent)
  qed
qed

lemma hookInv_queue: "hookInv w \<Longrightarrow> hookInv (snd (processRetryQueue lib e w))"
proof -
  assume w: "hookInv w"
  then obtain w' where w': "processRetryQueue lib e w = (Inr (), w')"
    "db w' = (db w)\<lparr>webhookDeliveries := map (retryOnce lib e (dueDeliveries (now e) w)) (webhookDeliveries (db w))\<rparr>"
    using run_processRetryQueue [of w lib e] by (auto simp: hookInv_def)
  have "rowOk (retryOnce lib e (dueDeliveries (now e) w) r)" if r: "r \<in> set (webhookDeliveries (db w))" for r
  proof -
    have "rowOk r" using w r by (auto simp: hookInv_def)
    with retryOnce_cases [OF w r, of "now e" lib e] show ?thesis by (auto dest: retryRow_ok dest!: in_batch)
  qed
  with w show ?thesis unfolding w'(1) snd_conv hookInv_def
    by (auto simp: w'(2) comp_def findEndpoint_def)
qed

lemma leaves_hookInv: "leaves db m \<Longrightarrow> keeps hookInv m"
  by (simp add: leaves_def keeps_def hookInv_def findEndpoint_def)

lemma fresh_row_found:
  assumes "hookInv w" and "wd_id d = nextId (db w)"
  shows "updateWhere (\<lambda>r. wd_id r = nextId (db w)) f (webhookDeliveries (db w) @ [d]) = webhookDeliveries (db w) @ [f d]"
    and "find (\<lambda>r. wd_id r = nextId (db w)) (webhookDeliveries (db w) @ [d]) = Some d"
proof -
  have new: "wd_id r \<noteq> nextId (db w)" if "r \<in> set (webhookDeliveries (db w))" for r
    using assms(1) that by (auto simp: hookInv_def)
  then show "updateWhere (\<lambda>r. wd_id r = nextId (db w)) f (webhookDeliveries (db w) @ [d]) = webhookDeliveries (db w) @ [f d]"
    by (simp add: updateWhere_append updateWhere_none assms(2))
  have "find (\<lambda>r. wd_id r = nextId (db w)) (webhookDeliveries (db w)) = None"
    using new by (simp add: find_None_iff_ball)
  then show "find (\<lambda>r. wd_id r = nextId (db w)) (webhookDeliveries (db w) @ [d]) = Some d"
    by (simp add: find_append assms(2))
qed

lemma deliverOnce_row:
  assumes w: "hookInv w"
  shows "\<exists>w' d. deliverOnce lib e ev payload ep w = (Inr (), w') \<and>
    webhookDeliveries (db w') = webhookDeliveries (db w) @ [d] \<and> nextId (db w') = Suc (nextId (db w)) \<and>
    webhookEndpoints (db w') = webhookEndpoints (db w) \<and>
    wd_id d = nextId (db w) \<and> wd_endpointId d = we_id ep \<and> wd_payload d = payload \<and> rowOk d"
  using fresh_row_found [OF w]
  by (auto simp: deliverOnce_def Let_def run_updateDelivery findDelivery_def setDeliveries_def run_axiosPost
      recordDeliveryMetric_def handleFailure_def ignore_def MAX_AUTO_ATTEMPTS_def split: postReply.split)
    (simp_all add: rowOk_defs)

lemma hookInv_deliverOnce:
  assumes w: "hookInv w" and ep: "ep \<in> set (webhookEndpoints (db w))"
  shows "hookInv (snd (deliverOnce lib e ev payload ep w))" (is ?inv)
    and "webhookEndpoints (db (snd (deliverOnce lib e ev payload ep w))) = webhookEndpoints (db w)"
    and "\<exists>w'. deliverOnce lib e ev payload ep w = (Inr (), w')"
proof -
  obtain w' d where d: "deliverOnce lib e ev payload ep w = (Inr (), w')"
    "webhookDeliveries (db w') = webhookDeliveries (db w) @ [d]" "nextId (db w') = Suc (nextId (db w))"
    "webhookEndpoints (db w') = webhookEndpoints (db w)" "wd_id d = nextId (db w)" "wd_endpointId d = we_id ep" "rowOk d"
    using deliverOnce_row [OF w] by blast
  have fk: "find (\<lambda>x. we_id x = we_id ep) (webhookEndpoints (db w)) \<noteq> None"
    using ep by (auto simp: find_None_iff_ball)
  show ?inv using w d fk
    by (auto simp: hookInv_def findEndpoint_def less_Suc_eq)
  show "webhookEndpoints (db (snd (deliverOnce lib e ev payload ep w))) = webhookEndpoints (db w)" using d by simp
  show "\<exists>w'. deliverOnce lib e ev payload ep w = (Inr (), w')" using d(1) by blast
qed

lemma hookInv_dispatch: "hookInv w \<Longrightarrow> hookInv (snd (dispatch lib e ev payload w))"
proof -
  have "hookInv (snd (allSettled eps (deliverOnce lib e ev payload) w))"
    if "hookInv w" "set eps \<subseteq> set (webhookEndpoints (db w))" for eps w
    using that
  proof (induction eps arbitrary: w)
    case (Cons ep eps)
    obtain w' where w': "deliverOnce lib e ev payload ep w = (Inr (), w')"
      using hookInv_deliverOnce(3) [OF Cons.prems(1)] Cons.prems(2) by fastforce
    with Cons.IH [of w'] Cons.prems hookInv_deliverOnce(1,2) [OF Cons.prems(1), of ep lib e ev payload]
    show ?case by (simp add: allSettled_def)
  qed (simp add: allSettled_def)
  moreover assume "hookInv w"
  ultimately show ?thesis by (auto simp: dispatch_def subscribers_def)
qed

text \<open>Every active endpoint subscribed to the event gets exactly one row.\<close>

lemma dispatch_rows:
  assumes "hookInv w"
  shows "\<exists>ds. webhookDeliveries (db (snd (dispatch lib e ev payload w))) = webhookDeliveries (db w) @ ds \<and>
    map wd_endpointId ds = map we_id (subscribers ev w) \<and> (\<forall>d \<in> set ds. wd_payload d = payload)"
proof -
  have "\<exists>ds. webhookDeliveries (db (snd (allSettled eps (deliverOnce lib e ev payload) w))) = webhookDeliveries (db w) @ ds \<and>
      map wd_endpointId ds = map we_id eps \<and> (\<forall>d \<in> set ds. wd_payload d = payload)"
    if "hookInv w" "set eps \<subseteq> set (webhookEndpoints (db w))" for eps w
    using that
  proof (induction eps arbitrary: w)
    case (Cons ep eps)
    obtain w' d where w': "deliverOnce lib e ev payload ep w = (Inr (), w')"
      "webhookDeliveries (db w') = webhookDeliveries (db w) @ [d]" "webhookEndpoints (db w') = webhookEndpoints (db w)"
      "wd_endpointId d = we_id ep" "wd_payload d = payload"
      using deliverOnce_row [OF Cons.prems(1)] by blast
    obtain ds where "webhookDeliveries (db (snd (allSettled eps (deliverOnce lib e ev payload) w'))) = webhookDeliveries (db w') @ ds"
      "map wd_endpointId ds = map we_id eps" "\<forall>d \<in> set ds. wd_payload d = payload"
      using Cons.IH [of w'] Cons.prems hookInv_deliverOnce(1) [OF Cons.prems(1), of ep lib e ev payload] w' by auto
    then show ?case using w' by (intro exI [of _ "d # ds"]) (simp add: allSettled_def)
  qed (simp add: allSettled_def)
  from this [of w "subscribers ev w"] assms show ?thesis by (auto simp: dispatch_def subscribers_def)
qed

lemma dispatch_one_row_each:
  assumes "hookInv w"
  shows "length (webhookDeliveries (db (snd (dispatch lib e ev payload w)))) =
    length (webhookDeliveries (db w)) + length (subscribers ev w)"
  using dispatch_rows [OF assms, of lib e ev payload] by (auto dest: map_eq_imp_length_eq)

text \<open>Changes of the endpoints keep the reference of every delivery.\<close>

lemma hookInv_endpoints:
  assumes "hookInv w" and "webhookDeliveries (db w') = webhookDeliveries (db w)" and "nextId (db w) \<le> nextId (db w')"
    and "\<And>i. findEndpoint i w \<noteq> None \<Longrightarrow> findEndpoint i w' \<noteq> None"
  shows "hookInv w'"
  using assms by (force simp: hookInv_def)

lemma hookInv_updateEndpoint:
  assumes "hookInv w" and "\<And>x. we_id (f x) = we_id x"
  shows "hookInv (snd (updateEndpoint i f w))"
proof (rule hookInv_endpoints [OF assms(1)])
  show "findEndpoint j (snd (updateEndpoint i f w)) \<noteq> None" if "findEndpoint j w \<noteq> None" for j
    using that assms(2) by (simp add: updateEndpoint_def findEndpoint_def find_updateWhere)
qed (simp_all add: updateEndpoint_def)

lemma applyWebhook_id [simp]: "we_id (applyWebhook lib dto ep) = we_id ep"
  by (simp add: applyWebhook_def Let_def split: option.split)

lemma keeps_updateEndpoint: "(\<And>x. we_id (f x) = we_id x) \<Longrightarrow> keeps hookInv (updateEndpoint i f)"
  by (simp add: keeps_def hookInv_updateEndpoint)

lemma keeps_hook_audit [keeps_intros]: "keeps hookInv (auditRecord x)"
  by (rule leaves_hookInv [OF auditLog.send_leaves])

lemma keeps_register: "keeps hookInv (register lib e uid url evs hs)"
proof
  fix w assume w: "hookInv w"
  show "hookInv (snd (register lib e uid url evs hs w))"
  proof (rule hookInv_endpoints [OF w])
    show "findEndpoint j (snd (register lib e uid url evs hs w)) \<noteq> None" if "findEndpoint j w \<noteq> None" for j
      using that by (auto simp: register_def Let_def findEndpoint_def find_append)
  qed (auto simp: register_def Let_def)
qed

lemma keeps_updateWebhook: "keeps hookInv (updateWebhook lib uid i dto)"
  unfolding updateWebhook_def by (intro keeps_intros keeps_updateEndpoint) simp

lemma keeps_rotateSecret: "keeps hookInv (rotateSecret lib e i uid)"
  unfolding rotateSecret_def by (intro keeps_intros keeps_updateEndpoint) simp

lemma keeps_removeWebhook: "keeps hookInv (removeWebhook i uid)"
proof
  fix w assume w: "hookInv w"
  have other: "find (\<lambda>x. we_id x = j) (filter (\<lambda>x. we_id x \<noteq> i) eps) = find (\<lambda>x. we_id x = j) eps" if "j \<noteq> i" for j eps
    using that by (induction eps) auto
  from w have "hookInv (w\<lparr>db := (db w)\<lparr>webhookEndpoints := filter (\<lambda>x. we_id x \<noteq> i) (webhookEndpoints (db w)),
        webhookDeliveries := filter (\<lambda>x. wd_endpointId x \<noteq> i) (webhookDeliveries (db w))\<rparr>\<rparr>)"
    by (auto simp: hookInv_def findEndpoint_def distinct_map_filter other)
  with w show "hookInv (snd (removeWebhook i uid w))"
    by (cases "ownedEndpoint i uid w") (simp_all add: removeWebhook_def)
qed

lemma leaves_bulkTest: "leaves db (bulkTest lib e uid)"
proof -
  have ping: "leaves db (sendTestPing lib e ep)" for ep
    by (rule leavesI) (simp add: sendTestPing_def Let_def run_axiosPost)
  have "leaves db (pingAll lib e eps)" for eps
    by (induction eps) (auto simp only: pingAll.simps intro!: leaves_intros ping)
  then show ?thesis unfolding bulkTest_def by (intro leaves_intros)
qed

interpretation hooks: step_system hookStep hookInv
proof
  fix w :: world and l :: "hookLib \<times> env \<times> hookOp"
  assume w: "hookInv w"
  obtain lib e op where l: "l = (lib, e, op)" by (cases l)
  have "hookInv (snd (hookAct lib e op w))"
  proof (cases op)
    case (OpBulkTest uid)
    with w keepsD [OF leaves_hookInv [OF leaves_bulkTest]] show ?thesis by simp
  qed (use w in \<open>simp_all add: keepsD [OF keeps_register] keepsD [OF keeps_updateWebhook] keepsD [OF keeps_removeWebhook]
    keepsD [OF keeps_rotateSecret] hookInv_dispatch hookInv_queue\<close>)
  then show "hookInv (hookStep l w)" by (simp add: hookStep_def l)
qed

text \<open>C14: No delivery is lost: whatever endpoints are registered, changed, rotated or removed, whatever events are
  dispatched and whenever the retry queue runs, every delivery row is delivered, permanently failed or has a next retry,
  and it has been attempted at most five times.\<close>

theorem no_delivery_is_lost:
  assumes "webhookDeliveries (db w) = []" and "d \<in> set (webhookDeliveries (db (fold hookStep ops w)))"
  shows "fst (describeRetryStatus d) \<noteq> Pending \<and> 1 \<le> wd_attemptCount d \<and> wd_attemptCount d \<le> 5"
proof -
  have "hookInv w" using assms(1) by (simp add: hookInv_def)
  then have "hookInv (fold hookStep ops w)" by (rule hooks.run_inv)
  with assms(2) have "rowOk d" by (auto simp: hookInv_def)
  then show ?thesis by (auto simp: rowOk_defs split: option.splits if_splits)
qed

section \<open>The queue drains\<close>

lemma nextRetryDate_le:
  assumes "0 \<le> random01 lib" "random01 lib < 1" and "n \<le> 4"
  shows "nextRetryDate lib t n \<le> t + 2400000"
proof -
  have "nat (n - 1) \<le> 3" using assms(3) by linarith
  then have b: "baseDelaySeconds n \<le> 1920" "0 \<le> baseDelaySeconds n"
    using power_increasing [of "nat (n - 1)" 3 "4 :: int"] by (auto simp: baseDelaySeconds_def)
  have r: "(random01 lib - 1 / 2) * (1 / 2) \<le> 1 / 4" using assms by simp
  have "rat_of_int (baseDelaySeconds n) * (1 + (random01 lib - 1 / 2) * (1 / 2)) \<le> 1920 * (5 / 4)"
    using b r assms by (intro mult_mono) (simp_all add: field_simps)
  then have "withJitter (random01 lib) (baseDelaySeconds n) \<le> 2400"
    by (simp add: withJitter_def floor_le_iff)
  then show ?thesis by (simp add: nextRetryDate_def)
qed

fun queueSpaced :: "time \<Rightarrow> (hookLib \<times> env) list \<Rightarrow> bool" where
  "queueSpaced t [] = True"
| "queueSpaced t ((lib, e) # runs) \<longleftrightarrow> t \<le> now e \<and> 0 \<le> random01 lib \<and> random01 lib < 1 \<and> queueSpaced (now e + 2400000) runs"

definition queueRuns :: "(hookLib \<times> env) list \<Rightarrow> world \<Rightarrow> world" where
  "queueRuns = fold (\<lambda>(lib, e) w. snd (processRetryQueue lib e w))"

definition awaitingBy :: "time \<Rightarrow> int \<Rightarrow> world \<Rightarrow> bool" where
  "awaitingBy t k w \<longleftrightarrow> length (filter awaiting (webhookDeliveries (db w))) \<le> RETRY_BATCH \<and>
     (\<forall>d \<in> set (webhookDeliveries (db w)). awaiting d \<longrightarrow>
        k \<le> wd_attemptCount d \<and> (case nextRetryAt d of None \<Rightarrow> False | Some x \<Rightarrow> x \<le> t))"

lemma awaiting_iff: "awaiting d \<longleftrightarrow> deliveredAt d = None \<and> permanentlyFailedAt d = None \<and> nextRetryAt d \<noteq> None"
  by (simp add: awaiting_def describeRetryStatus_def split: option.split)

lemma length_filter_map_le:
  "(\<And>x. x \<in> set xs \<Longrightarrow> P (f x) \<Longrightarrow> P x) \<Longrightarrow> length (filter P (map f xs)) \<le> length (filter P xs)"
  by (induction xs) (auto intro: le_SucI)

lemma length_filter_mono: "(\<And>x. P x \<Longrightarrow> Q x) \<Longrightarrow> length (filter P xs) \<le> length (filter Q xs)"
  by (induction xs) (auto intro: le_SucI)

lemma awaiting_in_batch:
  assumes "awaitingBy t k w" and "t \<le> t'" and "r \<in> set (webhookDeliveries (db w))" and "awaiting r"
  shows "r \<in> set (retryBatch t' w)"
proof -
  have "length (filter (deliveryDue t') (webhookDeliveries (db w))) \<le> length (filter awaiting (webhookDeliveries (db w)))"
    by (rule length_filter_mono) (auto simp: deliveryDue_def awaiting_iff split: option.splits)
  then show ?thesis using assms by (auto simp: awaitingBy_def deliveryDue_def awaiting_iff split: option.splits)
qed

lemma queue_step:
  assumes w: "hookInv w" "awaitingBy t k w" and t: "t \<le> now e" "0 \<le> random01 lib" "random01 lib < 1"
  shows "awaitingBy (now e + 2400000) (k + 1) (snd (processRetryQueue lib e w))"
proof -
  obtain w' where w': "processRetryQueue lib e w = (Inr (), w')"
    "db w' = (db w)\<lparr>webhookDeliveries := map (retryOnce lib e (dueDeliveries (now e) w)) (webhookDeliveries (db w))\<rparr>"
    using run_processRetryQueue [of w lib e] w by (auto simp: hookInv_def)
  let ?f = "retryOnce lib e (dueDeliveries (now e) w)"
  have row: "awaiting r \<and> k + 1 \<le> wd_attemptCount (?f r) \<and> (\<exists>x. nextRetryAt (?f r) = Some x \<and> x \<le> now e + 2400000)"
    if r: "r \<in> set (webhookDeliveries (db w))" and a: "awaiting (?f r)" for r
  proof -
    have "r \<in> set (retryBatch (now e) w)"
      using retryOnce_cases [OF w(1) r, of "now e" lib e] awaiting_in_batch [OF w(2) t(1) r] a by auto
    with retryOnce_cases [OF w(1) r, of "now e" lib e] obtain ep where
      ep: "?f r = retryRow lib e ep r r" and due: "deliveryDue (now e) r" by (auto dest!: in_batch)
    then have "awaiting r" by (auto simp: deliveryDue_def awaiting_iff split: option.splits)
    with retryRow_awaiting [OF due, of lib e ep] a ep nextRetryDate_le [OF t(2,3)] w(2) r show ?thesis
      by (auto simp: awaitingBy_def)
  qed
  have "length (filter awaiting (map ?f (webhookDeliveries (db w)))) \<le> length (filter awaiting (webhookDeliveries (db w)))"
    using row by (intro length_filter_map_le) blast
  with w(2) row show ?thesis by (fastforce simp: w' awaitingBy_def)
qed

lemma queue_drains:
  "hookInv w \<Longrightarrow> awaitingBy t k w \<Longrightarrow> queueSpaced t runs \<Longrightarrow> 5 \<le> k + int (length runs) \<Longrightarrow>
    filter awaiting (webhookDeliveries (db (queueRuns runs w))) = []"
proof (induction runs arbitrary: t k w)
  case Nil
  have "\<not> awaiting d" if "d \<in> set (webhookDeliveries (db w))" for d
    using Nil that unfolding hookInv_def awaitingBy_def awaiting_iff rowOk_defs by fastforce
  then show ?case by (simp add: queueRuns_def filter_empty_conv)
next
  case (Cons p runs)
  obtain lib e where p: "p = (lib, e)" by (cases p)
  have "filter awaiting (webhookDeliveries (db (queueRuns runs (snd (processRetryQueue lib e w))))) = []"
    using Cons.prems p by (intro Cons.IH [OF hookInv_queue queue_step]) auto
  then show ?case by (simp add: queueRuns_def p)
qed

text \<open>C15: When at most fifty deliveries await a retry, all of them due by the first run, four runs of the queue more than
  2400 seconds apart settle them all: none is left waiting, whatever the receivers answer and whatever the jitter is.\<close>

theorem retry_queue_settles_all:
  assumes "hookInv w" and "length (filter awaiting (webhookDeliveries (db w))) \<le> RETRY_BATCH"
    and "filter (\<lambda>d. awaiting d \<and> \<not> deliveryDue t d) (webhookDeliveries (db w)) = []"
    and "queueSpaced t runs" and "length runs = 4"
  shows "filter awaiting (webhookDeliveries (db (queueRuns runs w))) = []"
proof -
  have "awaitingBy t 1 w" unfolding awaitingBy_def
  proof (intro conjI ballI impI)
    fix d assume d: "d \<in> set (webhookDeliveries (db w))" "awaiting d"
    then show "1 \<le> wd_attemptCount d"
      using assms(1) unfolding hookInv_def awaiting_iff rowOk_defs by (auto split: option.splits)
    show "case nextRetryAt d of None \<Rightarrow> False | Some x \<Rightarrow> x \<le> t"
      using assms(3) d by (auto simp: filter_empty_conv deliveryDue_def)
  qed (rule assms(2))
  with assms show ?thesis using queue_drains [of w t 1 runs] by simp
qed

section \<open>Custom and signed headers\<close>

definition headerValues :: "string \<Rightarrow> (string \<times> string) list \<Rightarrow> string list" where
  "headerValues name hs = map snd (filter (\<lambda>h. toLowerCase (fst h) = toLowerCase name) hs)"

lemma headersOk_names: "headersOk hs n \<Longrightarrow> (x, v) \<in> set hs \<Longrightarrow> \<not> isReservedHeader x"
  by (induction hs n rule: headersOk.induct) auto

lemma decrypted_names: "(x, v) \<in> set (decryptHeaders lib (Some (encryptHeaders lib hs))) \<Longrightarrow> x \<in> fst ` set hs"
  by (induction hs) (auto simp: decryptHeaders_def encryptHeaders_def List.map_filter_simps split: option.splits)

lemma signed_names_lower:
  "toLowerCase ''Content-Type'' = ''content-type''" "toLowerCase ''X-ChainSettle-Timestamp'' = ''x-chainsettle-timestamp''"
  "toLowerCase ''X-ChainSettle-Signature'' = ''x-chainsettle-signature''"
  "toLowerCase ''X-ChainSettle-Signature-V2'' = ''x-chainsettle-signature-v2''" "toLowerCase ''X-Request-ID'' = ''x-request-id''"
  by code_simp+

lemma not_reserved: "\<not> isReservedHeader ''X-Request-ID''"
  by code_simp

text \<open>C17: Validated custom headers never reach the signed ones: whatever custom headers were accepted and however they are
  stored, the headers of a manual delivery hold exactly one value for the content type and for each \<open>X-ChainSettle-\<close>
  header, the one the service computed, under any capitalisation.\<close>

theorem custom_headers_cannot_forge:
  assumes "validateHeaders hs" and "we_headers ep = Some (encryptHeaders lib hs)"
    and "name \<in> set (map fst (signedHeaders ts sig sig2))"
  shows "headerValues name (buildDeliveryHeaders lib requestId ep ts sig sig2) =
    map snd (filter (\<lambda>h. fst h = name) (signedHeaders ts sig sig2))"
proof -
  have res: "isReservedHeader x" if "toLowerCase x = toLowerCase name" for x
    using assms(3) that by (auto simp: signedHeaders_def isReservedHeader_def RESERVED_HEADERS_def signed_names_lower)
  have "filter (\<lambda>h. toLowerCase (fst h) = toLowerCase name) (decryptHeaders lib (we_headers ep)) = []"
  proof (rule filter_False, rule ballI, rule notI)
    fix h assume h: "h \<in> set (decryptHeaders lib (we_headers ep))" "toLowerCase (fst h) = toLowerCase name"
    obtain x v where x: "h = (x, v)" by (cases h)
    with h assms(2) decrypted_names [of x v lib hs] obtain u where "(x, u) \<in> set hs" by auto
    with assms(1) headersOk_names [of hs 0 x u] res [of x] h(2) x show False by (simp add: validateHeaders_def)
  qed
  moreover have "filter (\<lambda>h. toLowerCase (fst h) = toLowerCase name)
      (case requestId of None \<Rightarrow> [] | Some [] \<Rightarrow> [] | Some i \<Rightarrow> [(''X-Request-ID'', i)]) = []"
    using res [of "''X-Request-ID''"] not_reserved by (auto split: option.split list.split)
  moreover have "filter (\<lambda>h. toLowerCase (fst h) = toLowerCase name) (signedHeaders ts sig sig2) =
      filter (\<lambda>h. fst h = name) (signedHeaders ts sig sig2)"
    using assms(3) unfolding signedHeaders_def list.map set_simps fst_conv
    by (elim insertE) (simp_all add: signed_names_lower)
  ultimately show ?thesis by (simp add: headerValues_def buildDeliveryHeaders_def)
qed

section \<open>Concrete runs\<close>

definition hookLib0 :: hookLib where
  "hookLib0 = \<lparr>post = (\<lambda>url _ _. if url = ''https://up'' then Answered 200 ''ok'' else Refused 503 ''busy''),
     hmacHex = (\<lambda>_ _. ''ab''), random01 = 1 / 2, randomSecret = ''s3cret'', maxPayloadBytes = 262144,
     encryptValue = (\<lambda>v. ''#'' @ v), decryptValue = (\<lambda>v. Some (drop 1 v)), idOrder = (\<lambda>i. i)\<rparr>"

definition endpoint0 :: "uuid \<Rightarrow> string \<Rightarrow> webhookEndpoint" where
  "endpoint0 i url = \<lparr>we_id = i, we_userId = 7, we_url = url, we_secret = ''hash'', we_events = [''SHIPMENT_CREATED''],
     we_headers = None, we_active = True, we_createdAt = 0\<rparr>"

definition delivery0 :: "uuid \<Rightarrow> webhookDelivery" where
  "delivery0 i = \<lparr>wd_id = i, wd_endpointId = 2, wd_eventType = ''SHIPMENT_CREATED'', wd_payload = JNull, statusCode = Some 503,
     responseBody = None, deliveredAt = None, nextRetryAt = Some 900, wd_attemptCount = 1, permanentlyFailedAt = None,
     wd_createdAt = 0\<rparr>"

definition hookWorld :: "webhookDelivery list \<Rightarrow> world" where
  "hookWorld ds = emptyWorld\<lparr>db := emptyDb\<lparr>webhookEndpoints := [endpoint0 1 ''https://up'', endpoint0 2 ''https://down''],
     webhookDeliveries := ds\<rparr>\<rparr>"

lemmas hook_concrete = concrete_defs hookLib0_def endpoint0_def delivery0_def hookWorld_def

definition ops0 :: "(hookLib \<times> env \<times> hookOp) list" where
  "ops0 = [(hookLib0, env0, OpDispatch ''SHIPMENT_CREATED'' JNull)]"

definition queueRuns0 :: "(hookLib \<times> env) list" where
  "queueRuns0 = map (\<lambda>t. (hookLib0, env0\<lparr>now := t\<rparr>)) [1000, 2500000, 5000000, 7500000]"

lemma no_delivery_is_lost_witness:
  "fst (describeRetryStatus (webhookDeliveries (db (fold hookStep ops0 (hookWorld []))) ! 1)) \<noteq> Pending \<and>
   1 \<le> wd_attemptCount (webhookDeliveries (db (fold hookStep ops0 (hookWorld []))) ! 1) \<and>
   wd_attemptCount (webhookDeliveries (db (fold hookStep ops0 (hookWorld []))) ! 1) \<le> 5"
proof (rule no_delivery_is_lost)
  show "webhookDeliveries (db (hookWorld [])) = []" by (simp add: hook_concrete)
  have "hookInv (hookWorld [])" by (simp add: hookInv_def hook_concrete)
  from dispatch_one_row_each [OF this, of hookLib0 env0 "''SHIPMENT_CREATED''" JNull]
  have "1 < length (webhookDeliveries (db (fold hookStep ops0 (hookWorld []))))"
    by (simp add: ops0_def hookStep_def) (simp add: subscribers_def hook_concrete)
  then show "webhookDeliveries (db (fold hookStep ops0 (hookWorld []))) ! 1 \<in>
      set (webhookDeliveries (db (fold hookStep ops0 (hookWorld []))))" by (rule nth_mem)
qed

lemma retry_queue_settles_all_witness: "filter awaiting (webhookDeliveries (db (queueRuns queueRuns0 (hookWorld [delivery0 5])))) = []"
proof (rule retry_queue_settles_all)
  show "hookInv (hookWorld [delivery0 5])"
    by (simp add: hookInv_def rowOk_defs hook_concrete findEndpoint_def)
  show "queueSpaced 1000 queueRuns0" by (simp add: queueRuns0_def hook_concrete)
qed (simp_all add: queueRuns0_def hook_concrete RETRY_BATCH_def deliveryDue_def)

lemma custom_headers_cannot_forge_witness:
  "headerValues ''Content-Type'' (buildDeliveryHeaders hookLib0 None
     (endpoint0 1 ''u''\<lparr>we_headers := Some (encryptHeaders hookLib0 [(''X-Team'', ''a'')])\<rparr>) 5 ''s'' ''s2'') =
   map snd (filter (\<lambda>h. fst h = ''Content-Type'') (signedHeaders 5 ''s'' ''s2''))"
proof (rule custom_headers_cannot_forge)
  show "validateHeaders [(''X-Team'', ''a'')]" by code_simp
qed (simp_all add: signedHeaders_def)

section \<open>Where manual retries and headers part from the automatic ones\<close>

text \<open>Automatic deliveries never carry the custom headers of the endpoint.\<close>

lemma automatic_delivery_ignores_headers:
  "deliverOnce lib e ev payload (ep\<lparr>we_headers := hs\<rparr>) w = deliverOnce lib e ev payload ep w"
  by (simp add: deliverOnce_def Let_def cong: if_cong)

text \<open>A manual retry of a permanently failed delivery that fails again leaves it neither failed nor waiting.\<close>

lemma manual_retry_leaves_limbo:
  assumes "distinct (map wd_id (webhookDeliveries (db w)))" and "ownedEndpoint i uid w = Some ep" and "ownedDelivery j i w = Some d"
    and "deliveredAt d = None" "nextRetryAt d = None"
    and "\<not> exceedsLimit lib (buildBody (now e) (wd_eventType d) (wd_payload d))"
    and "\<And>url body hs. post lib url body hs = Refused 503 ''busy''"
  shows "\<exists>w' d'. retryDelivery lib e rid i j uid w = (Inr (), w') \<and> findDelivery j w' = Some d' \<and>
    describeRetryStatus d' = (Pending, wd_attemptCount d + 1) \<and> \<not> deliveryDue t d'"
proof -
  have "d \<in> set (webhookDeliveries (db w)) \<and> wd_id d = j"
    using assms(3) unfolding ownedDelivery_def by (auto dest: find_Some_prop)
  then have d: "findDelivery j w = Some d" "wd_id d = j"
    using find_key_unique [OF assms(1)] by (auto simp: findDelivery_def)
  have f: "findDelivery j (v\<lparr>mail := m\<rparr>) = findDelivery j v" "findDelivery j (v\<lparr>metrics := n\<rparr>) = findDelivery j v" for v m n
    by (simp_all add: findDelivery_def)
  show ?thesis
    by (simp add: retryDelivery_def assms(2,3,6,7) Let_def run_axiosPost run_updateDelivery f recordDeliveryMetric_def
        findDelivery_setDeliveries d describeRetryStatus_def assms(4,5) deliveryDue_def)
qed

end
