(* ===== verification/Resilience.thy ===== *)
theory Resilience
  imports Api_Keys Token_Registry
begin

text \<open>
  Protection against overload: the in-process circuit breaker (\<open>src/src/common/utils/circuit-breaker.ts\<close>), whose calls may
  overlap, and the fixed-window rate limiter on Redis (\<open>redis-throttler-storage.service.ts\<close> and
  \<open>rate-limit-throttler.guard.ts\<close>).
\<close>

section \<open>Circuit breaker\<close>

datatype circuitState = CLOSED | OPEN | HALF_OPEN

record breakerOptions =
  failureThreshold :: int
  cooldownMs :: int

record breaker =
  cb_state :: circuitState
  consecutiveFailures :: int
  cb_openedAt :: "time option"
  trialInFlight :: bool
  cb_lastError :: "string option"

definition newBreaker :: breaker where
  "newBreaker = \<lparr>cb_state = CLOSED, consecutiveFailures = 0, cb_openedAt = None, trialInFlight = False, cb_lastError = None\<rparr>"

definition maybeHalfOpen :: "breakerOptions \<Rightarrow> time \<Rightarrow> breaker \<Rightarrow> breaker" where
  "maybeHalfOpen opts t b =
     (if cb_state b = OPEN \<and> (case cb_openedAt b of None \<Rightarrow> False | Some o' \<Rightarrow> t - o' \<ge> cooldownMs opts)
      then b\<lparr>cb_state := HALF_OPEN\<rparr> else b)"

definition onSuccess :: "breaker \<Rightarrow> breaker" where
  "onSuccess b = b\<lparr>cb_state := CLOSED, consecutiveFailures := 0, cb_openedAt := None, cb_lastError := None\<rparr>"

definition onFailure :: "breakerOptions \<Rightarrow> time \<Rightarrow> string \<Rightarrow> breaker \<Rightarrow> breaker" where
  "onFailure opts t err b =
     (let b' = b\<lparr>consecutiveFailures := consecutiveFailures b + 1, cb_lastError := Some err\<rparr> in
      if cb_state b' = HALF_OPEN \<or> consecutiveFailures b' \<ge> failureThreshold opts
      then b'\<lparr>cb_state := OPEN, cb_openedAt := Some t\<rparr> else b')"

text \<open>
  \<open>exec\<close> up to the call of the wrapped function, and from its settlement on: \<open>None\<close> is the \<open>CircuitOpenError\<close>,
  \<open>Some isTrial\<close> lets the call through. Other calls may run between the two.
\<close>

definition enter :: "breakerOptions \<Rightarrow> time \<Rightarrow> breaker \<Rightarrow> bool option \<times> breaker" where
  "enter opts t b =
     (let b1 = maybeHalfOpen opts t b in
      if cb_state b1 = OPEN then (None, b1)
      else if cb_state b1 = HALF_OPEN then
        (if trialInFlight b1 then (None, b1) else (Some True, b1\<lparr>trialInFlight := True\<rparr>))
      else (Some False, b1))"

definition settle :: "breakerOptions \<Rightarrow> time \<Rightarrow> bool \<Rightarrow> string option \<Rightarrow> breaker \<Rightarrow> breaker" where
  "settle opts t isTrial failed b =
     (let b1 = (case failed of None \<Rightarrow> onSuccess b | Some err \<Rightarrow> onFailure opts t err b) in
      if isTrial then b1\<lparr>trialInFlight := False\<rparr> else b1)"

text \<open>A call that no other call overlaps; the answer says whether the function was called.\<close>

definition exec :: "breakerOptions \<Rightarrow> time \<Rightarrow> string option \<Rightarrow> breaker \<Rightarrow> bool \<times> breaker" where
  "exec opts t failed b = (case enter opts t b of
      (None, b1) \<Rightarrow> (False, b1)
    | (Some isTrial, b1) \<Rightarrow> (True, settle opts t isTrial failed b1))"

definition breakerIsOpen :: "breakerOptions \<Rightarrow> time \<Rightarrow> breaker \<Rightarrow> bool \<times> breaker" where
  "breakerIsOpen opts t b = (let b1 = maybeHalfOpen opts t b in (cb_state b1 = OPEN, b1))"

definition getState :: "breakerOptions \<Rightarrow> time \<Rightarrow> breaker \<Rightarrow> circuitState \<times> breaker" where
  "getState opts t b = (let b1 = maybeHalfOpen opts t b in (cb_state b1, b1))"

record breakerSnapshot =
  bs_state :: circuitState
  bs_failures :: int
  bs_openedAt :: "time option"
  bs_retryAt :: "time option"
  bs_lastError :: "string option"

definition getSnapshot :: "breakerOptions \<Rightarrow> time \<Rightarrow> breaker \<Rightarrow> breakerSnapshot \<times> breaker" where
  "getSnapshot opts t b = (case getState opts t b of (st, b1) \<Rightarrow>
     (\<lparr>bs_state = st, bs_failures = consecutiveFailures b1, bs_openedAt = cb_openedAt b1,
       bs_retryAt = (if st = OPEN then map_option (\<lambda>o'. o' + cooldownMs opts) (cb_openedAt b1) else None),
       bs_lastError = cb_lastError b1\<rparr>, b1))"

subsection \<open>Overlapping calls\<close>

text \<open>The breaker together with the calls in flight, each marked as trial or not.\<close>

inductive breakerStep :: "breakerOptions \<Rightarrow> breaker \<times> bool list \<Rightarrow> breaker \<times> bool list \<Rightarrow> bool" for opts where
  Admit: "enter opts t b = (Some tr, b') \<Longrightarrow> breakerStep opts (b, fl) (b', tr # fl)"
| Refuse: "enter opts t b = (None, b') \<Longrightarrow> breakerStep opts (b, fl) (b', fl)"
| Settle: "breakerStep opts (b, xs @ tr # ys) (settle opts t tr failed b, xs @ ys)"
| Poll: "breakerStep opts (b, fl) (maybeHalfOpen opts t b, fl)"

inductive breakerReach :: "breakerOptions \<Rightarrow> breaker \<times> bool list \<Rightarrow> bool" for opts where
  Start: "breakerReach opts (newBreaker, [])"
| Next: "breakerReach opts s \<Longrightarrow> breakerStep opts s s' \<Longrightarrow> breakerReach opts s'"

inductive_cases breakerStepE: "breakerStep opts (b, fl) s'"

definition trials :: "bool list \<Rightarrow> nat" where
  "trials fl = length (filter id fl)"

lemma trials_simps [simp]: "trials [] = 0" "trials (x # xs) = (if x then 1 else 0) + trials xs" "trials (xs @ ys) = trials xs + trials ys"
  by (simp_all add: trials_def)

lemma trialInFlight_frame [simp]: "trialInFlight (maybeHalfOpen opts t b) = trialInFlight b"
  "trialInFlight (onSuccess b) = trialInFlight b" "trialInFlight (onFailure opts t err b) = trialInFlight b"
  by (simp_all add: maybeHalfOpen_def onSuccess_def onFailure_def Let_def)

lemma settle_trial [simp]: "trialInFlight (settle opts t tr failed b) = (trialInFlight b \<and> \<not> tr)"
  by (simp add: settle_def Let_def split: option.split)

lemma enter_trial:
  assumes "enter opts t b = (r, b')"
  shows "trialInFlight b' = (trialInFlight b \<or> r = Some True)" and "r = Some True \<Longrightarrow> \<not> trialInFlight b"
  using assms by (auto simp: enter_def Let_def split: if_splits)

lemma breakerReach_trials:
  assumes "breakerReach opts s"
  shows "trials (snd s) = (if trialInFlight (fst s) then 1 else 0)"
  using assms
proof (induction rule: breakerReach.induct)
  case Start
  show ?case by (simp add: newBreaker_def)
next
  case (Next s s')
  then show ?case
    by (cases s) (auto elim!: breakerStepE dest: enter_trial split: if_splits)
qed

text \<open>
  A call that was let through before the breaker opened and succeeds afterwards closes the breaker at once: the cool-down is
  not respected.
\<close>

lemma late_success_skips_cooldown: "cb_state (settle opts t tr None b) = CLOSED"
  by (simp add: settle_def onSuccess_def Let_def)

subsection \<open>Tripping and recovering\<close>

definition failingCalls :: "breakerOptions \<Rightarrow> (time \<times> string) list \<Rightarrow> breaker \<Rightarrow> bool list \<times> breaker" where
  "failingCalls opts calls b = fold (\<lambda>(t, err) (rs, b). case exec opts t (Some err) b of (r, b') \<Rightarrow> (rs @ [r], b')) calls ([], b)"

lemma exec_closed_failure:
  assumes "cb_state b = CLOSED"
  shows "exec opts t (Some err) b = (True, onFailure opts t err b)"
  using assms by (simp add: exec_def enter_def maybeHalfOpen_def settle_def Let_def)

lemma failingCalls_closed:
  assumes "cb_state b = CLOSED" "consecutiveFailures b + int (length calls) < failureThreshold opts"
  shows "\<exists>b'. fold (\<lambda>(t, err) (rs, b). case exec opts t (Some err) b of (r, b') \<Rightarrow> (rs @ [r], b')) calls (rs, b) =
      (rs @ replicate (length calls) True, b') \<and> cb_state b' = CLOSED \<and> trialInFlight b' = trialInFlight b \<and>
      consecutiveFailures b' = consecutiveFailures b + int (length calls)"
  using assms
proof (induction calls arbitrary: rs b)
  case (Cons c calls)
  obtain t err where c: "c = (t, err)" by (cases c)
  let ?b = "onFailure opts t err b"
  have b: "cb_state ?b = CLOSED" "consecutiveFailures ?b = consecutiveFailures b + 1" "trialInFlight ?b = trialInFlight b"
    using Cons.prems by (simp_all add: onFailure_def Let_def)
  with Cons.IH [of ?b "rs @ [True]"] Cons.prems show ?case
    by (simp add: c exec_closed_failure) (auto simp: replicate_append_same [symmetric])
qed simp

lemma failingCalls_trip:
  assumes "0 < failureThreshold opts" and "length calls = nat (failureThreshold opts)"
  shows "\<exists>b. failingCalls opts calls newBreaker = (replicate (length calls) True, b) \<and> cb_state b = OPEN \<and>
    cb_openedAt b = Some (fst (last calls)) \<and> \<not> trialInFlight b"
proof -
  obtain pre t err where calls: "calls = pre @ [(t, err)]" using assms by (cases calls rule: rev_cases) auto
  have thr: "failureThreshold opts = int (length pre) + 1" using assms calls by simp
  then obtain b' where b': "fold (\<lambda>(t, err) (rs, b). case exec opts t (Some err) b of (r, b') \<Rightarrow> (rs @ [r], b')) pre ([], newBreaker) =
      (replicate (length pre) True, b')" "cb_state b' = CLOSED" "\<not> trialInFlight b'"
      "consecutiveFailures b' = int (length pre)"
    using failingCalls_closed [of newBreaker pre opts "[]"] by (auto simp: newBreaker_def)
  with calls thr show ?thesis
    by (simp add: failingCalls_def exec_closed_failure onFailure_def Let_def replicate_append_same)
qed

text \<open>The breaker trips and recovers. After as many consecutive failures as its threshold, all of which reached the
  provider, no call reaches it before the cool-down since the last of them is over; the first call after it does, and
  closes the breaker when it succeeds or opens it for another cool-down when it fails.\<close>

lemma breaker_trips_and_recovers:
  assumes "0 < failureThreshold opts" and "length calls = nat (failureThreshold opts)"
    and "failingCalls opts calls newBreaker = (rs, b)"
  shows "rs = replicate (length calls) True \<and>
    (fst (exec opts t failed b) \<longleftrightarrow> fst (last calls) + cooldownMs opts \<le> t) \<and>
    (fst (last calls) + cooldownMs opts \<le> t \<longrightarrow> cb_state (snd (exec opts t failed b)) = (if failed = None then CLOSED else OPEN))"
proof -
  from failingCalls_trip [OF assms(1,2)] assms(3) have b: "rs = replicate (length calls) True" "cb_state b = OPEN"
    "cb_openedAt b = Some (fst (last calls))" "\<not> trialInFlight b" by auto
  then show ?thesis
    by (auto simp: exec_def enter_def maybeHalfOpen_def settle_def onSuccess_def onFailure_def Let_def split: option.split)
qed

lemma breaker_trips_and_recovers_witness:
  "\<exists>b. failingCalls \<lparr>failureThreshold = 2, cooldownMs = 1000\<rparr> [(10, ''a''), (20, ''b'')] newBreaker = ([True, True], b) \<and>
    \<not> fst (exec \<lparr>failureThreshold = 2, cooldownMs = 1000\<rparr> 1019 None b) \<and>
    fst (exec \<lparr>failureThreshold = 2, cooldownMs = 1000\<rparr> 1020 None b)"
proof -
  let ?o = "\<lparr>failureThreshold = 2, cooldownMs = 1000\<rparr>" and ?c = "[(10, ''a''), (20, ''b'')] :: (time \<times> string) list"
  obtain rs b where r: "failingCalls ?o ?c newBreaker = (rs, b)" by fastforce
  from breaker_trips_and_recovers [OF _ _ r, of 1019 None] breaker_trips_and_recovers [OF _ _ r, of 1020 None]
  have "rs = [True, True]" "\<not> fst (exec ?o 1019 None b)" "fst (exec ?o 1020 None b)" by (simp_all add: numeral_2_eq_2)
  with r show ?thesis by blast
qed

section \<open>Rate limits\<close>

text \<open>The configured limits of the three tiers; \<open>None\<close> is a variable that is not set or not a number.\<close>

record throttleConfig =
  THROTTLE_LIMIT :: "int option"
  THROTTLE_LIMIT_VERIFIED :: "int option"
  THROTTLE_LIMIT_ADMIN :: "int option"

datatype tier = DefaultTier | VerifiedTier | AdminTier

definition getTierLimit :: "throttleConfig \<Rightarrow> tier \<Rightarrow> int \<Rightarrow> int" where
  "getTierLimit cfg t fallback =
     (case (case t of AdminTier \<Rightarrow> THROTTLE_LIMIT_ADMIN cfg | VerifiedTier \<Rightarrow> THROTTLE_LIMIT_VERIFIED cfg
            | DefaultTier \<Rightarrow> THROTTLE_LIMIT cfg) of
        None \<Rightarrow> fallback | Some n \<Rightarrow> if n > 0 then n else fallback)"

definition resolveEffectiveLimit :: "throttleConfig \<Rightarrow> uuid option \<Rightarrow> int \<Rightarrow> world \<Rightarrow> int" where
  "resolveEffectiveLimit cfg userId defaultLimit w =
     (case userId of None \<Rightarrow> getTierLimit cfg DefaultTier defaultLimit
      | Some i \<Rightarrow> (case findUserById i w of
          None \<Rightarrow> getTierLimit cfg DefaultTier defaultLimit
        | Some u \<Rightarrow> if u_role u = ADMIN then getTierLimit cfg AdminTier defaultLimit
                    else if u_kycStatus u = VERIFIED then getTierLimit cfg VerifiedTier defaultLimit
                    else getTierLimit cfg DefaultTier defaultLimit))"

definition throttlePrefix :: string where
  "throttlePrefix = ''throttle:''"

text \<open>
  \<open>INCR\<close> and \<open>PTTL\<close> in one transaction: a key that does not exist, or has expired, starts at one without an expiry, and
  \<open>PTTL\<close> answers -1.
\<close>

definition incrKey :: "time \<Rightarrow> string \<Rightarrow> keyspace \<Rightarrow> int \<times> int \<times> keyspace" where
  "incrKey t key r =
     (let hits = counter t key r + 1;
          expiry = (case r key of None \<Rightarrow> None | Some en \<Rightarrow> if liveEntry t en then expiresAt en else None)
      in (hits, case expiry of None \<Rightarrow> - 1 | Some x \<Rightarrow> x - t, r(key \<mapsto> \<lparr>content = Text (showInt hits), expiresAt = expiry\<rparr>)))"

definition pexpire :: "time \<Rightarrow> string \<Rightarrow> int \<Rightarrow> keyspace \<Rightarrow> keyspace" where
  "pexpire t key ttl r = (case r key of None \<Rightarrow> r | Some en \<Rightarrow> r(key \<mapsto> en\<lparr>expiresAt := Some (t + ttl)\<rparr>))"

text \<open>When Redis does not answer the request is allowed.\<close>

definition increment :: "env \<Rightarrow> bool \<Rightarrow> string \<Rightarrow> int \<Rightarrow> (int \<times> int) act" where
  "increment e redisUp key ttl =
     (if \<not> redisUp then ret (0, 0) else
      andThen (reads (\<lambda>w. incrKey (now e) (throttlePrefix @ key) (redis w))) (\<lambda>(hits, pttl, r).
      andThen (modify (\<lambda>w. w\<lparr>redis := (if pttl < 0 then pexpire (now e) (throttlePrefix @ key) ttl r else r)\<rparr>)) (\<lambda>_.
      let left = (if pttl < 0 then ttl else pttl) in
      ret (hits, if left > 0 then - ((- left) div 1000) else 0))))"

record rateLimitInfo =
  rl_limit :: int
  rl_remaining :: int
  rl_reset :: int

datatype rateDecision = Allowed rateLimitInfo | Throttled rateLimitInfo

definition rateLimitRequest :: "throttleConfig \<Rightarrow> env \<Rightarrow> bool \<Rightarrow> uuid option \<Rightarrow> int \<Rightarrow> int \<Rightarrow> string \<Rightarrow> rateDecision act" where
  "rateLimitRequest cfg e redisUp userId limit ttl key =
     andThen (reads (resolveEffectiveLimit cfg userId limit)) (\<lambda>effectiveLimit.
     andThen (increment e redisUp key ttl) (\<lambda>(totalHits, timeToExpire).
     let reset = max 0 timeToExpire in
     ret (if totalHits > effectiveLimit then Throttled \<lparr>rl_limit = effectiveLimit, rl_remaining = 0, rl_reset = reset\<rparr>
          else Allowed \<lparr>rl_limit = effectiveLimit, rl_remaining = max 0 (effectiveLimit - totalHits), rl_reset = reset\<rparr>)))"

fun rateRun :: "throttleConfig \<Rightarrow> uuid option \<Rightarrow> int \<Rightarrow> int \<Rightarrow> string \<Rightarrow> env list \<Rightarrow> world \<Rightarrow> bool list" where
  "rateRun cfg uid limit ttl key [] w = []"
| "rateRun cfg uid limit ttl key (e # es) w = (case rateLimitRequest cfg e True uid limit ttl key w of
     (r, w') \<Rightarrow> (case r of Inr (Allowed _) \<Rightarrow> True | _ \<Rightarrow> False) # rateRun cfg uid limit ttl key es w')"

definition windowKey :: "string \<Rightarrow> time \<Rightarrow> int \<Rightarrow> world \<Rightarrow> bool" where
  "windowKey key ends k w \<longleftrightarrow> redis w (throttlePrefix @ key) = Some \<lparr>content = Text (showInt k), expiresAt = Some ends\<rparr>"

lemma rateLimitRequest_next:
  assumes "windowKey key ends k w" "0 \<le> k" "now e < ends"
  shows "\<exists>d w'. rateLimitRequest cfg e True uid limit ttl key w = (Inr d, w') \<and> windowKey key ends (k + 1) w' \<and> db w' = db w \<and>
    ((\<exists>i. d = Allowed i) \<longleftrightarrow> k + 1 \<le> resolveEffectiveLimit cfg uid limit w)"
proof -
  have "counter (now e) (throttlePrefix @ key) (redis w) = k"
    using assms by (simp add: windowKey_def counter_def getText_def lookupKey_def liveEntry_def parse_showInt)
  with assms show ?thesis
    by (auto simp: rateLimitRequest_def increment_def incrKey_def windowKey_def liveEntry_def Let_def)
qed

lemma rateLimitRequest_first:
  assumes "lookupKey (now e) (redis w) (throttlePrefix @ key) = None"
  shows "\<exists>d w'. rateLimitRequest cfg e True uid limit ttl key w = (Inr d, w') \<and> windowKey key (now e + ttl) 1 w' \<and> db w' = db w \<and>
    ((\<exists>i. d = Allowed i) \<longleftrightarrow> 1 \<le> resolveEffectiveLimit cfg uid limit w)"
proof -
  have "counter (now e) (throttlePrefix @ key) (redis w) = 0"
    using assms by (simp add: counter_def getText_def)
  with assms show ?thesis
    by (auto simp: rateLimitRequest_def increment_def incrKey_def pexpire_def windowKey_def lookupKey_def Let_def
        split: option.splits if_splits)
qed

lemma resolveEffectiveLimit_db: "db w' = db w \<Longrightarrow> resolveEffectiveLimit cfg uid limit w' = resolveEffectiveLimit cfg uid limit w"
  by (cases uid) (simp_all add: resolveEffectiveLimit_def findUserById_def)

lemma decision_flag: "(case d of Allowed _ \<Rightarrow> True | Throttled _ \<Rightarrow> False) = (\<exists>i. d = Allowed i)"
  by (cases d) simp_all

lemma rateRun_window:
  assumes "windowKey key ends k w" "0 \<le> k" "list_all (\<lambda>e. now e < ends) es"
  shows "rateRun cfg uid limit ttl key es w =
    map (\<lambda>j. k + int j < resolveEffectiveLimit cfg uid limit w) [0..<length es]"
  using assms
proof (induction es arbitrary: k w)
  case (Cons e es)
  then have "now e < ends" by simp
  from rateLimitRequest_next [OF Cons.prems(1,2) this, of cfg uid limit ttl] obtain d w' where
    d: "rateLimitRequest cfg e True uid limit ttl key w = (Inr d, w')" "windowKey key ends (k + 1) w'" "db w' = db w"
    "(\<exists>i. d = Allowed i) \<longleftrightarrow> k + 1 \<le> resolveEffectiveLimit cfg uid limit w" by blast
  let ?l = "resolveEffectiveLimit cfg uid limit w"
  have "rateRun cfg uid limit ttl key es w' = map (\<lambda>j. k + int j < ?l) (map Suc [0..<length es])"
    using Cons.IH [OF d(2)] Cons.prems resolveEffectiveLimit_db [OF d(3)] by (simp add: ac_simps)
  then have "rateRun cfg uid limit ttl key (e # es) w = (k < ?l) # map (\<lambda>j. k + int j < ?l) (map Suc [0..<length es])"
    using d(1,4) by (simp add: decision_flag add1_zle_eq int_one_le_iff_zero_less)
  then show ?case by (simp add: upt_conv_Cons map_Suc_upt del: upt_Suc)
qed simp

text \<open>Within one window of the rate limiter exactly the first requests up to the effective limit of the caller pass, and
  every further one is refused, however many requests come and whichever replica they reach.\<close>

lemma rate_limit_is_exact:
  assumes "lookupKey (now e) (redis w) (throttlePrefix @ key) = None" and "list_all (\<lambda>x. now x < now e + ttl) es"
  shows "rateRun cfg uid limit ttl key (e # es) w =
    map (\<lambda>j. int j < resolveEffectiveLimit cfg uid limit w) [0..<Suc (length es)]"
proof -
  from rateLimitRequest_first [OF assms(1), of cfg uid limit ttl] obtain d w' where
    d: "rateLimitRequest cfg e True uid limit ttl key w = (Inr d, w')" "windowKey key (now e + ttl) 1 w'" "db w' = db w"
    "(\<exists>i. d = Allowed i) \<longleftrightarrow> 1 \<le> resolveEffectiveLimit cfg uid limit w" by blast
  let ?l = "resolveEffectiveLimit cfg uid limit w"
  have "rateRun cfg uid limit ttl key es w' = map (\<lambda>j. int j < ?l) (map Suc [0..<length es])"
    using rateRun_window [OF d(2) _ assms(2)] resolveEffectiveLimit_db [OF d(3)] by (simp add: add.commute)
  then have "rateRun cfg uid limit ttl key (e # es) w = (0 < ?l) # map (\<lambda>j. int j < ?l) (map Suc [0..<length es])"
    using d(1,4) by (simp add: decision_flag add1_zle_eq int_one_le_iff_zero_less)
  then show ?thesis by (simp add: upt_conv_Cons map_Suc_upt del: upt_Suc)
qed

lemma rate_limit_is_exact_witness:
  "rateRun \<lparr>THROTTLE_LIMIT = Some 2, THROTTLE_LIMIT_VERIFIED = None, THROTTLE_LIMIT_ADMIN = None\<rparr> None 100 60000 ''ip''
     [env0, env0, env0\<lparr>now := 60999\<rparr>] emptyWorld = [True, True, False]"
  using rate_limit_is_exact [of env0 emptyWorld "''ip''" 60000 "[env0, env0\<lparr>now := 60999\<rparr>]"
      "\<lparr>THROTTLE_LIMIT = Some 2, THROTTLE_LIMIT_VERIFIED = None, THROTTLE_LIMIT_ADMIN = None\<rparr>" None 100]
  by (simp add: resolveEffectiveLimit_def getTierLimit_def lookupKey_def concrete_defs upt_rec)

text \<open>Without Redis nothing is limited.\<close>

lemma rate_limit_fails_open:
  assumes "0 \<le> resolveEffectiveLimit cfg uid limit w"
  shows "\<exists>i. rateLimitRequest cfg e False uid limit ttl key w = (Inr (Allowed i), w)"
  using assms by (simp add: rateLimitRequest_def increment_def Let_def)

end
