(* ===== verification/Ipfs.thy ===== *)
theory Ipfs
  imports Redis Domain
begin

text \<open>
  Uploads of files (\<open>src/src/common/ipfs\<close>): recognition of a file by its leading bytes (\<open>file-signature.util.ts\<close>) and
  \<open>IpfsService\<close> (\<open>ipfs.service.ts\<close>), which checks size and type, reuses the identifier of content it has seen, and pins
  new content at the provider with a bounded number of attempts. The provider and the hash are parameters; a buffer is a
  sequence of bytes. The waiting time between attempts has no effect on the model.
\<close>

section \<open>Recognising content\<close>

text \<open>\<open>buf.toString('latin1', from, to)\<close>, empty when the buffer is too short.\<close>

definition ascii :: "string \<Rightarrow> nat \<Rightarrow> nat \<Rightarrow> string" where
  "ascii buf from to = (if to \<le> length buf then take (to - from) (drop from buf) else [])"

definition startsWithBytes :: "string \<Rightarrow> nat list \<Rightarrow> bool" where
  "startsWithBytes buf bytes \<longleftrightarrow> length bytes \<le> length buf \<and> map of_char (take (length bytes) buf) = bytes"

definition HEIC_BRANDS :: "string list" where
  "HEIC_BRANDS = [''heic'', ''heix'', ''hevc'', ''hevx'', ''heim'', ''heis'']"

definition AVIF_BRANDS :: "string list" where
  "AVIF_BRANDS = [''avif'', ''avis'']"

definition QUICKTIME_ATOMS :: "string list" where
  "QUICKTIME_ATOMS = [''moov'', ''mdat'', ''wide'', ''free'', ''skip'', ''pnot'']"

definition sniffMimeType :: "string \<Rightarrow> string option" where
  "sniffMimeType buf =
     (if length buf < 4 then None
      else if ascii buf 0 5 = ''%PDF-'' then Some ''application/pdf''
      else if startsWithBytes buf [0xff, 0xd8, 0xff] then Some ''image/jpeg''
      else if startsWithBytes buf [0x89, 0x50, 0x4e, 0x47, 0x0d, 0x0a, 0x1a, 0x0a] then Some ''image/png''
      else if ascii buf 0 6 = ''GIF87a'' \<or> ascii buf 0 6 = ''GIF89a'' then Some ''image/gif''
      else if ascii buf 0 4 = ''RIFF'' \<and> ascii buf 8 12 = ''WEBP'' then Some ''image/webp''
      else let box = ascii buf 4 8 in
        if box = ''ftyp'' then
          (let brand = ascii buf 8 12 in
           if brand = ''qt  '' then Some ''video/quicktime''
           else if brand \<in> set HEIC_BRANDS then Some ''image/heic''
           else if brand \<in> set AVIF_BRANDS then Some ''image/avif''
           else Some ''video/mp4'')
        else if box \<in> set QUICKTIME_ATOMS then Some ''video/quicktime''
        else None)"

definition MIME_ALIASES :: "(string \<times> string) list" where
  "MIME_ALIASES = [(''image/jpg'', ''image/jpeg''), (''image/pjpeg'', ''image/jpeg''), (''image/x-png'', ''image/png''),
     (''application/x-pdf'', ''application/pdf''), (''video/x-quicktime'', ''video/quicktime'')]"

definition normalizeMimeType :: "string \<Rightarrow> string" where
  "normalizeMimeType mime = (let base = toLowerCase (trim (hd (splitOn (CHR '';'') mime))) in
     case map_of MIME_ALIASES base of None \<Rightarrow> base | Some m \<Rightarrow> m)"

definition isoVideo :: "string list" where
  "isoVideo = [''video/mp4'', ''video/quicktime'']"

definition mimeTypesMatch :: "string \<Rightarrow> string \<Rightarrow> bool" where
  "mimeTypesMatch declared sniffed \<longleftrightarrow> (let a = normalizeMimeType declared; b = normalizeMimeType sniffed in
     a = b \<or> a \<in> set isoVideo \<and> b \<in> set isoVideo)"

section \<open>The service\<close>

record uploadLimits =
  maxSizeBytes :: int
  allowedMimeTypes :: "string list"

definition DEFAULT_MAX_SIZE_BYTES :: int where
  "DEFAULT_MAX_SIZE_BYTES = 50 * 1024 * 1024"

definition DEFAULT_ALLOWED_MIME_TYPES :: "string list" where
  "DEFAULT_ALLOWED_MIME_TYPES = [''application/pdf'', ''image/jpeg'', ''image/png'', ''image/webp'', ''image/gif'',
     ''video/mp4'', ''video/quicktime'']"

definition UPLOAD_LIMITS_CACHE_TTL_MS :: int where
  "UPLOAD_LIMITS_CACHE_TTL_MS = 60000"

text \<open>The configuration: \<open>None\<close> is an environment variable that is not set.\<close>

definition defaultUploadLimits :: "int option \<Rightarrow> string option \<Rightarrow> uploadLimits" where
  "defaultUploadLimits maxSize types = \<lparr>maxSizeBytes = (case maxSize of None \<Rightarrow> DEFAULT_MAX_SIZE_BYTES | Some n \<Rightarrow> n),
     allowedMimeTypes = (case types of None \<Rightarrow> DEFAULT_ALLOWED_MIME_TYPES | Some [] \<Rightarrow> DEFAULT_ALLOWED_MIME_TYPES
       | Some t \<Rightarrow> filter (\<lambda>x. x \<noteq> []) (map trim (splitOn (CHR '','') t)))\<rparr>"

text \<open>What the provider answers to the n-th post of a buffer.\<close>

datatype pinReply = Pinned string | Rejected int | Unreachable

record ipfsConfig =
  apiKey :: string
  pinFile :: "nat \<Rightarrow> string \<Rightarrow> string \<Rightarrow> pinReply"
  testAuthentication :: bool
  fileHash :: "string \<Rightarrow> string"
  defaults :: uploadLimits
  dedupTtlDays :: int

text \<open>
  The state: the fields of the service, the row \<open>ipfs_upload_limits\<close> of \<open>AppConfig\<close> (a value that is not a number, or not
  an array, is \<open>None\<close>), the keyspace of Redis, and the buffers posted to the provider.
\<close>

record ipfsState =
  cachedUploadLimits :: "uploadLimits option"
  cachedUploadLimitsAt :: time
  isHealthy :: bool
  limitsRow :: "(int option \<times> string list option) option"
  ip_redis :: keyspace
  posted :: "string list"

type_synonym 'a ipfs = "(ipfsState, 'a) action"

definition checkConnectivity :: "ipfsConfig \<Rightarrow> unit ipfs" where
  "checkConnectivity cfg = modify (\<lambda>s. s\<lparr>isHealthy := apiKey cfg = [] \<or> testAuthentication cfg\<rparr>)"

definition rowLimits :: "ipfsConfig \<Rightarrow> (int option \<times> string list option) option \<Rightarrow> uploadLimits" where
  "rowLimits cfg row = (case row of None \<Rightarrow> defaults cfg
     | Some (maxSize, types) \<Rightarrow> \<lparr>maxSizeBytes = (case maxSize of None \<Rightarrow> maxSizeBytes (defaults cfg) | Some n \<Rightarrow> n),
         allowedMimeTypes = (case types of Some (t # ts) \<Rightarrow> t # ts | _ \<Rightarrow> allowedMimeTypes (defaults cfg))\<rparr>)"

definition getUploadLimits :: "ipfsConfig \<Rightarrow> time \<Rightarrow> uploadLimits ipfs" where
  "getUploadLimits cfg t =
     andThen (reads (\<lambda>s. if t - cachedUploadLimitsAt s < UPLOAD_LIMITS_CACHE_TTL_MS then cachedUploadLimits s else None)) (\<lambda>cached.
     case cached of
       Some limits \<Rightarrow> ret limits
     | None \<Rightarrow> andThen (reads (\<lambda>s. rowLimits cfg (limitsRow s))) (\<lambda>limits.
         andThen (modify (\<lambda>s. s\<lparr>cachedUploadLimits := Some limits, cachedUploadLimitsAt := t\<rparr>)) (\<lambda>_.
         ret limits)))"

definition updateUploadLimits :: "ipfsConfig \<Rightarrow> time \<Rightarrow> int option \<Rightarrow> string list option \<Rightarrow> uploadLimits ipfs" where
  "updateUploadLimits cfg t maxSize types =
     andThen (getUploadLimits cfg t) (\<lambda>current.
     let next = \<lparr>maxSizeBytes = (case maxSize of None \<Rightarrow> maxSizeBytes current | Some n \<Rightarrow> n),
                 allowedMimeTypes = (case types of None \<Rightarrow> allowedMimeTypes current | Some ts \<Rightarrow> ts)\<rparr> in
     andThen (modify (\<lambda>s. s\<lparr>limitsRow := Some (Some (maxSizeBytes next), Some (allowedMimeTypes next)),
        cachedUploadLimits := Some next, cachedUploadLimitsAt := t\<rparr>)) (\<lambda>_.
     ret next))"

definition assertContentMatchesType :: "string \<Rightarrow> string \<Rightarrow> string list \<Rightarrow> unit result" where
  "assertContentMatchesType buf declared allowedTypes = (case sniffMimeType buf of
      None \<Rightarrow> Inl UnsupportedMediaTypeException
    | Some sniffed \<Rightarrow>
        if normalizeMimeType sniffed \<notin> set (map normalizeMimeType allowedTypes) then Inl UnsupportedMediaTypeException
        else if \<not> mimeTypesMatch declared sniffed then Inl UnsupportedMediaTypeException
        else Inr ())"

definition UPLOAD_ATTEMPTS :: nat where
  "UPLOAD_ATTEMPTS = 3"

definition hexDigit :: "nat \<Rightarrow> char" where
  "hexDigit n = (if n < 10 then char_of (48 + n) else char_of (87 + n))"

definition hexText :: "string \<Rightarrow> string" where
  "hexText s = concat (map (\<lambda>c. [hexDigit (of_char c div 16), hexDigit (of_char c mod 16)]) s)"

text \<open>The identifier that stands for a file while no key is configured.\<close>

definition devCid :: "string \<Rightarrow> string" where
  "devCid name = ''bafydev'' @ take 52 (hexText name)"

definition dedupKey :: "ipfsConfig \<Rightarrow> string \<Rightarrow> string" where
  "dedupKey cfg buf = ''ipfs:dedup:'' @ fileHash cfg buf"

text \<open>The loop over the attempts: a client error ends it, any other failure leads to the next attempt.\<close>

function pinWithRetry :: "ipfsConfig \<Rightarrow> time \<Rightarrow> nat \<Rightarrow> string \<Rightarrow> string \<Rightarrow> string ipfs" where
  "pinWithRetry cfg t n buf name =
     (if n > UPLOAD_ATTEMPTS then throw InternalServerErrorException else
      andThen (modify (\<lambda>s. s\<lparr>posted := posted s @ [buf]\<rparr>)) (\<lambda>_.
      case pinFile cfg n buf name of
        Pinned cid \<Rightarrow>
          andThen (modify (\<lambda>s. s\<lparr>ip_redis := setKey t (dedupKey cfg buf) (Text cid) (Some (dedupTtlDays cfg * 86400)) (ip_redis s)\<rparr>)) (\<lambda>_.
          ret cid)
      | Rejected st \<Rightarrow> if 400 \<le> st \<and> st < 500 then throw InternalServerErrorException else pinWithRetry cfg t (Suc n) buf name
      | Unreachable \<Rightarrow> pinWithRetry cfg t (Suc n) buf name))"
  by pat_completeness auto
termination by (relation "measure (\<lambda>(cfg, t, n, buf, name). Suc UPLOAD_ATTEMPTS - n)") auto

declare pinWithRetry.simps [simp del]

definition uploadFile :: "ipfsConfig \<Rightarrow> time \<Rightarrow> string \<Rightarrow> string \<Rightarrow> string \<Rightarrow> string ipfs" where
  "uploadFile cfg t buf name mime =
     andThen (getUploadLimits cfg t) (\<lambda>limits.
     require (int (length buf) \<le> maxSizeBytes limits) BadRequestException (
     require (mime \<in> set (allowedMimeTypes limits)) BadRequestException (
     liftResult (assertContentMatchesType buf mime (allowedMimeTypes limits)) (\<lambda>_.
     andThen (reads (\<lambda>s. lookupKey t (ip_redis s) (dedupKey cfg buf))) (\<lambda>cached.
     case cached of
       Some (Text (c # cs)) \<Rightarrow> ret (c # cs)
     | _ \<Rightarrow>
         if apiKey cfg = [] then ret (devCid name) else
         andThen (reads isHealthy) (\<lambda>healthy.
         require healthy ServiceUnavailableException (
         pinWithRetry cfg t 1 buf name)))))))"

section \<open>Other requests\<close>

datatype headReply = HeadOk "int option" | HeadStatus int | HeadError

definition checkPinStatus :: "ipfsConfig \<Rightarrow> (string \<Rightarrow> headReply) \<Rightarrow> string \<Rightarrow> (bool \<times> int option) result" where
  "checkPinStatus cfg head cid =
     (if apiKey cfg = [] then Inr (False, None) else case head cid of
        HeadOk bytes \<Rightarrow> Inr (True, bytes)
      | HeadStatus st \<Rightarrow> if 400 \<le> st \<and> st < 500 then Inr (False, None) else Inl InternalServerErrorException
      | HeadError \<Rightarrow> Inl InternalServerErrorException)"

definition getFile :: "ipfsConfig \<Rightarrow> (string \<Rightarrow> (string \<times> string option) option) \<Rightarrow> string \<Rightarrow> (string \<times> string) result" where
  "getFile cfg fetch cid =
     (if apiKey cfg = [] then Inr ([], ''application/octet-stream'') else case fetch cid of
        None \<Rightarrow> Inl InternalServerErrorException
      | Some (buf, mime) \<Rightarrow> Inr (buf, case mime of None \<Rightarrow> ''application/octet-stream'' | Some m \<Rightarrow> m))"

section \<open>Lemmas\<close>

definition currentLimits :: "ipfsConfig \<Rightarrow> time \<Rightarrow> ipfsState \<Rightarrow> uploadLimits" where
  "currentLimits cfg t s = (case cachedUploadLimits s of
      Some l \<Rightarrow> if t - cachedUploadLimitsAt s < UPLOAD_LIMITS_CACHE_TTL_MS then l else rowLimits cfg (limitsRow s)
    | None \<Rightarrow> rowLimits cfg (limitsRow s))"

lemma getUploadLimits_run:
  obtains s' where "getUploadLimits cfg t s = (Inr (currentLimits cfg t s), s')" "posted s' = posted s" "ip_redis s' = ip_redis s"
    "isHealthy s' = isHealthy s" "limitsRow s' = limitsRow s"
  by (cases "cachedUploadLimits s"; cases "t - cachedUploadLimitsAt s < UPLOAD_LIMITS_CACHE_TTL_MS")
    (auto simp: getUploadLimits_def currentLimits_def)

text \<open>The loop posts the buffer at most as often as attempts are left and touches nothing else but the dedup key.\<close>

lemma pinWithRetry_posts:
  assumes "pinWithRetry cfg t n buf name s = (r, s')"
  shows "\<exists>k. posted s' = posted s @ replicate k buf \<and> k \<le> Suc UPLOAD_ATTEMPTS - n"
  using assms
proof (induction cfg t n buf name arbitrary: s rule: pinWithRetry.induct)
  case (1 cfg t n buf name)
  show ?case
  proof (cases "n > UPLOAD_ATTEMPTS")
    case True
    with 1(3) show ?thesis by (simp add: pinWithRetry.simps [of cfg t n])
  next
    case False
    let ?s = "s\<lparr>posted := posted s @ [buf]\<rparr>"
    have again: "\<exists>k. posted s' = posted s @ replicate k buf \<and> k \<le> Suc UPLOAD_ATTEMPTS - n"
      if "\<exists>k. posted s' = posted ?s @ replicate k buf \<and> k \<le> Suc UPLOAD_ATTEMPTS - Suc n"
    proof -
      from that obtain k where "posted s' = posted s @ replicate (Suc k) buf" "k \<le> Suc UPLOAD_ATTEMPTS - Suc n" by auto
      with False show ?thesis by (intro exI [of _ "Suc k"]) auto
    qed
    have one: "\<exists>k. posted s @ [buf] = posted s @ replicate k buf \<and> k \<le> Suc UPLOAD_ATTEMPTS - n"
      using False by (intro exI [of _ 1]) auto
    have run: "(case pinFile cfg n buf name of
        Pinned cid \<Rightarrow> (Inr cid, ?s\<lparr>ip_redis := setKey t (dedupKey cfg buf) (Text cid) (Some (dedupTtlDays cfg * 86400)) (ip_redis s)\<rparr>)
      | Rejected st \<Rightarrow> if 400 \<le> st \<and> st < 500 then (Inl InternalServerErrorException, ?s) else pinWithRetry cfg t (Suc n) buf name ?s
      | Unreachable \<Rightarrow> pinWithRetry cfg t (Suc n) buf name ?s) = (r, s')"
      using 1(3) False by (auto simp: pinWithRetry.simps [of cfg t n] split: pinReply.splits if_splits)
    show ?thesis
    proof (cases "pinFile cfg n buf name")
      case (Pinned cid)
      with run one show ?thesis by auto
    next
      case (Rejected st)
      show ?thesis
      proof (cases "400 \<le> st \<and> st < 500")
        case True
        with run Rejected one show ?thesis by auto
      next
        case retry: False
        with run Rejected have "pinWithRetry cfg t (Suc n) buf name ?s = (r, s')" by auto
        from again [OF 1(1) [OF False Rejected retry this]] show ?thesis .
      qed
    next
      case Unreachable
      with run have "pinWithRetry cfg t (Suc n) buf name ?s = (r, s')" by auto
      from again [OF 1(2) [OF False Unreachable this]] show ?thesis .
    qed
  qed
qed

section \<open>Properties\<close>

text \<open>A file that passes the checks of an upload.\<close>

definition acceptable :: "uploadLimits \<Rightarrow> string \<Rightarrow> string \<Rightarrow> bool" where
  "acceptable l buf mime \<longleftrightarrow> int (length buf) \<le> maxSizeBytes l \<and> mime \<in> set (allowedMimeTypes l) \<and>
     (\<exists>sniffed. sniffMimeType buf = Some sniffed \<and> normalizeMimeType sniffed \<in> normalizeMimeType ` set (allowedMimeTypes l) \<and>
        mimeTypesMatch mime sniffed)"

lemma assertContent_iff:
  "assertContentMatchesType buf mime allowedTypes = Inr () \<longleftrightarrow>
    (\<exists>sniffed. sniffMimeType buf = Some sniffed \<and> normalizeMimeType sniffed \<in> normalizeMimeType ` set allowedTypes \<and>
      mimeTypesMatch mime sniffed)"
  by (auto simp: assertContentMatchesType_def split: option.splits)

text \<open>What an upload does once its checks have passed.\<close>

definition store :: "ipfsConfig \<Rightarrow> time \<Rightarrow> string \<Rightarrow> string \<Rightarrow> string ipfs" where
  "store cfg t buf name =
     andThen (reads (\<lambda>s. lookupKey t (ip_redis s) (dedupKey cfg buf))) (\<lambda>cached.
     case cached of
       Some (Text (c # cs)) \<Rightarrow> ret (c # cs)
     | _ \<Rightarrow>
         if apiKey cfg = [] then ret (devCid name) else
         andThen (reads isHealthy) (\<lambda>healthy.
         require healthy ServiceUnavailableException (
         pinWithRetry cfg t 1 buf name)))"

lemma uploadFile_cases:
  "\<exists>s1. posted s1 = posted s \<and> ip_redis s1 = ip_redis s \<and>
    (if acceptable (currentLimits cfg t s) buf mime then uploadFile cfg t buf name mime s = store cfg t buf name s1
     else \<exists>x. uploadFile cfg t buf name mime s = (Inl x, s1))"
proof -
  let ?l = "currentLimits cfg t s"
  obtain s1 where s1: "getUploadLimits cfg t s = (Inr ?l, s1)" "posted s1 = posted s" "ip_redis s1 = ip_redis s"
    by (rule getUploadLimits_run)
  have "uploadFile cfg t buf name mime s = store cfg t buf name s1" if "acceptable ?l buf mime"
  proof -
    have "assertContentMatchesType buf mime (allowedMimeTypes ?l) = Inr ()"
      using that by (simp add: assertContent_iff acceptable_def)
    with that s1 show ?thesis by (simp add: uploadFile_def store_def acceptable_def)
  qed
  moreover have "\<exists>x. uploadFile cfg t buf name mime s = (Inl x, s1)" if bad: "\<not> acceptable ?l buf mime"
  proof (cases "assertContentMatchesType buf mime (allowedMimeTypes ?l)")
    case (Inl x)
    with s1 show ?thesis by (simp add: uploadFile_def)
  next
    case (Inr u)
    with bad have "\<not> (int (length buf) \<le> maxSizeBytes ?l \<and> mime \<in> set (allowedMimeTypes ?l))"
      using assertContent_iff [of buf mime] by (auto simp: acceptable_def)
    with s1 show ?thesis by (simp add: uploadFile_def)
  qed
  ultimately show ?thesis using s1 by auto
qed

text \<open>Only checked content leaves the backend: an upload posts its buffer to the pinning provider at most three times,
  and not at all unless the buffer is within the size limit, its declared type is allowed, and its leading bytes identify
  an allowed type that agrees with the declared one.\<close>

lemma only_checked_content_is_pinned:
  "\<exists>k. posted (snd (uploadFile cfg t buf name mime s)) = posted s @ replicate k buf \<and> k \<le> 3 \<and>
    (k = 0 \<or> acceptable (currentLimits cfg t s) buf mime)"
proof -
  obtain s1 where s1: "posted s1 = posted s" "if acceptable (currentLimits cfg t s) buf mime
      then uploadFile cfg t buf name mime s = store cfg t buf name s1 else \<exists>x. uploadFile cfg t buf name mime s = (Inl x, s1)"
    using uploadFile_cases [of s cfg t buf mime name] by blast
  show ?thesis
  proof (cases "acceptable (currentLimits cfg t s) buf mime")
    case True
    obtain r s' where pin: "pinWithRetry cfg t 1 buf name s1 = (r, s')" by fastforce
    from pinWithRetry_posts [OF pin] obtain k where k: "posted s' = posted s1 @ replicate k buf" "k \<le> 3"
      by (auto simp: UPLOAD_ATTEMPTS_def)
    have "posted (snd (store cfg t buf name s1)) \<in> {posted s1, posted s'}"
      using pin by (auto simp: store_def split: option.split rvalue.split list.split)
    with k s1 True show ?thesis by (auto intro: exI [of _ 0] exI [of _ k])
  next
    case False
    with s1 show ?thesis by (auto intro: exI [of _ 0])
  qed
qed

text \<open>Content that was pinned is not pinned again while its identifier is remembered.\<close>

lemma pinned_content_is_reused:
  assumes "lookupKey t (ip_redis s) (dedupKey cfg buf) = Some (Text cid)" "cid \<noteq> []" "acceptable (currentLimits cfg t s) buf mime"
  shows "\<exists>s'. uploadFile cfg t buf name mime s = (Inr cid, s') \<and> posted s' = posted s"
proof -
  obtain s1 where s1: "posted s1 = posted s" "ip_redis s1 = ip_redis s" "uploadFile cfg t buf name mime s = store cfg t buf name s1"
    using uploadFile_cases [of s cfg t buf mime name] assms(3) by auto
  with assms show ?thesis by (cases cid) (auto simp: store_def)
qed

end
