(* ===== verification/Civil_Time.thy ===== *)
theory Civil_Time
  imports Domain
begin

text \<open>
  Calendar arithmetic on UTC instants, as the \<open>Date\<close> methods of the language define it: the day number of a
  civil date, its inverse (\<open>civilFromDays\<close> of the prelude), the setters the schedules use, and the proof that the
  two conversions are inverse to each other.
\<close>

section \<open>Day numbers and civil dates\<close>

definition daysFromCivil :: "int \<Rightarrow> int \<Rightarrow> int \<Rightarrow> int" where
  "daysFromCivil y m d =
     (let y' = (if m \<le> 2 then y - 1 else y);
          era = y' div 400;
          yoe = y' mod 400;
          mp = (if m > 2 then m - 3 else m + 9);
          doy = (153 * mp + 2) div 5 + d - 1
      in era * 146097 + (365 * yoe + yoe div 4 - yoe div 100 + doy) - 719468)"

text \<open>
  \<open>MakeDay\<close> of the language: the month (1 is January) may run past December and the day past either end of the
  month.
\<close>

definition makeDay :: "int \<Rightarrow> int \<Rightarrow> int \<Rightarrow> int" where
  "makeDay y m d = daysFromCivil (y + (m - 1) div 12) ((m - 1) mod 12 + 1) 1 + d - 1"

definition dayNumber :: "time \<Rightarrow> int" where
  "dayNumber t = t div 86400000"

definition atDay :: "time \<Rightarrow> int \<Rightarrow> time" where
  "atDay t n = n * 86400000 + t mod 86400000"

definition getUTCDate :: "time \<Rightarrow> int" where
  "getUTCDate t = (case civilFromDays (dayNumber t) of (y, m, d) \<Rightarrow> d)"

definition setUTCDate :: "int \<Rightarrow> time \<Rightarrow> time" where
  "setUTCDate d t = (case civilFromDays (dayNumber t) of (y, m, _) \<Rightarrow> atDay t (makeDay y m d))"

text \<open>\<open>t.setUTCMonth(t.getUTCMonth() + 1)\<close>.\<close>

definition nextUTCMonth :: "time \<Rightarrow> time" where
  "nextUTCMonth t = (case civilFromDays (dayNumber t) of (y, m, d) \<Rightarrow> atDay t (makeDay y (m + 1) d))"

text \<open>\<open>new Date(Date.UTC(t.getUTCFullYear(), t.getUTCMonth() + 1, 0)).getUTCDate()\<close>.\<close>

definition lastDayOfMonth :: "time \<Rightarrow> int" where
  "lastDayOfMonth t = (case civilFromDays (dayNumber t) of (y, m, _) \<Rightarrow>
     (case civilFromDays (makeDay y (m + 1) 0) of (_, _, d) \<Rightarrow> d))"

section \<open>The two conversions are inverse\<close>

lemma div_eqI: "k * v \<le> x \<Longrightarrow> x < k * v + k \<Longrightarrow> x div k = v" for k v x :: int
  by (rule int_div_pos_eq [of x k v "x - k * v"]) auto

text \<open>The position of a day within its era of 400 years: century, four-year cycle, year and day of the year.\<close>

definition eraParts :: "int \<Rightarrow> int \<Rightarrow> int \<Rightarrow> int \<Rightarrow> bool" where
  "eraParts c q s doy \<longleftrightarrow> 0 \<le> c \<and> c \<le> 3 \<and> 0 \<le> q \<and> q \<le> 24 \<and> 0 \<le> s \<and> s \<le> 3 \<and> 0 \<le> doy \<and>
     (if s = 3 \<and> (q < 24 \<or> c = 3) then doy \<le> 365 else doy \<le> 364)"

definition dayOfEra :: "int \<Rightarrow> int \<Rightarrow> int \<Rightarrow> int \<Rightarrow> int" where
  "dayOfEra c q s doy = 36524 * c + 1461 * q + 365 * s + doy"

lemma eraParts_exist:
  assumes "0 \<le> doe" "doe \<le> 146096"
  obtains c q s doy where "eraParts c q s doy" "doe = dayOfEra c q s doy"
proof -
  define c where "c = min 3 (doe div 36524)"
  define r where "r = doe - 36524 * c"
  have c: "0 \<le> c" "c \<le> 3" using assms by (auto simp: c_def)
  have doe: "doe = 36524 * (doe div 36524) + doe mod 36524" "0 \<le> doe mod 36524" "doe mod 36524 < 36524" by simp_all
  have r: "0 \<le> r" "r \<le> 36524" "c < 3 \<Longrightarrow> r < 36524"
    using doe assms by (cases "doe div 36524 \<le> 3"; simp add: r_def c_def min_def)+
  define q where "q = r div 1461"
  define r2 where "r2 = r mod 1461"
  have q: "0 \<le> q" "q \<le> 24" using r by (auto simp: q_def)
  have r2: "0 \<le> r2" "r2 \<le> 1460" "r = 1461 * q + r2" by (auto simp: r2_def q_def)
  define s where "s = min 3 (r2 div 365)"
  define doy where "doy = r2 - 365 * s"
  have s: "0 \<le> s" "s \<le> 3" "0 \<le> doy" "s < 3 \<Longrightarrow> doy \<le> 364" "doy \<le> 365"
    using r2 div_mult_mod_eq [of r2 365] pos_mod_bound [of 365 r2] pos_mod_sign [of 365 r2]
    by (cases "r2 div 365 \<le> 3"; simp add: doy_def s_def min_def)+
  have last: "doy \<le> 364" if "q = 24" "c < 3" "s = 3"
    using r(3) [OF that(2)] r2(3) that by (simp add: doy_def)
  have "eraParts c q s doy" using c q s last by (cases "s = 3") (auto simp: eraParts_def)
  moreover have "doe = dayOfEra c q s doy" using r2(3) r_def by (simp add: dayOfEra_def doy_def)
  ultimately show ?thesis by (rule that)
qed

lemma dayOfEra_bounds: "eraParts c q s doy \<Longrightarrow> 0 \<le> dayOfEra c q s doy \<and> dayOfEra c q s doy \<le> 146096"
  by (auto simp: eraParts_def dayOfEra_def split: if_splits)

lemma yearOfEra:
  assumes p: "eraParts c q s doy" and "doe = dayOfEra c q s doy"
  shows "(doe - doe div 1460 + doe div 36524 - doe div 146096) div 365 = 100 * c + 4 * q + s"
proof -
  have b: "0 \<le> c" "c \<le> 3" "0 \<le> q" "q \<le> 24" "0 \<le> s" "s \<le> 3" "0 \<le> doy" "doy \<le> 365"
    "doy = 365 \<Longrightarrow> s = 3 \<and> (q < 24 \<or> c = 3)"
    using p by (auto simp: eraParts_def split: if_splits)
  have doe: "doe = 36524 * c + 1461 * q + 365 * s + doy" by (simp add: assms(2) dayOfEra_def)
  define x where "x = (if 24 * c + q + 365 * s + doy \<ge> 1460 then 1 else 0 :: int)"
  have e1: "doe div 1460 = 25 * c + q + x"
    using b by (intro div_eqI) (auto simp: doe x_def)
  have e2: "doe div 36524 - doe div 146096 = c"
  proof (cases "doe = 146096")
    case False
    then have small: "doe < 36524 * c + 36524"
      using b by (cases "doy = 365") (auto simp: doe)
    then have "doe div 36524 = c" using b by (intro div_eqI) (auto simp: doe)
    moreover have "doe div 146096 = 0" using b small False by (intro div_pos_pos_trivial) (auto simp: doe)
    ultimately show ?thesis by simp
  next
    case True
    then have "c = 3" using b by (cases "c = 3") (auto simp: doe)
    with True show ?thesis by simp
  qed
  have "doe - doe div 1460 + (doe div 36524 - doe div 146096) = 365 * (100 * c + 4 * q + s) + (doy - x)"
    using e1 e2 by (simp add: doe)
  moreover have "0 \<le> doy - x" using b by (auto simp: x_def)
  moreover have "doy - x < 365" using b by (cases "doy = 365") (auto simp: x_def)
  ultimately show ?thesis by (intro div_eqI) (auto simp: algebra_simps)
qed

lemma yearStart: "eraParts c q s doy \<Longrightarrow> yoe = 100 * c + 4 * q + s \<Longrightarrow>
    365 * yoe + yoe div 4 - yoe div 100 = 36524 * c + 1461 * q + 365 * s \<and> 0 \<le> yoe \<and> yoe \<le> 399"
proof -
  assume p: "eraParts c q s doy" and y: "yoe = 100 * c + 4 * q + s"
  have b: "0 \<le> c" "c \<le> 3" "0 \<le> q" "q \<le> 24" "0 \<le> s" "s \<le> 3"
    using p by (auto simp: eraParts_def)
  have "yoe div 4 = 25 * c + q" "yoe div 100 = c"
    using b by (intro div_eqI; simp add: y)+
  then show ?thesis using b by (simp add: y)
qed

text \<open>The month of a day of the year counted from March.\<close>

lemma monthOfYear:
  fixes doy :: int
  assumes "0 \<le> mp" "mp \<le> 11" "(153 * mp + 2) div 5 \<le> doy" "doy < (153 * (mp + 1) + 2) div 5"
  shows "(5 * doy + 2) div 153 = (mp :: int)"
proof -
  have "5 * ((153 * mp + 2) div 5) > 153 * mp - 3" "5 * ((153 * (mp + 1) + 2) div 5) \<le> 153 * mp + 155" by simp_all
  then have "153 * mp \<le> 5 * doy + 2" "5 * doy + 2 < 153 * mp + 153" using assms by linarith+
  then show ?thesis by (intro div_eqI) auto
qed

lemma monthOfYear_bounds:
  fixes doy :: int
  assumes "0 \<le> doy" "doy \<le> 365" and mp: "mp = (5 * doy + 2) div 153"
  shows "0 \<le> mp \<and> mp \<le> 11 \<and> (153 * mp + 2) div 5 \<le> doy \<and> doy < (153 * (mp + 1) + 2) div 5"
proof -
  have "0 \<le> mp" "mp \<le> 11" using assms by auto
  moreover have "153 * mp \<le> 5 * doy + 2" "5 * doy + 2 < 153 * mp + 153" unfolding mp by auto
  moreover have "5 * ((153 * mp + 2) div 5) \<le> 153 * mp + 2" "5 * ((153 * (mp + 1) + 2) div 5) > 153 * mp + 150" by simp_all
  ultimately show ?thesis by linarith
qed

definition isLeapYear :: "int \<Rightarrow> bool" where
  "isLeapYear y \<longleftrightarrow> 4 dvd y \<and> (\<not> 100 dvd y \<or> 400 dvd y)"

definition monthLength :: "int \<Rightarrow> int \<Rightarrow> int" where
  "monthLength y m = (if m = 2 then if isLeapYear y then 29 else 28 else if m \<in> {4, 6, 9, 11} then 30 else 31)"

definition validDate :: "int \<Rightarrow> int \<Rightarrow> int \<Rightarrow> bool" where
  "validDate y m d \<longleftrightarrow> 1 \<le> m \<and> m \<le> 12 \<and> 1 \<le> d \<and> d \<le> monthLength y m"

lemma multiple_bounded: "0 < k \<Longrightarrow> 0 < x \<Longrightarrow> x \<le> k \<Longrightarrow> k dvd x \<longleftrightarrow> x = k" for k x :: int
  by (auto dest: zdvd_imp_le)

lemma leap_parts:
  assumes p: "0 \<le> c" "c \<le> 3" "0 \<le> q" "q \<le> 24" "0 \<le> s" "s \<le> (3 :: int)"
    and y: "y = 400 * era + (100 * c + 4 * q + s) + 1"
  shows "isLeapYear y \<longleftrightarrow> s = 3 \<and> (q < 24 \<or> c = 3)"
proof -
  have "y = 4 * (100 * era + 25 * c + q) + (s + 1)" by (simp add: y)
  then have "4 dvd y \<longleftrightarrow> 4 dvd (s + 1)" by (simp add: dvd_add_right_iff)
  then have a: "4 dvd y \<longleftrightarrow> s = 3" using p by (simp add: multiple_bounded)
  have "y = 100 * (4 * era + c) + (4 * q + s + 1)" by (simp add: y)
  then have "100 dvd y \<longleftrightarrow> 100 dvd (4 * q + s + 1)" by (simp add: dvd_add_right_iff)
  then have b: "100 dvd y \<longleftrightarrow> 4 * q + s + 1 = 100" using p by (simp add: multiple_bounded)
  have "y = 400 * era + (100 * c + 4 * q + s + 1)" by (simp add: y)
  then have "400 dvd y \<longleftrightarrow> 400 dvd (100 * c + 4 * q + s + 1)" by (simp add: dvd_add_right_iff)
  then have "400 dvd y \<longleftrightarrow> 100 * c + 4 * q + s + 1 = 400" using p by (simp add: multiple_bounded)
  with a b p show ?thesis unfolding isLeapYear_def by auto
qed

text \<open>Months counted from March: first day and length of each.\<close>

definition marchDay :: "int \<Rightarrow> int" where
  "marchDay mp = (153 * mp + 2) div 5"

lemma month_cases: "1 \<le> m \<Longrightarrow> m \<le> 12 \<Longrightarrow>
    m = 1 \<or> m = 2 \<or> m = 3 \<or> m = 4 \<or> m = 5 \<or> m = 6 \<or> m = 7 \<or> m = 8 \<or> m = 9 \<or> m = 10 \<or> m = 11 \<or> m = (12 :: int)"
  by arith

lemma marchDay_length:
  assumes "1 \<le> m" "m \<le> 12" "m \<noteq> 2"
  shows "marchDay ((if m > 2 then m - 3 else m + 9) + 1) - marchDay (if m > 2 then m - 3 else m + 9) = monthLength y m"
  using month_cases [OF assms(1,2)] assms(3) by (elim disjE) (simp_all add: marchDay_def monthLength_def)

lemma civil_of_days:
  assumes v: "validDate y m d"
  shows "civilFromDays (daysFromCivil y m d) = (y, m, d)"
proof -
  define y' where "y' = (if m \<le> 2 then y - 1 else y)"
  define mp where "mp = (if m > 2 then m - 3 else m + 9)"
  define yoe where "yoe = y' mod 400"
  define doy where "doy = marchDay mp + d - 1"
  define c where "c = yoe div 100"
  define q where "q = yoe mod 100 div 4"
  define s where "s = yoe mod 4"
  have m: "1 \<le> m" "m \<le> 12" "1 \<le> d" "d \<le> monthLength y m" using v by (auto simp: validDate_def)
  have mp: "0 \<le> mp" "mp \<le> 11" using m by (auto simp: mp_def)
  have yoe: "0 \<le> yoe" "yoe < 400" "y' = 400 * (y' div 400) + yoe" by (auto simp: yoe_def)
  have parts: "0 \<le> c" "c \<le> 3" "0 \<le> q" "q \<le> 24" "0 \<le> s" "s \<le> 3" using yoe by (auto simp: c_def q_def s_def)
  have "yoe mod 100 mod 4 = yoe mod 4" by (rule mod_mod_cancel) simp
  then have sum: "yoe = 100 * c + 4 * q + s"
    using mult_div_mod_eq [of 100 yoe] mult_div_mod_eq [of 4 "yoe mod 100"] unfolding c_def q_def s_def by linarith
  have leap: "isLeapYear y \<longleftrightarrow> s = 3 \<and> (q < 24 \<or> c = 3)" if "m \<le> 2"
    using leap_parts [OF parts, of y "y' div 400"] yoe(3) sum that by (simp add: y'_def)
  have doy: "0 \<le> doy" "marchDay mp \<le> doy" using m mp by (auto simp: doy_def marchDay_def)
  have upper: "doy < marchDay (mp + 1)" "doy \<le> (if s = 3 \<and> (q < 24 \<or> c = 3) then 365 else 364)"
  proof -
    show "doy < marchDay (mp + 1)"
    proof (cases "m = 2")
      case True
      then show ?thesis using m by (auto simp: doy_def mp_def marchDay_def monthLength_def split: if_splits)
    next
      case False
      then show ?thesis using marchDay_length [OF m(1,2), of y] m by (simp add: doy_def mp_def split: if_splits)
    qed
    show "doy \<le> (if s = 3 \<and> (q < 24 \<or> c = 3) then 365 else 364)"
    proof (cases "m = 2")
      case True
      then show ?thesis using m leap by (auto simp: doy_def mp_def marchDay_def monthLength_def split: if_splits)
    next
      case False
      then have "mp \<le> 10" using m by (auto simp: mp_def)
      then have "marchDay (mp + 1) \<le> 337" by (simp add: marchDay_def)
      with \<open>doy < marchDay (mp + 1)\<close> show ?thesis by simp
    qed
  qed
  have era: "eraParts c q s doy" using parts doy upper(2) unfolding eraParts_def by (auto split: if_splits)
  let ?doe = "dayOfEra c q s doy"
  have days: "daysFromCivil y m d = (y' div 400) * 146097 + ?doe - 719468"
    using yearStart [OF era sum]
    by (simp add: daysFromCivil_def Let_def y'_def [symmetric] yoe_def [symmetric] mp_def [symmetric] dayOfEra_def doy_def marchDay_def)
  have z: "(daysFromCivil y m d + 719468) div 146097 = y' div 400" "(daysFromCivil y m d + 719468) mod 146097 = ?doe"
    using dayOfEra_bounds [OF era] by (simp_all add: days)
  have mon: "(5 * doy + 2) div 153 = mp"
    using doy upper mp by (intro monthOfYear) (auto simp: marchDay_def)
  have yr: "yoe + y' div 400 * 400 + (if m \<le> 2 then 1 else 0) = y" using yoe(3) by (cases "m \<le> 2") (simp_all add: y'_def)
  have dy: "?doe - (365 * yoe + yoe div 4 - yoe div 100) = doy" using yearStart [OF era sum] by (simp add: dayOfEra_def)
  have "civilFromDays (daysFromCivil y m d) = (let m = (if mp < 10 then mp + 3 else mp - 9) in
      (yoe + y' div 400 * 400 + (if m \<le> 2 then 1 else 0), m, doy - (153 * mp + 2) div 5 + 1))"
    unfolding civilFromDays_def Let_def z yearOfEra [OF era refl, folded sum] dy mon ..
  moreover have "(if mp < 10 then mp + 3 else mp - 9) = m" using m by (simp add: mp_def)
  ultimately show ?thesis using yr by (simp add: doy_def marchDay_def)
qed

lemma days_of_civil:
  assumes n: "civilFromDays n = (y, m, d)"
  shows "validDate y m d \<and> daysFromCivil y m d = n"
proof -
  define era where "era = (n + 719468) div 146097"
  define doe where "doe = (n + 719468) mod 146097"
  have "0 \<le> doe" "doe \<le> 146096" by (auto simp: doe_def)
  then obtain c q s doy where p: "eraParts c q s doy" and doe: "doe = dayOfEra c q s doy" by (rule eraParts_exist)
  define yoe where "yoe = 100 * c + 4 * q + s"
  define mp where "mp = (5 * doy + 2) div 153"
  note ys = yearStart [OF p yoe_def]
  have b: "0 \<le> c" "c \<le> 3" "0 \<le> q" "q \<le> 24" "0 \<le> s" "s \<le> 3" "0 \<le> doy" "doy \<le> 365"
    using p by (auto simp: eraParts_def split: if_splits)
  have mp: "0 \<le> mp" "mp \<le> 11" "marchDay mp \<le> doy" "doy < marchDay (mp + 1)"
    using monthOfYear_bounds [OF b(7,8) mp_def] by (auto simp: marchDay_def)
  have dy: "doe - (365 * yoe + yoe div 4 - yoe div 100) = doy" using ys by (simp add: doe dayOfEra_def)
  have "civilFromDays n = (let m = (if mp < 10 then mp + 3 else mp - 9) in
      (yoe + era * 400 + (if m \<le> 2 then 1 else 0), m, doy - (153 * mp + 2) div 5 + 1))"
    unfolding civilFromDays_def Let_def era_def [symmetric] doe_def [symmetric]
      yearOfEra [OF p doe, folded yoe_def] dy mp_def [symmetric] ..
  then have civil: "m = (if mp < 10 then mp + 3 else mp - 9)" "d = doy - marchDay mp + 1"
      "y = yoe + era * 400 + (if m \<le> 2 then 1 else 0)"
    using n by (simp_all add: Let_def marchDay_def)
  have mp': "mp = (if m > 2 then m - 3 else m + 9)" and m: "1 \<le> m" "m \<le> 12" using mp by (auto simp: civil(1))
  have ye: "(if m \<le> 2 then y - 1 else y) = 400 * era + yoe" by (simp add: civil(3))
  have "d \<le> monthLength y m"
  proof (cases "m = 2")
    case False
    then show ?thesis using marchDay_length [OF m False, of y] mp' mp by (simp add: civil(2))
  next
    case True
    then have "isLeapYear y \<longleftrightarrow> s = 3 \<and> (q < 24 \<or> c = 3)"
      using leap_parts [OF b(1-6), of y era] by (simp add: civil(3) yoe_def)
    with p True mp' show ?thesis by (auto simp: civil(2) eraParts_def monthLength_def marchDay_def split: if_splits)
  qed
  then have "validDate y m d" using m mp by (simp add: validDate_def civil(2))
  moreover have "daysFromCivil y m d = n"
  proof -
    have "(400 * era + yoe) div 400 = era" "(400 * era + yoe) mod 400 = yoe" using ys by simp_all
    then have "daysFromCivil y m d = era * 146097 + doe - 719468"
      using ys by (simp add: daysFromCivil_def Let_def ye mp' [symmetric] civil(2) marchDay_def [symmetric] doe dayOfEra_def)
    then show ?thesis by (simp add: era_def doe_def)
  qed
  ultimately show ?thesis ..
qed

section \<open>Months\<close>

lemma era_split: "146097 * (y div 400) + (365 * (y mod 400) + y mod 400 div 4 - y mod 400 div 100) =
    365 * y + y div 4 - y div 100 + y div 400" for y :: int
proof -
  define e r where "e = y div 400" and "r = y mod 400"
  have y: "y = 400 * e + r" "0 \<le> r" "r < 400" by (simp_all add: e_def r_def)
  then have "y div 4 = 100 * e + r div 4" "y div 100 = 4 * e + r div 100" by simp_all
  then show ?thesis using y(1) unfolding e_def [symmetric] r_def [symmetric] by simp
qed

lemma daysFromCivil_flat:
  "daysFromCivil y m d = (let y' = (if m \<le> 2 then y - 1 else y) in
     365 * y' + y' div 4 - y' div 100 + y' div 400 + marchDay (if m > 2 then m - 3 else m + 9) + d - 1 - 719468)"
proof -
  define y' where "y' = (if m \<le> 2 then y - 1 else y)"
  show ?thesis
    using era_split [of y'] unfolding daysFromCivil_def marchDay_def [symmetric] Let_def y'_def [symmetric] by linarith
qed

lemma div_step: "0 < k \<Longrightarrow> y div k - (y - 1) div k = (if k dvd y then 1 else 0)" for y k :: int
proof -
  assume k: "0 < k"
  have y: "y = k * (y div k) + y mod k" "0 \<le> y mod k" "y mod k < k" using k by simp_all
  show ?thesis
  proof (cases "k dvd y")
    case True
    then have "k * (y div k - 1) + k = y" by (simp add: algebra_simps)
    then have "(y - 1) div k = y div k - 1" using k by (intro div_eqI) auto
    with True show ?thesis by simp
  next
    case False
    then have "y mod k \<noteq> 0" by (simp add: dvd_eq_mod_eq_0)
    then have "(y - 1) div k = y div k" using k y by (intro div_eqI) linarith+
    with False show ?thesis by simp
  qed
qed

lemma next_month_start:
  assumes m: "1 \<le> m" "m \<le> 12"
  shows "makeDay y (m + 1) 1 = daysFromCivil y m 1 + monthLength y m"
proof (cases "m = 2")
  case True
  have "365 + (y div 4 - (y - 1) div 4) - (y div 100 - (y - 1) div 100) + (y div 400 - (y - 1) div 400) =
      337 + monthLength y 2"
    by (simp add: div_step monthLength_def isLeapYear_def) (auto intro: dvd_trans [of 4 400 y] dvd_trans [of 100 400 y] dvd_trans [of 4 100 y])
  then show ?thesis by (simp add: True makeDay_def daysFromCivil_flat marchDay_def Let_def)
next
  case False
  show ?thesis using month_cases [OF m] False
    by (elim disjE) (simp_all add: makeDay_def daysFromCivil_flat marchDay_def monthLength_def Let_def)
qed

lemma makeDay_valid: "1 \<le> m \<Longrightarrow> m \<le> 12 \<Longrightarrow> makeDay y m d = daysFromCivil y m d"
  by (simp add: makeDay_def daysFromCivil_def Let_def)

lemma monthLength_bounds: "28 \<le> monthLength y m \<and> monthLength y m \<le> 31"
  by (simp add: monthLength_def)

text \<open>The month after a month, with its year.\<close>

definition nextMonth :: "int \<Rightarrow> int \<Rightarrow> int \<times> int" where
  "nextMonth y m = (if m = 12 then (y + 1, 1) else (y, m + 1))"

lemma makeDay_nextMonth:
  "1 \<le> m \<Longrightarrow> m \<le> 12 \<Longrightarrow> makeDay y (m + 1) d = (case nextMonth y m of (y', m') \<Rightarrow> daysFromCivil y' m' d)"
  by (cases "m = 12") (simp_all add: makeDay_def nextMonth_def daysFromCivil_flat Let_def)

lemma dayNumber_atDay [simp]: "dayNumber (atDay t n) = n"
  by (simp add: dayNumber_def atDay_def)

lemma atDay_atDay [simp]: "atDay (atDay t n) k = atDay t k"
  by (simp add: atDay_def)

lemma atDay_self: "atDay t (dayNumber t) = t"
  by (simp add: atDay_def dayNumber_def)

text \<open>\<open>setUTCDate\<close> within the month, \<open>setUTCMonth\<close> from the first of the month, and the length of a month.\<close>

lemma setUTCDate_in_month:
  "civilFromDays (dayNumber t) = (y, m, d) \<Longrightarrow> setUTCDate k t = atDay t (daysFromCivil y m k)"
  using days_of_civil [of "dayNumber t"] by (simp add: setUTCDate_def makeDay_valid validDate_def)

lemma nextUTCMonth_first:
  assumes "civilFromDays (dayNumber t) = (y, m, 1)"
  shows "nextUTCMonth t = (case nextMonth y m of (y', m') \<Rightarrow> atDay t (daysFromCivil y' m' 1))"
  using days_of_civil [OF assms] by (simp add: nextUTCMonth_def assms makeDay_nextMonth validDate_def split: prod.splits)

lemma lastDayOfMonth_length:
  assumes "civilFromDays (dayNumber t) = (y, m, d)"
  shows "lastDayOfMonth t = monthLength y m"
proof -
  have m: "1 \<le> m" "m \<le> 12" using days_of_civil [OF assms] by (auto simp: validDate_def)
  have "makeDay y (m + 1) 0 = makeDay y (m + 1) 1 - 1" by (simp add: makeDay_def)
  also have "\<dots> = daysFromCivil y m (monthLength y m)"
    using next_month_start [OF m, of y] by (simp add: daysFromCivil_def Let_def)
  finally have "civilFromDays (makeDay y (m + 1) 0) = (y, m, monthLength y m)"
    using m monthLength_bounds [of y m] by (simp add: civil_of_days validDate_def)
  then show ?thesis by (simp add: lastDayOfMonth_def assms)
qed

end
