(* ===== verification/Templates.thy ===== *)
theory Templates
  imports Shipments Job_Tracker Civil_Time
begin

text \<open>
  Shipment templates (\<open>src/src/modules/shipment-templates/shipment-templates.service.ts\<close>) and the recurring schedules
  built on them (\<open>src/src/modules/recurring-schedules\<close>): the service, the calendar arithmetic of \<open>advance\<close>, and the job
  that turns due schedules into draft shipments. The job reads the due rows first and claims each of them later by a
  conditional update, so its step takes the row as it was read, whatever has happened to it since.
\<close>

section \<open>Templates\<close>

record templateDto =
  td_name :: string
  td_description :: "string option"
  td_supplierAddress :: "address option"
  td_logisticsAddress :: "address option"
  td_arbiterAddress :: "address option"
  td_tokenAddress :: "address option"
  td_milestones :: "milestoneInput list"
  td_isPublic :: "bool option"

definition validateMilestonePercentages :: "milestoneInput list \<Rightarrow> unit result" where
  "validateMilestonePercentages ms =
     (if sum_list (map mi_paymentPercent ms) = 100 then Inr () else Inl BadRequestException)"

definition insertTemplate :: "env \<Rightarrow> templateDto \<Rightarrow> uuid \<Rightarrow> shipmentTemplate act" where
  "insertTemplate e dto ownerId =
     andThen freshId (\<lambda>i.
     let row = \<lparr>t_id = i, t_ownerId = ownerId, t_name = td_name dto, t_description = td_description dto,
           t_supplierAddress = td_supplierAddress dto, t_logisticsAddress = td_logisticsAddress dto,
           t_arbiterAddress = td_arbiterAddress dto, t_tokenAddress = td_tokenAddress dto,
           t_milestones = Some (td_milestones dto), t_isPublic = (case td_isPublic dto of Some b \<Rightarrow> b | None \<Rightarrow> False),
           t_deletedAt = None, t_createdAt = now e\<rparr> in
     andThen (modifyDb (\<lambda>d. d\<lparr>templates := templates d @ [row]\<rparr>)) (\<lambda>_. ret row))"

definition createTemplate :: "env \<Rightarrow> templateDto \<Rightarrow> uuid \<Rightarrow> shipmentTemplate act" where
  "createTemplate e dto ownerId =
     liftResult (validateMilestonePercentages (td_milestones dto)) (\<lambda>_. insertTemplate e dto ownerId)"

text \<open>The page of templates, newest first, with the total and the number of pages (\<open>Math.ceil(total / limit)\<close>).\<close>

definition templatePage :: "nat \<Rightarrow> nat \<Rightarrow> shipmentTemplate list \<Rightarrow> shipmentTemplate list \<times> nat \<times> nat" where
  "templatePage page limit ts =
     (paged page limit (sort_key (\<lambda>t. - t_createdAt t) ts), length ts, (length ts + limit - 1) div limit)"

definition findAllTemplates :: "uuid \<Rightarrow> nat \<Rightarrow> nat \<Rightarrow> (shipmentTemplate list \<times> nat \<times> nat) act" where
  "findAllTemplates ownerId page limit = reads (\<lambda>w. templatePage page limit
     (filter (\<lambda>t. t_deletedAt t = None \<and> (t_ownerId t = ownerId \<or> t_isPublic t)) (templates (db w))))"

definition findMyTemplates :: "uuid \<Rightarrow> nat \<Rightarrow> nat \<Rightarrow> (shipmentTemplate list \<times> nat \<times> nat) act" where
  "findMyTemplates ownerId page limit = reads (\<lambda>w. templatePage page limit
     (filter (\<lambda>t. t_ownerId t = ownerId \<and> t_deletedAt t = None) (templates (db w))))"

text \<open>\<open>Math.round(x / msPerDay)\<close>.\<close>

definition roundDays :: "int \<Rightarrow> int" where
  "roundDays ms = (2 * ms + 86400000) div (2 * 86400000)"

definition templateMilestone :: "shipment \<Rightarrow> checklistItem list \<Rightarrow> milestone \<Rightarrow> milestoneInput" where
  "templateMilestone s items m =
     \<lparr>mi_name = m_name m, mi_paymentPercent = paymentPercent m, mi_dueAt = None,
      mi_dueDays = map_option (\<lambda>t. roundDays (t - s_createdAt s)) (dueAt m),
      mi_checklist = map (\<lambda>c. (c_label c, Some (c_required c)))
        (sort_key c_createdAt (filter (\<lambda>c. c_milestoneId c = m_id m) items))\<rparr>"

definition createFromShipment :: "env \<Rightarrow> uuid \<Rightarrow> address \<Rightarrow> string \<Rightarrow> string \<Rightarrow> string option \<Rightarrow> bool option
    \<Rightarrow> shipmentTemplate act" where
  "createFromShipment e ownerId caller sid name desc pub =
     andThen (reads (findShipment sid)) (\<lambda>found.
     requireSome found NotFoundException (\<lambda>s.
     require (buyerAddress s = caller) ForbiddenException (
     andThen (reads (\<lambda>w. map (templateMilestone s (checklistItems (db w)))
        (sort_key milestoneIndex (liveMilestones sid (db w))))) (\<lambda>ms.
     liftResult (validateMilestonePercentages ms) (\<lambda>_.
     insertTemplate e \<lparr>td_name = name, td_description = desc, td_supplierAddress = Some (supplierAddress s),
       td_logisticsAddress = Some (logisticsAddress s), td_arbiterAddress = Some (arbiterAddress s),
       td_tokenAddress = Some (tokenAddress s), td_milestones = ms, td_isPublic = pub\<rparr> ownerId)))))"

definition findTemplate :: "uuid \<Rightarrow> shipmentTemplate act" where
  "findTemplate i =
     andThen (reads (\<lambda>w. find (\<lambda>t. t_id t = i \<and> t_deletedAt t = None) (templates (db w)))) (\<lambda>found.
     requireSome found NotFoundException ret)"

record templatePreview =
  tp_milestones :: "(milestoneInput \<times> string) list"
  tp_percentSum :: int
  tp_isValid :: bool
  tp_missingFields :: "string list"

definition dueDescription :: "milestoneInput \<Rightarrow> string" where
  "dueDescription m = (case mi_dueDays m of
      None \<Rightarrow> ''No due date set''
    | Some n \<Rightarrow> showInt n @ '' day'' @ (if n = 1 then [] else ''s'') @ '' after creation'')"

definition missingFields :: "shipmentTemplate \<Rightarrow> string list" where
  "missingFields t = map fst (filter (\<lambda>(_, v). \<not> truthy v)
     [(''supplierAddress'', t_supplierAddress t), (''logisticsAddress'', t_logisticsAddress t),
      (''arbiterAddress'', t_arbiterAddress t), (''tokenAddress'', t_tokenAddress t)])"

definition preview :: "uuid \<Rightarrow> uuid \<Rightarrow> templatePreview act" where
  "preview i userId =
     andThen (findTemplate i) (\<lambda>t.
     require (t_isPublic t \<or> t_ownerId t = userId) ForbiddenException (
     let ms = (case t_milestones t of None \<Rightarrow> [] | Some ms \<Rightarrow> ms);
         total = sum_list (map mi_paymentPercent ms) in
     ret \<lparr>tp_milestones = map (\<lambda>m. (m, dueDescription m)) ms, tp_percentSum = total, tp_isValid = (total = 100),
          tp_missingFields = missingFields t\<rparr>))"

text \<open>An update: an absent field is left as it is, and the nullable ones can be set to null.\<close>

record templateUpdate =
  tu_name :: "string option"
  tu_description :: "string option option"
  tu_supplierAddress :: "address option option"
  tu_logisticsAddress :: "address option option"
  tu_arbiterAddress :: "address option option"
  tu_tokenAddress :: "address option option"
  tu_milestones :: "milestoneInput list option"
  tu_isPublic :: "bool option"

definition applyTemplateUpdate :: "templateUpdate \<Rightarrow> shipmentTemplate \<Rightarrow> shipmentTemplate" where
  "applyTemplateUpdate dto t = t\<lparr>t_name := given (tu_name dto) (t_name t),
     t_description := given (tu_description dto) (t_description t),
     t_supplierAddress := given (tu_supplierAddress dto) (t_supplierAddress t),
     t_logisticsAddress := given (tu_logisticsAddress dto) (t_logisticsAddress t),
     t_arbiterAddress := given (tu_arbiterAddress dto) (t_arbiterAddress t),
     t_tokenAddress := given (tu_tokenAddress dto) (t_tokenAddress t),
     t_milestones := (case tu_milestones dto of None \<Rightarrow> t_milestones t | Some ms \<Rightarrow> Some ms),
     t_isPublic := given (tu_isPublic dto) (t_isPublic t)\<rparr>"

definition updateTemplateRow :: "uuid \<Rightarrow> (shipmentTemplate \<Rightarrow> shipmentTemplate) \<Rightarrow> unit act" where
  "updateTemplateRow i f = modifyDb (\<lambda>d. d\<lparr>templates := updateWhere (\<lambda>t. t_id t = i) f (templates d)\<rparr>)"

definition updateTemplate :: "uuid \<Rightarrow> uuid \<Rightarrow> templateUpdate \<Rightarrow> unit act" where
  "updateTemplate i ownerId dto =
     andThen (findTemplate i) (\<lambda>t.
     require (t_ownerId t = ownerId) ForbiddenException (
     liftResult (case tu_milestones dto of None \<Rightarrow> Inr () | Some ms \<Rightarrow> validateMilestonePercentages ms) (\<lambda>_.
     updateTemplateRow i (applyTemplateUpdate dto))))"

definition updateVisibility :: "uuid \<Rightarrow> uuid \<Rightarrow> address option \<Rightarrow> bool \<Rightarrow> unit act" where
  "updateVisibility i ownerId actor pub =
     andThen (findTemplate i) (\<lambda>t.
     require (t_ownerId t = ownerId) ForbiddenException (
     andThen (updateTemplateRow i (\<lambda>t. t\<lparr>t_isPublic := pub\<rparr>)) (\<lambda>_.
     auditRecord \<lparr>au_actorId = Some ownerId, au_actorAddress = given actor ''unknown'',
       au_action = ''SHIPMENT_TEMPLATE_VISIBILITY_CHANGED'', au_resourceType = ''ShipmentTemplate'',
       au_resourceId = ByUuid i, au_metadata = JObj [(''isPublic'', JBool pub)]\<rparr>)))"

definition deleteTemplate :: "env \<Rightarrow> uuid \<Rightarrow> uuid \<Rightarrow> unit act" where
  "deleteTemplate e i ownerId =
     andThen (findTemplate i) (\<lambda>t.
     require (t_ownerId t = ownerId) ForbiddenException (
     modifyDb (\<lambda>d. d\<lparr>templates := updateWhere (\<lambda>t. t_id t = i) (\<lambda>t. t\<lparr>t_deletedAt := Some (now e)\<rparr>) (templates d),
       recurringSchedules := updateWhere (\<lambda>r. rs_templateId r = i \<and> rs_active r) (\<lambda>r. r\<lparr>rs_active := False\<rparr>)
         (recurringSchedules d)\<rparr>)))"

section \<open>Recurring schedules\<close>

definition advance :: "time \<Rightarrow> recurringInterval \<Rightarrow> time" where
  "advance from interval = (case interval of
      WEEKLY \<Rightarrow> setUTCDate (getUTCDate from + 7) from
    | MONTHLY \<Rightarrow>
        let day = getUTCDate from;
            next = nextUTCMonth (setUTCDate 1 from)
        in setUTCDate (min day (lastDayOfMonth next)) next)"

record scheduleDto =
  sd_templateId :: uuid
  sd_interval :: recurringInterval
  sd_totalAmount :: string
  sd_startAt :: "time option"

definition assertUsableTemplate :: "uuid \<Rightarrow> uuid \<Rightarrow> shipmentTemplate act" where
  "assertUsableTemplate templateId ownerId =
     andThen (findTemplate templateId) (\<lambda>t.
     require (t_ownerId t = ownerId \<or> t_isPublic t) ForbiddenException (
     require (missingFields t = []) BadRequestException (
     ret t)))"

definition createSchedule :: "env \<Rightarrow> uuid \<Rightarrow> scheduleDto \<Rightarrow> recurringSchedule act" where
  "createSchedule e ownerId dto =
     andThen (assertUsableTemplate (sd_templateId dto) ownerId) (\<lambda>_.
     let start = (case sd_startAt dto of Some t \<Rightarrow> t | None \<Rightarrow> advance (now e) (sd_interval dto)) in
     require (\<not> start \<le> now e) BadRequestException (
     requireSome (parseBigInt (sd_totalAmount dto)) RuntimeError (\<lambda>amount.
     require (fitsBigint amount) RuntimeError (
     andThen freshId (\<lambda>i.
     let row = \<lparr>rs_id = i, rs_ownerId = ownerId, rs_templateId = sd_templateId dto, rs_interval = sd_interval dto,
           rs_totalAmount = amount, nextRunAt = start, lastRunAt = None, rs_active = True, rs_createdAt = now e\<rparr> in
     andThen (modifyDb (\<lambda>d. d\<lparr>recurringSchedules := recurringSchedules d @ [row]\<rparr>)) (\<lambda>_. ret row))))))"

definition findMySchedules :: "uuid \<Rightarrow> recurringSchedule list act" where
  "findMySchedules ownerId = reads (\<lambda>w. sort_key nextRunAt (filter (\<lambda>r. rs_ownerId r = ownerId) (recurringSchedules (db w))))"

definition findOwnedSchedule :: "uuid \<Rightarrow> uuid \<Rightarrow> recurringSchedule act" where
  "findOwnedSchedule i ownerId =
     andThen (reads (\<lambda>w. find (\<lambda>r. rs_id r = i) (recurringSchedules (db w)))) (\<lambda>found.
     requireSome found NotFoundException (\<lambda>r.
     require (rs_ownerId r = ownerId) NotFoundException (ret r)))"

record scheduleUpdate =
  su_interval :: "recurringInterval option"
  su_totalAmount :: "string option"
  su_active :: "bool option"
  su_nextRunAt :: "time option"

definition updateScheduleRow :: "uuid \<Rightarrow> (recurringSchedule \<Rightarrow> recurringSchedule) \<Rightarrow> unit act" where
  "updateScheduleRow i f =
     modifyDb (\<lambda>d. d\<lparr>recurringSchedules := updateWhere (\<lambda>r. rs_id r = i) f (recurringSchedules d)\<rparr>)"

definition updateSchedule :: "env \<Rightarrow> uuid \<Rightarrow> uuid \<Rightarrow> scheduleUpdate \<Rightarrow> unit act" where
  "updateSchedule e i ownerId dto =
     andThen (findOwnedSchedule i ownerId) (\<lambda>r.
     let amount = map_option parseBigInt (su_totalAmount dto) in
     require (amount \<noteq> Some None) RuntimeError (
     require (case su_nextRunAt dto of None \<Rightarrow> True | Some t \<Rightarrow> \<not> t \<le> now e) BadRequestException (
     require (case amount of Some (Some a) \<Rightarrow> fitsBigint a | _ \<Rightarrow> True) RuntimeError (
     updateScheduleRow i (\<lambda>r. r\<lparr>rs_interval := given (su_interval dto) (rs_interval r),
        rs_totalAmount := (case amount of Some (Some a) \<Rightarrow> a | _ \<Rightarrow> rs_totalAmount r),
        rs_active := given (su_active dto) (rs_active r), nextRunAt := given (su_nextRunAt dto) (nextRunAt r)\<rparr>)))))"

definition removeSchedule :: "uuid \<Rightarrow> uuid \<Rightarrow> unit act" where
  "removeSchedule i ownerId =
     andThen (findOwnedSchedule i ownerId) (\<lambda>r.
     modifyDb (\<lambda>d. d\<lparr>recurringSchedules := filter (\<lambda>r. rs_id r \<noteq> i) (recurringSchedules d)\<rparr>))"

section \<open>The calendar of the schedules\<close>

lemma advance_weekly: "advance t WEEKLY = t + 7 * 86400000"
proof -
  obtain y m d where c: "civilFromDays (dayNumber t) = (y, m, d)" by (cases "civilFromDays (dayNumber t)")
  have "daysFromCivil y m (d + 7) = dayNumber t + 7"
    using days_of_civil [OF c] by (simp add: daysFromCivil_def Let_def)
  then show ?thesis
    by (simp add: advance_def setUTCDate_in_month [OF c] getUTCDate_def c) (simp add: atDay_def dayNumber_def)
qed

lemma advance_monthly:
  assumes c: "civilFromDays (dayNumber t) = (y, m, d)" and n: "nextMonth y m = (y', m')"
  shows "advance t MONTHLY = atDay t (daysFromCivil y' m' (min d (monthLength y' m')))"
proof -
  have v: "validDate y m d" using days_of_civil [OF c] by simp
  have "validDate y m 1" "validDate y' m' 1"
    using v n monthLength_bounds [of y m] monthLength_bounds [of y' m']
    by (auto simp: validDate_def nextMonth_def split: if_splits)
  then have first: "civilFromDays (daysFromCivil y m 1) = (y, m, 1)" "civilFromDays (daysFromCivil y' m' 1) = (y', m', 1)"
    by (simp_all add: civil_of_days)
  have "nextUTCMonth (setUTCDate 1 t) = atDay t (daysFromCivil y' m' 1)"
    by (simp add: setUTCDate_in_month [OF c] nextUTCMonth_first [of _ y m] first n)
  then show ?thesis
    by (simp add: advance_def Let_def getUTCDate_def c lastDayOfMonth_length [of _ y' m' 1] setUTCDate_in_month [of _ y' m' 1] first)
qed

lemma advance_month_days:
  assumes c: "civilFromDays (dayNumber t) = (y, m, d)" and n: "nextMonth y m = (y', m')"
  shows "dayNumber (advance t MONTHLY) = dayNumber t + monthLength y m + min d (monthLength y' m') - d"
proof -
  have v: "1 \<le> m" "m \<le> 12" "daysFromCivil y m d = dayNumber t" using days_of_civil [OF c] by (auto simp: validDate_def)
  have "daysFromCivil y' m' 1 = daysFromCivil y m 1 + monthLength y m"
    using next_month_start [OF v(1,2), of y] makeDay_nextMonth [OF v(1,2), of y 1] n by simp
  then show ?thesis using v by (simp add: advance_monthly [OF c n] daysFromCivil_def Let_def)
qed

lemma advance_bounds: "t + 7 * 86400000 \<le> advance t i \<and> advance t i \<le> t + 31 * 86400000"
proof (cases i)
  case WEEKLY
  then show ?thesis by (simp add: advance_weekly)
next
  case MONTHLY
  obtain y m d where c: "civilFromDays (dayNumber t) = (y, m, d)" by (cases "civilFromDays (dayNumber t)")
  obtain y' m' where n: "nextMonth y m = (y', m')" by (cases "nextMonth y m")
  have "d \<le> monthLength y m" using days_of_civil [OF c] by (simp add: validDate_def)
  then have "dayNumber t + 28 \<le> dayNumber (advance t MONTHLY) \<and> dayNumber (advance t MONTHLY) \<le> dayNumber t + 31"
    using advance_month_days [OF c n] monthLength_bounds [of y m] monthLength_bounds [of y' m'] by (simp add: min_def)
  moreover have "advance t MONTHLY mod 86400000 = t mod 86400000"
    by (simp add: advance_monthly [OF c n] atDay_def)
  ultimately show ?thesis
    using mult_div_mod_eq [of 86400000 t] mult_div_mod_eq [of 86400000 "advance t MONTHLY"]
    unfolding MONTHLY dayNumber_def by linarith
qed

corollary advance_later: "t < advance t i"
  using advance_bounds [of t i] by linarith

section \<open>The job\<close>

text \<open>\<open>while (nextRunAt <= now) nextRunAt = advance(nextRunAt, interval)\<close>.\<close>

function catchUp :: "recurringInterval \<Rightarrow> time \<Rightarrow> time \<Rightarrow> time" where
  "catchUp i t next = (if next \<le> t then catchUp i t (advance next i) else next)"
  by auto
termination
proof (relation "measure (\<lambda>(i, t, next). nat (t - next + 1))", goal_cases)
  case (2 i t "next")
  then show ?case using advance_later [of "next" i] by simp
qed simp

declare catchUp.simps [simp del]

lemma catchUp_ge: "next \<le> catchUp i t next"
proof (induction i t "next" rule: catchUp.induct)
  case (1 i t "next")
  then show ?case using advance_later [of "next" i] by (subst catchUp.simps) auto
qed

lemma catchUp_future: "t < catchUp i t next"
proof (induction i t "next" rule: catchUp.induct)
  case (1 i t "next")
  then show ?case by (subst catchUp.simps) auto
qed

definition BATCH_SIZE_RECURRING :: nat where
  "BATCH_SIZE_RECURRING = 50"

text \<open>A due row with the relations the query includes.\<close>

record dueSchedule =
  due_row :: recurringSchedule
  due_template :: shipmentTemplate
  due_owner :: address

definition dueSchedules :: "env \<Rightarrow> world \<Rightarrow> dueSchedule list" where
  "dueSchedules e w = List.map_filter (\<lambda>r.
     case (find (\<lambda>t. t_id t = rs_templateId r) (templates (db w)), find (\<lambda>u. u_id u = rs_ownerId r) (users (db w))) of
       (Some t, Some u) \<Rightarrow> Some \<lparr>due_row = r, due_template = t, due_owner = stellarAddress u\<rparr>
     | _ \<Rightarrow> None)
     (take BATCH_SIZE_RECURRING (sort_key nextRunAt
       (filter (\<lambda>r. rs_active r \<and> nextRunAt r \<le> now e) (recurringSchedules (db w)))))"

text \<open>The draft: required columns that the template lacks are rejected by the client.\<close>

definition draftRow :: "env \<Rightarrow> string \<Rightarrow> dueSchedule \<Rightarrow> shipment" where
  "draftRow e sid ds =
     (let t = due_template ds; r = due_row ds; tk = getToken (tokenRegistry e) (given (t_tokenAddress t) [])
      in \<lparr>s_id = sid, buyerAddress = due_owner ds, supplierAddress = the (t_supplierAddress t),
          logisticsAddress = the (t_logisticsAddress t), arbiterAddress = the (t_arbiterAddress t),
          tokenAddress = the (t_tokenAddress t), totalAmount = rs_totalAmount r, releasedAmount = 0, s_status = ACTIVE,
          arbiterStatus = PENDING_ACCEPTANCE, s_txHash = None, tokenDecimals = tk_decimals tk, tokenSymbol = tk_symbol tk,
          description = t_description t, referenceNumber = None,
          s_metadata = Some (JObj [(''recurringScheduleId'', JNum (int (rs_id r))), (''templateId'', JNum (int (t_id t)))]),
          tags = [], expectedDeliveryAt = None, cancelledAt = None, refundTxHash = None, archivedAt = None,
          requiredApprovals = None, isDraft = True, s_createdAt = now e, s_updatedAt = now e\<rparr>)"

definition completeTemplate :: "shipmentTemplate \<Rightarrow> bool" where
  "completeTemplate t \<longleftrightarrow> t_supplierAddress t \<noteq> None \<and> t_logisticsAddress t \<noteq> None \<and> t_arbiterAddress t \<noteq> None \<and>
     t_tokenAddress t \<noteq> None"

text \<open>The condition of the claim, and the transaction that claims the run and creates the draft.\<close>

definition claimable :: "recurringSchedule \<Rightarrow> recurringSchedule \<Rightarrow> bool" where
  "claimable snap r \<longleftrightarrow> rs_id r = rs_id snap \<and> rs_active r \<and> nextRunAt r = nextRunAt snap"

definition claimRun :: "env \<Rightarrow> string \<Rightarrow> dueSchedule \<Rightarrow> time \<Rightarrow> bool act" where
  "claimRun e sid ds next = transaction (
     andThen (reads (\<lambda>w. list_ex (claimable (due_row ds)) (recurringSchedules (db w)))) (\<lambda>hit.
     andThen (modifyDb (\<lambda>d. d\<lparr>recurringSchedules := updateWhere (claimable (due_row ds))
        (\<lambda>r. r\<lparr>nextRunAt := next, lastRunAt := Some (now e)\<rparr>) (recurringSchedules d)\<rparr>)) (\<lambda>_.
     if \<not> hit then ret False
     else require (completeTemplate (due_template ds)) RuntimeError (
          andThen (insertShipment e (draftRow e sid ds) []) (\<lambda>_. ret True)))))"

definition runOne :: "env \<Rightarrow> string \<Rightarrow> dueSchedule \<Rightarrow> bool act" where
  "runOne e sid ds =
     (if t_deletedAt (due_template ds) \<noteq> None
      then andThen (reads (\<lambda>w. find (\<lambda>r. rs_id r = rs_id (due_row ds)) (recurringSchedules (db w)))) (\<lambda>found.
           requireSome found PrismaP2025 (\<lambda>_.
           andThen (updateScheduleRow (rs_id (due_row ds)) (\<lambda>r. r\<lparr>rs_active := False\<rparr>)) (\<lambda>_. ret False)))
      else let interval = rs_interval (due_row ds);
               next = catchUp interval (now e) (advance (nextRunAt (due_row ds)) interval) in
           andThen (claimRun e sid ds next) (\<lambda>claimed.
           if \<not> claimed then ret False
           else andThen (ignore (notifyUser e (due_owner ds) N_SYSTEM_ALERT ''Recurring draft shipment ready''
                  (JObj [(''shipmentId'', JStr sid), (''recurringScheduleId'', JNum (int (rs_id (due_row ds)))),
                     (''link'', JStr (''/shipments/'' @ sid))]))) (\<lambda>_.
                ret True)))"

text \<open>
  The whole run; \<open>ids\<close> gives the fresh \<open>randomUUID()\<close> of the \<open>k\<close>-th row. An error of one row is logged and the
  loop goes on.
\<close>

definition recurringLock :: string where
  "recurringLock = ''chainsettle:recurring-schedules:lock''"

definition runRecurring :: "env \<Rightarrow> (nat \<Rightarrow> string) \<Rightarrow> nat act" where
  "runRecurring e ids = runTrackedJob e False ''recurring-schedule'' (
     lockedCount e recurringLock (randomUuid e) (4 * 60 * 1000) (
       andThen (reads (dueSchedules e)) (\<lambda>due.
       countEach (enumerate 0 due) (\<lambda>(k, ds). attempt (runOne e (ids k) ds) (\<lambda>_. ret False)))))"

section \<open>A due instant yields one draft\<close>

text \<open>
  The life of the schedules under concurrent replicas: requests of the owners, deletions of templates, and steps of
  jobs that may have read their row long before. The list collects the runs that were claimed, as pairs of schedule and
  due instant.
\<close>

datatype scheduleStep =
    CreateSchedule uuid scheduleDto
  | UpdateSchedule uuid uuid scheduleUpdate
  | RemoveSchedule uuid uuid
  | EditTemplate uuid uuid templateUpdate
  | DeleteTemplate uuid uuid
  | RunOne string dueSchedule

fun stepAllowed :: "env \<Rightarrow> scheduleStep \<Rightarrow> bool" where
  "stepAllowed e (RunOne sid ds) \<longleftrightarrow> nextRunAt (due_row ds) \<le> now e"
| "stepAllowed e _ \<longleftrightarrow> True"

fun stepSchedules :: "env \<Rightarrow> scheduleStep \<Rightarrow> world \<times> (uuid \<times> time) list \<Rightarrow> world \<times> (uuid \<times> time) list" where
  "stepSchedules e (CreateSchedule o' dto) (w, cs) = (snd (createSchedule e o' dto w), cs)"
| "stepSchedules e (UpdateSchedule i o' dto) (w, cs) = (snd (updateSchedule e i o' dto w), cs)"
| "stepSchedules e (RemoveSchedule i o') (w, cs) = (snd (removeSchedule i o' w), cs)"
| "stepSchedules e (EditTemplate i o' dto) (w, cs) = (snd (updateTemplate i o' dto w), cs)"
| "stepSchedules e (DeleteTemplate i o') (w, cs) = (snd (deleteTemplate e i o' w), cs)"
| "stepSchedules e (RunOne sid ds) (w, cs) = (case runOne e sid ds w of
      (Inr True, w') \<Rightarrow> (w', (rs_id (due_row ds), nextRunAt (due_row ds)) # cs)
    | (_, w') \<Rightarrow> (w', cs))"

inductive scheduleRun :: "world \<Rightarrow> time \<Rightarrow> world \<times> (uuid \<times> time) list \<Rightarrow> bool" for w0 where
  start: "scheduleRun w0 t (w0, [])"
| step: "scheduleRun w0 t s \<Longrightarrow> t \<le> now e \<Longrightarrow> stepAllowed e a \<Longrightarrow> scheduleRun w0 (now e) (stepSchedules e a s)"

definition schedulesOk :: "db \<Rightarrow> bool" where
  "schedulesOk d \<longleftrightarrow> distinct (map rs_id (recurringSchedules d)) \<and> (\<forall>r \<in> set (recurringSchedules d). rs_id r < nextId d)"

text \<open>Drafts created for a schedule.\<close>

definition draftsOf :: "uuid \<Rightarrow> db \<Rightarrow> shipment list" where
  "draftsOf i d = filter (\<lambda>s. isDraft s \<and> Option.bind (s_metadata s) (jsonGet ''recurringScheduleId'') = Some (JNum (int i)))
     (shipments d)"

definition claimsInv :: "world \<Rightarrow> time \<Rightarrow> world \<times> (uuid \<times> time) list \<Rightarrow> bool" where
  "claimsInv w0 t s \<longleftrightarrow> (case s of (w, cs) \<Rightarrow>
     schedulesOk (db w) \<and> distinct cs \<and> (\<forall>(i, due) \<in> set cs. due \<le> t \<and> i < nextId (db w)) \<and>
     (\<forall>(i, due) \<in> set cs. \<forall>r \<in> set (recurringSchedules (db w)). rs_id r = i \<longrightarrow> due < nextRunAt r) \<and>
     (\<forall>i. length (draftsOf i (db w)) = length (draftsOf i (db w0)) + length (filter (\<lambda>c. fst c = i) cs)))"

lemma claims_frame:
  assumes inv: "claimsInv w0 t (w, cs)" and t: "t \<le> t'" and ok: "schedulesOk (db w')"
    and ids: "nextId (db w) \<le> nextId (db w')" and ss: "shipments (db w') = shipments (db w)"
    and rows: "\<forall>r' \<in> set (recurringSchedules (db w')). t' < nextRunAt r' \<or> nextId (db w) \<le> rs_id r' \<or>
      (\<exists>r \<in> set (recurringSchedules (db w)). rs_id r = rs_id r' \<and> nextRunAt r \<le> nextRunAt r')"
  shows "claimsInv w0 t' (w', cs)"
proof -
  have "due \<le> t' \<and> i < nextId (db w')" if "(i, due) \<in> set cs" for i due
    using inv that t ids by (force simp: claimsInv_def)
  moreover have "due < nextRunAt r'" if c: "(i, due) \<in> set cs" and r': "r' \<in> set (recurringSchedules (db w'))" "rs_id r' = i" for i due r'
  proof -
    have old: "due \<le> t" "i < nextId (db w)" "\<forall>r \<in> set (recurringSchedules (db w)). rs_id r = i \<longrightarrow> due < nextRunAt r"
      using inv c by (auto simp: claimsInv_def)
    show ?thesis using rows r' old t by force
  qed
  ultimately show ?thesis using inv ok ss by (auto simp: claimsInv_def draftsOf_def)
qed

lemma runOne_cases:
  assumes "runOne e sid ds w = (res, w')"
  obtains (claimed) "res = Inr True" "\<exists>r \<in> set (recurringSchedules (db w)). claimable (due_row ds) r"
      "db w' = (db w)\<lparr>recurringSchedules := updateWhere (claimable (due_row ds)) (\<lambda>r. r\<lparr>nextRunAt :=
          catchUp (rs_interval (due_row ds)) (now e) (advance (nextRunAt (due_row ds)) (rs_interval (due_row ds))),
          lastRunAt := Some (now e)\<rparr>) (recurringSchedules (db w)), shipments := shipments (db w) @ [draftRow e sid ds]\<rparr>"
    | (stopped) "res \<noteq> Inr True" "db w' = (db w)\<lparr>recurringSchedules := updateWhere (\<lambda>r. rs_id r = rs_id (due_row ds))
          (\<lambda>r. r\<lparr>rs_active := False\<rparr>) (recurringSchedules (db w))\<rparr>"
    | (unchanged) "res \<noteq> Inr True" "db w' = db w"
proof (cases "t_deletedAt (due_template ds)")
  case (Some x)
  show ?thesis
  proof (cases "find (\<lambda>r. rs_id r = rs_id (due_row ds)) (recurringSchedules (db w))")
    case None
    then show ?thesis using assms Some by (intro unchanged) (auto simp: runOne_def)
  next
    case (Some r)
    then show ?thesis using assms \<open>t_deletedAt (due_template ds) = Some x\<close>
      by (intro stopped) (auto simp: runOne_def updateScheduleRow_def)
  qed
next
  case None
  let ?next = "catchUp (rs_interval (due_row ds)) (now e) (advance (nextRunAt (due_row ds)) (rs_interval (due_row ds)))"
  obtain r1 w1 where c: "claimRun e sid ds ?next w = (r1, w1)" by (cases "claimRun e sid ds ?next w")
  show ?thesis
  proof (cases "r1 = Inr True")
    case True
    have hit: "list_ex (claimable (due_row ds)) (recurringSchedules (db w))"
      using c True by (auto simp: claimRun_def transaction_success_iff success_iffs split: if_splits)
    have eff: "db w1 = (db w)\<lparr>recurringSchedules := updateWhere (claimable (due_row ds)) (\<lambda>r. r\<lparr>nextRunAt := ?next,
          lastRunAt := Some (now e)\<rparr>) (recurringSchedules (db w)), shipments := shipments (db w) @ [draftRow e sid ds]\<rparr>"
      using c True by (auto simp: claimRun_def transaction_success_iff success_iffs insertShipment_def split: if_splits)
    have "res = Inr True \<and> db w' = db w1"
      using assms None c True run_notifyUser
      by (auto simp: runOne_def Let_def ignore_def andThen_def split: prod.splits sum.splits)
    with hit eff show ?thesis using claimed by (auto simp: list_ex_iff)
  next
    case False
    have "db w1 = db w"
    proof (cases r1)
      case (Inl x)
      then show ?thesis using c atomic_transaction by (auto simp: claimRun_def transaction_def split: prod.splits sum.splits)
    next
      case (Inr b)
      then have "r1 = Inr False" using False by (cases b) auto
      then show ?thesis using c
        by (auto simp: claimRun_def transaction_success_iff success_iffs list_ex_iff updateWhere_none split: if_splits)
    qed
    moreover have "res \<noteq> Inr True \<and> w' = w1"
      using assms None c False by (auto simp: runOne_def Let_def andThen_def split: sum.splits)
    ultimately show ?thesis using unchanged by simp
  qed
qed

lemma schedules_createSchedule:
  "\<exists>rs. recurringSchedules (db (snd (createSchedule e o' dto w))) = recurringSchedules (db w) @ rs \<and>
     shipments (db (snd (createSchedule e o' dto w))) = shipments (db w) \<and>
     nextId (db (snd (createSchedule e o' dto w))) = nextId (db w) + length rs \<and>
     (rs = [] \<or> (\<exists>r. rs = [r] \<and> rs_id r = nextId (db w)))"
  by (auto simp: createSchedule_def assertUsableTemplate_def findTemplate_def Let_def andThen_def require_def
      requireSome_def throw_def ret_def split: option.splits if_splits prod.splits sum.splits)

lemma schedules_updateSchedule:
  assumes "updateSchedule e i o' dto w = (res, w')"
  obtains (refused) "db w' = db w"
    | (updated) f where "db w' = (db w)\<lparr>recurringSchedules := updateWhere (\<lambda>r. rs_id r = i) f (recurringSchedules (db w))\<rparr>"
        "\<forall>r. rs_id (f r) = rs_id r \<and> (nextRunAt (f r) = nextRunAt r \<or> now e < nextRunAt (f r))"
proof (cases res)
  case (Inl x)
  then show ?thesis using assms
    by (intro refused) (auto simp: updateSchedule_def findOwnedSchedule_def updateScheduleRow_def Let_def andThen_def require_def
        requireSome_def throw_def ret_def split: option.splits if_splits)
next
  case (Inr u)
  then have eff: "db w' = (db w)\<lparr>recurringSchedules := updateWhere (\<lambda>r. rs_id r = i)
      (\<lambda>r. r\<lparr>rs_interval := given (su_interval dto) (rs_interval r),
        rs_totalAmount := (case map_option parseBigInt (su_totalAmount dto) of Some (Some a) \<Rightarrow> a | _ \<Rightarrow> rs_totalAmount r),
        rs_active := given (su_active dto) (rs_active r), nextRunAt := given (su_nextRunAt dto) (nextRunAt r)\<rparr>)
      (recurringSchedules (db w))\<rparr>" and later: "case su_nextRunAt dto of None \<Rightarrow> True | Some t \<Rightarrow> \<not> t \<le> now e"
    using assms by (auto simp: updateSchedule_def findOwnedSchedule_def updateScheduleRow_def Let_def success_iffs)
  show ?thesis by (rule updated [OF eff]) (use later in \<open>simp split: option.splits\<close>)
qed

lemma schedules_removeSchedule:
  "\<exists>p. db (snd (removeSchedule i o' w)) = (db w)\<lparr>recurringSchedules := filter p (recurringSchedules (db w))\<rparr>"
proof (cases "\<exists>r. find (\<lambda>r. rs_id r = i) (recurringSchedules (db w)) = Some r \<and> rs_ownerId r = o'")
  case True
  then have "db (snd (removeSchedule i o' w)) = (db w)\<lparr>recurringSchedules := filter (\<lambda>r. rs_id r \<noteq> i) (recurringSchedules (db w))\<rparr>"
    by (auto simp: removeSchedule_def findOwnedSchedule_def andThen_def)
  then show ?thesis by (intro exI [of _ "\<lambda>r. rs_id r \<noteq> i"])
next
  case False
  then have "db (snd (removeSchedule i o' w)) = (db w)\<lparr>recurringSchedules := filter (\<lambda>_. True) (recurringSchedules (db w))\<rparr>"
    by (cases "find (\<lambda>r. rs_id r = i) (recurringSchedules (db w))") (auto simp: removeSchedule_def findOwnedSchedule_def andThen_def)
  then show ?thesis by (intro exI [of _ "\<lambda>_. True"])
qed

lemma templates_leave_schedules:
  "db (snd (updateTemplate i o' dto w)) = (db w)\<lparr>templates := templates (db (snd (updateTemplate i o' dto w)))\<rparr>"
  by (auto simp: updateTemplate_def findTemplate_def updateTemplateRow_def andThen_def requireSome_def require_def liftResult_def
      split: option.splits if_splits sum.splits)

lemma deleteTemplate_schedules:
  "\<exists>p ts. db (snd (deleteTemplate e i o' w)) = (db w)\<lparr>templates := ts,
     recurringSchedules := updateWhere p (\<lambda>r. r\<lparr>rs_active := False\<rparr>) (recurringSchedules (db w))\<rparr>"
proof -
  have "db (snd (deleteTemplate e i o' w)) = (db w)\<lparr>templates := templates (db w),
     recurringSchedules := updateWhere (\<lambda>_. False) (\<lambda>r. r\<lparr>rs_active := False\<rparr>) (recurringSchedules (db w))\<rparr> \<or>
    (\<exists>t. db (snd (deleteTemplate e i o' w)) = db (snd (modifyDb t w)) \<and> t = (\<lambda>d. d\<lparr>templates :=
      updateWhere (\<lambda>t. t_id t = i) (\<lambda>t. t\<lparr>t_deletedAt := Some (now e)\<rparr>) (templates d),
       recurringSchedules := updateWhere (\<lambda>r. rs_templateId r = i \<and> rs_active r) (\<lambda>r. r\<lparr>rs_active := False\<rparr>)
         (recurringSchedules d)\<rparr>))"
    by (auto simp: deleteTemplate_def findTemplate_def andThen_def requireSome_def require_def updateWhere_none split: option.splits)
  then show ?thesis by fastforce
qed

lemma schedulesOk_update:
  "schedulesOk d \<Longrightarrow> (\<And>r. rs_id (f r) = rs_id r) \<Longrightarrow> recurringSchedules d' = updateWhere p f (recurringSchedules d) \<Longrightarrow>
   nextId d' = nextId d \<Longrightarrow> schedulesOk d'"
  by (simp add: schedulesOk_def map_updateWhere ball_updateWhere)

lemma distinct_rows: "schedulesOk d \<Longrightarrow> r \<in> set (recurringSchedules d) \<Longrightarrow> r' \<in> set (recurringSchedules d) \<Longrightarrow>
    rs_id r = rs_id r' \<Longrightarrow> r = r'"
  by (auto simp: schedulesOk_def distinct_map dest: inj_onD)

text \<open>A step that updates rows without moving a run back keeps the invariant.\<close>

lemma claims_update:
  assumes inv: "claimsInv w0 t (w, cs)" and t: "t \<le> t'"
    and w': "recurringSchedules (db w') = updateWhere p f (recurringSchedules (db w))" "shipments (db w') = shipments (db w)"
      "nextId (db w') = nextId (db w)"
    and f: "\<And>r. rs_id (f r) = rs_id r \<and> (nextRunAt r \<le> nextRunAt (f r) \<or> t' < nextRunAt (f r))"
  shows "claimsInv w0 t' (w', cs)"
proof (rule claims_frame [OF inv t])
  show "schedulesOk (db w')"
  proof (rule schedulesOk_update [of "db w" f, OF _ _ w'(1) w'(3)])
    show "schedulesOk (db w)" using inv by (simp add: claimsInv_def)
  qed (use f in blast)
  show "\<forall>r' \<in> set (recurringSchedules (db w')). t' < nextRunAt r' \<or> nextId (db w) \<le> rs_id r' \<or>
      (\<exists>r \<in> set (recurringSchedules (db w)). rs_id r = rs_id r' \<and> nextRunAt r \<le> nextRunAt r')"
  proof
    fix r' assume "r' \<in> set (recurringSchedules (db w'))"
    then obtain r where r: "r \<in> set (recurringSchedules (db w))" "r' = (if p r then f r else r)"
      by (auto simp: w' updateWhere_def)
    then show "t' < nextRunAt r' \<or> nextId (db w) \<le> rs_id r' \<or>
      (\<exists>r \<in> set (recurringSchedules (db w)). rs_id r = rs_id r' \<and> nextRunAt r \<le> nextRunAt r')"
      using f [of r] by (cases "p r") auto
  qed
qed (simp_all add: w')

lemma claims_claimed:
  assumes inv: "claimsInv w0 t (w, cs)" and t: "t \<le> now e" and due: "nextRunAt (due_row ds) \<le> now e"
    and hit: "\<exists>r \<in> set (recurringSchedules (db w)). claimable (due_row ds) r"
    and w': "db w' = (db w)\<lparr>recurringSchedules := updateWhere (claimable (due_row ds)) (\<lambda>r. r\<lparr>nextRunAt :=
          catchUp (rs_interval (due_row ds)) (now e) (advance (nextRunAt (due_row ds)) (rs_interval (due_row ds))),
          lastRunAt := Some (now e)\<rparr>) (recurringSchedules (db w)), shipments := shipments (db w) @ [draftRow e sid ds]\<rparr>"
  shows "claimsInv w0 (now e) (w', (rs_id (due_row ds), nextRunAt (due_row ds)) # cs)"
proof -
  let ?i = "rs_id (due_row ds)" and ?t = "nextRunAt (due_row ds)"
  obtain r0 where r0: "r0 \<in> set (recurringSchedules (db w))" "rs_id r0 = ?i" "nextRunAt r0 = ?t" "rs_active r0"
    using hit by (auto simp: claimable_def)
  have ok: "schedulesOk (db w)" using inv by (simp add: claimsInv_def)
  have fresh: "(?i, ?t) \<notin> set cs" using inv r0 by (force simp: claimsInv_def)
  let ?w = "w'\<lparr>db := (db w')\<lparr>shipments := shipments (db w)\<rparr>\<rparr>"
  have "claimsInv w0 (now e) (?w, cs)"
    by (rule claims_update [OF inv t, where p = "claimable (due_row ds)" and f = "\<lambda>r. r\<lparr>nextRunAt :=
          catchUp (rs_interval (due_row ds)) (now e) (advance (nextRunAt (due_row ds)) (rs_interval (due_row ds))),
          lastRunAt := Some (now e)\<rparr>"]) (simp_all add: w' catchUp_future)
  moreover have "nextRunAt r' > ?t" if "r' \<in> set (recurringSchedules (db w'))" "rs_id r' = ?i" for r'
  proof -
    from that obtain r where r: "r \<in> set (recurringSchedules (db w))" "r' = (if claimable (due_row ds) r then
        r\<lparr>nextRunAt := catchUp (rs_interval (due_row ds)) (now e) (advance ?t (rs_interval (due_row ds))), lastRunAt := Some (now e)\<rparr> else r)"
      by (auto simp: w' updateWhere_def)
    then have "rs_id r = ?i" using that by (auto split: if_splits)
    then have "r = r0" using distinct_rows [OF ok r(1) r0(1)] r0 by simp
    then have "claimable (due_row ds) r" using r0 by (simp add: claimable_def)
    then have "now e < nextRunAt r'" using r(2) by (simp add: catchUp_future)
    then show ?thesis using due by simp
  qed
  moreover have "draftsOf k (db w') = draftsOf k (db ?w) @ (if k = ?i then [draftRow e sid ds] else [])" for k
    by (simp add: draftsOf_def w' draftRow_def jsonGet_def Let_def)
  moreover have "?i < nextId (db w')" using ok r0 by (auto simp: schedulesOk_def w')
  ultimately show ?thesis using fresh due
    by (auto simp: claimsInv_def schedulesOk_def)
qed

lemma claims_step:
  assumes inv: "claimsInv w0 t (w, cs)" and t: "t \<le> now e" and a: "stepAllowed e a"
  shows "claimsInv w0 (now e) (stepSchedules e a (w, cs))"
proof (cases a)
  case (CreateSchedule o' dto)
  let ?w = "snd (createSchedule e o' dto w)"
  obtain rs where rs: "recurringSchedules (db ?w) = recurringSchedules (db w) @ rs" "shipments (db ?w) = shipments (db w)"
      "nextId (db ?w) = nextId (db w) + length rs" "rs = [] \<or> (\<exists>r. rs = [r] \<and> rs_id r = nextId (db w))"
    using schedules_createSchedule [of e o' dto w] by blast
  have "claimsInv w0 (now e) (?w, cs)"
  proof (rule claims_frame [OF inv t])
    show "schedulesOk (db ?w)" using inv rs by (force simp: claimsInv_def schedulesOk_def)
  qed (use rs in auto)
  then show ?thesis by (simp add: CreateSchedule)
next
  case (UpdateSchedule i o' dto)
  obtain res w' where u: "updateSchedule e i o' dto w = (res, w')" by (cases "updateSchedule e i o' dto w")
  from u have "claimsInv w0 (now e) (w', cs)"
  proof (cases rule: schedules_updateSchedule)
    case refused
    then show ?thesis
      by (intro claims_update [OF inv t, where p = "\<lambda>_. False" and f = id]) (auto simp: updateWhere_none)
  next
    case (updated f)
    then have "rs_id (f r) = rs_id r \<and> (nextRunAt r \<le> nextRunAt (f r) \<or> now e < nextRunAt (f r))" for r by (metis order_refl)
    with updated(1) show ?thesis by (intro claims_update [OF inv t, where f = f]) simp_all
  qed
  then show ?thesis by (simp add: UpdateSchedule u)
next
  case (RemoveSchedule i o')
  obtain p where p: "db (snd (removeSchedule i o' w)) = (db w)\<lparr>recurringSchedules := filter p (recurringSchedules (db w))\<rparr>"
    using schedules_removeSchedule by blast
  have "claimsInv w0 (now e) (snd (removeSchedule i o' w), cs)"
    by (rule claims_frame [OF inv t]) (use inv in \<open>auto simp: p claimsInv_def schedulesOk_def distinct_map_filter\<close>)
  then show ?thesis by (simp add: RemoveSchedule)
next
  case (EditTemplate i o' dto)
  have "recurringSchedules (db (snd (updateTemplate i o' dto w))) = recurringSchedules (db w)"
      "shipments (db (snd (updateTemplate i o' dto w))) = shipments (db w)" "nextId (db (snd (updateTemplate i o' dto w))) = nextId (db w)"
    by (subst templates_leave_schedules, simp)+
  then have "claimsInv w0 (now e) (snd (updateTemplate i o' dto w), cs)"
    by (intro claims_update [OF inv t, where p = "\<lambda>_. False" and f = id]) (simp_all add: updateWhere_none)
  then show ?thesis by (simp add: EditTemplate)
next
  case (DeleteTemplate i o')
  obtain p ts where "db (snd (deleteTemplate e i o' w)) = (db w)\<lparr>templates := ts,
     recurringSchedules := updateWhere p (\<lambda>r. r\<lparr>rs_active := False\<rparr>) (recurringSchedules (db w))\<rparr>"
    using deleteTemplate_schedules by blast
  then have "claimsInv w0 (now e) (snd (deleteTemplate e i o' w), cs)"
    by (intro claims_update [OF inv t, where p = p and f = "\<lambda>r. r\<lparr>rs_active := False\<rparr>"]) auto
  then show ?thesis by (simp add: DeleteTemplate)
next
  case (RunOne sid ds)
  obtain res w' where u: "runOne e sid ds w = (res, w')" by (cases "runOne e sid ds w")
  from u show ?thesis
  proof (cases rule: runOne_cases)
    case claimed
    then show ?thesis using claims_claimed [OF inv t _ claimed(2,3)] a by (simp add: RunOne u)
  next
    case stopped
    then have "claimsInv w0 (now e) (w', cs)"
      by (intro claims_update [OF inv t, where f = "\<lambda>r. r\<lparr>rs_active := False\<rparr>"]) auto
    with stopped(1) show ?thesis by (auto simp: RunOne u split: sum.splits bool.splits)
  next
    case unchanged
    then have "claimsInv w0 (now e) (w', cs)"
      by (intro claims_update [OF inv t, where p = "\<lambda>_. False" and f = id]) (auto simp: updateWhere_none)
    with unchanged(1) show ?thesis by (auto simp: RunOne u split: sum.splits bool.splits)
  qed
qed

lemma scheduleRun_inv: "scheduleRun w0 t s \<Longrightarrow> schedulesOk (db w0) \<Longrightarrow> claimsInv w0 t s"
proof (induction rule: scheduleRun.induct)
  case (start t)
  then show ?case by (simp add: claimsInv_def)
next
  case (step t s e a)
  then show ?case by (cases s) (auto intro: claims_step)
qed

lemma card_of_distinct_pairs: "distinct cs \<Longrightarrow> card {y. (x, y) \<in> set cs} = length (filter (\<lambda>c. fst c = x) cs)"
proof -
  assume d: "distinct cs"
  have "{y. (x, y) \<in> set cs} = snd ` set (filter (\<lambda>c. fst c = x) cs)" by force
  also have "card \<dots> = card (set (filter (\<lambda>c. fst c = x) cs))"
    by (rule card_image) (auto simp: inj_on_def)
  also have "\<dots> = length (filter (\<lambda>c. fst c = x) cs)" by (rule distinct_card) (simp add: d)
  finally show ?thesis .
qed

text \<open>C19: one draft per due instant. However many replicas run the job, however stale the rows they act on, and whatever
  the owners do to schedules and templates in between, no due instant of a schedule is claimed twice, and the drafts that
  exist for a schedule are one for each of its claimed due instants.\<close>

theorem one_draft_per_due_instant:
  assumes run: "scheduleRun w0 t (w, cs)" and ok: "schedulesOk (db w0)"
  shows "distinct cs \<and> (\<forall>i. length (draftsOf i (db w)) = length (draftsOf i (db w0)) + card {due. (i, due) \<in> set cs})"
  using scheduleRun_inv [OF run ok] card_of_distinct_pairs [of cs] by (simp add: claimsInv_def)

definition template0 :: shipmentTemplate where
  "template0 = \<lparr>t_id = 7, t_ownerId = 1, t_name = ''T'', t_description = None, t_supplierAddress = Some ''GS'',
     t_logisticsAddress = Some ''GL'', t_arbiterAddress = Some ''GA'', t_tokenAddress = Some ''CT'', t_milestones = Some [],
     t_isPublic = False, t_deletedAt = None, t_createdAt = 0\<rparr>"

definition schedule0 :: recurringSchedule where
  "schedule0 = \<lparr>rs_id = 9, rs_ownerId = 1, rs_templateId = 7, rs_interval = WEEKLY, rs_totalAmount = 500, nextRunAt = 900,
     lastRunAt = None, rs_active = True, rs_createdAt = 0\<rparr>"

definition scheduleWorld :: world where
  "scheduleWorld = emptyWorld\<lparr>db := emptyDb\<lparr>users := [user0 1 ''GB'', user0 2 ''GS'', user0 3 ''GL'', user0 4 ''GA''],
     templates := [template0], recurringSchedules := [schedule0]\<rparr>\<rparr>"

definition due0 :: dueSchedule where
  "due0 = \<lparr>due_row = schedule0, due_template = template0, due_owner = ''GB''\<rparr>"

text \<open>Two replicas act on the same row that both had read: the first creates the draft, the second nothing.\<close>

lemma catchUp_schedule0: "catchUp WEEKLY 1000 (advance 900 WEEKLY) = 604800900"
  by (subst catchUp.simps) (simp add: advance_weekly)

lemma two_replicas:
  "snd (stepSchedules env0 (RunOne ''d2'' due0) (stepSchedules env0 (RunOne ''d1'' due0) (scheduleWorld, []))) = [(9, 900)]"
  by (simp add: runOne_def claimRun_def transaction_def due0_def schedule0_def template0_def scheduleWorld_def concrete_defs
      claimable_def completeTemplate_def insertShipment_def draftRow_def Let_def catchUp_schedule0 fitsBigint_def participants_def
      findUser_def findShipment_def updateWhere_def andThen_def ignore_def)

theorem one_draft_per_due_instant_witness:
  "let s = stepSchedules env0 (RunOne ''d2'' due0) (stepSchedules env0 (RunOne ''d1'' due0) (scheduleWorld, [])) in
     snd s = [(9, 900)] \<and> length (draftsOf 9 (db (fst s))) = 1"
proof -
  obtain w1 cs1 where s1: "stepSchedules env0 (RunOne ''d1'' due0) (scheduleWorld, []) = (w1, cs1)" by fastforce
  obtain w cs where s2: "stepSchedules env0 (RunOne ''d2'' due0) (w1, cs1) = (w, cs)" by fastforce
  have t: "stepAllowed env0 (RunOne sid due0)" "0 \<le> now env0" for sid by (simp_all add: env0_def due0_def schedule0_def)
  have "scheduleRun scheduleWorld (now env0) (w1, cs1)"
    using scheduleRun.step [OF scheduleRun.start t(2,1)] s1 by metis
  then have run: "scheduleRun scheduleWorld (now env0) (w, cs)"
    using scheduleRun.step [OF _ order_refl t(1)] s2 by metis
  have "schedulesOk (db scheduleWorld)" by (simp add: schedulesOk_def scheduleWorld_def schedule0_def concrete_defs)
  from one_draft_per_due_instant [OF run this]
  have "length (draftsOf 9 (db w)) = length (draftsOf 9 (db scheduleWorld)) + card {due. (9, due) \<in> set cs}" by blast
  moreover have "draftsOf 9 (db scheduleWorld) = []" by (simp add: draftsOf_def scheduleWorld_def concrete_defs)
  moreover have "cs = [(9, 900)]" using two_replicas unfolding s1 s2 by simp
  ultimately show ?thesis unfolding s1 s2 Let_def by simp
qed

section \<open>The calendar of a schedule\<close>

lemma catchUp_first:
  "\<exists>k. catchUp i t next = ((\<lambda>x. advance x i) ^^ k) next \<and> (\<forall>j < k. ((\<lambda>x. advance x i) ^^ j) next \<le> t)"
proof (induction i t "next" rule: catchUp.induct)
  case (1 i t "next")
  show ?case
  proof (cases "next \<le> t")
    case True
    then obtain k where k: "catchUp i t (advance next i) = ((\<lambda>x. advance x i) ^^ k) (advance next i)"
        "\<forall>j < k. ((\<lambda>x. advance x i) ^^ j) (advance next i) \<le> t" using 1 by blast
    have "((\<lambda>x. advance x i) ^^ j) next \<le> t" if "j < Suc k" for j
      using k(2) that True by (cases j) (simp_all del: funpow.simps add: funpow_Suc_right)
    then show ?thesis using k(1) True by (intro exI [of _ "Suc k"]) (simp del: funpow.simps add: catchUp.simps [of i t "next"] funpow_Suc_right)
  next
    case False
    then show ?thesis by (intro exI [of _ 0]) (simp add: catchUp.simps [of i t "next"])
  qed
qed

text \<open>C25: schedules follow the civil calendar. A weekly run is exactly seven days later; a monthly run falls in the next
  month (January of the next year after December), on the same day of the month or on the last day of a shorter month, at
  the same time of day. The catch-up loop ends, and answers the first of these instants after the present one.\<close>

theorem schedule_follows_calendar:
  assumes c: "civilFromDays (dayNumber t) = (y, m, d)" and n: "nextMonth y m = (y', m')"
  shows "advance t WEEKLY = t + 7 * 86400000 \<and>
    civilFromDays (dayNumber (advance t MONTHLY)) = (y', m', min d (monthLength y' m')) \<and>
    advance t MONTHLY mod 86400000 = t mod 86400000 \<and>
    present < catchUp i present t \<and>
    (\<exists>k. catchUp i present t = ((\<lambda>x. advance x i) ^^ k) t \<and> (\<forall>j < k. ((\<lambda>x. advance x i) ^^ j) t \<le> present))"
proof -
  have "validDate y' m' (min d (monthLength y' m'))"
    using days_of_civil [OF c] n monthLength_bounds [of y' m']
    by (auto simp: validDate_def nextMonth_def min_def split: if_splits)
  then have "civilFromDays (dayNumber (advance t MONTHLY)) = (y', m', min d (monthLength y' m'))"
    unfolding advance_monthly [OF c n] dayNumber_atDay by (rule civil_of_days)
  moreover have "advance t MONTHLY mod 86400000 = t mod 86400000"
    unfolding advance_monthly [OF c n] by (simp add: atDay_def)
  ultimately show ?thesis using catchUp_first [of i present t] catchUp_future advance_weekly by blast
qed

lemma december_31: "civilFromDays (dayNumber 1703980800000) = (2023, 12, 31)"
  by code_simp

theorem schedule_follows_calendar_witness:
  "advance 1703980800000 WEEKLY = 1703980800000 + 7 * 86400000 \<and>
   civilFromDays (dayNumber (advance 1703980800000 MONTHLY)) = (2024, 1, 31)"
  using schedule_follows_calendar [of 1703980800000 2023 12 31 2024 1] december_31
  by (simp add: nextMonth_def monthLength_def)

text \<open>A schedule on the 31st is clamped once and then stays on the day it was clamped to.\<close>

lemma monthly_clamp_is_permanent:
  "civilFromDays (dayNumber (advance (advance 1675123200000 MONTHLY) MONTHLY)) = (2023, 3, 28)"
  by code_simp

section \<open>Templates carry complete payment plans\<close>

definition plansOk :: "world \<Rightarrow> bool" where
  "plansOk w \<longleftrightarrow> (\<forall>t \<in> set (templates (db w)). \<forall>ms. t_milestones t = Some ms \<longrightarrow> sum_list (map mi_paymentPercent ms) = 100)"

lemma keeps_insertTemplate:
  "sum_list (map mi_paymentPercent (td_milestones dto)) = 100 \<Longrightarrow> keeps plansOk (insertTemplate e dto o')"
  by (rule keepsI) (auto simp: plansOk_def insertTemplate_def Let_def andThen_def)

lemma keeps_validated:
  "(sum_list (map mi_paymentPercent ms) = 100 \<Longrightarrow> keeps P m) \<Longrightarrow> keeps P (liftResult (validateMilestonePercentages ms) (\<lambda>_. m))"
  by (auto simp: validateMilestonePercentages_def liftResult_def keeps_def)

lemma keeps_createTemplate: "keeps plansOk (createTemplate e dto o')"
  unfolding createTemplate_def by (intro keeps_validated keeps_insertTemplate)

lemma keeps_createFromShipment: "keeps plansOk (createFromShipment e o' caller sid name desc pub)"
  unfolding createFromShipment_def by (intro keeps_intros keeps_validated keeps_insertTemplate) simp

lemma keeps_updateTemplateRow:
  "(\<And>t ms. t_milestones (f t) = Some ms \<Longrightarrow> t_milestones t = Some ms \<or> sum_list (map mi_paymentPercent ms) = 100) \<Longrightarrow>
   keeps plansOk (updateTemplateRow i f)"
  by (rule keepsI) (fastforce simp: plansOk_def updateTemplateRow_def updateWhere_def)

lemma keeps_findTemplate: "keeps P (findTemplate i)"
  unfolding findTemplate_def by (intro keeps_intros)

lemma keeps_updateTemplate: "keeps plansOk (updateTemplate i o' dto)"
proof -
  have "keeps plansOk (liftResult (case tu_milestones dto of None \<Rightarrow> Inr () | Some ms \<Rightarrow> validateMilestonePercentages ms)
      (\<lambda>_. updateTemplateRow i (applyTemplateUpdate dto)))"
  proof (cases "tu_milestones dto")
    case None
    then show ?thesis by (auto simp: liftResult_def applyTemplateUpdate_def intro!: keeps_updateTemplateRow)
  next
    case (Some ms)
    then show ?thesis
      by (auto simp: applyTemplateUpdate_def intro!: keeps_validated keeps_updateTemplateRow)
  qed
  then show ?thesis unfolding updateTemplate_def by (intro keeps_andThen keeps_require keeps_findTemplate)
qed

text \<open>
  The template lookup of shipment creation asks neither for the owner nor for the visibility: a private template of
  another user is merged into the request.
\<close>

lemma private_template_used:
  "resolveTemplate (Some 7) scheduleWorld = (Inr template0, scheduleWorld) \<and> \<not> t_isPublic template0 \<and>
   fst (preview 7 2 scheduleWorld) = Inl ForbiddenException"
  by (simp add: resolveTemplate_def preview_def findTemplate_def scheduleWorld_def template0_def concrete_defs andThen_def)

end
