(* ===== verification/Claims.thy ===== *)
theory Claims
  imports Domain
begin

text \<open>
  The contract of a conditional update. Several parts of the backend let concurrent callers compete for a row by an
  \<open>updateMany\<close> whose condition the winner makes false (invitations, reminders, settlement proposals). The locale
  states what such a component promises and derives that no key is ever won twice in the log of a sequence of steps; the components interpret it on their
  own operations. The second half instantiates the promise for tables of rows with a stamp column.
\<close>

primrec claimLog :: "('l \<Rightarrow> 's \<Rightarrow> 's) \<Rightarrow> ('l \<Rightarrow> 's \<Rightarrow> 'k list) \<Rightarrow> 'l list \<Rightarrow> 's \<Rightarrow> 'k list" where
  "claimLog step wins [] s = []"
| "claimLog step wins (l # ls) s = wins l s @ claimLog step wins ls (step l s)"

locale single_claim =
  fixes inv :: "'s \<Rightarrow> bool"
    and spent :: "'k \<Rightarrow> 's \<Rightarrow> bool"
    and step :: "'l \<Rightarrow> 's \<Rightarrow> 's"
    and wins :: "'l \<Rightarrow> 's \<Rightarrow> 'k list"
  assumes inv_step: "inv s \<Longrightarrow> inv (step l s)"
    and win_spends: "inv s \<Longrightarrow> k \<in> set (wins l s) \<Longrightarrow> \<not> spent k s \<and> spent k (step l s)"
    and wins_distinct: "inv s \<Longrightarrow> distinct (wins l s)"
    and spent_for_good: "inv s \<Longrightarrow> spent k s \<Longrightarrow> spent k (step l s)"
begin

abbreviation winners :: "'l list \<Rightarrow> 's \<Rightarrow> 'k list" where
  "winners \<equiv> claimLog step wins"

lemma spent_stays: "inv s \<Longrightarrow> spent k s \<Longrightarrow> spent k (fold step ls s)"
  by (induction ls arbitrary: s) (auto intro: inv_step spent_for_good)

lemma winners_not_spent: "inv s \<Longrightarrow> k \<in> set (winners ls s) \<Longrightarrow> \<not> spent k s"
proof (induction ls arbitrary: s)
  case (Cons l ls)
  then show ?case using win_spends [of s k l] spent_for_good [of s k l] inv_step [of s l] by auto
qed simp

lemma winners_distinct: "inv s \<Longrightarrow> distinct (winners ls s)"
proof (induction ls arbitrary: s)
  case (Cons l ls)
  have "set (wins l s) \<inter> set (winners ls (step l s)) = {}"
    using win_spends [OF Cons.prems] winners_not_spent [OF inv_step [OF Cons.prems]] by blast
  then show ?case using Cons inv_step wins_distinct by simp
qed simp

lemma won_is_spent: "inv s \<Longrightarrow> k \<in> set (winners ls s) \<Longrightarrow> spent k (fold step ls s)"
proof (induction ls arbitrary: s)
  case (Cons l ls)
  then show ?case
    using win_spends [of s k l] spent_stays [OF inv_step, of s k l ls] inv_step [of s l] by auto
qed simp

end

section \<open>Stamped tables\<close>

text \<open>
  Rows with an identifier drawn from the counter and a column that is set once: the identifiers in use, and the keys
  that can no longer be won because no row with that key is unstamped and the identifier has been given out.
\<close>

definition keysOk :: "('r \<Rightarrow> uuid) \<Rightarrow> 'r list \<Rightarrow> uuid \<Rightarrow> bool" where
  "keysOk key rows fresh \<longleftrightarrow> distinct (map key rows) \<and> (\<forall>r \<in> set rows. key r < fresh)"

definition stampedOrGone :: "('r \<Rightarrow> uuid) \<Rightarrow> ('r \<Rightarrow> bool) \<Rightarrow> uuid \<Rightarrow> 'r list \<Rightarrow> uuid \<Rightarrow> bool" where
  "stampedOrGone key open' k rows fresh \<longleftrightarrow> k < fresh \<and> (\<forall>r \<in> set rows. key r = k \<longrightarrow> \<not> open' r)"

lemma keysOk_append: "keysOk key rows fresh \<Longrightarrow> key r = fresh \<Longrightarrow> keysOk key (rows @ [r]) (Suc fresh)"
  by (auto simp: keysOk_def)

lemma keysOk_update: "keysOk key rows fresh \<Longrightarrow> (\<And>r. key (f r) = key r) \<Longrightarrow> keysOk key (updateWhere p f rows) fresh"
  by (simp add: keysOk_def map_updateWhere ball_updateWhere)

lemma keysOk_filter: "keysOk key rows fresh \<Longrightarrow> keysOk key (filter p rows) fresh"
  by (auto simp: keysOk_def distinct_map_filter)

lemma keysOk_mono: "keysOk key rows fresh \<Longrightarrow> fresh \<le> fresh' \<Longrightarrow> keysOk key rows fresh'"
  by (auto simp: keysOk_def)

lemma gone_append: "stampedOrGone key op k rows fresh \<Longrightarrow> key r = fresh \<Longrightarrow> stampedOrGone key op k (rows @ [r]) (Suc fresh)"
  by (auto simp: stampedOrGone_def)

lemma gone_update:
  "stampedOrGone key op k rows fresh \<Longrightarrow> (\<And>r. key (f r) = key r) \<Longrightarrow> (\<And>r. op (f r) \<Longrightarrow> op r) \<Longrightarrow>
   stampedOrGone key op k (updateWhere p f rows) fresh"
  by (auto simp: stampedOrGone_def ball_updateWhere)

lemma gone_filter: "stampedOrGone key op k rows fresh \<Longrightarrow> stampedOrGone key op k (filter p rows) fresh"
  by (simp add: stampedOrGone_def)

lemma gone_mono: "stampedOrGone key op k rows fresh \<Longrightarrow> fresh \<le> fresh' \<Longrightarrow> stampedOrGone key op k rows fresh'"
  by (simp add: stampedOrGone_def)

lemma claim_spends:
  assumes "keysOk key rows fresh" "r \<in> set rows" "key r = k" "op r" "\<And>r. key (f r) = key r" "\<And>r. \<not> op (f r)"
  shows "\<not> stampedOrGone key op k rows fresh" "stampedOrGone key op k (updateWhere (\<lambda>r. key r = k \<and> op r) f rows) fresh"
  using assms by (auto simp: stampedOrGone_def keysOk_def ball_updateWhere)

lemmas table_intros = keysOk_append keysOk_update keysOk_filter gone_append gone_update gone_filter

end
