(* ===== verification/Invitations.thy ===== *)
theory Invitations
  imports Notifications Claims
begin

text \<open>
  Invitations of counterparties (\<open>src/src/modules/invitations/invitations.service.ts\<close>) and settlement proposals in a
  dispute (\<open>src/src/modules/milestones/settlement-proposals.module.ts\<close>). Both let several callers compete for one
  row: a call reads the row, checks it, and then writes with a condition. The two halves are separate definitions, so that
  other calls can run between them; both components interpret the contract of a conditional update.
\<close>

section \<open>Invitations\<close>

definition INVITATION_TTL_MS :: int where
  "INVITATION_TTL_MS = 7 * 24 * 60 * 60 * 1000"

definition DAILY_INVITATION_LIMIT :: nat where
  "DAILY_INVITATION_LIMIT = 20"

record invitationDto =
  id_email :: string
  id_role :: userRole
  id_shipmentId :: "string option"
  id_templateId :: "uuid option"

datatype invitationStatus = INV_ACCEPTED | INV_EXPIRED | INV_PENDING

record invitationResponse =
  ir_invitation :: invitation
  ir_status :: invitationStatus

definition toResponse :: "env \<Rightarrow> invitation \<Rightarrow> invitationResponse" where
  "toResponse e i = \<lparr>ir_invitation = i, ir_status =
     (if acceptedAt i \<noteq> None then INV_ACCEPTED else if inv_expiresAt i \<le> now e then INV_EXPIRED else INV_PENDING)\<rparr>"

definition sentToday :: "env \<Rightarrow> uuid \<Rightarrow> world \<Rightarrow> nat" where
  "sentToday e inviter w = length (filter (\<lambda>i. invitedById i = inviter \<and> inv_createdAt i \<ge> now e - 24 * 60 * 60 * 1000)
     (shipmentInvitations (db w)))"

text \<open>
  The token is the result of \<open>randomBytes\<close>; only its hash is stored, in a unique column. \<open>link\<close> is the address of the
  acceptance page for a token.
\<close>

definition createInvitation :: "env \<Rightarrow> (string \<Rightarrow> string) \<Rightarrow> string \<Rightarrow> uuid \<Rightarrow> invitationDto \<Rightarrow> invitationResponse act" where
  "createInvitation e link token inviter dto =
     andThen (reads (sentToday e inviter)) (\<lambda>n.
     require (n < DAILY_INVITATION_LIMIT) TooManyRequestsException (
     andThen (reads (\<lambda>w. \<not> truthy (id_shipmentId dto) \<or> findShipment (the (id_shipmentId dto)) w \<noteq> None)) (\<lambda>known.
     require known NotFoundException (
     andThen (reads (\<lambda>w. \<forall>i \<in> set (shipmentInvitations (db w)). inv_tokenHash i \<noteq> sha256Hex e token)) (\<lambda>unique.
     require unique PrismaP2002 (
     andThen freshId (\<lambda>i.
     let row = \<lparr>inv_id = i, inv_shipmentId = id_shipmentId dto, inv_templateId = id_templateId dto,
           inv_email = toLowerCase (id_email dto), inv_role = id_role dto, inv_tokenHash = sha256Hex e token,
           invitedById = inviter, acceptedById = None, acceptedAt = None, inv_expiresAt = now e + INVITATION_TTL_MS,
           inv_createdAt = now e\<rparr> in
     andThen (modifyDb (\<lambda>d. d\<lparr>shipmentInvitations := shipmentInvitations d @ [row]\<rparr>)) (\<lambda>_.
     andThen (withMail (\<lambda>mb. ((), sendPlainMail (inv_email row) ''You've been invited to ChainSettle'' (link token) mb))) (\<lambda>_.
     ret (toResponse e row))))))))))"

text \<open>\<open>accept\<close> up to the conditional update, and from there on.\<close>

definition acceptCheck :: "env \<Rightarrow> string \<Rightarrow> invitation act" where
  "acceptCheck e token =
     andThen (reads (\<lambda>w. find (\<lambda>i. inv_tokenHash i = sha256Hex e token) (shipmentInvitations (db w)))) (\<lambda>found.
     requireSome found NotFoundException (\<lambda>i.
     require (acceptedAt i = None) GoneException (
     require (\<not> inv_expiresAt i \<le> now e) GoneException (
     ret i))))"

definition acceptCommit :: "env \<Rightarrow> invitation \<Rightarrow> user \<Rightarrow> invitationResponse act" where
  "acceptCommit e i user =
     andThen (reads (\<lambda>w. list_ex (\<lambda>r. inv_id r = inv_id i \<and> acceptedAt r = None) (shipmentInvitations (db w)))) (\<lambda>hit.
     andThen (modifyDb (\<lambda>d. d\<lparr>shipmentInvitations := updateWhere (\<lambda>r. inv_id r = inv_id i \<and> acceptedAt r = None)
        (\<lambda>r. r\<lparr>acceptedAt := Some (now e), acceptedById := Some (u_id user)\<rparr>) (shipmentInvitations d)\<rparr>)) (\<lambda>_.
     require hit GoneException (
     andThen (reads (\<lambda>w. find (\<lambda>u. u_id u = invitedById i) (users (db w)))) (\<lambda>inviter.
     andThen (case inviter of None \<Rightarrow> ret () | Some u \<Rightarrow> ignore (notifyUser e (stellarAddress u) N_SYSTEM_ALERT ''Invitation accepted''
        (JObj [(''invitationId'', JNum (int (inv_id i))), (''shipmentId'', case inv_shipmentId i of None \<Rightarrow> JNull | Some s \<Rightarrow> JStr s),
           (''stellarAddress'', JStr (stellarAddress user))]))) (\<lambda>_.
     andThen (reads (\<lambda>w. find (\<lambda>r. inv_id r = inv_id i) (shipmentInvitations (db w)))) (\<lambda>updated.
     requireSome updated RuntimeError (\<lambda>r. ret (toResponse e r))))))))"

definition accept :: "env \<Rightarrow> string \<Rightarrow> user \<Rightarrow> invitationResponse act" where
  "accept e token user = andThen (acceptCheck e token) (\<lambda>i. acceptCommit e i user)"

definition listSent :: "env \<Rightarrow> uuid \<Rightarrow> (invitationResponse \<times> address option) list act" where
  "listSent e inviter = reads (\<lambda>w. map (\<lambda>i. (toResponse e i,
       Option.bind (acceptedById i) (\<lambda>a. map_option stellarAddress (find (\<lambda>u. u_id u = a) (users (db w))))))
     (sort_key (\<lambda>i. - inv_createdAt i) (filter (\<lambda>i. invitedById i = inviter) (shipmentInvitations (db w)))))"

subsection \<open>An invitation is used once\<close>

datatype invitationLabel =
    Invite env "string \<Rightarrow> string" string uuid invitationDto
  | AcceptCommit env invitation user

fun invitationStep :: "invitationLabel \<Rightarrow> world \<Rightarrow> world" where
  "invitationStep (Invite e link token inviter dto) w = snd (createInvitation e link token inviter dto w)"
| "invitationStep (AcceptCommit e i u) w = snd (acceptCommit e i u w)"

fun invitationWins :: "invitationLabel \<Rightarrow> world \<Rightarrow> uuid list" where
  "invitationWins (Invite e link token inviter dto) w = []"
| "invitationWins (AcceptCommit e i u) w = (case acceptCommit e i u w of (Inr _, _) \<Rightarrow> [inv_id i] | _ \<Rightarrow> [])"

definition invitationsOk :: "world \<Rightarrow> bool" where
  "invitationsOk w \<longleftrightarrow> keysOk inv_id (shipmentInvitations (db w)) (nextId (db w))"

definition invitationSpent :: "uuid \<Rightarrow> world \<Rightarrow> bool" where
  "invitationSpent k w \<longleftrightarrow> stampedOrGone inv_id (\<lambda>r. acceptedAt r = None) k (shipmentInvitations (db w)) (nextId (db w))"

lemma createInvitation_cases:
  "(shipmentInvitations (db w'), nextId (db w')) = (shipmentInvitations (db w), nextId (db w)) \<or>
   (\<exists>row. inv_id row = nextId (db w) \<and> acceptedAt row = None \<and>
      (shipmentInvitations (db w'), nextId (db w')) = (shipmentInvitations (db w) @ [row], Suc (nextId (db w))))"
  if "w' = snd (createInvitation e link token inviter dto w)"
  unfolding that createInvitation_def by (simp add: andThen_def run_withMail Let_def)

lemma run_acceptCommit:
  "shipmentInvitations (db (snd (acceptCommit e i u w))) = updateWhere (\<lambda>r. inv_id r = inv_id i \<and> acceptedAt r = None)
     (\<lambda>r. r\<lparr>acceptedAt := Some (now e), acceptedById := Some (u_id u)\<rparr>) (shipmentInvitations (db w)) \<and>
   nextId (db (snd (acceptCommit e i u w))) = nextId (db w)"
  by (auto simp: acceptCommit_def andThen_def requireSome_def split: option.splits)

lemma acceptCommit_success:
  "(\<exists>v w'. acceptCommit e i u w = (Inr v, w')) \<longleftrightarrow> (\<exists>r \<in> set (shipmentInvitations (db w)). inv_id r = inv_id i \<and> acceptedAt r = None)"
proof -
  let ?p = "\<lambda>r. inv_id r = inv_id i \<and> acceptedAt r = None"
  let ?f = "\<lambda>r :: invitation. r\<lparr>acceptedAt := Some (now e), acceptedById := Some (u_id u)\<rparr>"
  show ?thesis
  proof (cases "\<exists>r \<in> set (shipmentInvitations (db w)). ?p r")
    case True
    then have "find (\<lambda>r. inv_id r = inv_id i) (updateWhere ?p ?f (shipmentInvitations (db w))) \<noteq> None"
      by (auto simp: find_None_iff_ball ball_updateWhere)
    then obtain r where "find (\<lambda>r. inv_id r = inv_id i) (updateWhere ?p ?f (shipmentInvitations (db w))) = Some r" by blast
    then show ?thesis using True
      by (auto simp: acceptCommit_def andThen_def list_ex_iff split: option.splits)
  next
    case False
    then show ?thesis by (auto simp: acceptCommit_def andThen_def list_ex_iff)
  qed
qed

interpretation invitations: single_claim invitationsOk invitationSpent invitationStep invitationWins
proof
  fix w l
  assume ok: "invitationsOk w"
  show "invitationsOk (invitationStep l w)"
  proof (cases l)
    case (Invite e link token inviter dto)
    then show ?thesis using ok createInvitation_cases [OF refl, of e link token inviter dto w]
      by (auto simp: invitationsOk_def intro: keysOk_append)
  next
    case (AcceptCommit e i u)
    then show ?thesis using ok run_acceptCommit [of e i u w] by (simp add: invitationsOk_def keysOk_update)
  qed
  show "distinct (invitationWins l w)" by (cases l) (auto split: prod.splits sum.splits)
  fix k
  show "invitationSpent k (invitationStep l w)" if "invitationSpent k w"
  proof (cases l)
    case (Invite e link token inviter dto)
    then show ?thesis using that createInvitation_cases [OF refl, of e link token inviter dto w]
      by (auto simp: invitationSpent_def intro: gone_append)
  next
    case (AcceptCommit e i u)
    then show ?thesis using that run_acceptCommit [of e i u w] by (auto simp: invitationSpent_def intro: gone_update)
  qed
  show "\<not> invitationSpent k w \<and> invitationSpent k (invitationStep l w)" if win: "k \<in> set (invitationWins l w)"
  proof (cases l)
    case (AcceptCommit e i u)
    then have k: "k = inv_id i" and "\<exists>v w'. acceptCommit e i u w = (Inr v, w')"
      using win by (cases "acceptCommit e i u w"; auto split: sum.splits)+
    then obtain r where r: "r \<in> set (shipmentInvitations (db w))" "inv_id r = inv_id i" "acceptedAt r = None"
      by (auto simp: acceptCommit_success)
    show ?thesis
      using claim_spends [OF ok [unfolded invitationsOk_def] r(1,2), of "\<lambda>r. acceptedAt r = None"
          "\<lambda>r. r\<lparr>acceptedAt := Some (now e), acceptedById := Some (u_id u)\<rparr>"] r(3) run_acceptCommit [of e i u w]
      by (simp add: invitationSpent_def AcceptCommit k)
  qed (use win in simp)
qed

lemma accept_success:
  assumes "accept e token u w = (Inr v, w')"
  obtains i where "find (\<lambda>i. inv_tokenHash i = sha256Hex e token) (shipmentInvitations (db w)) = Some i"
    "acceptedAt i = None" "now e < inv_expiresAt i"
    "shipmentInvitations (db w') = updateWhere (\<lambda>r. inv_id r = inv_id i \<and> acceptedAt r = None)
       (\<lambda>r. r\<lparr>acceptedAt := Some (now e), acceptedById := Some (u_id u)\<rparr>) (shipmentInvitations (db w))"
proof -
  from assms obtain i where i: "find (\<lambda>i. inv_tokenHash i = sha256Hex e token) (shipmentInvitations (db w)) = Some i"
      "acceptedAt i = None" "now e < inv_expiresAt i" "acceptCommit e i u w = (Inr v, w')"
    by (auto simp: accept_def acceptCheck_def success_iffs)
  then show ?thesis using that [OF i(1-3)] run_acceptCommit [of e i u w] by simp
qed

lemma find_updated_key:
  assumes "find (\<lambda>r. h r = x) rows = Some i" "q i" "\<And>r. h (f r) = h r"
  shows "find (\<lambda>r. h r = x) (updateWhere (\<lambda>r. key r = key i \<and> q r) f rows) = Some (f i)"
  using assms by (induction rows) (auto split: if_splits)

text \<open>An invitation is used once. In every interleaving of invitations and acceptances, where each acceptance writes
  on the strength of a row it may have read long before, no invitation is accepted twice. An acceptance succeeds only with
  the token of an unused invitation that has not expired, and every later acceptance with that token is refused.\<close>

lemma invitation_used_once:
  assumes ok: "invitationsOk w"
  shows "distinct (claimLog invitationStep invitationWins ls w) \<and>
    (\<forall>v w'. accept e token u w = (Inr v, w') \<longrightarrow>
      (\<exists>i \<in> set (shipmentInvitations (db w)). inv_tokenHash i = sha256Hex e token \<and> acceptedAt i = None \<and> now e < inv_expiresAt i) \<and>
      (\<forall>e' u'. sha256Hex e' = sha256Hex e \<longrightarrow> fst (accept e' token u' w') = Inl GoneException))"
proof (intro conjI allI impI)
  show "distinct (claimLog invitationStep invitationWins ls w)" by (rule invitations.winners_distinct [OF ok])
  fix v w' assume a: "accept e token u w = (Inr v, w')"
  then obtain i where i: "find (\<lambda>i. inv_tokenHash i = sha256Hex e token) (shipmentInvitations (db w)) = Some i"
    "acceptedAt i = None" "now e < inv_expiresAt i"
    "shipmentInvitations (db w') = updateWhere (\<lambda>r. inv_id r = inv_id i \<and> acceptedAt r = None)
       (\<lambda>r. r\<lparr>acceptedAt := Some (now e), acceptedById := Some (u_id u)\<rparr>) (shipmentInvitations (db w))" by (rule accept_success)
  then show "\<exists>i \<in> set (shipmentInvitations (db w)). inv_tokenHash i = sha256Hex e token \<and> acceptedAt i = None \<and> now e < inv_expiresAt i"
    using find_Some_prop [OF i(1)] by auto
  fix e' :: env and u' :: user assume "sha256Hex e' = sha256Hex e"
  then show "fst (accept e' token u' w') = Inl GoneException"
    using find_updated_key [OF i(1), of "\<lambda>r. acceptedAt r = None" "\<lambda>r. r\<lparr>acceptedAt := Some (now e), acceptedById := Some (u_id u)\<rparr>" inv_id] i(2,4)
    by (simp add: accept_def acceptCheck_def andThen_def)
qed

definition invitation0 :: invitation where
  "invitation0 = \<lparr>inv_id = 5, inv_shipmentId = None, inv_templateId = None, inv_email = ''x@y'', inv_role = SUPPLIER,
     inv_tokenHash = ''hash'', invitedById = 1, acceptedById = None, acceptedAt = None, inv_expiresAt = 2000, inv_createdAt = 0\<rparr>"

definition invitedWorld :: world where
  "invitedWorld = emptyWorld\<lparr>db := emptyDb\<lparr>shipmentInvitations := [invitation0]\<rparr>\<rparr>"

lemma accept_invitation0: "fst (accept env0 ''t'' (user0 2 ''GS'') invitedWorld) =
    Inr (toResponse env0 (invitation0\<lparr>acceptedAt := Some 1000, acceptedById := Some 2\<rparr>))"
  by (simp add: accept_def acceptCheck_def acceptCommit_def invitedWorld_def invitation0_def concrete_defs andThen_def)

lemma invitation_used_once_witness:
  "invitationsOk invitedWorld \<and>
   distinct (claimLog invitationStep invitationWins [AcceptCommit env0 invitation0 (user0 2 ''GS''), AcceptCommit env0 invitation0 (user0 3 ''GL'')] invitedWorld) \<and>
   (\<exists>v w'. accept env0 ''t'' (user0 2 ''GS'') invitedWorld = (Inr v, w') \<and> fst (accept env0 ''t'' (user0 3 ''GL'') w') = Inl GoneException)"
proof -
  have ok: "invitationsOk invitedWorld" by (simp add: invitationsOk_def keysOk_def invitedWorld_def invitation0_def concrete_defs)
  obtain v w' where "accept env0 ''t'' (user0 2 ''GS'') invitedWorld = (Inr v, w')"
    using accept_invitation0 by (cases "accept env0 ''t'' (user0 2 ''GS'') invitedWorld") auto
  with invitation_used_once [OF ok, of _ env0 "''t''" "user0 2 ''GS''"] ok show ?thesis by blast
qed

text \<open>At most twenty invitations of one inviter within a day.\<close>

lemma daily_invitation_limit:
  assumes "createInvitation e link token inviter dto w = (Inr v, w')"
  shows "sentToday e inviter w' = Suc (sentToday e inviter w) \<and> sentToday e inviter w' \<le> DAILY_INVITATION_LIMIT"
  using assms by (auto simp: createInvitation_def success_iffs run_withMail Let_def sentToday_def)

section \<open>Settlement proposals\<close>

record proposalDto =
  pd_supplierPercent :: int
  pd_message :: "string option"

definition disputeContext :: "string \<Rightarrow> int \<Rightarrow> (milestone \<times> shipment) act" where
  "disputeContext sid i =
     andThen (reads (\<lambda>w. Option.bind (findMilestone sid i w) (\<lambda>m. map_option (Pair m) (findShipment (m_shipmentId m) w)))) (\<lambda>found.
     requireSome found NotFoundException (\<lambda>(m, s).
     require (m_status m = DISPUTED) ConflictException (ret (m, s))))"

definition createProposal :: "env \<Rightarrow> string \<Rightarrow> int \<Rightarrow> address \<Rightarrow> proposalDto \<Rightarrow> settlementProposal act" where
  "createProposal e sid i addr dto =
     andThen (disputeContext sid i) (\<lambda>(m, s).
     require (addr \<in> {buyerAddress s, supplierAddress s}) ForbiddenException (
     andThen (reads (\<lambda>w. list_ex (\<lambda>p. sp_milestoneId p = m_id m \<and> sp_status p = SP_PENDING) (settlementProposals (db w)))) (\<lambda>pending.
     require (\<not> pending) ConflictException (
     andThen freshId (\<lambda>k.
     let row = \<lparr>sp_id = k, sp_milestoneId = m_id m, sp_proposedBy = addr, supplierPercent = pd_supplierPercent dto,
           sp_message = pd_message dto, sp_status = SP_PENDING, respondedAt = None, sp_createdAt = now e\<rparr> in
     andThen (modifyDb (\<lambda>d. d\<lparr>settlementProposals := settlementProposals d @ [row]\<rparr>)) (\<lambda>_. ret row))))))"

definition listProposals :: "string \<Rightarrow> int \<Rightarrow> address \<Rightarrow> settlementProposal list act" where
  "listProposals sid i addr =
     andThen (disputeContext sid i) (\<lambda>(m, s).
     require (addr \<in> {buyerAddress s, supplierAddress s, arbiterAddress s}) ForbiddenException (
     reads (\<lambda>w. sort_key (\<lambda>p. - sp_createdAt p) (filter (\<lambda>p. sp_milestoneId p = m_id m) (settlementProposals (db w))))))"

definition proposalAction :: "string \<Rightarrow> settlementProposalStatus option" where
  "proposalAction a = (if a = ''accept'' then Some SP_ACCEPTED else if a = ''reject'' then Some SP_REJECTED
     else if a = ''withdraw'' then Some SP_WITHDRAWN else None)"

text \<open>\<open>respond\<close> up to the conditional update, and from there on.\<close>

definition respondCheck :: "string \<Rightarrow> int \<Rightarrow> uuid \<Rightarrow> string \<Rightarrow> address
    \<Rightarrow> (milestone \<times> shipment \<times> settlementProposal \<times> settlementProposalStatus) act" where
  "respondCheck sid i pid act addr =
     requireSome (proposalAction act) BadRequestException (\<lambda>st.
     andThen (disputeContext sid i) (\<lambda>(m, s).
     andThen (reads (\<lambda>w. find (\<lambda>p. sp_id p = pid \<and> sp_milestoneId p = m_id m \<and> sp_status p = SP_PENDING) (settlementProposals (db w)))) (\<lambda>found.
     requireSome found NotFoundException (\<lambda>p.
     let counterparty = (if sp_proposedBy p = buyerAddress s then supplierAddress s else buyerAddress s) in
     require (if st = SP_WITHDRAWN then addr = sp_proposedBy p else addr = counterparty) ForbiddenException (
     ret (m, s, p, st))))))"

definition respondCommit :: "env \<Rightarrow> milestone \<times> shipment \<times> settlementProposal \<times> settlementProposalStatus \<Rightarrow> settlementProposal act" where
  "respondCommit e checked = (case checked of (m, s, p, st) \<Rightarrow>
     andThen (reads (\<lambda>w. list_ex (\<lambda>r. sp_id r = sp_id p \<and> sp_status r = SP_PENDING) (settlementProposals (db w)))) (\<lambda>hit.
     andThen (modifyDb (\<lambda>d. d\<lparr>settlementProposals := updateWhere (\<lambda>r. sp_id r = sp_id p \<and> sp_status r = SP_PENDING)
        (\<lambda>r. r\<lparr>sp_status := st, respondedAt := Some (now e)\<rparr>) (settlementProposals d)\<rparr>)) (\<lambda>_.
     require hit ConflictException (
     andThen (whenA (st = SP_ACCEPTED) (ignore (notifyUser e (arbiterAddress s) N_SYSTEM_ALERT ''Settlement agreement reached''
        (JObj [(''shipmentId'', JStr (s_id s)), (''milestoneIndex'', JNum (milestoneIndex m)),
           (''supplierPercent'', JNum (supplierPercent p)), (''message'', case sp_message p of None \<Rightarrow> JNull | Some t \<Rightarrow> JStr t)])))) (\<lambda>_.
     andThen (reads (\<lambda>w. find (\<lambda>r. sp_id r = sp_id p) (settlementProposals (db w)))) (\<lambda>updated.
     requireSome updated RuntimeError ret))))))"

definition respond :: "env \<Rightarrow> string \<Rightarrow> int \<Rightarrow> uuid \<Rightarrow> string \<Rightarrow> address \<Rightarrow> settlementProposal act" where
  "respond e sid i pid act addr = andThen (respondCheck sid i pid act addr) (respondCommit e)"

subsection \<open>A proposal is answered once\<close>

datatype proposalLabel =
    Propose env string int address proposalDto
  | RespondCommit env "milestone \<times> shipment \<times> settlementProposal \<times> settlementProposalStatus"

fun proposalStep :: "proposalLabel \<Rightarrow> world \<Rightarrow> world" where
  "proposalStep (Propose e sid i addr dto) w = snd (createProposal e sid i addr dto w)"
| "proposalStep (RespondCommit e (m, s, p, st)) w = (if st = SP_PENDING then w else snd (respondCommit e (m, s, p, st) w))"

fun proposalWins :: "proposalLabel \<Rightarrow> world \<Rightarrow> uuid list" where
  "proposalWins (Propose e sid i addr dto) w = []"
| "proposalWins (RespondCommit e (m, s, p, st)) w =
     (case (st, respondCommit e (m, s, p, st) w) of (SP_PENDING, _) \<Rightarrow> [] | (_, (Inr _, _)) \<Rightarrow> [sp_id p] | _ \<Rightarrow> [])"

definition proposalsOk :: "world \<Rightarrow> bool" where
  "proposalsOk w \<longleftrightarrow> keysOk sp_id (settlementProposals (db w)) (nextId (db w))"

definition proposalSpent :: "uuid \<Rightarrow> world \<Rightarrow> bool" where
  "proposalSpent k w \<longleftrightarrow> stampedOrGone sp_id (\<lambda>r. sp_status r = SP_PENDING) k (settlementProposals (db w)) (nextId (db w))"

lemma createProposal_cases:
  "(settlementProposals (db w'), nextId (db w')) = (settlementProposals (db w), nextId (db w)) \<or>
   (\<exists>row. sp_id row = nextId (db w) \<and>
      (settlementProposals (db w'), nextId (db w')) = (settlementProposals (db w) @ [row], Suc (nextId (db w))))"
  if "w' = snd (createProposal e sid i addr dto w)"
  unfolding that createProposal_def disputeContext_def
  by (cases "Option.bind (findMilestone sid i w) (\<lambda>m. map_option (Pair m) (findShipment (m_shipmentId m) w))")
    (auto simp: andThen_def Let_def)

lemma run_respondCommit:
  "settlementProposals (db (snd (respondCommit e (m, s, p, st) w))) = updateWhere (\<lambda>r. sp_id r = sp_id p \<and> sp_status r = SP_PENDING)
     (\<lambda>r. r\<lparr>sp_status := st, respondedAt := Some (now e)\<rparr>) (settlementProposals (db w)) \<and>
   nextId (db (snd (respondCommit e (m, s, p, st) w))) = nextId (db w)"
  by (auto simp: respondCommit_def andThen_def requireSome_def whenA_def ignore_def split: option.splits)

lemma respondCommit_wins:
  "proposalWins (RespondCommit e (m, s, p, st)) w = [] \<or>
   st \<noteq> SP_PENDING \<and> proposalWins (RespondCommit e (m, s, p, st)) w = [sp_id p] \<and>
     (\<exists>r \<in> set (settlementProposals (db w)). sp_id r = sp_id p \<and> sp_status r = SP_PENDING)"
  by (cases st) (auto simp: respondCommit_def andThen_def list_ex_iff split: prod.splits sum.splits if_splits)

interpretation proposals: single_claim proposalsOk proposalSpent proposalStep proposalWins
proof
  fix w l
  assume ok: "proposalsOk w"
  show "proposalsOk (proposalStep l w)"
  proof (cases l)
    case (Propose e sid i addr dto)
    then show ?thesis using ok createProposal_cases [OF refl, of e sid i addr dto w]
      by (auto simp: proposalsOk_def intro: keysOk_append)
  next
    case (RespondCommit e c)
    then show ?thesis using ok run_respondCommit [of e _ _ _ _ w] by (cases c) (simp add: proposalsOk_def keysOk_update)
  qed
  show "distinct (proposalWins l w)"
  proof (cases l)
    case (RespondCommit e c)
    obtain m s p st where "c = (m, s, p, st)" by (cases c)
    then show ?thesis using respondCommit_wins [of e m s p st w] RespondCommit by auto
  qed simp
  fix k
  show "proposalSpent k (proposalStep l w)" if "proposalSpent k w"
  proof (cases l)
    case (Propose e sid i addr dto)
    then show ?thesis using that createProposal_cases [OF refl, of e sid i addr dto w]
      by (auto simp: proposalSpent_def intro: gone_append)
  next
    case (RespondCommit e c)
    then show ?thesis using that run_respondCommit [of e _ _ _ _ w]
      by (cases c) (auto simp: proposalSpent_def intro: gone_update)
  qed
  show "\<not> proposalSpent k w \<and> proposalSpent k (proposalStep l w)" if win: "k \<in> set (proposalWins l w)"
  proof (cases l)
    case (RespondCommit e c)
    obtain m s p st where c: "c = (m, s, p, st)" by (cases c)
    then have k: "k = sp_id p" and st: "st \<noteq> SP_PENDING"
        and "\<exists>r \<in> set (settlementProposals (db w)). sp_id r = sp_id p \<and> sp_status r = SP_PENDING"
      using win respondCommit_wins [of e m s p st w] by (auto simp: RespondCommit)
    then obtain r where r: "r \<in> set (settlementProposals (db w))" "sp_id r = sp_id p" "sp_status r = SP_PENDING" by blast
    show ?thesis
      using claim_spends [OF ok [unfolded proposalsOk_def] r(1,2), of "\<lambda>r. sp_status r = SP_PENDING"
          "\<lambda>r. r\<lparr>sp_status := st, respondedAt := Some (now e)\<rparr>"] r(3) st run_respondCommit [of e m s p st w]
      by (simp add: proposalSpent_def RespondCommit c k)
  qed (use win in simp)
qed

lemma proposal_answered_once: "proposalsOk w \<Longrightarrow> distinct (claimLog proposalStep proposalWins ls w)"
  by (rule proposals.winners_distinct)

end
