(* ===== verification/Organizations.thy ===== *)
theory Organizations
  imports Approvals Claims
begin

text \<open>
  Organizations (\<open>src/src/modules/organizations/organizations.service.ts\<close>): membership with four ranks, the guards on
  changing it, and the access to shipments that membership gives. The lemmas show that every organization keeps an
  owner and that nobody raises anybody above their own rank.
\<close>

section \<open>The service\<close>

fun roleRank :: "organizationRole \<Rightarrow> int" where
  "roleRank ORG_VIEWER = 0"
| "roleRank ORG_MEMBER = 1"
| "roleRank ORG_ADMIN = 2"
| "roleRank ORG_OWNER = 3"

definition participantAddressesOf :: "shipment \<Rightarrow> address list" where
  "participantAddressesOf s = [buyerAddress s, supplierAddress s, logisticsAddress s, arbiterAddress s]"

abbreviation membersOf :: "uuid \<Rightarrow> db \<Rightarrow> organizationMember list" where
  "membersOf oid d \<equiv> filter (\<lambda>m. om_orgId m = oid) (organizationMembers d)"

definition getMembership :: "uuid \<Rightarrow> uuid \<Rightarrow> world \<Rightarrow> organizationMember option" where
  "getMembership oid uid w = find (\<lambda>m. om_orgId m = oid \<and> om_userId m = uid) (organizationMembers (db w))"

definition insertMember :: "env \<Rightarrow> uuid \<Rightarrow> uuid \<Rightarrow> organizationRole \<Rightarrow> organizationMember act" where
  "insertMember e oid uid role =
     andThen freshId (\<lambda>i.
     let row = \<lparr>om_id = i, om_orgId = oid, om_userId = uid, om_role = role, om_createdAt = now e\<rparr> in
     andThen (modifyDb (\<lambda>d. d\<lparr>organizationMembers := organizationMembers d @ [row]\<rparr>)) (\<lambda>_. ret row))"

definition createOrganization :: "env \<Rightarrow> uuid \<Rightarrow> string option \<Rightarrow> organization act" where
  "createOrganization e userId name =
     (let trimmed = map_option trim name in
      require (truthy trimmed) BadRequestException (
      andThen freshId (\<lambda>i.
      let org = \<lparr>org_id = i, org_name = the trimmed, org_createdBy = userId, org_createdAt = now e\<rparr> in
      andThen (modifyDb (\<lambda>d. d\<lparr>organizations := organizations d @ [org]\<rparr>)) (\<lambda>_.
      andThen (insertMember e i userId ORG_OWNER) (\<lambda>_.
      ret org)))))"

definition listMine :: "uuid \<Rightarrow> (organization \<times> organizationRole) list act" where
  "listMine userId = reads (\<lambda>w. List.map_filter (\<lambda>m.
     map_option (\<lambda>org. (org, om_role m)) (find (\<lambda>org. org_id org = om_orgId m) (organizations (db w))))
     (sort_key om_createdAt (filter (\<lambda>m. om_userId m = userId) (organizationMembers (db w)))))"

definition requireRole :: "uuid \<Rightarrow> uuid \<Rightarrow> organizationRole \<Rightarrow> organizationRole act" where
  "requireRole oid userId minRole =
     andThen (reads (getMembership oid userId)) (\<lambda>membership. case membership of
       None \<Rightarrow> andThen (reads (\<lambda>w. find (\<lambda>org. org_id org = oid) (organizations (db w)))) (\<lambda>exists.
                requireSome exists NotFoundException (\<lambda>_. throw ForbiddenException))
     | Some m \<Rightarrow> require (\<not> roleRank (om_role m) < roleRank minRole) ForbiddenException (ret (om_role m)))"

definition listMembers :: "uuid \<Rightarrow> uuid \<Rightarrow> (organizationMember \<times> user option) list act" where
  "listMembers oid callerId =
     andThen (requireRole oid callerId ORG_VIEWER) (\<lambda>_.
     reads (\<lambda>w. map (\<lambda>m. (m, find (\<lambda>u. u_id u = om_userId m) (users (db w)))) (sort_key om_createdAt (membersOf oid (db w)))))"

definition assertCanAssign :: "organizationRole \<Rightarrow> organizationRole \<Rightarrow> unit result" where
  "assertCanAssign callerRole role = (if roleRank role > roleRank callerRole then Inl ForbiddenException else Inr ())"

definition assertNotLastOwner :: "uuid \<Rightarrow> unit act" where
  "assertNotLastOwner oid =
     andThen (reads (\<lambda>w. length (filter (\<lambda>m. om_orgId m = oid \<and> om_role m = ORG_OWNER) (organizationMembers (db w))))) (\<lambda>owners.
     require (\<not> owners \<le> 1) BadRequestException (ret ()))"

text \<open>The target of an invitation is given by id or by address.\<close>

definition addMember :: "env \<Rightarrow> uuid \<Rightarrow> uuid \<Rightarrow> uuid option \<Rightarrow> address option \<Rightarrow> organizationRole option \<Rightarrow> organizationMember act" where
  "addMember e oid callerId targetId targetAddress role =
     (let role = given role ORG_MEMBER in
      andThen (requireRole oid callerId ORG_ADMIN) (\<lambda>callerRole.
      liftResult (assertCanAssign callerRole role) (\<lambda>_.
      andThen (reads (\<lambda>w. case targetId of
          Some uid \<Rightarrow> find (\<lambda>u. u_id u = uid) (users (db w))
        | None \<Rightarrow> (case targetAddress of Some a \<Rightarrow> findUser a w | None \<Rightarrow> find (\<lambda>_. True) (users (db w))))) (\<lambda>found.
      requireSome found NotFoundException (\<lambda>u.
      andThen (reads (getMembership oid (u_id u))) (\<lambda>existing.
      require (existing = None) ConflictException (
      insertMember e oid (u_id u) role)))))))"

definition changeRole :: "uuid \<Rightarrow> uuid \<Rightarrow> uuid \<Rightarrow> organizationRole \<Rightarrow> unit act" where
  "changeRole oid callerId userId role =
     andThen (requireRole oid callerId ORG_ADMIN) (\<lambda>callerRole.
     andThen (reads (getMembership oid userId)) (\<lambda>found.
     requireSome found NotFoundException (\<lambda>member.
     liftResult (assertCanAssign callerRole (om_role member)) (\<lambda>_.
     liftResult (assertCanAssign callerRole role) (\<lambda>_.
     andThen (whenA (om_role member = ORG_OWNER \<and> role \<noteq> ORG_OWNER) (assertNotLastOwner oid)) (\<lambda>_.
     modifyDb (\<lambda>d. d\<lparr>organizationMembers := updateWhere (\<lambda>m. om_id m = om_id member) (\<lambda>m. m\<lparr>om_role := role\<rparr>)
       (organizationMembers d)\<rparr>)))))))"

definition removeMember :: "uuid \<Rightarrow> uuid \<Rightarrow> uuid \<Rightarrow> unit act" where
  "removeMember oid callerId userId =
     andThen (reads (getMembership oid userId)) (\<lambda>found.
     requireSome found NotFoundException (\<lambda>member.
     andThen (if userId \<noteq> callerId
              then andThen (requireRole oid callerId ORG_ADMIN) (\<lambda>callerRole.
                   liftResult (assertCanAssign callerRole (om_role member)) ret)
              else ret ()) (\<lambda>_.
     andThen (whenA (om_role member = ORG_OWNER) (assertNotLastOwner oid)) (\<lambda>_.
     modifyDb (\<lambda>d. d\<lparr>organizationMembers := filter (\<lambda>m. om_id m \<noteq> om_id member) (organizationMembers d)\<rparr>)))))"

definition getMemberAddresses :: "uuid \<Rightarrow> uuid \<Rightarrow> address list act" where
  "getMemberAddresses oid callerId =
     andThen (requireRole oid callerId ORG_VIEWER) (\<lambda>_.
     reads (\<lambda>w. List.map_filter (\<lambda>m. map_option stellarAddress (find (\<lambda>u. u_id u = om_userId m) (users (db w))))
       (membersOf oid (db w))))"

text \<open>The memberships of a user in organizations one of whose members takes part in the shipment.\<close>

definition orgParticipates :: "shipment \<Rightarrow> world \<Rightarrow> uuid \<Rightarrow> bool" where
  "orgParticipates s w oid \<longleftrightarrow> list_ex (\<lambda>m. list_ex (\<lambda>u. u_id u = om_userId m \<and> stellarAddress u \<in> set (participantAddressesOf s))
     (users (db w))) (membersOf oid (db w))"

definition getShipmentOrgRole :: "uuid \<Rightarrow> shipment \<Rightarrow> world \<Rightarrow> organizationRole option" where
  "getShipmentOrgRole userId s w =
     (let ms = filter (\<lambda>m. om_userId m = userId \<and> orgParticipates s w (om_orgId m)) (organizationMembers (db w)) in
      if ms = [] then None
      else Some (fold (\<lambda>m best. if roleRank (om_role m) > roleRank best then om_role m else best) ms ORG_VIEWER))"

definition canReadShipment :: "uuid \<Rightarrow> shipment \<Rightarrow> world \<Rightarrow> bool" where
  "canReadShipment userId s w \<longleftrightarrow> getShipmentOrgRole userId s w \<noteq> None"

definition canCommentOnShipment :: "uuid \<Rightarrow> shipment \<Rightarrow> world \<Rightarrow> bool" where
  "canCommentOnShipment userId s w \<longleftrightarrow> (case getShipmentOrgRole userId s w of
      None \<Rightarrow> False | Some role \<Rightarrow> roleRank role \<ge> roleRank ORG_MEMBER)"

section \<open>Owners and ranks\<close>

abbreviation ownersOf :: "uuid \<Rightarrow> organizationMember list \<Rightarrow> organizationMember list" where
  "ownersOf oid ms \<equiv> filter (\<lambda>m. om_orgId m = oid \<and> om_role m = ORG_OWNER) ms"

definition orgInv :: "world \<Rightarrow> bool" where
  "orgInv w \<longleftrightarrow> keysOk om_id (organizationMembers (db w)) (nextId (db w)) \<and>
     distinct (map (\<lambda>m. (om_orgId m, om_userId m)) (organizationMembers (db w))) \<and>
     (\<forall>m \<in> set (organizationMembers (db w)). om_orgId m < nextId (db w)) \<and>
     (\<forall>org \<in> set (organizations (db w)). org_id org < nextId (db w) \<and> ownersOf (org_id org) (organizationMembers (db w)) \<noteq> [])"

lemma requireRole_readOnly: "readOnly (requireRole oid uid role)"
  unfolding requireRole_def by (intro leaves_intros)

lemma requireRole_success: "requireRole oid uid minRole w = (Inr r, w') \<longleftrightarrow>
    w' = w \<and> (\<exists>m. getMembership oid uid w = Some m \<and> om_role m = r \<and> roleRank minRole \<le> roleRank r)"
  by (cases "getMembership oid uid w") (auto simp: requireRole_def andThen_def requireSome_def require_def split: option.splits)

lemma assertNotLastOwner_success:
  "assertNotLastOwner oid w = (Inr u, w') \<longleftrightarrow> w' = w \<and> 1 < length (ownersOf oid (organizationMembers (db w)))"
  by (auto simp: assertNotLastOwner_def)

lemma assertCanAssign_ok: "assertCanAssign c r = Inr u \<longleftrightarrow> roleRank r \<le> roleRank c"
  by (auto simp: assertCanAssign_def)

lemma getMembership_prop: "getMembership oid uid w = Some m \<Longrightarrow> m \<in> set (organizationMembers (db w)) \<and> om_orgId m = oid \<and> om_userId m = uid"
  unfolding getMembership_def by (drule find_Some_prop) simp

text \<open>Two members of an organization with the same key are the same row.\<close>

lemma member_unique:
  assumes "orgInv w" "m \<in> set (organizationMembers (db w))" "m' \<in> set (organizationMembers (db w))" "om_id m = om_id m'"
  shows "m = m'"
  using assms by (auto simp: orgInv_def keysOk_def distinct_map dest: inj_onD)

lemma keeps_insertMember:
  assumes inv: "orgInv w" and org: "oid < nextId (db w)" and new: "getMembership oid uid w = None"
  shows "orgInv (snd (insertMember e oid uid role w))"
proof -
  have "(oid, uid) \<notin> (\<lambda>m. (om_orgId m, om_userId m)) ` set (organizationMembers (db w))"
    using new by (auto simp: getMembership_def find_None_iff_ball)
  then show ?thesis using inv org
    by (auto simp: insertMember_def Let_def andThen_def orgInv_def keysOk_def less_Suc_eq)
qed

lemma createOrganization_inv: "orgInv w \<Longrightarrow> orgInv (snd (createOrganization e uid name w))"
  by (auto simp: createOrganization_def insertMember_def Let_def andThen_def require_def orgInv_def keysOk_def less_Suc_eq
      filter_empty_conv)

lemma addMember_success:
  assumes "addMember e oid caller tid taddr role w = (Inr r, w')"
  obtains uid c where "getMembership oid caller w = Some c" "roleRank ORG_ADMIN \<le> roleRank (om_role c)"
    "roleRank (given role ORG_MEMBER) \<le> roleRank (om_role c)" "getMembership oid uid w = None"
    "insertMember e oid uid (given role ORG_MEMBER) w = (Inr r, w')"
  using assms by (auto simp: addMember_def Let_def success_iffs requireRole_success assertCanAssign_ok)

lemma atomic_insertMember: "atomic (insertMember e oid uid role)"
  unfolding insertMember_def Let_def by (intro atomic_total total_intros)

lemma atomic_addMember: "atomic (addMember e oid caller tid taddr role)"
  unfolding addMember_def Let_def
  by (intro atomic_readOnly_then atomic_intros requireRole_readOnly atomic_insertMember)

lemma atomic_changeRole: "atomic (changeRole oid caller uid role)"
  unfolding changeRole_def assertNotLastOwner_def
  by (intro atomic_readOnly_then atomic_intros requireRole_readOnly leaves_intros atomic_total total_intros)

lemma atomic_removeMember: "atomic (removeMember oid caller uid)"
  unfolding removeMember_def assertNotLastOwner_def
  by (intro atomic_readOnly_then atomic_intros requireRole_readOnly leaves_intros atomic_total total_intros)

lemma changeRole_success:
  assumes "changeRole oid caller uid role w = (Inr u, w')"
  obtains m c where "getMembership oid caller w = Some c" "roleRank ORG_ADMIN \<le> roleRank (om_role c)"
    "getMembership oid uid w = Some m" "roleRank (om_role m) \<le> roleRank (om_role c)" "roleRank role \<le> roleRank (om_role c)"
    "om_role m = ORG_OWNER \<longrightarrow> role \<noteq> ORG_OWNER \<longrightarrow> 1 < length (ownersOf oid (organizationMembers (db w)))"
    "db w' = (db w)\<lparr>organizationMembers := updateWhere (\<lambda>r. om_id r = om_id m) (\<lambda>m. m\<lparr>om_role := role\<rparr>) (organizationMembers (db w))\<rparr>"
  using assms
  by (auto simp: changeRole_def success_iffs requireRole_success assertCanAssign_ok assertNotLastOwner_success split: if_splits)

lemma removeMember_success:
  assumes "removeMember oid caller uid w = (Inr u, w')"
  obtains m where "getMembership oid uid w = Some m"
    "uid = caller \<or> (\<exists>c. getMembership oid caller w = Some c \<and> roleRank ORG_ADMIN \<le> roleRank (om_role c) \<and> roleRank (om_role m) \<le> roleRank (om_role c))"
    "om_role m = ORG_OWNER \<Longrightarrow> 1 < length (ownersOf oid (organizationMembers (db w)))"
    "db w' = (db w)\<lparr>organizationMembers := filter (\<lambda>r. om_id r \<noteq> om_id m) (organizationMembers (db w))\<rparr>"
  using assms
  by (auto simp: removeMember_def success_iffs requireRole_success assertCanAssign_ok assertNotLastOwner_success split: if_splits)

text \<open>Another owner is left when one of several owners goes.\<close>

lemma other_owner:
  assumes inv: "orgInv w" and many: "1 < length (ownersOf oid (organizationMembers (db w)))"
  shows "\<exists>r \<in> set (organizationMembers (db w)). om_orgId r = oid \<and> om_role r = ORG_OWNER \<and> om_id r \<noteq> k"
proof -
  let ?os = "ownersOf oid (organizationMembers (db w))"
  have "distinct (map om_id ?os)" using inv by (simp add: orgInv_def keysOk_def distinct_map_filter)
  moreover obtain a b rest where os: "?os = a # b # rest" using many by (cases ?os; cases "tl ?os") auto
  ultimately have "om_id a \<noteq> k \<or> om_id b \<noteq> k" by auto
  moreover have "a \<in> set ?os" "b \<in> set ?os" by (simp_all add: os)
  ultimately show ?thesis by auto
qed

lemma owners_kept:
  assumes inv: "orgInv w" and org: "org \<in> set (organizations (db w))"
    and m: "m \<in> set (organizationMembers (db w))"
    and last: "om_role m = ORG_OWNER \<Longrightarrow> stays \<or> 1 < length (ownersOf (om_orgId m) (organizationMembers (db w)))"
  shows "\<exists>r \<in> set (organizationMembers (db w)). om_orgId r = org_id org \<and> om_role r = ORG_OWNER \<and> (om_id r \<noteq> om_id m \<or> stays)"
proof -
  have "ownersOf (org_id org) (organizationMembers (db w)) \<noteq> []" using inv org by (simp add: orgInv_def)
  then obtain r where r: "r \<in> set (organizationMembers (db w))" "om_orgId r = org_id org" "om_role r = ORG_OWNER"
    by (auto simp: filter_empty_conv)
  show ?thesis
  proof (cases "om_id r = om_id m")
    case True
    then have "r = m" using member_unique [OF inv r(1) m] by simp
    then show ?thesis using last r other_owner [OF inv, of "om_orgId m" "om_id m"] by auto
  next
    case False
    then show ?thesis using r by auto
  qed
qed

lemma changeRole_inv: "orgInv w \<Longrightarrow> orgInv (snd (changeRole oid caller uid role w))"
proof (cases "changeRole oid caller uid role w")
  case (Pair res w')
  assume inv: "orgInv w"
  show ?thesis
  proof (cases res)
    case (Inl x)
    then show ?thesis using Pair inv atomic_changeRole [of oid caller uid role] by (auto simp: atomic_def)
  next
    case (Inr u)
    with Pair obtain m where m: "getMembership oid uid w = Some m"
      "om_role m = ORG_OWNER \<longrightarrow> role \<noteq> ORG_OWNER \<longrightarrow> 1 < length (ownersOf oid (organizationMembers (db w)))"
      "db w' = (db w)\<lparr>organizationMembers := updateWhere (\<lambda>r. om_id r = om_id m) (\<lambda>m. m\<lparr>om_role := role\<rparr>) (organizationMembers (db w))\<rparr>"
      by (auto elim: changeRole_success)
    note mem = getMembership_prop [OF m(1)]
    have "ownersOf (org_id org) (organizationMembers (db w')) \<noteq> []" if org: "org \<in> set (organizations (db w))" for org
    proof -
      obtain r where r: "r \<in> set (organizationMembers (db w))" "om_orgId r = org_id org" "om_role r = ORG_OWNER"
          "om_id r \<noteq> om_id m \<or> role = ORG_OWNER"
        using owners_kept [OF inv org, of m "role = ORG_OWNER"] m(2) mem by blast
      let ?r = "if om_id r = om_id m then r\<lparr>om_role := role\<rparr> else r"
      have "?r \<in> set (organizationMembers (db w'))" "om_orgId ?r = org_id org \<and> om_role ?r = ORG_OWNER"
        using r by (auto simp: m(3) updateWhere_def)
      then show ?thesis unfolding filter_empty_conv by blast
    qed
    moreover have "keysOk om_id (organizationMembers (db w')) (nextId (db w'))"
      using inv by (simp add: m(3) orgInv_def keysOk_update)
    moreover have "map (\<lambda>m. (om_orgId m, om_userId m)) (organizationMembers (db w')) = map (\<lambda>m. (om_orgId m, om_userId m)) (organizationMembers (db w))"
      by (simp add: m(3) map_updateWhere)
    ultimately show ?thesis using inv Pair by (simp add: orgInv_def m(3) ball_updateWhere)
  qed
qed

lemma removeMember_inv: "orgInv w \<Longrightarrow> orgInv (snd (removeMember oid caller uid w))"
proof (cases "removeMember oid caller uid w")
  case (Pair res w')
  assume inv: "orgInv w"
  show ?thesis
  proof (cases res)
    case (Inl x)
    then show ?thesis using Pair inv atomic_removeMember [of oid caller uid] by (auto simp: atomic_def)
  next
    case (Inr u)
    with Pair obtain m where m: "getMembership oid uid w = Some m"
      "om_role m = ORG_OWNER \<Longrightarrow> 1 < length (ownersOf oid (organizationMembers (db w)))"
      "db w' = (db w)\<lparr>organizationMembers := filter (\<lambda>r. om_id r \<noteq> om_id m) (organizationMembers (db w))\<rparr>"
      by (auto elim: removeMember_success)
    have "ownersOf (org_id org) (organizationMembers (db w')) \<noteq> []" if org: "org \<in> set (organizations (db w))" for org
      using owners_kept [OF inv org, of m False] m(2) getMembership_prop [OF m(1)]
      by (auto simp: m(3) filter_empty_conv)
    then show ?thesis using inv Pair by (auto simp: orgInv_def m(3) keysOk_filter distinct_map_filter)
  qed
qed

section \<open>Runs of the service\<close>

datatype orgCall =
    CreateOrg env uuid "string option"
  | AddMember env uuid uuid "uuid option" "address option" "organizationRole option"
  | ChangeRole uuid uuid uuid organizationRole
  | RemoveMember uuid uuid uuid

fun orgStep :: "orgCall \<Rightarrow> world \<Rightarrow> world" where
  "orgStep (CreateOrg e uid name) w = snd (createOrganization e uid name w)"
| "orgStep (AddMember e oid caller tid taddr role) w = snd (addMember e oid caller tid taddr role w)"
| "orgStep (ChangeRole oid caller uid role) w = snd (changeRole oid caller uid role w)"
| "orgStep (RemoveMember oid caller uid) w = snd (removeMember oid caller uid w)"

fun callerOf :: "orgCall \<Rightarrow> uuid" where
  "callerOf (CreateOrg e uid name) = uid"
| "callerOf (AddMember e oid caller tid taddr role) = caller"
| "callerOf (ChangeRole oid caller uid role) = caller"
| "callerOf (RemoveMember oid caller uid) = caller"

lemma addMember_inv: "orgInv w \<Longrightarrow> orgInv (snd (addMember e oid caller tid taddr role w))"
proof (cases "addMember e oid caller tid taddr role w")
  case (Pair res w')
  assume inv: "orgInv w"
  show ?thesis
  proof (cases res)
    case (Inl x)
    then show ?thesis using Pair inv atomic_addMember [of e oid caller tid taddr role] by (auto simp: atomic_def)
  next
    case (Inr r)
    with Pair obtain uid c where c: "getMembership oid caller w = Some c" "getMembership oid uid w = None"
        "insertMember e oid uid (given role ORG_MEMBER) w = (Inr r, w')"
      by (auto elim: addMember_success)
    have "oid < nextId (db w)" using getMembership_prop [OF c(1)] inv by (auto simp: orgInv_def)
    then show ?thesis using keeps_insertMember [OF inv _ c(2)] c(3) Pair by (metis snd_conv)
  qed
qed

interpretation organizations: step_system orgStep orgInv
proof
  show "orgInv (orgStep l w)" if "orgInv w" for l w
    using that by (cases l) (simp_all add: createOrganization_inv addMember_inv changeRole_inv removeMember_inv)
qed

text \<open>C28: an organization is never without an owner, in every run of the service from a consistent state: no sequence of
  creations, invitations, role changes, removals and departures leaves one whose last owner is gone.\<close>

theorem organization_keeps_owner:
  assumes "orgInv w" and "org \<in> set (organizations (db (fold orgStep calls w)))"
  shows "\<exists>m \<in> set (organizationMembers (db (fold orgStep calls w))). om_orgId m = org_id org \<and> om_role m = ORG_OWNER"
  using organizations.run_inv [OF assms(1), of calls] assms(2)
  by (auto simp: orgInv_def filter_empty_conv)

lemma organization_example:
  "organizations (db (orgStep (RemoveMember 100 1 1) (orgStep (CreateOrg env0 1 (Some ''Acme'')) emptyWorld))) =
     [\<lparr>org_id = 100, org_name = ''Acme'', org_createdBy = 1, org_createdAt = 1000\<rparr>]"
  by (simp add: createOrganization_def removeMember_def insertMember_def assertNotLastOwner_def getMembership_def Let_def
      andThen_def concrete_defs trim_def isSpace_def truthy_def)

theorem organization_keeps_owner_witness:
  "orgInv emptyWorld \<and>
   (\<exists>m \<in> set (organizationMembers (db (fold orgStep [CreateOrg env0 1 (Some ''Acme''), RemoveMember 100 1 1] emptyWorld))).
      om_orgId m = 100 \<and> om_role m = ORG_OWNER)"
proof -
  have inv: "orgInv emptyWorld" by (simp add: orgInv_def keysOk_def concrete_defs)
  from organization_keeps_owner [OF this, of _ "[CreateOrg env0 1 (Some ''Acme''), RemoveMember 100 1 1]"] organization_example
  show ?thesis using inv by fastforce
qed

text \<open>A call that fails changes no membership; what the others can change is in the following lemmas, one per call.\<close>

definition grantedBy :: "world \<Rightarrow> uuid \<Rightarrow> uuid \<Rightarrow> organizationMember \<Rightarrow> bool" where
  "grantedBy w oid caller m \<longleftrightarrow> (\<exists>c. getMembership oid caller w = Some c \<and> roleRank ORG_ADMIN \<le> roleRank (om_role c) \<and>
     roleRank (om_role m) \<le> roleRank (om_role c))"

lemma addMember_grants:
  assumes after: "getMembership oid uid (snd (addMember e o' caller tid taddr role w)) = Some m'"
    and before: "getMembership oid uid w \<noteq> Some m'"
  shows "grantedBy w oid caller m'"
proof (cases "addMember e o' caller tid taddr role w")
  case (Pair res w')
  show ?thesis
  proof (cases res)
    case (Inl x)
    then have "w' = w" using Pair atomic_addMember [of e o' caller tid taddr role] by (auto simp: atomic_def)
    then show ?thesis using after before Pair by simp
  next
    case (Inr v)
    with Pair obtain u c where c: "getMembership o' caller w = Some c" "roleRank ORG_ADMIN \<le> roleRank (om_role c)"
      "roleRank (given role ORG_MEMBER) \<le> roleRank (om_role c)" "insertMember e o' u (given role ORG_MEMBER) w = (Inr v, w')"
      by (auto elim: addMember_success)
    then have "om_role m' = given role ORG_MEMBER \<and> oid = o'"
      using after before Pair
      by (auto simp: insertMember_def Let_def success_iffs getMembership_def find_append split: if_splits option.splits)
    then show ?thesis using c by (auto simp: grantedBy_def)
  qed
qed

lemma changeRole_grants:
  assumes inv: "orgInv w" and after: "getMembership oid uid (snd (changeRole o' caller u role w)) = Some m'"
    and before: "getMembership oid uid w \<noteq> Some m'"
  shows "grantedBy w oid caller m'"
proof (cases "changeRole o' caller u role w")
  case (Pair res w')
  show ?thesis
  proof (cases res)
    case (Inl x)
    then have "w' = w" using Pair atomic_changeRole [of o' caller u role] by (auto simp: atomic_def)
    then show ?thesis using after before Pair by simp
  next
    case (Inr v)
    then have "changeRole o' caller u role w = (Inr v, w')" using Pair by simp
    then obtain m c where c: "getMembership o' caller w = Some c" "roleRank ORG_ADMIN \<le> roleRank (om_role c)"
      "getMembership o' u w = Some m" "roleRank role \<le> roleRank (om_role c)"
      "db w' = (db w)\<lparr>organizationMembers := updateWhere (\<lambda>r. om_id r = om_id m) (\<lambda>m. m\<lparr>om_role := role\<rparr>) (organizationMembers (db w))\<rparr>"
      by (rule changeRole_success) blast
    obtain m0 where m0: "getMembership oid uid w = Some m0" "m' = (if om_id m0 = om_id m then m0\<lparr>om_role := role\<rparr> else m0)"
      using after Pair c(5) by (auto simp: getMembership_def find_updateWhere)
    then have "om_id m0 = om_id m" using before by (auto split: if_splits)
    then have "m0 = m" using member_unique [OF inv] getMembership_prop [OF m0(1)] getMembership_prop [OF c(3)] by blast
    then have "oid = o'" "om_role m' = role" using getMembership_prop [OF m0(1)] getMembership_prop [OF c(3)] m0(2) by auto
    then show ?thesis using c by (auto simp: grantedBy_def)
  qed
qed

lemma removeMember_grants_nothing:
  assumes inv: "orgInv w" and after: "getMembership oid uid (snd (removeMember o' caller u w)) = Some m'"
  shows "getMembership oid uid w = Some m'"
proof (cases "removeMember o' caller u w")
  case (Pair res w')
  then obtain p where p: "organizationMembers (db w') = filter p (organizationMembers (db w))"
  proof (cases res)
    case (Inl x)
    then have "w' = w" using Pair atomic_removeMember [of o' caller u] by (auto simp: atomic_def)
    then show ?thesis using that [of "\<lambda>_. True"] by simp
  next
    case (Inr v)
    with Pair show ?thesis by (auto elim!: removeMember_success intro: that)
  qed
  have "m' \<in> set (organizationMembers (db w))" "om_orgId m' = oid" "om_userId m' = uid"
    using getMembership_prop [OF after] Pair p by auto
  moreover have "distinct (map (\<lambda>m. (om_orgId m, om_userId m)) (organizationMembers (db w)))" using inv by (simp add: orgInv_def)
  ultimately show "getMembership oid uid w = Some m'"
    using find_eq_Some_unique [of "\<lambda>m. (om_orgId m, om_userId m)" "organizationMembers (db w)" "(oid, uid)" m']
    by (simp add: getMembership_def)
qed

text \<open>C29: nobody raises anybody above their own rank. Whenever a call gives a user a membership of an organization that it
  did not have before the call, the caller either founded that organization by the call, or was an administrator or owner
  of it whose rank is at least the rank given.\<close>

theorem no_privilege_escalation:
  assumes inv: "orgInv w" and after: "getMembership oid uid (orgStep call w) = Some m'"
    and before: "getMembership oid uid w \<noteq> Some m'"
  shows "(\<exists>e name. call = CreateOrg e uid name \<and> oid = nextId (db w)) \<or>
    (\<exists>c. getMembership oid (callerOf call) w = Some c \<and> roleRank ORG_ADMIN \<le> roleRank (om_role c) \<and>
       roleRank (om_role m') \<le> roleRank (om_role c))"
proof (cases call)
  case (CreateOrg e u name)
  then show ?thesis using after before
    by (auto simp: createOrganization_def insertMember_def Let_def andThen_def require_def getMembership_def find_append
        split: if_splits option.splits)
qed (use assms addMember_grants changeRole_grants [OF inv] removeMember_grants_nothing [OF inv] in \<open>auto simp: grantedBy_def\<close>)

definition orgMember0 :: "uuid \<Rightarrow> uuid \<Rightarrow> organizationRole \<Rightarrow> organizationMember" where
  "orgMember0 i u r = \<lparr>om_id = i, om_orgId = 7, om_userId = u, om_role = r, om_createdAt = 0\<rparr>"

definition orgWorld :: world where
  "orgWorld = emptyWorld\<lparr>db := emptyDb\<lparr>organizations := [\<lparr>org_id = 7, org_name = ''Acme'', org_createdBy = 1, org_createdAt = 0\<rparr>],
     organizationMembers := [orgMember0 11 1 ORG_OWNER, orgMember0 12 2 ORG_MEMBER]\<rparr>\<rparr>"

theorem no_privilege_escalation_witness:
  "getMembership 7 2 (orgStep (ChangeRole 7 1 2 ORG_ADMIN) orgWorld) = Some (orgMember0 12 2 ORG_ADMIN) \<and>
   (\<exists>c. getMembership 7 1 orgWorld = Some c \<and> roleRank ORG_ADMIN \<le> roleRank (om_role c))"
proof -
  have "orgInv orgWorld" by (simp add: orgInv_def keysOk_def orgWorld_def orgMember0_def concrete_defs)
  moreover have "getMembership 7 2 (orgStep (ChangeRole 7 1 2 ORG_ADMIN) orgWorld) = Some (orgMember0 12 2 ORG_ADMIN)"
    by (simp add: changeRole_def requireRole_def assertCanAssign_def getMembership_def updateWhere_def andThen_def
        orgWorld_def orgMember0_def concrete_defs)
  moreover have "getMembership 7 2 orgWorld \<noteq> Some (orgMember0 12 2 ORG_ADMIN)"
    by (simp add: getMembership_def orgWorld_def orgMember0_def concrete_defs)
  ultimately show ?thesis using no_privilege_escalation [of orgWorld 7 2 "ChangeRole 7 1 2 ORG_ADMIN"] by fastforce
qed

end
