(* ===== verification/Comments.thy ===== *)
theory Comments
  imports Organizations Webhooks
begin

text \<open>
  Comments on shipments (\<open>src/src/modules/shipments/comments.service.ts\<close>): threads with three levels of visibility,
  mentions, at most three pinned comments per shipment, soft deletion with redaction. The calls run one after the other;
  the dispatch of the webhook, which the code does not await, is the step after the insertion.
\<close>

section \<open>Helpers\<close>

definition MAX_PINNED_COMMENTS :: nat where
  "MAX_PINNED_COMMENTS = 3"

definition COMMENT_EXCERPT_LENGTH :: nat where
  "COMMENT_EXCERPT_LENGTH = 200"

text \<open>\<open>body.match(/G[A-Z0-9]{55}/g)\<close>: the matches from left to right, which do not overlap.\<close>

definition addressChar :: "char \<Rightarrow> bool" where
  "addressChar c \<longleftrightarrow> (let n = (of_char c :: nat) in 65 \<le> n \<and> n \<le> 90 \<or> 48 \<le> n \<and> n \<le> 57)"

fun matchAddresses :: "string \<Rightarrow> string list" where
  "matchAddresses [] = []"
| "matchAddresses (c # cs) =
     (if c = CHR ''G'' \<and> 55 \<le> length cs \<and> list_all addressChar (take 55 cs)
      then (c # take 55 cs) # matchAddresses (drop 55 cs)
      else matchAddresses cs)"

definition isParticipant :: "address \<Rightarrow> shipment \<Rightarrow> bool" where
  "isParticipant addr s \<longleftrightarrow> addr \<in> {buyerAddress s, supplierAddress s, logisticsAddress s, arbiterAddress s}"

definition buildVisibilityFilter :: "address \<Rightarrow> shipment \<Rightarrow> bool \<Rightarrow> commentVisibility list" where
  "buildVisibilityFilter addr s isAdmin =
     (if isAdmin then [VIS_ALL, VIS_BUYER_SUPPLIER, VIS_INTERNAL]
      else [VIS_ALL] @ (if addr = buyerAddress s \<or> addr = supplierAddress s then [VIS_BUYER_SUPPLIER] else []) @
        (if addr = logisticsAddress s \<or> addr = arbiterAddress s then [VIS_INTERNAL] else []))"

record commentAuthor =
  ca_id :: uuid
  ca_stellarAddress :: address
  ca_name :: "string option"
  ca_avatarUrl :: "string option"

definition formatAuthor :: "uuid \<Rightarrow> world \<Rightarrow> commentAuthor option" where
  "formatAuthor uid w = map_option (\<lambda>u. \<lparr>ca_id = u_id u, ca_stellarAddress = stellarAddress u, ca_name = u_name u,
     ca_avatarUrl = (if truthy (avatarCid u) then Some (''/api/v1/ipfs/'' @ the (avatarCid u)) else None)\<rparr>)
     (find (\<lambda>u. u_id u = uid) (users (db w)))"

text \<open>A comment as it is returned: a deleted one has lost its text and its attachment.\<close>

record shownComment =
  sc_comment :: shipmentComment
  sc_body :: "string option"
  sc_attachmentCid :: "string option"
  sc_deleted :: bool
  sc_author :: "commentAuthor option"
  sc_replyCount :: nat

definition redactIfDeleted :: "world \<Rightarrow> nat \<Rightarrow> shipmentComment \<Rightarrow> shownComment" where
  "redactIfDeleted w replies c =
     (let gone = (cm_deletedAt c \<noteq> None) in
      \<lparr>sc_comment = (if gone then c\<lparr>cm_body := [], cm_attachmentCid := None\<rparr> else c),
       sc_body = (if gone then None else Some (cm_body c)), sc_attachmentCid = (if gone then None else cm_attachmentCid c),
       sc_deleted = gone, sc_author = formatAuthor (cm_authorId c) w, sc_replyCount = replies\<rparr>)"

section \<open>Posting\<close>

record commentDto =
  cdt_body :: string
  cdt_visibility :: "commentVisibility option"
  cdt_attachmentCid :: "string option"
  cdt_parentCommentId :: "uuid option"
  cdt_milestoneIndex :: "int option"

definition eligibleAddresses :: "shipment \<Rightarrow> commentVisibility \<Rightarrow> address \<Rightarrow> address list" where
  "eligibleAddresses s v author = filter (\<lambda>a. a \<noteq> author) (setOf (
     (if v = VIS_ALL \<or> v = VIS_BUYER_SUPPLIER then [buyerAddress s, supplierAddress s] else []) @
     (if v = VIS_ALL \<or> v = VIS_INTERNAL then [logisticsAddress s, arbiterAddress s] else [])))"

definition notifyParticipants :: "env \<Rightarrow> shipment \<Rightarrow> shipmentComment \<Rightarrow> address \<Rightarrow> unit act" where
  "notifyParticipants e s c author = forEach (eligibleAddresses s (cm_visibility c) author) (\<lambda>a.
     ignore (notifyUser e a N_COMMENT_ADDED ''New comment on shipment''
       (JObj [(''shipmentId'', JStr (s_id s)), (''commentId'', JNum (int (cm_id c)))])))"

definition mentionedAddresses :: "string \<Rightarrow> shipment \<Rightarrow> address \<Rightarrow> address list" where
  "mentionedAddresses body s author = filter (\<lambda>a. isParticipant a s \<and> a \<noteq> author) (setOf (matchAddresses body))"

definition handleMentions :: "env \<Rightarrow> string \<Rightarrow> shipment \<Rightarrow> shipmentComment \<Rightarrow> address \<Rightarrow> address list act" where
  "handleMentions e body s c author =
     (let addrs = mentionedAddresses body s author in
      andThen (forEach addrs (\<lambda>a. ignore (notifyUserWithForcedEmail e a N_COMMENT_MENTION ''You were mentioned in a comment''
        [(''shipmentId'', JStr (s_id s)), (''commentId'', JNum (int (cm_id c))), (''mentionedBy'', JStr author)]))) (\<lambda>_.
      ret addrs))"

definition commentPayload :: "env \<Rightarrow> shipmentComment \<Rightarrow> address \<Rightarrow> json" where
  "commentPayload e c author = JObj [(''shipmentId'', JStr (cm_shipmentId c)), (''commentId'', JNum (int (cm_id c))),
     (''authorAddress'', JStr author), (''bodyExcerpt'', JStr (take COMMENT_EXCERPT_LENGTH (cm_body c))),
     (''createdAt'', JStr (isoString (cm_createdAt c)))]"

definition parentVisible :: "string \<Rightarrow> address \<Rightarrow> shipment \<Rightarrow> uuid \<Rightarrow> world \<Rightarrow> bool" where
  "parentVisible sid author s pid w \<longleftrightarrow> list_ex (\<lambda>c. cm_id c = pid \<and> cm_shipmentId c = sid \<and> cm_deletedAt c = None \<and>
     cm_visibility c \<in> set (buildVisibilityFilter author s False)) (shipmentComments (db w))"

definition createComment :: "hookLib \<Rightarrow> env \<Rightarrow> string \<Rightarrow> uuid \<Rightarrow> address \<Rightarrow> commentDto
    \<Rightarrow> (shipmentComment \<times> address list) act" where
  "createComment lib e sid authorId author dto =
     andThen (reads (findShipment sid)) (\<lambda>found.
     requireSome found NotFoundException (\<lambda>s.
     andThen (reads (canCommentOnShipment authorId s)) (\<lambda>viaOrg.
     require (isParticipant author s \<or> viaOrg) ForbiddenException (
     andThen (reads (\<lambda>w. case cdt_parentCommentId dto of None \<Rightarrow> True | Some pid \<Rightarrow> parentVisible sid author s pid w)) (\<lambda>parentOk.
     require parentOk NotFoundException (
     andThen (reads (\<lambda>w. case cdt_milestoneIndex dto of None \<Rightarrow> True | Some i \<Rightarrow> findLiveMilestone sid i w \<noteq> None)) (\<lambda>milestoneOk.
     require milestoneOk BadRequestException (
     andThen freshId (\<lambda>i.
     let c = \<lparr>cm_id = i, cm_shipmentId = sid, cm_authorId = authorId, cm_body = cdt_body dto,
           cm_visibility = given (cdt_visibility dto) VIS_ALL, cm_attachmentCid = cdt_attachmentCid dto, pinnedAt = None,
           parentCommentId = cdt_parentCommentId dto, cm_milestoneIndex = cdt_milestoneIndex dto, cm_createdAt = now e,
           cm_deletedAt = None\<rparr> in
     andThen (modifyDb (\<lambda>d. d\<lparr>shipmentComments := shipmentComments d @ [c]\<rparr>)) (\<lambda>_.
     andThen (attempt (dispatch lib e ''SHIPMENT_COMMENT_CREATED'' (commentPayload e c author)) (\<lambda>_. ret ())) (\<lambda>_.
     andThen (notifyParticipants e s c author) (\<lambda>_.
     andThen (handleMentions e (cdt_body dto) s c author) (\<lambda>mentioned.
     ret (c, mentioned))))))))))))))"

section \<open>Reading\<close>

definition loadForRead :: "string \<Rightarrow> address \<Rightarrow> (shipment \<times> bool) act" where
  "loadForRead sid addr =
     andThen (reads (findShipment sid)) (\<lambda>found.
     requireSome found NotFoundException (\<lambda>s.
     andThen (reads (findUser addr)) (\<lambda>requester.
     let isAdmin = (case requester of None \<Rightarrow> False | Some u \<Rightarrow> u_role u = ADMIN) in
     andThen (reads (\<lambda>w. case requester of None \<Rightarrow> False | Some u \<Rightarrow> canReadShipment (u_id u) s w)) (\<lambda>viaOrg.
     require (isAdmin \<or> isParticipant addr s \<or> viaOrg) ForbiddenException (
     ret (s, isAdmin))))))"

definition visibleReplies :: "commentVisibility list \<Rightarrow> uuid \<Rightarrow> world \<Rightarrow> shipmentComment list" where
  "visibleReplies vis pid w = filter (\<lambda>c. parentCommentId c = Some pid \<and> cm_deletedAt c = None \<and> cm_visibility c \<in> set vis)
     (shipmentComments (db w))"

text \<open>The roots: pinned ones first by their pin, then by age; a deleted root stays while it has a visible reply.\<close>

definition rootComments :: "string \<Rightarrow> commentVisibility list \<Rightarrow> int option \<Rightarrow> world \<Rightarrow> shipmentComment list" where
  "rootComments sid vis mi w =
     sort_key (\<lambda>c. (if pinnedAt c = None then 1 else 0 :: int)) (sort_key (\<lambda>c. given (pinnedAt c) 0) (sort_key cm_createdAt
       (filter (\<lambda>c. cm_shipmentId c = sid \<and> parentCommentId c = None \<and> (mi = None \<or> cm_milestoneIndex c = mi) \<and>
          cm_visibility c \<in> set vis \<and> (cm_deletedAt c = None \<or> visibleReplies vis (cm_id c) w \<noteq> [])) (shipmentComments (db w)))))"

definition findAllComments :: "string \<Rightarrow> address \<Rightarrow> nat \<Rightarrow> nat \<Rightarrow> int option \<Rightarrow> (shownComment list \<times> nat) act" where
  "findAllComments sid addr page limit mi =
     andThen (loadForRead sid addr) (\<lambda>(s, isAdmin).
     let vis = buildVisibilityFilter addr s isAdmin in
     reads (\<lambda>w. let roots = rootComments sid vis mi w in
       (map (\<lambda>c. redactIfDeleted w (length (visibleReplies vis (cm_id c) w)) c) (take limit (drop ((page - 1) * limit) roots)), length roots)))"

definition findReplies :: "string \<Rightarrow> uuid \<Rightarrow> address \<Rightarrow> nat \<Rightarrow> nat \<Rightarrow> (shownComment list \<times> nat) act" where
  "findReplies sid cid addr page limit =
     andThen (loadForRead sid addr) (\<lambda>(s, isAdmin).
     let vis = buildVisibilityFilter addr s isAdmin in
     andThen (reads (\<lambda>w. list_ex (\<lambda>c. cm_id c = cid \<and> cm_shipmentId c = sid \<and> cm_visibility c \<in> set vis) (shipmentComments (db w)))) (\<lambda>parent.
     require parent NotFoundException (
     reads (\<lambda>w. let rs = sort_key cm_createdAt (filter (\<lambda>c. cm_shipmentId c = sid) (visibleReplies vis cid w)) in
       (map (redactIfDeleted w 0) (take limit (drop ((page - 1) * limit) rs)), length rs)))))"

section \<open>Pinning and deleting\<close>

definition liveComment :: "string \<Rightarrow> uuid \<Rightarrow> world \<Rightarrow> shipmentComment option" where
  "liveComment sid cid w = find (\<lambda>c. cm_id c = cid \<and> cm_shipmentId c = sid \<and> cm_deletedAt c = None) (shipmentComments (db w))"

definition pinnedComments :: "string \<Rightarrow> db \<Rightarrow> shipmentComment list" where
  "pinnedComments sid d = filter (\<lambda>c. cm_shipmentId c = sid \<and> pinnedAt c \<noteq> None \<and> cm_deletedAt c = None) (shipmentComments d)"

definition updateComment :: "uuid \<Rightarrow> (shipmentComment \<Rightarrow> shipmentComment) \<Rightarrow> unit act" where
  "updateComment cid f = modifyDb (\<lambda>d. d\<lparr>shipmentComments := updateWhere (\<lambda>c. cm_id c = cid) f (shipmentComments d)\<rparr>)"

definition setPinned :: "env \<Rightarrow> string \<Rightarrow> uuid \<Rightarrow> bool \<Rightarrow> unit act" where
  "setPinned e sid cid pinned =
     andThen (reads (liveComment sid cid)) (\<lambda>found.
     requireSome found NotFoundException (\<lambda>c.
     require (\<not> (pinned \<and> cm_deletedAt c \<noteq> None)) BadRequestException (
     andThen (reads (\<lambda>w. length (pinnedComments sid (db w)))) (\<lambda>n.
     require (\<not> (pinned \<and> n \<ge> MAX_PINNED_COMMENTS)) ConflictException (
     updateComment cid (\<lambda>c. c\<lparr>pinnedAt := (if pinned then Some (now e) else None)\<rparr>))))))"

definition removeComment :: "env \<Rightarrow> string \<Rightarrow> uuid \<Rightarrow> uuid \<Rightarrow> address \<Rightarrow> unit act" where
  "removeComment e sid cid requesterId addr =
     andThen (reads (liveComment sid cid)) (\<lambda>found.
     requireSome found NotFoundException (\<lambda>c.
     andThen (reads (findUser addr)) (\<lambda>requester.
     require (cm_authorId c = requesterId \<or> (case requester of None \<Rightarrow> False | Some u \<Rightarrow> u_role u = ADMIN)) ForbiddenException (
     updateComment cid (\<lambda>c. c\<lparr>cm_deletedAt := Some (now e)\<rparr>)))))"

section \<open>Who sees what\<close>

text \<open>The rule of the three levels, for a reader of a shipment.\<close>

definition maySee :: "address \<Rightarrow> bool \<Rightarrow> shipment \<Rightarrow> commentVisibility \<Rightarrow> bool" where
  "maySee addr isAdmin s v \<longleftrightarrow> (case v of VIS_ALL \<Rightarrow> True
     | VIS_BUYER_SUPPLIER \<Rightarrow> isAdmin \<or> addr \<in> {buyerAddress s, supplierAddress s}
     | VIS_INTERNAL \<Rightarrow> isAdmin \<or> addr \<in> {logisticsAddress s, arbiterAddress s})"

definition adminAddress :: "address \<Rightarrow> world \<Rightarrow> bool" where
  "adminAddress addr w \<longleftrightarrow> (case findUser addr w of None \<Rightarrow> False | Some u \<Rightarrow> u_role u = ADMIN)"

definition hidesDeleted :: "shownComment \<Rightarrow> bool" where
  "hidesDeleted sc \<longleftrightarrow> cm_deletedAt (sc_comment sc) \<noteq> None \<longrightarrow>
     sc_body sc = None \<and> sc_attachmentCid sc = None \<and> cm_body (sc_comment sc) = [] \<and> cm_attachmentCid (sc_comment sc) = None"

lemma set_buildVisibilityFilter: "v \<in> set (buildVisibilityFilter addr s isAdmin) \<longleftrightarrow> maySee addr isAdmin s v"
  by (cases v) (auto simp: buildVisibilityFilter_def maySee_def)

lemma redact_shown [simp]:
  "cm_visibility (sc_comment (redactIfDeleted w n c)) = cm_visibility c"
  "cm_shipmentId (sc_comment (redactIfDeleted w n c)) = cm_shipmentId c"
  "hidesDeleted (redactIfDeleted w n c)"
  by (simp_all add: redactIfDeleted_def Let_def hidesDeleted_def)

lemma loadForRead_success:
  "loadForRead sid addr w = (Inr r, w') \<longleftrightarrow> (\<exists>s. w' = w \<and> findShipment sid w = Some s \<and> r = (s, adminAddress addr w) \<and>
     (adminAddress addr w \<or> isParticipant addr s \<or> (\<exists>u. findUser addr w = Some u \<and> canReadShipment (u_id u) s w)))"
  by (cases "findUser addr w") (auto simp: loadForRead_def adminAddress_def Let_def success_iffs)

lemma set_page: "x \<in> set (take n (drop m xs)) \<Longrightarrow> x \<in> set xs"
  by (meson in_set_dropD in_set_takeD)

text \<open>C30: a reader is shown a comment only when its level of visibility allows: the comments between buyer and supplier
  only to them, the internal ones only to the logistics provider and the arbiter, whichever of the two listings is asked
  and whatever page; administrators see all. Nobody sees anything of a shipment they have no part in, directly or
  through an organization, and a deleted comment is shown without its text and its attachment.\<close>

theorem comments_respect_visibility:
  assumes "findAllComments sid addr page limit mi w = (Inr (shown, n), w') \<or>
      findReplies sid cid addr page limit w = (Inr (shown, n), w')"
    and "sc \<in> set shown"
  shows "\<exists>s. findShipment sid w = Some s \<and> cm_shipmentId (sc_comment sc) = sid \<and>
      maySee addr (adminAddress addr w) s (cm_visibility (sc_comment sc)) \<and> hidesDeleted sc \<and>
      (adminAddress addr w \<or> isParticipant addr s \<or> (\<exists>u. findUser addr w = Some u \<and> canReadShipment (u_id u) s w))"
  using assms
  by (auto simp: findAllComments_def findReplies_def success_iffs loadForRead_success Let_def rootComments_def visibleReplies_def
      set_buildVisibilityFilter dest!: set_page)

section \<open>At most three pins\<close>

definition commentInv :: "world \<Rightarrow> bool" where
  "commentInv w \<longleftrightarrow> keysOk cm_id (shipmentComments (db w)) (nextId (db w)) \<and>
     (\<forall>sid. length (pinnedComments sid (db w)) \<le> MAX_PINNED_COMMENTS)"

lemma keeps_comment_frame:
  "(\<And>w. shipmentComments (db (snd (m w))) = shipmentComments (db w) \<and> nextId (db w) \<le> nextId (db (snd (m w)))) \<Longrightarrow> keeps commentInv m"
  by (auto simp: keeps_def commentInv_def pinnedComments_def intro: keysOk_mono)

lemma keeps_comment_db [keeps_intros]: "leaves db m \<Longrightarrow> keeps commentInv m"
  by (intro keeps_comment_frame) (simp add: leaves_def)

lemma keeps_comment_dispatch: "keeps commentInv (dispatch lib e ev payload)"
proof -
  have upd: "keeps commentInv (updateDelivery i f)" for i f
    by (intro keeps_comment_frame) (simp add: run_updateDelivery setDeliveries_def split: option.split)
  have post: "keeps commentInv (axiosPost lib url body hs)" for url body hs
    by (intro keeps_comment_frame) (simp add: run_axiosPost)
  have fresh: "keeps commentInv freshId" by (intro keeps_comment_frame) simp
  have row: "keeps commentInv (modifyDb (\<lambda>x. x\<lparr>webhookDeliveries := f x\<rparr>))" for f
    by (intro keeps_comment_frame) simp
  have metric: "keeps commentInv (recordDeliveryMetric st)" for st
    by (intro keeps_comment_frame) (simp add: recordDeliveryMetric_def)
  have "keeps commentInv (deliverOnce lib e ev payload ep)" for ep
    unfolding deliverOnce_def Let_def handleFailure_def
    by (intro keeps_andThen keeps_if keeps_ignore fresh row upd post metric) (auto split: postReply.split intro!: keeps_andThen keeps_if keeps_ignore upd metric)
  then show ?thesis unfolding dispatch_def allSettled_def
    by (intro keeps_andThen keeps_reads keeps_forEach keeps_attempt keeps_ret)
qed

lemma pinned_append: "pinnedAt c = None \<Longrightarrow> shipmentComments d' = shipmentComments d @ [c] \<Longrightarrow> pinnedComments sid d' = pinnedComments sid d"
  by (simp add: pinnedComments_def)

lemma commentInv_createComment: "commentInv w \<Longrightarrow> commentInv (snd (createComment lib e sid authorId author dto w))"
proof -
  have insert: "keeps commentInv (andThen freshId (\<lambda>i. andThen (modifyDb (\<lambda>d. d\<lparr>shipmentComments := shipmentComments d @ [c i]\<rparr>)) (\<lambda>_. k i)))"
    if "\<And>i. cm_id (c i) = i" "\<And>i. pinnedAt (c i) = None" "\<And>i. keeps commentInv (k i)" for c and k :: "uuid \<Rightarrow> 'b act"
  proof (rule keepsI)
    fix w assume "commentInv w"
    then have "commentInv (w\<lparr>db := (db w)\<lparr>nextId := Suc (nextId (db w)), shipmentComments := shipmentComments (db w) @ [c (nextId (db w))]\<rparr>\<rparr>)"
      using that(1,2) by (simp add: commentInv_def keysOk_append pinnedComments_def)
    then show "commentInv (snd (andThen freshId (\<lambda>i. andThen (modifyDb (\<lambda>d. d\<lparr>shipmentComments := shipmentComments d @ [c i]\<rparr>)) (\<lambda>_. k i)) w))"
      using keepsD [OF that(3)] by simp
  qed
  have rest: "leaves db (notifyParticipants e s c author)" "leaves db (handleMentions e body s c author)" for s c body
    unfolding notifyParticipants_def handleMentions_def Let_def
    by (intro leaves_intros; simp add: leaves_def notifyUserWithForcedEmail_def split: option.split)+
  have "keeps commentInv (createComment lib e sid authorId author dto)"
    unfolding createComment_def Let_def
    by (intro keeps_andThen [OF keeps_reads] keeps_requireSome keeps_require insert keeps_andThen [OF keeps_attempt]
        keeps_comment_dispatch keeps_andThen [OF keeps_comment_db] rest keeps_ret) simp_all
  then show "commentInv w \<Longrightarrow> commentInv (snd (createComment lib e sid authorId author dto w))" by (rule keepsD)
qed

text \<open>Changing the one row with a key adds at most one row to those that satisfy a condition.\<close>

lemma filter_update_one:
  assumes "distinct (map key xs)" and "\<And>x. key (f x) = key x"
  shows "length (filter p (updateWhere (\<lambda>x. key x = k) f xs)) \<le> Suc (length (filter p xs))"
  using assms(1)
proof (induction xs)
  case (Cons x xs)
  show ?case
  proof (cases "key x = k")
    case True
    then have "updateWhere (\<lambda>x. key x = k) f xs = xs" using Cons.prems by (intro updateWhere_none) (auto simp: rev_image_eqI)
    then show ?thesis using True by (simp add: updateWhere_def)
  next
    case False
    then show ?thesis using Cons by (simp add: updateWhere_def)
  qed
qed (simp add: updateWhere_def)

lemma filter_update_less:
  assumes "\<And>x. p (f x) \<Longrightarrow> p x"
  shows "length (filter p (updateWhere q f xs)) \<le> length (filter p xs)"
  using assms by (induction xs) (auto simp: updateWhere_def)

lemma run_updateComment: "updateComment cid f w =
    (Inr (), w\<lparr>db := (db w)\<lparr>shipmentComments := updateWhere (\<lambda>c. cm_id c = cid) f (shipmentComments (db w))\<rparr>\<rparr>)"
  by (simp add: updateComment_def)

lemma fewer_pins:
  assumes "commentInv w" "\<And>c. cm_id (f c) = cm_id c" "\<And>c. cm_shipmentId (f c) = cm_shipmentId c"
    "\<And>c. pinnedAt (f c) \<noteq> None \<and> cm_deletedAt (f c) = None \<Longrightarrow> pinnedAt c \<noteq> None \<and> cm_deletedAt c = None"
  shows "commentInv (snd (updateComment cid f w))"
proof -
  have "length (pinnedComments sid (db (snd (updateComment cid f w)))) \<le> length (pinnedComments sid (db w))" for sid
    
  proof -
    have "cm_shipmentId (f c) = sid \<and> pinnedAt (f c) \<noteq> None \<and> cm_deletedAt (f c) = None \<Longrightarrow>
        cm_shipmentId c = sid \<and> pinnedAt c \<noteq> None \<and> cm_deletedAt c = None" for c
      unfolding assms(3) using assms(4) [of c] by blast
    from filter_update_less [of "\<lambda>c. cm_shipmentId c = sid \<and> pinnedAt c \<noteq> None \<and> cm_deletedAt c = None", OF this]
    show ?thesis by (simp add: pinnedComments_def run_updateComment)
  qed
  moreover have "keysOk cm_id (shipmentComments (db (snd (updateComment cid f w)))) (nextId (db (snd (updateComment cid f w))))"
    using assms(1,2) by (simp add: run_updateComment commentInv_def keysOk_update)
  moreover have "length (pinnedComments sid (db w)) \<le> MAX_PINNED_COMMENTS" for sid using assms(1) by (simp add: commentInv_def)
  ultimately show ?thesis unfolding commentInv_def by (blast intro: le_trans)
qed

text \<open>Pinning a comment changes the pins of its own shipment only, by at most one.\<close>

lemma pin_one:
  assumes inv: "commentInv w" and c: "c \<in> set (shipmentComments (db w))" "cm_id c = cid" "cm_shipmentId c = sid"
    and f: "\<And>r. cm_id (f r) = cm_id r" "\<And>r. cm_shipmentId (f r) = cm_shipmentId r"
  shows "length (pinnedComments x (db (snd (updateComment cid f w)))) \<le> length (pinnedComments x (db w)) + (if x = sid then 1 else 0)"
proof (cases "x = sid")
  case True
  have "distinct (map cm_id (shipmentComments (db w)))" using inv by (simp add: commentInv_def keysOk_def)
  from filter_update_one [OF this f(1)] True show ?thesis by (simp add: pinnedComments_def run_updateComment)
next
  case False
  have "cm_shipmentId r = sid" if "r \<in> set (shipmentComments (db w))" "cm_id r = cid" for r
    using inv c that by (auto simp: commentInv_def keysOk_def distinct_map dest: inj_onD)
  then have "filter (\<lambda>c. cm_shipmentId c = x \<and> pinnedAt c \<noteq> None \<and> cm_deletedAt c = None) (updateWhere (\<lambda>c. cm_id c = cid) f cs) =
      filter (\<lambda>c. cm_shipmentId c = x \<and> pinnedAt c \<noteq> None \<and> cm_deletedAt c = None) cs"
    if "set cs \<subseteq> set (shipmentComments (db w))" for cs
    using that False f(2) by (induction cs) (auto simp: updateWhere_def)
  from this [of "shipmentComments (db w)"] False show ?thesis by (simp add: pinnedComments_def run_updateComment)
qed

lemma commentInv_setPinned: "commentInv w \<Longrightarrow> commentInv (snd (setPinned e sid cid pinned w))"
proof (cases "\<exists>c. liveComment sid cid w = Some c \<and> \<not> (pinned \<and> length (pinnedComments sid (db w)) \<ge> MAX_PINNED_COMMENTS)")
  case False
  assume "commentInv w"
  with False show ?thesis by (auto simp: setPinned_def andThen_def requireSome_def require_def split: option.splits)
next
  case True
  assume inv: "commentInv w"
  from True obtain c where c: "liveComment sid cid w = Some c" "pinned \<Longrightarrow> length (pinnedComments sid (db w)) < MAX_PINNED_COMMENTS"
    by auto
  have live: "c \<in> set (shipmentComments (db w))" "cm_id c = cid" "cm_shipmentId c = sid" "cm_deletedAt c = None"
    using find_Some_prop [OF c(1) [unfolded liveComment_def]] by auto
  let ?f = "\<lambda>c. c\<lparr>pinnedAt := (if pinned then Some (now e) else None)\<rparr>"
  have run: "snd (setPinned e sid cid pinned w) = snd (updateComment cid ?f w)"
    using c live by (auto simp: setPinned_def andThen_def)
  show ?thesis
  proof (cases pinned)
    case False
    then show ?thesis unfolding run by (intro fewer_pins inv) simp_all
  next
    case True
    have "length (pinnedComments x (db (snd (updateComment cid ?f w)))) \<le> MAX_PINNED_COMMENTS" for x
      using pin_one [OF inv live(1,2,3), of ?f x] c(2) [OF True] inv by (cases "x = sid") (auto simp: commentInv_def intro: le_trans)
    then show ?thesis using inv unfolding run by (simp add: commentInv_def run_updateComment keysOk_update)
  qed
qed

lemma commentInv_removeComment: "commentInv w \<Longrightarrow> commentInv (snd (removeComment e sid cid uid addr w))"
  unfolding removeComment_def
  by (rule keepsD, intro keeps_andThen [OF keeps_reads] keeps_requireSome keeps_require keepsI fewer_pins) simp_all

datatype commentCall =
    CreateComment hookLib env string uuid address commentDto
  | SetPinned env string uuid bool
  | RemoveComment env string uuid uuid address

fun commentStep :: "commentCall \<Rightarrow> world \<Rightarrow> world" where
  "commentStep (CreateComment lib e sid authorId author dto) w = snd (createComment lib e sid authorId author dto w)"
| "commentStep (SetPinned e sid cid pinned) w = snd (setPinned e sid cid pinned w)"
| "commentStep (RemoveComment e sid cid uid addr) w = snd (removeComment e sid cid uid addr w)"

interpretation comments: step_system commentStep commentInv
proof
  show "commentInv (commentStep l w)" if "commentInv w" for l w
    using that by (cases l) (simp_all add: commentInv_createComment commentInv_setPinned commentInv_removeComment)
qed


definition comment0 :: "uuid \<Rightarrow> commentVisibility \<Rightarrow> shipmentComment" where
  "comment0 i v = \<lparr>cm_id = i, cm_shipmentId = ''s'', cm_authorId = 1, cm_body = ''text'', cm_visibility = v,
     cm_attachmentCid = None, pinnedAt = None, parentCommentId = None, cm_milestoneIndex = None, cm_createdAt = 5, cm_deletedAt = None\<rparr>"

definition commentWorld :: world where
  "commentWorld = emptyWorld\<lparr>db := emptyDb\<lparr>users := [user0 1 ''GL'', user0 2 ''GB''], shipments := [shipment0 ''s''],
     shipmentComments := [comment0 1 VIS_INTERNAL, comment0 2 VIS_ALL, comment0 3 VIS_ALL, comment0 4 VIS_ALL, comment0 5 VIS_ALL]\<rparr>\<rparr>"

lemmas comment_concrete = commentWorld_def comment0_def concrete_defs


theorem comments_respect_visibility_witness:
  "\<exists>s. findShipment ''s'' commentWorld = Some s \<and> cm_shipmentId (comment0 1 VIS_INTERNAL) = ''s'' \<and>
     maySee ''GL'' (adminAddress ''GL'' commentWorld) s VIS_INTERNAL"
proof -
  let ?sc = "redactIfDeleted commentWorld 0 (comment0 1 VIS_INTERNAL)"
  have "findAllComments ''s'' ''GL'' 1 1 None commentWorld = (Inr ([?sc], 5), commentWorld)"
    by (simp add: findAllComments_def loadForRead_def buildVisibilityFilter_def isParticipant_def rootComments_def visibleReplies_def
        findShipment_def findUser_def andThen_def Let_def comment_concrete)
  then have "findAllComments ''s'' ''GL'' 1 1 None commentWorld = (Inr ([?sc], 5), commentWorld) \<or>
      findReplies ''s'' 1 ''GL'' 1 1 commentWorld = (Inr ([?sc], 5), commentWorld)" ..
  from comments_respect_visibility [OF this, of ?sc] show ?thesis by (auto simp: comment0_def)
qed

section \<open>Where private comments get out\<close>

text \<open>
  The webhook of a new comment goes to every active endpoint subscribed to the event, whoever owns it, with the first
  two hundred characters of the text, whatever the visibility of the comment.
\<close>

lemma private_comment_reaches_every_subscriber:
  assumes "hookInv w" and "createComment lib e sid authorId author dto w = (Inr (c, mentioned), w')"
    and "ep \<in> set (subscribers ''SHIPMENT_COMMENT_CREATED'' w)"
  shows "\<exists>d \<in> set (webhookDeliveries (db w')). wd_endpointId d = we_id ep \<and> wd_payload d = commentPayload e c author \<and>
    cm_visibility c = given (cdt_visibility dto) VIS_ALL"
proof -
  let ?w = "w\<lparr>db := (db w)\<lparr>nextId := Suc (nextId (db w)), shipmentComments := shipmentComments (db w) @ [c]\<rparr>\<rparr>"
  have rest: "leaves db (notifyParticipants e s c author)" "leaves db (handleMentions e body s c author)" for s body
    unfolding notifyParticipants_def handleMentions_def Let_def
    by (intro leaves_intros; simp add: leaves_def notifyUserWithForcedEmail_def split: option.split)+
  obtain s w1 w2 where w1: "attempt (dispatch lib e ''SHIPMENT_COMMENT_CREATED'' (commentPayload e c author)) (\<lambda>_. ret ()) ?w = (Inr (), w1)"
    "notifyParticipants e s c author w1 = (Inr (), w2)" "handleMentions e (cdt_body dto) s c author w2 = (Inr mentioned, w')"
    and vis: "cm_visibility c = given (cdt_visibility dto) VIS_ALL"
    using assms(2) by (auto simp: createComment_def Let_def success_iffs)
  have "db w' = db w1" using leaves_run [OF rest(1) w1(2)] leaves_run [OF rest(2) w1(3)] by simp
  moreover have "hookInv ?w" using assms(1) by (auto simp: hookInv_def findEndpoint_def)
  moreover have "db w1 = db (snd (dispatch lib e ''SHIPMENT_COMMENT_CREATED'' (commentPayload e c author) ?w))"
    using w1(1) by (auto simp: attempt_def split: prod.splits sum.splits)
  moreover have "subscribers ''SHIPMENT_COMMENT_CREATED'' ?w = subscribers ''SHIPMENT_COMMENT_CREATED'' w" by (simp add: subscribers_def)
  ultimately obtain ds where ds: "webhookDeliveries (db w') = webhookDeliveries (db ?w) @ ds"
    "map wd_endpointId ds = map we_id (subscribers ''SHIPMENT_COMMENT_CREATED'' w)" "\<forall>d \<in> set ds. wd_payload d = commentPayload e c author"
    using dispatch_rows [of ?w lib e "''SHIPMENT_COMMENT_CREATED''" "commentPayload e c author"] by auto
  have "we_id ep \<in> set (map wd_endpointId ds)" unfolding ds(2) using assms(3) by simp
  then obtain d where "d \<in> set ds" "wd_endpointId d = we_id ep" by auto
  then show ?thesis using ds(1,3) vis by (intro bexI [of _ d]) auto
qed

text \<open>A mention notifies a participant who may not see the comment: nothing compares the mention with the visibility.\<close>

lemma mention_ignores_visibility:
  "mentionedAddresses (''G'' @ replicate 55 CHR ''A'') (shipment0 ''s''\<lparr>buyerAddress := ''G'' @ replicate 55 CHR ''A''\<rparr>) ''GL'' =
     [''G'' @ replicate 55 CHR ''A''] \<and>
   \<not> maySee (''G'' @ replicate 55 CHR ''A'') False (shipment0 ''s''\<lparr>buyerAddress := ''G'' @ replicate 55 CHR ''A''\<rparr>) VIS_INTERNAL"
  by code_simp

end
