(* ===== verification/Archival.thy ===== *)
theory Archival
  imports Job_Tracker
begin

text \<open>
  Cold storage (\<open>src/src/modules/shipments/shipment-archival.job.ts\<close>): closed shipments that have rested for the
  retention period move to \<open>archived_shipments\<close> with a snapshot of their relations. The loop over the batches need not end,
  so it is a partial function whose value is \<open>None\<close> when it does not; the lemmas say exactly when it ends and what
  it has done then. The foreign keys decide what a deletion takes along. Registration with the scheduler is left out,
  and the work happens at one instant, so the lock does not expire meanwhile.
\<close>

section \<open>The job\<close>

definition ARCHIVAL_LOCK_KEY :: string where
  "ARCHIVAL_LOCK_KEY = ''chainsettle:shipment-archival:lock''"

definition ARCHIVAL_LOCK_TTL_MS :: int where
  "ARCHIVAL_LOCK_TTL_MS = 10 * 60 * 1000"

definition ARCHIVAL_BATCH_SIZE :: nat where
  "ARCHIVAL_BATCH_SIZE = 50"

text \<open>A candidate with the relations the query includes.\<close>

definition snapshotOf :: "db \<Rightarrow> shipment \<Rightarrow> shipmentSnapshot" where
  "snapshotOf d s =
     (let ms = filter (\<lambda>m. m_shipmentId m = s_id s) (milestones d) in
      \<lparr>snap_shipment = s,
       snap_milestones = sort_key milestoneIndex ms,
       snap_evidence = filter (\<lambda>x. e_milestoneId x \<in> m_id ` set ms) (disputeEvidence d),
       snap_proofs = filter (\<lambda>x. p_milestoneId x \<in> m_id ` set ms) (proofSubmissions d),
       snap_events = sort_key ce_ledger (filter (\<lambda>x. ce_shipmentId x = Some (s_id s)) (chainEvents d)),
       snap_comments = filter (\<lambda>x. cm_shipmentId x = s_id s) (shipmentComments d),
       snap_notes = filter (\<lambda>x. sn_shipmentId x = s_id s) (shipmentNotes d),
       snap_tracking = sort_key tr_createdAt (filter (\<lambda>x. tr_shipmentId x = s_id s) (trackingUpdates d)),
       snap_watchers = filter (\<lambda>x. w_shipmentId x = s_id s) (watchers d)\<rparr>)"

definition closedBefore :: "time \<Rightarrow> shipment \<Rightarrow> bool" where
  "closedBefore cutoff s \<longleftrightarrow> s_status s \<in> {COMPLETED, CANCELLED} \<and> s_updatedAt s \<le> cutoff"

definition archivalBatch :: "time \<Rightarrow> db \<Rightarrow> shipment list" where
  "archivalBatch cutoff d = take ARCHIVAL_BATCH_SIZE (sort_key s_updatedAt (filter (closedBefore cutoff) (shipments d)))"

definition terminalAt :: "shipmentSnapshot \<Rightarrow> time" where
  "terminalAt snap = (case cancelledAt (snap_shipment snap) of
      Some t \<Rightarrow> t
    | None \<Rightarrow> (case rev (sort (List.map_filter confirmedAt (snap_milestones snap))) of
        t # _ \<Rightarrow> t
      | [] \<Rightarrow> s_updatedAt (snap_shipment snap)))"

definition upsertArchived :: "env \<Rightarrow> shipmentSnapshot \<Rightarrow> archivedShipment list \<Rightarrow> archivedShipment list" where
  "upsertArchived e snap rows =
     (let s = snap_shipment snap in
      if list_ex (\<lambda>r. as_id r = s_id s) rows
      then updateWhere (\<lambda>r. as_id r = s_id s) (\<lambda>r. r\<lparr>as_status := s_status s, as_terminalAt := terminalAt snap,
             as_payload := snap, as_archivedAt := now e\<rparr>) rows
      else rows @ [\<lparr>as_id = s_id s, as_status = s_status s, as_buyerAddress = buyerAddress s,
             as_supplierAddress = supplierAddress s, as_logisticsAddress = logisticsAddress s, as_arbiterAddress = arbiterAddress s,
             as_referenceNumber = referenceNumber s, as_terminalAt = terminalAt snap, as_archivedAt = now e, as_payload = snap\<rparr>])"

text \<open>The two deletions of the transaction, with the rows that cascade.\<close>

definition deleteMilestonesOf :: "string \<Rightarrow> db \<Rightarrow> db" where
  "deleteMilestonesOf sid d =
     (let gone = m_id ` set (filter (\<lambda>m. m_shipmentId m = sid) (milestones d)) in
      d\<lparr>milestones := filter (\<lambda>m. m_shipmentId m \<noteq> sid) (milestones d),
        disputeEvidence := filter (\<lambda>x. e_milestoneId x \<notin> gone) (disputeEvidence d),
        proofSubmissions := filter (\<lambda>x. p_milestoneId x \<notin> gone) (proofSubmissions d),
        checklistItems := filter (\<lambda>x. c_milestoneId x \<notin> gone) (checklistItems d),
        extensionRequests := filter (\<lambda>x. x_milestoneId x \<notin> gone) (extensionRequests d),
        settlementProposals := filter (\<lambda>x. sp_milestoneId x \<notin> gone) (settlementProposals d)\<rparr>)"

definition deleteShipment :: "string \<Rightarrow> db \<Rightarrow> db" where
  "deleteShipment sid d =
     d\<lparr>shipments := filter (\<lambda>s. s_id s \<noteq> sid) (shipments d),
       shipmentComments := filter (\<lambda>x. cm_shipmentId x \<noteq> sid) (shipmentComments d),
       shipmentNotes := filter (\<lambda>x. sn_shipmentId x \<noteq> sid) (shipmentNotes d),
       trackingUpdates := filter (\<lambda>x. tr_shipmentId x \<noteq> sid) (trackingUpdates d),
       watchers := filter (\<lambda>x. w_shipmentId x \<noteq> sid) (watchers d),
       favorites := filter (\<lambda>x. f_shipmentId x \<noteq> sid) (favorites d),
       approvals := filter (\<lambda>x. ap_shipmentId x \<noteq> sid) (approvals d),
       shipmentReminders := filter (\<lambda>x. sr_shipmentId x \<noteq> sid) (shipmentReminders d)\<rparr>"

definition moveToCold :: "env \<Rightarrow> shipmentSnapshot \<Rightarrow> db \<Rightarrow> db" where
  "moveToCold e snap d =
     (let sid = s_id (snap_shipment snap);
          d1 = d\<lparr>archivedShipments := upsertArchived e snap (archivedShipments d)\<rparr>;
          d2 = d1\<lparr>chainEvents := updateWhere (\<lambda>x. ce_shipmentId x = Some sid) (\<lambda>x. x\<lparr>ce_shipmentId := None\<rparr>) (chainEvents d1)\<rparr>
      in deleteShipment sid (deleteMilestonesOf sid d2))"

definition archiveOne :: "env \<Rightarrow> time \<Rightarrow> shipmentSnapshot \<Rightarrow> nat \<times> db \<Rightarrow> nat \<times> db" where
  "archiveOne e cutoff snap = (\<lambda>(n, d). if terminalAt snap > cutoff then (n, d) else (Suc n, moveToCold e snap d))"

partial_function (option) archivalLoop :: "env \<Rightarrow> time \<Rightarrow> nat \<times> db \<Rightarrow> (nat \<times> db) option" where
  "archivalLoop e cutoff st =
     (let candidates = map (snapshotOf (snd st)) (archivalBatch cutoff (snd st)); st' = fold (archiveOne e cutoff) candidates st in
      if candidates = [] then Some st
      else if length candidates < ARCHIVAL_BATCH_SIZE then Some st'
      else archivalLoop e cutoff st')"

definition archivalCutoff :: "env \<Rightarrow> int \<Rightarrow> time" where
  "archivalCutoff e days = now e - days * 24 * 60 * 60 * 1000"

definition runArchival :: "env \<Rightarrow> int \<Rightarrow> world \<Rightarrow> world option" where
  "runArchival e days w =
     (case acquireLock (now e) ARCHIVAL_LOCK_KEY (randomUuid e) ARCHIVAL_LOCK_TTL_MS (redis w) of
        (False, r) \<Rightarrow> Some (w\<lparr>redis := r\<rparr>)
      | (True, r) \<Rightarrow> map_option (\<lambda>st. w\<lparr>db := snd st, redis := releaseLock (now e) ARCHIVAL_LOCK_KEY (randomUuid e) r\<rparr>)
          (archivalLoop e (archivalCutoff e days) (0, db w)))"

section \<open>One shipment\<close>

text \<open>Closed for long enough, and closed early but with an end that is too recent.\<close>

definition restedIn :: "db \<Rightarrow> time \<Rightarrow> shipment \<Rightarrow> bool" where
  "restedIn d cutoff s \<longleftrightarrow> closedBefore cutoff s \<and> terminalAt (snapshotOf d s) \<le> cutoff"

definition heldBack :: "db \<Rightarrow> time \<Rightarrow> shipment list" where
  "heldBack d cutoff = filter (\<lambda>s. closedBefore cutoff s \<and> \<not> terminalAt (snapshotOf d s) \<le> cutoff) (shipments d)"

lemma moveToCold_tables [simp]:
  "shipments (moveToCold e snap d) = filter (\<lambda>s. s_id s \<noteq> s_id (snap_shipment snap)) (shipments d)"
  "milestones (moveToCold e snap d) = filter (\<lambda>m. m_shipmentId m \<noteq> s_id (snap_shipment snap)) (milestones d)"
  "archivedShipments (moveToCold e snap d) = upsertArchived e snap (archivedShipments d)"
  by (simp_all add: moveToCold_def deleteShipment_def deleteMilestonesOf_def Let_def)

lemma snap_shipment_snapshotOf [simp]: "snap_shipment (snapshotOf d s) = s"
  by (simp add: snapshotOf_def Let_def)

lemma filter_updateWhere_other:
  assumes "\<And>x. q x \<Longrightarrow> \<not> p x" "\<And>x. q x \<Longrightarrow> \<not> p (f x)"
  shows "filter p (updateWhere q f xs) = filter p xs"
  using assms by (induction xs) (auto simp: updateWhere_def)

lemma other_milestones:
  assumes "distinct (map m_id (milestones d))" "sid \<noteq> sid'"
  shows "m_id ` set (filter (\<lambda>m. m_shipmentId m = sid) (milestones d)) \<inter> m_id ` set (filter (\<lambda>m. m_shipmentId m = sid') (milestones d)) = {}"
  using assms by (auto simp: distinct_map dest: inj_onD)

text \<open>Moving one shipment away leaves the snapshots of the others as they are.\<close>

lemma snapshot_moveToCold:
  assumes "distinct (map m_id (milestones d))" and "s_id s \<noteq> s_id (snap_shipment snap)"
  shows "snapshotOf (moveToCold e snap d) s = snapshotOf d s"
proof -
  let ?sid = "s_id (snap_shipment snap)"
  have ms: "filter (\<lambda>m. m_shipmentId m = s_id s) (filter (\<lambda>m. m_shipmentId m \<noteq> ?sid) (milestones d)) =
      filter (\<lambda>m. m_shipmentId m = s_id s) (milestones d)"
    using assms(2) by (auto intro: filter_cong)
  have gone: "k \<in> m_id ` set (filter (\<lambda>m. m_shipmentId m = s_id s) (milestones d)) \<Longrightarrow>
      k \<notin> m_id ` set (filter (\<lambda>m. m_shipmentId m = ?sid) (milestones d))" for k
    using other_milestones [OF assms] by blast
  have "filter (\<lambda>x. key x \<in> m_id ` set (filter (\<lambda>m. m_shipmentId m = s_id s) (milestones d)))
        (filter (\<lambda>x. key x \<notin> m_id ` set (filter (\<lambda>m. m_shipmentId m = ?sid) (milestones d))) xs) =
      filter (\<lambda>x. key x \<in> m_id ` set (filter (\<lambda>m. m_shipmentId m = s_id s) (milestones d))) xs"
    for key :: "'x \<Rightarrow> uuid" and xs
    unfolding filter_filter by (intro filter_cong refl) (use gone in blast)
  note rows = this
  have events: "filter (\<lambda>x. ce_shipmentId x = Some (s_id s)) (updateWhere (\<lambda>x. ce_shipmentId x = Some ?sid) (\<lambda>x. x\<lparr>ce_shipmentId := None\<rparr>) xs) =
      filter (\<lambda>x. ce_shipmentId x = Some (s_id s)) xs" for xs
    using assms(2) by (intro filter_updateWhere_other) auto
  have "filter (\<lambda>x. key x = s_id s) (filter (\<lambda>x. key x \<noteq> ?sid) xs) = filter (\<lambda>x. key x = s_id s) xs" for key :: "'y \<Rightarrow> string" and xs
    using assms(2) unfolding filter_filter by (intro filter_cong refl) auto
  note simple = this
  show ?thesis
    by (simp add: snapshotOf_def moveToCold_def deleteShipment_def deleteMilestonesOf_def Let_def ms rows events simple del: set_filter filter_filter)
qed

section \<open>The loop\<close>

text \<open>
  The states of the loop that starts in \<open>d0\<close>: the shipments with the identifiers \<open>A\<close> have been moved, each with the snapshot it
  had at the start, and the others are as they were.
\<close>

definition archivedFrom :: "db \<Rightarrow> time \<Rightarrow> string set \<Rightarrow> db \<Rightarrow> bool" where
  "archivedFrom d0 cutoff A d \<longleftrightarrow>
     A \<subseteq> s_id ` {s \<in> set (shipments d0). restedIn d0 cutoff s} \<and>
     shipments d = filter (\<lambda>s. s_id s \<notin> A) (shipments d0) \<and>
     distinct (map m_id (milestones d)) \<and>
     (\<forall>s \<in> set (shipments d). snapshotOf d s = snapshotOf d0 s) \<and>
     (\<forall>s \<in> set (shipments d0). s_id s \<in> A \<longrightarrow> (\<exists>r \<in> set (archivedShipments d). as_id r = s_id s \<and> as_payload r = snapshotOf d0 s))"

definition keysOfClosed :: "db \<Rightarrow> bool" where
  "keysOfClosed d \<longleftrightarrow> distinct (map s_id (shipments d)) \<and> distinct (map m_id (milestones d))"

lemma archivedFrom_start: "keysOfClosed d \<Longrightarrow> archivedFrom d cutoff {} d"
  by (simp add: archivedFrom_def keysOfClosed_def)

lemma upsert_new: "\<exists>r \<in> set (upsertArchived e snap rows). as_id r = s_id (snap_shipment snap) \<and> as_payload r = snap"
proof (cases "list_ex (\<lambda>r. as_id r = s_id (snap_shipment snap)) rows")
  case True
  then obtain r where "r \<in> set rows" "as_id r = s_id (snap_shipment snap)" by (auto simp: list_ex_iff)
  then have "r\<lparr>as_status := s_status (snap_shipment snap), as_terminalAt := terminalAt snap, as_payload := snap, as_archivedAt := now e\<rparr>
      \<in> set (upsertArchived e snap rows)"
    using True by (auto simp: upsertArchived_def updateWhere_def Let_def)
  then show ?thesis using \<open>as_id r = _\<close> by (intro bexI) auto
qed (auto simp: upsertArchived_def Let_def)

lemma upsert_others:
  assumes "r \<in> set rows" "as_id r \<noteq> s_id (snap_shipment snap)"
  shows "r \<in> set (upsertArchived e snap rows)"
  using assms by (force simp: upsertArchived_def updateWhere_def Let_def)

lemma same_id:
  "keysOfClosed d \<Longrightarrow> s \<in> set (shipments d) \<Longrightarrow> t \<in> set (shipments d) \<Longrightarrow> s_id s = s_id t \<Longrightarrow> s = t"
  by (auto simp: keysOfClosed_def distinct_map dest: inj_onD)

lemma archivedFrom_move:
  assumes k: "keysOfClosed d0" and d: "archivedFrom d0 cutoff A d" and s: "s \<in> set (shipments d)" "restedIn d0 cutoff s"
  shows "archivedFrom d0 cutoff (insert (s_id s) A) (moveToCold e (snapshotOf d0 s) d)" (is "archivedFrom _ _ _ ?d")
proof -
  have s0: "s \<in> set (shipments d0)" using d s by (simp add: archivedFrom_def)
  have ships: "shipments ?d = filter (\<lambda>t. s_id t \<notin> insert (s_id s) A) (shipments d0)"
    using d by (auto simp: archivedFrom_def intro: filter_cong)
  have "snapshotOf ?d t = snapshotOf d0 t" if "t \<in> set (shipments ?d)" for t
    using that d by (subst snapshot_moveToCold) (auto simp: archivedFrom_def)
  moreover have "\<exists>r \<in> set (archivedShipments ?d). as_id r = s_id t \<and> as_payload r = snapshotOf d0 t"
    if t: "t \<in> set (shipments d0)" "s_id t \<in> insert (s_id s) A" for t
  proof (cases "s_id t = s_id s")
    case True
    then have "t = s" using same_id [OF k t(1) s0] by simp
    then show ?thesis using upsert_new [of e "snapshotOf d0 s" "archivedShipments d"] by simp
  next
    case False
    then obtain r where r: "r \<in> set (archivedShipments d)" "as_id r = s_id t" "as_payload r = snapshotOf d0 t"
      using t d by (auto simp: archivedFrom_def)
    then have "r \<in> set (archivedShipments ?d)" using False by (simp add: upsert_others)
    with r show ?thesis by blast
  qed
  ultimately show ?thesis using d s s0 ships by (simp add: archivedFrom_def distinct_map_filter)
qed

lemma archivedFrom_batch:
  assumes k: "keysOfClosed d0" and d: "archivedFrom d0 cutoff A (snd st)" and ss: "set ss \<subseteq> set (shipments (snd st))"
    "distinct (map s_id ss)" "\<forall>s \<in> set ss. closedBefore cutoff s"
  shows "archivedFrom d0 cutoff (A \<union> s_id ` {s \<in> set ss. restedIn d0 cutoff s})
    (snd (fold (archiveOne e cutoff) (map (snapshotOf d0) ss) st))"
  using d ss
proof (induction ss arbitrary: st A)
  case (Cons s ss)
  obtain n d where st: "st = (n, d)" by (cases st)
  show ?case
  proof (cases "restedIn d0 cutoff s")
    case False
    then have "archiveOne e cutoff (snapshotOf d0 s) st = st" "{t \<in> set (s # ss). restedIn d0 cutoff t} = {t \<in> set ss. restedIn d0 cutoff t}"
      using Cons.prems by (auto simp: archiveOne_def st restedIn_def)
    then show ?thesis using Cons by simp
  next
    case True
    let ?d = "moveToCold e (snapshotOf d0 s) d"
    have d': "archivedFrom d0 cutoff (insert (s_id s) A) ?d"
      using Cons.prems st by (intro archivedFrom_move [OF k _ _ True]) auto
    have "set ss \<subseteq> set (shipments ?d)" using Cons.prems(2,3) st by (auto simp: image_iff)
    moreover have "archiveOne e cutoff (snapshotOf d0 s) st = (Suc n, ?d)" using True by (simp add: archiveOne_def st restedIn_def)
    moreover have "insert (s_id s) A \<union> s_id ` {t \<in> set ss. restedIn d0 cutoff t} = A \<union> s_id ` {t \<in> set (s # ss). restedIn d0 cutoff t}"
      using True by auto
    ultimately show ?thesis using Cons.IH [of "insert (s_id s) A" "(Suc n, ?d)"] Cons.prems d' by simp
  qed
qed simp

lemma set_batch: "set (archivalBatch cutoff d) \<subseteq> {s \<in> set (shipments d). closedBefore cutoff s}"
  using set_take_subset by (fastforce simp: archivalBatch_def)

lemma length_batch: "length (archivalBatch cutoff d) = min ARCHIVAL_BATCH_SIZE (length (filter (closedBefore cutoff) (shipments d)))"
  by (simp add: archivalBatch_def min.commute)

lemma full_batch: "length (archivalBatch cutoff d) < ARCHIVAL_BATCH_SIZE \<Longrightarrow> set (archivalBatch cutoff d) = {s \<in> set (shipments d). closedBefore cutoff s}"
  by (auto simp: archivalBatch_def)

lemma distinct_batch: "distinct (map s_id (shipments d)) \<Longrightarrow> distinct (map s_id (archivalBatch cutoff d))"
  by (auto simp: archivalBatch_def distinct_map take_map [symmetric] inj_on_def dest: in_set_takeD intro: distinct_take)

text \<open>One round of the loop, from a state of the run.\<close>

lemma archival_round:
  assumes k: "keysOfClosed d0" and d: "archivedFrom d0 cutoff A (snd st)"
  shows "archivedFrom d0 cutoff (A \<union> s_id ` {s \<in> set (archivalBatch cutoff (snd st)). restedIn d0 cutoff s})
    (snd (fold (archiveOne e cutoff) (map (snapshotOf (snd st)) (archivalBatch cutoff (snd st))) st))"
proof -
  have "map (snapshotOf (snd st)) (archivalBatch cutoff (snd st)) = map (snapshotOf d0) (archivalBatch cutoff (snd st))"
    using d set_batch [of cutoff "snd st"] by (auto simp: archivedFrom_def)
  moreover have "distinct (map s_id (shipments (snd st)))" using d k by (simp add: archivedFrom_def keysOfClosed_def distinct_map_filter)
  ultimately show ?thesis using set_batch [of cutoff "snd st"]
    by (simp only:) (intro archivedFrom_batch k d distinct_batch; blast)
qed

text \<open>Those held back stay, so that a full batch of them comes again and again.\<close>

lemma heldBack_stay:
  assumes k: "keysOfClosed d0" and d: "archivedFrom d0 cutoff A d"
  shows "heldBack d0 cutoff = filter (\<lambda>s. \<not> restedIn d0 cutoff s) (filter (closedBefore cutoff) (shipments d))"
proof -
  have "s_id s \<notin> A" if s: "s \<in> set (shipments d0)" "\<not> restedIn d0 cutoff s" for s
  proof
    assume "s_id s \<in> A"
    then obtain t where "t \<in> set (shipments d0)" "restedIn d0 cutoff t" "s_id s = s_id t" using d by (auto simp: archivedFrom_def)
    then show False using same_id [OF k s(1)] s(2) by blast
  qed
  moreover have "shipments d = filter (\<lambda>s. s_id s \<notin> A) (shipments d0)" using d by (simp add: archivedFrom_def)
  ultimately show ?thesis unfolding heldBack_def by (simp only: filter_filter) (intro filter_cong refl, auto simp: restedIn_def)
qed

lemma left_over:
  assumes "archivedFrom d0 cutoff (A \<union> s_id ` {s \<in> set (archivalBatch cutoff d). restedIn d0 cutoff s}) d'"
    and "archivedFrom d0 cutoff A d" and "length (archivalBatch cutoff d) < ARCHIVAL_BATCH_SIZE" and "s \<in> set (shipments d')"
  shows "\<not> restedIn d0 cutoff s"
  using assms full_batch [OF assms(3)] by (auto simp: archivedFrom_def restedIn_def)

text \<open>What a run that ends has done.\<close>

lemma archivalLoop_result:
  assumes k: "keysOfClosed d0" and d: "archivedFrom d0 cutoff A (snd st)" and run: "archivalLoop e cutoff st = Some st'"
  shows "\<exists>A'. archivedFrom d0 cutoff A' (snd st') \<and> (\<forall>s \<in> set (shipments (snd st')). \<not> restedIn d0 cutoff s)"
proof (rule archivalLoop.raw_induct [where P = "\<lambda>e' cutoff' st st'. cutoff' = cutoff \<longrightarrow> (\<forall>A. archivedFrom d0 cutoff A (snd st) \<longrightarrow>
    (\<exists>A'. archivedFrom d0 cutoff A' (snd st') \<and> (\<forall>s \<in> set (shipments (snd st')). \<not> restedIn d0 cutoff s)))",
    OF _ run, THEN mp, THEN spec, THEN mp, OF _ refl d])
  fix loop e cutoff' st st'
  assume ih: "\<And>e cutoff' st st'. loop e cutoff' st = Some st' \<Longrightarrow> cutoff' = cutoff \<longrightarrow> (\<forall>A. archivedFrom d0 cutoff A (snd st) \<longrightarrow>
      (\<exists>A'. archivedFrom d0 cutoff A' (snd st') \<and> (\<forall>s \<in> set (shipments (snd st')). \<not> restedIn d0 cutoff s)))"
    and step: "(let candidates = map (snapshotOf (snd st)) (archivalBatch cutoff' (snd st)); st' = fold (archiveOne e cutoff') candidates st in
      if candidates = [] then Some st else if length candidates < ARCHIVAL_BATCH_SIZE then Some st' else loop e cutoff' st') = Some st'"
  show "cutoff' = cutoff \<longrightarrow> (\<forall>A. archivedFrom d0 cutoff A (snd st) \<longrightarrow>
      (\<exists>A'. archivedFrom d0 cutoff A' (snd st') \<and> (\<forall>s \<in> set (shipments (snd st')). \<not> restedIn d0 cutoff s)))"
  proof (intro impI allI)
    fix A assume c: "cutoff' = cutoff" and A: "archivedFrom d0 cutoff A (snd st)"
    note round = archival_round [OF k A, of e]
    let ?b = "archivalBatch cutoff (snd st)"
    let ?st = "fold (archiveOne e cutoff) (map (snapshotOf (snd st)) ?b) st"
    have "(if ?b = [] then Some st else if length ?b < ARCHIVAL_BATCH_SIZE then Some ?st else loop e cutoff ?st) = Some st'"
      using step unfolding Let_def c length_map map_is_Nil_conv .
    then consider "?b = []" "st' = st" | "length ?b < ARCHIVAL_BATCH_SIZE" "st' = ?st" | "loop e cutoff ?st = Some st'"
      by (metis option.inject)
    then show "\<exists>A'. archivedFrom d0 cutoff A' (snd st') \<and> (\<forall>s \<in> set (shipments (snd st')). \<not> restedIn d0 cutoff s)"
    proof cases
      case 1
      then have "length ?b < ARCHIVAL_BATCH_SIZE" "?st = st" by (simp_all add: ARCHIVAL_BATCH_SIZE_def)
      then show ?thesis using round left_over [OF round A] 1(2) by metis
    next
      case 2
      then show ?thesis using round left_over [OF round A] by blast
    next
      case 3
      from ih [OF this, THEN mp, OF refl, THEN spec, THEN mp, OF round] show ?thesis .
    qed
  qed
qed

text \<open>A full batch with at least one shipment that has rested shortens the table.\<close>

lemma batch_shrinks:
  assumes "archivedFrom d0 cutoff A d" "archivedFrom d0 cutoff (A \<union> s_id ` {s \<in> set ss. restedIn d0 cutoff s}) d'"
    and "s \<in> set ss" "set ss \<subseteq> set (shipments d)" "restedIn d0 cutoff s"
  shows "length (shipments d') < length (shipments d)"
proof -
  have d: "shipments d = filter (\<lambda>s. s_id s \<notin> A) (shipments d0)" using assms(1) by (simp add: archivedFrom_def)
  have "shipments d' = filter (\<lambda>t. t \<notin> {t. s_id t \<in> s_id ` {s \<in> set ss. restedIn d0 cutoff s}}) (shipments d)"
    using assms(1,2) by (auto simp: archivedFrom_def intro: filter_cong)
  moreover have "length (filter (\<lambda>t. t \<notin> {t. s_id t \<in> s_id ` {s \<in> set ss. restedIn d0 cutoff s}}) (shipments d)) < length (shipments d)"
    using assms by (intro length_filter_less [of s]) auto
  ultimately show ?thesis by simp
qed

lemma archivalLoop_ends:
  assumes k: "keysOfClosed d0" and d: "archivedFrom d0 cutoff A (snd st)" and few: "length (heldBack d0 cutoff) < ARCHIVAL_BATCH_SIZE"
  shows "\<exists>st'. archivalLoop e cutoff st = Some st'"
  using d
proof (induction "length (shipments (snd st))" arbitrary: st A rule: less_induct)
  case less
  let ?b = "archivalBatch cutoff (snd st)"
  let ?st = "fold (archiveOne e cutoff) (map (snapshotOf (snd st)) ?b) st"
  show ?case
  proof (cases "length ?b < ARCHIVAL_BATCH_SIZE")
    case True
    then show ?thesis by (subst archivalLoop.simps) (simp add: Let_def)
  next
    case False
    then have len: "length ?b = ARCHIVAL_BATCH_SIZE" by (simp add: length_batch)
    have "\<exists>s \<in> set ?b. restedIn d0 cutoff s"
    proof (rule ccontr)
      assume "\<not> (\<exists>s \<in> set ?b. restedIn d0 cutoff s)"
      then have "set ?b \<subseteq> set (heldBack d0 cutoff)"
        using set_batch [of cutoff "snd st"] by (auto simp: heldBack_stay [OF k less.prems])
      then have "card (set ?b) \<le> length (heldBack d0 cutoff)" by (meson List.finite_set card_length card_mono le_trans)
      moreover have "distinct ?b"
      proof -
        have "distinct (map s_id (shipments (snd st)))" using k less.prems by (simp add: archivedFrom_def keysOfClosed_def distinct_map_filter)
        from distinct_batch [OF this] show ?thesis by (simp add: distinct_map)
      qed
      ultimately show False using few len by (simp add: distinct_card)
    qed
    then obtain s where s: "s \<in> set ?b" "restedIn d0 cutoff s" by blast
    note round = archival_round [OF k less.prems, of e]
    have "\<exists>st'. archivalLoop e cutoff ?st = Some st'"
      using batch_shrinks [OF less.prems round s(1) _ s(2)] set_batch [of cutoff "snd st"] by (intro less.hyps [OF _ round]) blast
    moreover have "?b \<noteq> []" using s by auto
    ultimately show ?thesis using len by (subst archivalLoop.simps) (simp add: Let_def)
  qed
qed

lemma archivalLoop_stuck:
  assumes k: "keysOfClosed d0" and d: "archivedFrom d0 cutoff A (snd st)" and many: "ARCHIVAL_BATCH_SIZE \<le> length (heldBack d0 cutoff)"
  shows "archivalLoop e cutoff st = None"
proof -
  have full: "length (archivalBatch cutoff d) = ARCHIVAL_BATCH_SIZE" if "archivedFrom d0 cutoff A d" for A d
    using many heldBack_stay [OF k that] length_filter_le [of "\<lambda>s. \<not> restedIn d0 cutoff s" "filter (closedBefore cutoff) (shipments d)"]
    by (simp add: length_batch)
  have False if "archivalLoop e cutoff st = Some st'" for st'
  proof (rule archivalLoop.raw_induct [where P = "\<lambda>e' cutoff' st st'. cutoff' = cutoff \<longrightarrow> (\<forall>A. \<not> archivedFrom d0 cutoff A (snd st))",
      OF _ that, THEN mp, THEN spec, THEN notE, OF _ refl d])
    fix loop e cutoff' st st'
    assume ih: "\<And>e cutoff' st st'. loop e cutoff' st = Some st' \<Longrightarrow> cutoff' = cutoff \<longrightarrow> (\<forall>A. \<not> archivedFrom d0 cutoff A (snd st))"
      and step: "(let candidates = map (snapshotOf (snd st)) (archivalBatch cutoff' (snd st)); st' = fold (archiveOne e cutoff') candidates st in
        if candidates = [] then Some st else if length candidates < ARCHIVAL_BATCH_SIZE then Some st' else loop e cutoff' st') = Some st'"
    show "cutoff' = cutoff \<longrightarrow> (\<forall>A. \<not> archivedFrom d0 cutoff A (snd st))"
    proof (intro impI allI notI)
      fix A assume c: "cutoff' = cutoff" and A: "archivedFrom d0 cutoff A (snd st)"
      then have "loop e cutoff (fold (archiveOne e cutoff) (map (snapshotOf (snd st)) (archivalBatch cutoff (snd st))) st) = Some st'"
        using step full [OF A] by (auto simp: Let_def ARCHIVAL_BATCH_SIZE_def split: if_splits)
      then show False using ih archival_round [OF k A, of e] by blast
    qed
  qed
  then show ?thesis by (cases "archivalLoop e cutoff st") auto
qed

section \<open>The guarantees\<close>

lemma archived_exactly:
  assumes "keysOfClosed d0" "archivedFrom d0 cutoff A d" "\<forall>s \<in> set (shipments d). \<not> restedIn d0 cutoff s"
  shows "shipments d = filter (\<lambda>s. \<not> restedIn d0 cutoff s) (shipments d0)"
proof -
  have d: "shipments d = filter (\<lambda>s. s_id s \<notin> A) (shipments d0)" using assms(2) by (simp add: archivedFrom_def)
  have "s_id s \<in> A \<longleftrightarrow> restedIn d0 cutoff s" if s: "s \<in> set (shipments d0)" for s
  proof
    assume "s_id s \<in> A"
    then obtain t where "t \<in> set (shipments d0)" "restedIn d0 cutoff t" "s_id s = s_id t" using assms(2) by (auto simp: archivedFrom_def)
    then show "restedIn d0 cutoff s" using same_id [OF assms(1) s] by blast
  next
    assume "restedIn d0 cutoff s"
    then show "s_id s \<in> A" using assms(3) s unfolding d by auto
  qed
  then show ?thesis unfolding d by (intro filter_cong refl) simp
qed

lemma runArchival_runs:
  assumes "lookupKey (now e) (redis w) ARCHIVAL_LOCK_KEY = None"
  shows "map_option db (runArchival e days w) = map_option snd (archivalLoop e (archivalCutoff e days) (0, db w))"
  using assms by (simp add: runArchival_def acquireLock_def option.map_comp comp_def)


text \<open>C32: the archival ends exactly when fewer than fifty shipments are held back, that is closed and unchanged since the cut-off
  but with an end after it. With fifty of them the loop reads the same full batch again and again, and the lock is
  never released by the job.\<close>

theorem archival_ends_iff_few_held_back:
  assumes "keysOfClosed (db w)" and "lookupKey (now e) (redis w) ARCHIVAL_LOCK_KEY = None"
  shows "(\<exists>w'. runArchival e days w = Some w') \<longleftrightarrow> length (heldBack (db w) (archivalCutoff e days)) < 50"
proof -
  have "(\<exists>st. archivalLoop e (archivalCutoff e days) (0, db w) = Some st) \<longleftrightarrow> length (heldBack (db w) (archivalCutoff e days)) < ARCHIVAL_BATCH_SIZE"
  proof (cases "length (heldBack (db w) (archivalCutoff e days)) < ARCHIVAL_BATCH_SIZE")
    case True
    then show ?thesis using archivalLoop_ends [OF assms(1), of "archivalCutoff e days" "{}" "(0, db w)" e] archivedFrom_start [OF assms(1)] by simp
  next
    case False
    then show ?thesis using archivalLoop_stuck [OF assms(1), of "archivalCutoff e days" "{}" "(0, db w)" e] archivedFrom_start [OF assms(1)] by simp
  qed
  moreover have "(\<exists>w'. runArchival e days w = Some w') \<longleftrightarrow> (\<exists>st. archivalLoop e (archivalCutoff e days) (0, db w) = Some st)"
    using runArchival_runs [OF assms(2), of days]
    by (cases "runArchival e days w"; cases "archivalLoop e (archivalCutoff e days) (0, db w)") simp_all
  ultimately show ?thesis by (simp add: ARCHIVAL_BATCH_SIZE_def)
qed

definition restedShipment :: "string \<Rightarrow> shipment" where
  "restedShipment i = shipment0 i\<lparr>s_status := COMPLETED\<rparr>"

definition archivalWorld :: world where
  "archivalWorld = emptyWorld\<lparr>db := emptyDb\<lparr>shipments := [restedShipment ''a'', shipment0 ''b''],
     milestones := [milestone0 1 ''a'' 0 100 CONFIRMED]\<rparr>\<rparr>"

lemmas archival_concrete = archivalWorld_def restedShipment_def concrete_defs

lemma archivalWorld_ok:
  "keysOfClosed (db archivalWorld)" "lookupKey (now env0) (redis archivalWorld) ARCHIVAL_LOCK_KEY = None"
  "restedIn (db archivalWorld) (archivalCutoff env0 0) (restedShipment ''a'')"
  by (simp_all add: keysOfClosed_def lookupKey_def archival_concrete restedIn_def closedBefore_def archivalCutoff_def terminalAt_def
      snapshotOf_def List.map_filter_def)

theorem archival_ends_iff_few_held_back_witness:
  "keysOfClosed (db archivalWorld) \<and> (\<exists>w'. runArchival env0 0 archivalWorld = Some w')"
  using archival_ends_iff_few_held_back [OF archivalWorld_ok(1,2), of 0] archivalWorld_ok(1)
  by (simp add: heldBack_def closedBefore_def archival_concrete terminalAt_def snapshotOf_def List.map_filter_def archivalCutoff_def)


text \<open>
  The snapshot is not full: the signatures collected for a shipment, its favourites, the checklists and the requests for more
  time are deleted with it and are not part of the payload.
\<close>

lemma archival_drops_approvals:
  "approvals (moveToCold e snap d) = filter (\<lambda>a. ap_shipmentId a \<noteq> s_id (snap_shipment snap)) (approvals d)"
  by (simp add: moveToCold_def deleteShipment_def deleteMilestonesOf_def Let_def)

lemma archived_payload_ignores_approvals: "snapshotOf (d\<lparr>approvals := as, checklistItems := cs, extensionRequests := xs\<rparr>) s = snapshotOf d s"
  by (simp add: snapshotOf_def Let_def)

end
