(* ===== verification/Housekeeping.thy ===== *)
theory Housekeeping
  imports Approvals Claims Job_Tracker
begin

text \<open>
  Personal reminders and the scheduled jobs that keep the house: reminders
  (\<open>src/src/modules/shipments/shipment-reminders.service.ts\<close>, \<open>shipment-reminder.job.ts\<close>), late deliveries
  (\<open>late-delivery.job.ts\<close>), the risk of a shipment (\<open>utils/risk.util.ts\<close>), lapsed verifications
  (\<open>src/src/modules/kyc/kyc-expiry.job.ts\<close>), old notifications
  (\<open>src/src/modules/notifications/notification-cleanup.job.ts\<close>) and the manual start of a job
  (\<open>src/src/modules/admin-dashboard/admin-jobs.service.ts\<close>, \<open>src/src/common/jobs/job-locks.ts\<close>).
\<close>

section \<open>Starting a job by hand\<close>

definition JOB_LOCK_KEYS :: "(string \<times> string) list" where
  "JOB_LOCK_KEYS = [(''reconciliation'', ''chainsettle:reconciliation:lock''),
     (''late-delivery'', ''chainsettle:late-delivery:lock''),
     (''notification-cleanup'', ''chainsettle:notification-cleanup:lock''),
     (''shipment-archival'', ''chainsettle:shipment-archival:lock''),
     (''shipment-reminder'', ''chainsettle:shipment-reminders:lock''),
     (''recurring-schedule'', ''chainsettle:recurring-schedules:lock'')]"

definition isManuallyRunnableJob :: "string \<Rightarrow> bool" where
  "isManuallyRunnableJob name \<longleftrightarrow> name \<in> fst ` set JOB_LOCK_KEYS"

definition jobLockKey :: "string \<Rightarrow> string" where
  "jobLockKey name = the (map_of JOB_LOCK_KEYS name)"

record jobActor =
  ja_id :: "uuid option"
  ja_stellarAddress :: "address option"

text \<open>
  The answer names the job and the instant; the registered callback, which runs after the answer, is the caller's next step.
  The first argument says which jobs the scheduler knows.
\<close>

definition triggerJob :: "(string \<Rightarrow> bool) \<Rightarrow> env \<Rightarrow> string \<Rightarrow> jobActor \<Rightarrow> (string \<times> string) act" where
  "triggerJob registered e name actor =
     require (isManuallyRunnableJob name) BadRequestException (
     require (registered name) NotFoundException (
     andThen (reads (\<lambda>w. existsKey (now e) (jobLockKey name) (redis w))) (\<lambda>running.
     require (\<not> running) ConflictException (
     andThen (auditRecord \<lparr>au_actorId = ja_id actor, au_actorAddress = given (ja_stellarAddress actor) ''SYSTEM'',
        au_action = ''job.manual_run'', au_resourceType = ''CronJob'', au_resourceId = ByName name,
        au_metadata = JObj [(''job'', JStr name), (''triggeredAt'', JStr (isoString (now e)))]\<rparr>) (\<lambda>_.
     ret (name, isoString (now e)))))))"

section \<open>Reminders\<close>

definition MAX_ACTIVE_REMINDERS :: nat where
  "MAX_ACTIVE_REMINDERS = 20"

definition activeReminders :: "string \<Rightarrow> uuid \<Rightarrow> db \<Rightarrow> shipmentReminder list" where
  "activeReminders sid uid d = filter (\<lambda>r. sr_shipmentId r = sid \<and> sr_userId r = uid \<and> sentAt r = None) (shipmentReminders d)"

text \<open>The date of the request is \<open>None\<close> when it does not parse.\<close>

definition createReminder :: "env \<Rightarrow> string \<Rightarrow> uuid \<Rightarrow> time option \<Rightarrow> string \<Rightarrow> shipmentReminder act" where
  "createReminder e sid uid due message =
     require (case due of None \<Rightarrow> False | Some t \<Rightarrow> \<not> t \<le> now e) BadRequestException (
     andThen (reads (findShipment sid)) (\<lambda>found.
     requireSome found NotFoundException (\<lambda>s.
     andThen (reads (\<lambda>w. length (activeReminders sid uid (db w)))) (\<lambda>active.
     require (\<not> active \<ge> MAX_ACTIVE_REMINDERS) BadRequestException (
     andThen freshId (\<lambda>i.
     let r = \<lparr>sr_id = i, sr_shipmentId = sid, sr_userId = uid, remindAt = the due, sr_message = trim message, sentAt = None, sr_createdAt = now e\<rparr> in
     andThen (modifyDb (\<lambda>d. d\<lparr>shipmentReminders := shipmentReminders d @ [r]\<rparr>)) (\<lambda>_.
     ret r)))))))"

definition listReminders :: "string \<Rightarrow> uuid \<Rightarrow> shipmentReminder list act" where
  "listReminders sid uid = reads (\<lambda>w. sort_key remindAt (filter (\<lambda>r. sr_shipmentId r = sid \<and> sr_userId r = uid) (shipmentReminders (db w))))"

definition removeReminder :: "string \<Rightarrow> uuid \<Rightarrow> uuid \<Rightarrow> unit act" where
  "removeReminder sid rid uid =
     (let mine = (\<lambda>r. sr_id r = rid \<and> sr_shipmentId r = sid \<and> sr_userId r = uid) in
     andThen (reads (\<lambda>w. list_ex mine (shipmentReminders (db w)))) (\<lambda>hit.
     andThen (modifyDb (\<lambda>d. d\<lparr>shipmentReminders := filter (\<lambda>r. \<not> mine r) (shipmentReminders d)\<rparr>)) (\<lambda>_.
     require hit NotFoundException (ret ()))))"

definition REMINDER_BATCH :: nat where
  "REMINDER_BATCH = 100"

definition REMINDER_LOCK_TTL_MS :: int where
  "REMINDER_LOCK_TTL_MS = 4 * 60 * 1000"

text \<open>The reminders due, each with the address of its owner.\<close>

definition dueReminders :: "env \<Rightarrow> world \<Rightarrow> (shipmentReminder \<times> address) list" where
  "dueReminders e w = List.map_filter (\<lambda>r. map_option (\<lambda>u. (r, stellarAddress u)) (find (\<lambda>u. u_id u = sr_userId r) (users (db w))))
     (take REMINDER_BATCH (sort_key remindAt (filter (\<lambda>r. sentAt r = None \<and> remindAt r \<le> now e) (shipmentReminders (db w)))))"

definition claimReminder :: "env \<Rightarrow> uuid \<Rightarrow> bool act" where
  "claimReminder e rid =
     andThen (reads (\<lambda>w. list_ex (\<lambda>r. sr_id r = rid \<and> sentAt r = None) (shipmentReminders (db w)))) (\<lambda>hit.
     andThen (modifyDb (\<lambda>d. d\<lparr>shipmentReminders := updateWhere (\<lambda>r. sr_id r = rid \<and> sentAt r = None)
        (\<lambda>r. r\<lparr>sentAt := Some (now e)\<rparr>) (shipmentReminders d)\<rparr>)) (\<lambda>_.
     ret hit))"

definition deliverReminder :: "env \<Rightarrow> shipmentReminder \<times> address \<Rightarrow> bool act" where
  "deliverReminder e = (\<lambda>(r, addr).
     andThen (claimReminder e (sr_id r)) (\<lambda>claimed.
     andThen (whenA claimed (ignore (notifyUser e addr N_SYSTEM_ALERT ''Shipment reminder''
        (JObj [(''shipmentId'', JStr (sr_shipmentId r)), (''reminderId'', JNum (int (sr_id r)))])))) (\<lambda>_.
     ret claimed)))"

definition runReminders :: "env \<Rightarrow> nat act" where
  "runReminders e = runTrackedJob e False ''shipment-reminder''
     (lockedCount e (jobLockKey ''shipment-reminder'') (randomUuid e) REMINDER_LOCK_TTL_MS
       (andThen (reads (dueReminders e)) (\<lambda>due. countEach due (deliverReminder e))))"

section \<open>Late deliveries\<close>

definition LATE_DELIVERY_LOCK_TTL_MS :: int where
  "LATE_DELIVERY_LOCK_TTL_MS = 10 * 60 * 1000"

definition deliveryOverdue :: "env \<Rightarrow> shipment \<Rightarrow> bool" where
  "deliveryOverdue e s \<longleftrightarrow> s_status s = ACTIVE \<and> (case expectedDeliveryAt s of None \<Rightarrow> False | Some t \<Rightarrow> t < now e)"

definition lateData :: "shipment \<Rightarrow> json" where
  "lateData s = JObj ([(''shipmentId'', JStr (s_id s))] @
     (case expectedDeliveryAt s of None \<Rightarrow> [] | Some t \<Rightarrow> [(''expectedDeliveryAt'', JStr (isoString t))]) @ [(''isOverdue'', JBool True)])"

definition checkOverdueShipments :: "env \<Rightarrow> nat act" where
  "checkOverdueShipments e =
     andThen (reads (\<lambda>w. filter (deliveryOverdue e) (shipments (db w)))) (\<lambda>overdue.
     andThen (forEach overdue (\<lambda>s.
        andThen (notifyUser e (buyerAddress s) N_DELIVERY_DELAYED ''Shipment delivery overdue'' (lateData s)) (\<lambda>_.
        ignore (notifyUser e (supplierAddress s) N_DELIVERY_DELAYED ''Shipment delivery overdue'' (lateData s))))) (\<lambda>_.
     ret (length overdue)))"

definition runLateDelivery :: "env \<Rightarrow> nat act" where
  "runLateDelivery e = runTrackedJob e False ''late-delivery''
     (lockedCount e (jobLockKey ''late-delivery'') (randomUuid e) LATE_DELIVERY_LOCK_TTL_MS
       (attempt (checkOverdueShipments e) (\<lambda>_. ret 0)))"

section \<open>Risk of a shipment\<close>

datatype riskLevel = RISK_LOW | RISK_MEDIUM | RISK_HIGH

record riskThresholds =
  highOpenDisputes :: nat
  highOverdueMilestones :: nat
  highInactiveDays :: int
  mediumInactiveDays :: int

definition DEFAULT_RISK_THRESHOLDS :: riskThresholds where
  "DEFAULT_RISK_THRESHOLDS = \<lparr>highOpenDisputes = 1, highOverdueMilestones = 2, highInactiveDays = 30, mediumInactiveDays = 14\<rparr>"

record riskIndicators =
  overdueMilestones :: nat
  openDisputes :: nat
  arbiterNotAccepted :: bool
  daysSinceLastActivity :: int
  unverifiedCounterparties :: nat

text \<open>The shipment with the relations its caller included.\<close>

record riskInput =
  ri_shipment :: shipment
  ri_milestones :: "milestone list"
  ri_tracking :: "trackingUpdate list"
  ri_comments :: "shipmentComment list"
  ri_parties :: "user option list"

definition riskOverdue :: "time \<Rightarrow> milestone \<Rightarrow> bool" where
  "riskOverdue t m \<longleftrightarrow> deletedAt m = None \<and> m_status m \<noteq> CONFIRMED \<and> m_status m \<noteq> RESOLVED \<and>
     (case dueAt m of None \<Rightarrow> False | Some d \<Rightarrow> d < t)"

definition activityTimestamps :: "riskInput \<Rightarrow> time list" where
  "activityTimestamps x = [s_updatedAt (ri_shipment x)] @ concat (map (\<lambda>m. [m_updatedAt m, m_createdAt m]) (ri_milestones x)) @
     map tr_createdAt (ri_tracking x) @ map cm_createdAt (ri_comments x)"

definition indicatorsOf :: "time \<Rightarrow> riskInput \<Rightarrow> riskIndicators" where
  "indicatorsOf t x =
     \<lparr>overdueMilestones = length (filter (riskOverdue t) (ri_milestones x)),
      openDisputes = length (filter (\<lambda>m. deletedAt m = None \<and> m_status m = DISPUTED) (ri_milestones x)),
      arbiterNotAccepted = (arbiterStatus (ri_shipment x) \<noteq> ACCEPTED),
      daysSinceLastActivity = max 0 ((t - fold max (activityTimestamps x) (s_updatedAt (ri_shipment x))) div (1000 * 60 * 60 * 24)),
      unverifiedCounterparties = length (filter (\<lambda>p. case p of None \<Rightarrow> True | Some u \<Rightarrow> u_kycStatus u \<noteq> VERIFIED) (ri_parties x))\<rparr>"

definition riskLevelOf :: "riskThresholds \<Rightarrow> riskIndicators \<Rightarrow> riskLevel" where
  "riskLevelOf th i =
     (let isHighRisk = openDisputes i \<ge> highOpenDisputes th \<or> overdueMilestones i \<ge> highOverdueMilestones th \<or>
            daysSinceLastActivity i \<ge> highInactiveDays th \<or> (overdueMilestones i \<ge> 1 \<and> arbiterNotAccepted i);
          isMediumRisk = overdueMilestones i = 1 \<or> arbiterNotAccepted i \<or> daysSinceLastActivity i \<ge> mediumInactiveDays th \<or>
            unverifiedCounterparties i \<ge> 1
      in if isHighRisk then RISK_HIGH else if isMediumRisk then RISK_MEDIUM else RISK_LOW)"

fun arbiterStatusText :: "arbiterStatus \<Rightarrow> string" where
  "arbiterStatusText PENDING_ACCEPTANCE = ''PENDING_ACCEPTANCE''"
| "arbiterStatusText ACCEPTED = ''ACCEPTED''"
| "arbiterStatusText DECLINED = ''DECLINED''"

definition riskReasons :: "riskThresholds \<Rightarrow> arbiterStatus \<Rightarrow> riskIndicators \<Rightarrow> string list" where
  "riskReasons th st i =
     (if openDisputes i > 0 then [showInt (int (openDisputes i)) @ '' open dispute(s)''] else []) @
     (if overdueMilestones i > 0 then [showInt (int (overdueMilestones i)) @ '' overdue milestone(s)''] else []) @
     (if arbiterNotAccepted i then [''Arbiter has not accepted assignment (status: '' @ arbiterStatusText st @ '')''] else []) @
     (if daysSinceLastActivity i \<ge> highInactiveDays th
      then [''No activity for '' @ showInt (daysSinceLastActivity i) @ '' days (exceeds '' @ showInt (highInactiveDays th) @ ''-day threshold)'']
      else if daysSinceLastActivity i \<ge> mediumInactiveDays th
      then [''No activity for '' @ showInt (daysSinceLastActivity i) @ '' days (exceeds '' @ showInt (mediumInactiveDays th) @ ''-day threshold)'']
      else []) @
     (if unverifiedCounterparties i > 0
      then [showInt (int (unverifiedCounterparties i)) @ '' counterparty(ies) have not completed KYC verification''] else [])"

record shipmentRiskResult =
  rr_shipmentId :: string
  rr_level :: riskLevel
  rr_reasons :: "string list"
  rr_indicators :: riskIndicators
  rr_evaluatedAt :: string

definition computeShipmentRisk :: "riskInput \<Rightarrow> time \<Rightarrow> riskThresholds \<Rightarrow> shipmentRiskResult" where
  "computeShipmentRisk x t th =
     (let i = indicatorsOf t x in
      \<lparr>rr_shipmentId = s_id (ri_shipment x), rr_level = riskLevelOf th i, rr_reasons = riskReasons th (arbiterStatus (ri_shipment x)) i,
       rr_indicators = i, rr_evaluatedAt = isoString t\<rparr>)"

section \<open>Lapsed verifications\<close>

definition DAY_MS_KYC :: int where
  "DAY_MS_KYC = 24 * 60 * 60 * 1000"

text \<open>The two reminders: the days before the end, and the column that records that the reminder went out.\<close>

datatype kycReminder = REMINDER_30D | REMINDER_7D

fun kycReminderDays :: "kycReminder \<Rightarrow> int" where
  "kycReminderDays REMINDER_30D = 30"
| "kycReminderDays REMINDER_7D = 7"

fun kycReminderSent :: "kycReminder \<Rightarrow> user \<Rightarrow> time option" where
  "kycReminderSent REMINDER_30D u = kycReminder30dSentAt u"
| "kycReminderSent REMINDER_7D u = kycReminder7dSentAt u"

fun stampKycReminder :: "kycReminder \<Rightarrow> time \<Rightarrow> user \<Rightarrow> user" where
  "stampKycReminder REMINDER_30D t u = u\<lparr>kycReminder30dSentAt := Some t\<rparr>"
| "stampKycReminder REMINDER_7D t u = u\<lparr>kycReminder7dSentAt := Some t\<rparr>"

definition expiringSoon :: "env \<Rightarrow> kycReminder \<Rightarrow> user \<Rightarrow> bool" where
  "expiringSoon e k u \<longleftrightarrow> u_kycStatus u = VERIFIED \<and> kycReminderSent k u = None \<and>
     (case kycExpiresAt u of None \<Rightarrow> False | Some t \<Rightarrow> now e < t \<and> t \<le> now e + kycReminderDays k * DAY_MS_KYC)"

definition kycDaysLeft :: "env \<Rightarrow> user \<Rightarrow> int" where
  "kycDaysLeft e u = max 1 (- ((now e - the (kycExpiresAt u)) div DAY_MS_KYC))"

definition setUserById :: "uuid \<Rightarrow> (user \<Rightarrow> user) \<Rightarrow> unit act" where
  "setUserById uid f = modifyDb (\<lambda>d. d\<lparr>users := updateWhere (\<lambda>u. u_id u = uid) f (users d)\<rparr>)"

definition remindKyc :: "env \<Rightarrow> kycReminder \<Rightarrow> nat act" where
  "remindKyc e k =
     andThen (reads (\<lambda>w. filter (expiringSoon e k) (users (db w)))) (\<lambda>us.
     countEach us (\<lambda>u.
       andThen (notifyUser e (stellarAddress u) N_KYC_EXPIRING ''KYC verification expiring soon''
          (JObj [(''kycExpiresAt'', JStr (isoString (the (kycExpiresAt u)))), (''daysLeft'', JNum (kycDaysLeft e u)),
             (''threshold'', JNum (kycReminderDays k))])) (\<lambda>_.
       andThen (setUserById (u_id u) (stampKycReminder k (now e))) (\<lambda>_.
       ret True))))"

definition sendKycReminders :: "env \<Rightarrow> nat act" where
  "sendKycReminders e = andThen (remindKyc e REMINDER_30D) (\<lambda>a. andThen (remindKyc e REMINDER_7D) (\<lambda>b. ret (a + b)))"

definition lapsed :: "env \<Rightarrow> user \<Rightarrow> bool" where
  "lapsed e u \<longleftrightarrow> u_kycStatus u = VERIFIED \<and> (case kycExpiresAt u of None \<Rightarrow> False | Some t \<Rightarrow> t \<le> now e)"

definition expiryData :: "user \<Rightarrow> json" where
  "expiryData u = JObj (case kycExpiresAt u of None \<Rightarrow> [] | Some t \<Rightarrow> [(''kycExpiresAt'', JStr (isoString t))])"

definition expireLapsed :: "env \<Rightarrow> nat act" where
  "expireLapsed e =
     andThen (reads (\<lambda>w. filter (lapsed e) (users (db w)))) (\<lambda>us.
     countEach us (\<lambda>u.
       andThen (setUserById (u_id u) (\<lambda>u. u\<lparr>u_kycStatus := UNVERIFIED\<rparr>)) (\<lambda>_.
       andThen (auditRecord \<lparr>au_actorId = None, au_actorAddress = stellarAddress u, au_action = ''KYC_VERIFICATION_EXPIRED'',
          au_resourceType = ''User'', au_resourceId = ByUuid (u_id u), au_metadata = expiryData u\<rparr>) (\<lambda>_.
       andThen (notifyUser e (stellarAddress u) N_KYC_EXPIRED ''KYC verification expired'' (expiryData u)) (\<lambda>_.
       ret True)))))"

definition runKycExpiry :: "env \<Rightarrow> bool \<Rightarrow> (nat \<times> nat) act" where
  "runKycExpiry e withRedis =
     (let execute = attempt (andThen (sendKycReminders e) (\<lambda>reminded. andThen (expireLapsed e) (\<lambda>expired. ret (reminded, expired))))
            (\<lambda>_. ret (0, 0))
      in if withRedis then runTrackedJob e False ''kyc-expiry'' execute else execute)"

section \<open>Old notifications\<close>

definition CLEANUP_LOCK_TTL_MS :: int where
  "CLEANUP_LOCK_TTL_MS = 10 * 60 * 1000"

definition CLEANUP_BATCH :: nat where
  "CLEANUP_BATCH = 5000"

definition UNREAD_ARCHIVE_DAYS :: int where
  "UNREAD_ARCHIVE_DAYS = 365"

definition oldAndRead :: "time \<Rightarrow> notification \<Rightarrow> bool" where
  "oldAndRead cutoff n \<longleftrightarrow> n_read n \<and> n_createdAt n \<le> cutoff"

definition cleanupBatch :: "time \<Rightarrow> notification list \<Rightarrow> notification list" where
  "cleanupBatch cutoff ns = take CLEANUP_BATCH (sort_key n_createdAt (filter (oldAndRead cutoff) ns))"

definition deleteByIds :: "uuid list \<Rightarrow> notification list \<Rightarrow> notification list" where
  "deleteByIds ids ns = filter (\<lambda>n. n_id n \<notin> set ids) ns"

lemma cleanupBatch_subset: "set (cleanupBatch cutoff ns) \<subseteq> set (filter (oldAndRead cutoff) ns)"
  using set_take_subset by (fastforce simp: cleanupBatch_def)

lemma deleteByIds_shrinks:
  assumes "cleanupBatch cutoff ns \<noteq> []"
  shows "length (deleteByIds (map n_id (cleanupBatch cutoff ns)) ns) < length ns"
proof -
  obtain n where "n \<in> set (cleanupBatch cutoff ns)" using assms by (cases "cleanupBatch cutoff ns") auto
  then show ?thesis using cleanupBatch_subset [of cutoff ns] unfolding deleteByIds_def by (intro length_filter_less [of n]) auto
qed

text \<open>The loop, with the number of rows deleted so far.\<close>

function cleanupLoop :: "time \<Rightarrow> nat \<times> notification list \<Rightarrow> nat \<times> notification list" where
  "cleanupLoop cutoff (deleted, ns) =
     (let batch = cleanupBatch cutoff ns; rest = deleteByIds (map n_id batch) ns; deleted' = deleted + (length ns - length rest) in
      if batch = [] then (deleted, ns)
      else if length batch < CLEANUP_BATCH then (deleted', rest)
      else cleanupLoop cutoff (deleted', rest))"
  by pat_completeness auto
termination
  by (relation "measure (\<lambda>(cutoff, deleted, ns). length ns)") (auto simp: deleteByIds_shrinks)

declare cleanupLoop.simps [simp del]

definition deleteReadNotifications :: "env \<Rightarrow> int \<Rightarrow> nat act" where
  "deleteReadNotifications e days = (\<lambda>w.
     case cleanupLoop (now e - days * 24 * 60 * 60 * 1000) (0, notifications (mail w)) of (deleted, ns) \<Rightarrow>
       (Inr deleted, w\<lparr>mail := (mail w)\<lparr>notifications := ns\<rparr>\<rparr>))"

definition warnStaleUnread :: "env \<Rightarrow> nat act" where
  "warnStaleUnread e = reads (\<lambda>w. length (filter (\<lambda>n. \<not> n_read n \<and> n_createdAt n \<le> now e - UNREAD_ARCHIVE_DAYS * 24 * 60 * 60 * 1000)
     (notifications (mail w))))"

definition runCleanup :: "env \<Rightarrow> int \<Rightarrow> unit act" where
  "runCleanup e days = runTrackedJob e False ''notification-cleanup''
     (withJobLock e (jobLockKey ''notification-cleanup'') (randomUuid e) CLEANUP_LOCK_TTL_MS
       (andThen (deleteReadNotifications e days) (\<lambda>_. ignore (warnStaleUnread e))))"

section \<open>A reminder is delivered exactly once\<close>

datatype reminderLabel =
    Remind env string uuid "time option" string
  | Forget string uuid uuid
  | Deliver env "shipmentReminder \<times> address"

fun reminderStep :: "reminderLabel \<Rightarrow> world \<Rightarrow> world" where
  "reminderStep (Remind e sid uid due message) w = snd (createReminder e sid uid due message w)"
| "reminderStep (Forget sid rid uid) w = snd (removeReminder sid rid uid w)"
| "reminderStep (Deliver e r) w = snd (deliverReminder e r w)"

fun reminderWins :: "reminderLabel \<Rightarrow> world \<Rightarrow> uuid list" where
  "reminderWins (Deliver e r) w = (if fst (deliverReminder e r w) = Inr True then [sr_id (fst r)] else [])"
| "reminderWins _ w = []"

definition remindersOk :: "world \<Rightarrow> bool" where
  "remindersOk w \<longleftrightarrow> keysOk sr_id (shipmentReminders (db w)) (nextId (db w))"

definition reminderSpent :: "uuid \<Rightarrow> world \<Rightarrow> bool" where
  "reminderSpent k w \<longleftrightarrow> stampedOrGone sr_id (\<lambda>r. sentAt r = None) k (shipmentReminders (db w)) (nextId (db w))"

lemma createReminder_cases:
  "(shipmentReminders (db w'), nextId (db w')) = (shipmentReminders (db w), nextId (db w)) \<or>
   (\<exists>r. sr_id r = nextId (db w) \<and> (shipmentReminders (db w'), nextId (db w')) = (shipmentReminders (db w) @ [r], Suc (nextId (db w))))"
  if "w' = snd (createReminder e sid uid due message w)"
  unfolding that createReminder_def by (auto simp: andThen_def require_def requireSome_def Let_def split: option.splits)

lemma run_removeReminder:
  "shipmentReminders (db (snd (removeReminder sid rid uid w))) =
     filter (\<lambda>r. \<not> (sr_id r = rid \<and> sr_shipmentId r = sid \<and> sr_userId r = uid)) (shipmentReminders (db w)) \<and>
   nextId (db (snd (removeReminder sid rid uid w))) = nextId (db w)"
  by (simp add: removeReminder_def Let_def andThen_def)

lemma run_deliverReminder:
  "fst (deliverReminder e x w) = Inr (list_ex (\<lambda>r. sr_id r = sr_id (fst x) \<and> sentAt r = None) (shipmentReminders (db w)))"
  "db (snd (deliverReminder e x w)) = (db w)\<lparr>shipmentReminders := updateWhere (\<lambda>r. sr_id r = sr_id (fst x) \<and> sentAt r = None)
     (\<lambda>r. r\<lparr>sentAt := Some (now e)\<rparr>) (shipmentReminders (db w))\<rparr>"
  by (cases x; simp add: deliverReminder_def claimReminder_def andThen_def)+

interpretation reminders: single_claim remindersOk reminderSpent reminderStep reminderWins
proof
  fix w l
  assume ok: "remindersOk w"
  show "remindersOk (reminderStep l w)"
  proof (cases l)
    case (Remind e sid uid due message)
    then show ?thesis using ok createReminder_cases [OF refl, of e sid uid due message w]
      by (auto simp: remindersOk_def intro: keysOk_append)
  qed (use ok in \<open>simp_all add: remindersOk_def run_removeReminder run_deliverReminder keysOk_filter keysOk_update\<close>)
  show "distinct (reminderWins l w)" by (cases l) simp_all
  fix k
  show "reminderSpent k (reminderStep l w)" if "reminderSpent k w"
  proof (cases l)
    case (Remind e sid uid due message)
    then show ?thesis using that createReminder_cases [OF refl, of e sid uid due message w]
      by (auto simp: reminderSpent_def intro: gone_append)
  qed (use that in \<open>auto simp: reminderSpent_def run_removeReminder run_deliverReminder intro: gone_filter gone_update\<close>)
  show "\<not> reminderSpent k w \<and> reminderSpent k (reminderStep l w)" if win: "k \<in> set (reminderWins l w)"
  proof (cases l)
    case (Deliver e x)
    then have k: "k = sr_id (fst x)" and "fst (deliverReminder e x w) = Inr True" using win by (auto split: if_splits)
    then obtain r where r: "r \<in> set (shipmentReminders (db w))" "sr_id r = sr_id (fst x)" "sentAt r = None"
      by (auto simp: run_deliverReminder list_ex_iff)
    show ?thesis
      using claim_spends [OF ok [unfolded remindersOk_def] r(1,2), of "\<lambda>r. sentAt r = None" "\<lambda>r. r\<lparr>sentAt := Some (now e)\<rparr>"] r(3)
      by (simp add: reminderSpent_def Deliver k run_deliverReminder)
  qed (use win in simp_all)
qed

definition stampedReminder :: "uuid \<Rightarrow> world \<Rightarrow> bool" where
  "stampedReminder k w \<longleftrightarrow> (\<forall>r \<in> set (shipmentReminders (db w)). sr_id r = k \<longrightarrow> sentAt r \<noteq> None)"

lemma keeps_stamped: "keeps (stampedReminder k) (countEach xs (deliverReminder e))"
proof (intro keeps_countEach keepsI)
  fix x w assume "stampedReminder k w"
  then show "stampedReminder k (snd (deliverReminder e x w))"
    unfolding stampedReminder_def run_deliverReminder by (simp add: ball_updateWhere)
qed

text \<open>After a batch, every row it names is stamped.\<close>

lemma run_countEach_deliver:
  assumes "r \<in> set (shipmentReminders (db (snd (countEach xs (deliverReminder e) w))))" "sr_id r \<in> sr_id ` fst ` set xs"
  shows "sentAt r \<noteq> None"
  using assms
proof (induction xs arbitrary: w)
  case (Cons x xs)
  let ?w = "snd (deliverReminder e x w)"
  have run: "snd (countEach (x # xs) (deliverReminder e) w) = snd (countEach xs (deliverReminder e) ?w)"
    by (cases "deliverReminder e x w") (simp add: andThen_def split: prod.split sum.split, metis fst_conv run_deliverReminder(1) sum.distinct(1))
  show ?case
  proof (cases "sr_id r \<in> sr_id ` fst ` set xs")
    case True
    then show ?thesis using Cons run by simp
  next
    case False
    then have id: "sr_id r = sr_id (fst x)" using Cons.prems(2) by simp
    have "stampedReminder (sr_id r) ?w" unfolding stampedReminder_def run_deliverReminder by (simp add: ball_updateWhere id)
    from keepsD [OF keeps_stamped this] show ?thesis using Cons.prems(1) unfolding run stampedReminder_def by simp
  qed
qed simp

lemma due_listed:
  assumes "r \<in> set (shipmentReminders (db w))" "sentAt r = None" "remindAt r \<le> now e"
    and "length (filter (\<lambda>r. sentAt r = None \<and> remindAt r \<le> now e) (shipmentReminders (db w))) \<le> REMINDER_BATCH"
    and "\<exists>u \<in> set (users (db w)). u_id u = sr_userId r"
  shows "sr_id r \<in> sr_id ` fst ` set (dueReminders e w)"
proof -
  obtain u where "find (\<lambda>u. u_id u = sr_userId r) (users (db w)) = Some u" using assms(5) by (cases "find (\<lambda>u. u_id u = sr_userId r) (users (db w))") (auto simp: find_None_iff)
  then have "(r, stellarAddress u) \<in> set (dueReminders e w)"
    using assms(1-4) by (auto simp: dueReminders_def List.map_filter_def intro!: image_eqI [of _ _ r])
  then show ?thesis by force
qed

lemma dueReminders_redis [simp]: "dueReminders e (w\<lparr>redis := x\<rparr>) = dueReminders e w"
  by (simp add: dueReminders_def)


definition reminder0 :: shipmentReminder where
  "reminder0 = \<lparr>sr_id = 5, sr_shipmentId = ''s'', sr_userId = 1, remindAt = 900, sr_message = ''call'', sentAt = None, sr_createdAt = 0\<rparr>"

definition reminderWorld :: world where
  "reminderWorld = emptyWorld\<lparr>db := emptyDb\<lparr>users := [user0 1 ''GB''], shipmentReminders := [reminder0]\<rparr>\<rparr>"


text \<open>Nobody has more than twenty reminders open on a shipment.\<close>

lemma reminder_cap:
  assumes "createReminder e sid uid due message w = (Inr r, w')"
  shows "length (activeReminders sid uid (db w')) = Suc (length (activeReminders sid uid (db w))) \<and>
    length (activeReminders sid uid (db w')) \<le> MAX_ACTIVE_REMINDERS \<and> now e < remindAt r"
  using assms by (auto simp: createReminder_def success_iffs Let_def activeReminders_def split: option.splits)

section \<open>Risk\<close>

text \<open>With the default thresholds a level other than low has a reason, and a low one has none.\<close>

lemma risk_has_reasons:
  "rr_level (computeShipmentRisk x t DEFAULT_RISK_THRESHOLDS) = RISK_LOW \<longleftrightarrow> rr_reasons (computeShipmentRisk x t DEFAULT_RISK_THRESHOLDS) = []"
  by (auto simp: computeShipmentRisk_def riskLevelOf_def riskReasons_def Let_def DEFAULT_RISK_THRESHOLDS_def)

text \<open>The documented rules: a dispute, two overdue milestones, or one with no accepted arbiter make the risk high.\<close>

lemma risk_high_iff:
  "rr_level (computeShipmentRisk x t DEFAULT_RISK_THRESHOLDS) = RISK_HIGH \<longleftrightarrow>
    (let i = indicatorsOf t x in 1 \<le> openDisputes i \<or> 2 \<le> overdueMilestones i \<or> 30 \<le> daysSinceLastActivity i \<or>
       1 \<le> overdueMilestones i \<and> arbiterNotAccepted i)"
  by (simp add: computeShipmentRisk_def riskLevelOf_def Let_def DEFAULT_RISK_THRESHOLDS_def)

section \<open>Verification lapses in time\<close>

lemma run_setUserById [simp]: "setUserById uid f w = (Inr (), w\<lparr>db := (db w)\<lparr>users := updateWhere (\<lambda>u. u_id u = uid) f (users (db w))\<rparr>\<rparr>)"
  by (simp add: setUserById_def)

text \<open>A loop over rows that always succeeds applies its writes one after the other.\<close>

lemma run_countEach:
  assumes "\<And>x w. fst (f x w) = Inr True" "\<And>x w. users (db (snd (f x w))) = g x (users (db w))"
  shows "fst (countEach xs f w) = Inr (length xs) \<and> users (db (snd (countEach xs f w))) = fold g xs (users (db w))"
proof (induction xs arbitrary: w)
  case (Cons x xs)
  obtain w' where w': "f x w = (Inr True, w')" using assms(1) [of x w] by (cases "f x w") auto
  obtain n v where v: "countEach xs f w' = (Inr n, v)" using Cons [of w'] by (cases "countEach xs f w'") auto
  show ?case using Cons [of w'] assms(2) [of x w] by (simp add: w' v)
qed simp

lemma fold_updateUsers:
  assumes "\<And>u. u_id (f u) = u_id u" "\<And>u. f (f u) = f u"
  shows "fold (\<lambda>x. updateWhere (\<lambda>u. u_id u = u_id x) f) xs us = map (\<lambda>u. if u_id u \<in> u_id ` set xs then f u else u) us"
proof (induction xs arbitrary: us)
  case (Cons x xs)
  then show ?case using assms by (auto simp: updateWhere_def)
qed simp

lemma run_expireLapsed:
  "fst (expireLapsed e w) = Inr (length (filter (lapsed e) (users (db w)))) \<and>
   users (db (snd (expireLapsed e w))) = map (\<lambda>u. if u_id u \<in> u_id ` {u \<in> set (users (db w)). lapsed e u} then u\<lparr>u_kycStatus := UNVERIFIED\<rparr> else u) (users (db w))"
  unfolding expireLapsed_def
  using run_countEach [of "\<lambda>u. andThen (setUserById (u_id u) (\<lambda>u. u\<lparr>u_kycStatus := UNVERIFIED\<rparr>)) (\<lambda>_.
       andThen (auditRecord \<lparr>au_actorId = None, au_actorAddress = stellarAddress u, au_action = ''KYC_VERIFICATION_EXPIRED'',
          au_resourceType = ''User'', au_resourceId = ByUuid (u_id u), au_metadata = expiryData u\<rparr>) (\<lambda>_.
       andThen (notifyUser e (stellarAddress u) N_KYC_EXPIRED ''KYC verification expired'' (expiryData u)) (\<lambda>_. ret True)))"
      "\<lambda>x. updateWhere (\<lambda>u. u_id u = u_id x) (\<lambda>u. u\<lparr>u_kycStatus := UNVERIFIED\<rparr>)" "filter (lapsed e) (users (db w))" w]
  by (simp add: auditRecord_def fold_updateUsers)

lemma run_remindKyc:
  "fst (remindKyc e k w) = Inr (length (filter (expiringSoon e k) (users (db w)))) \<and>
   users (db (snd (remindKyc e k w))) = map (\<lambda>u. if u_id u \<in> u_id ` {u \<in> set (users (db w)). expiringSoon e k u} then stampKycReminder k (now e) u else u) (users (db w))"
  unfolding remindKyc_def
  using run_countEach [of "\<lambda>u. andThen (notifyUser e (stellarAddress u) N_KYC_EXPIRING ''KYC verification expiring soon''
          (JObj [(''kycExpiresAt'', JStr (isoString (the (kycExpiresAt u)))), (''daysLeft'', JNum (kycDaysLeft e u)),
             (''threshold'', JNum (kycReminderDays k))])) (\<lambda>_.
       andThen (setUserById (u_id u) (stampKycReminder k (now e))) (\<lambda>_. ret True))"
      "\<lambda>x. updateWhere (\<lambda>u. u_id u = u_id x) (stampKycReminder k (now e))" "filter (expiringSoon e k) (users (db w))" w]
  by (cases k) (simp_all add: fold_updateUsers)

text \<open>What the run of the expiry job does to the users: the reminders only stamp, the expiry only resets the status.\<close>

lemma stampKycReminder_same [simp]:
  "u_id (stampKycReminder k t u) = u_id u" "u_kycStatus (stampKycReminder k t u) = u_kycStatus u"
  "kycExpiresAt (stampKycReminder k t u) = kycExpiresAt u"
  by (cases k; simp)+

lemma remindKyc_status:
  "map (\<lambda>u. (u_id u, u_kycStatus u, kycExpiresAt u)) (users (db (snd (remindKyc e k w)))) =
   map (\<lambda>u. (u_id u, u_kycStatus u, kycExpiresAt u)) (users (db w))"
  by (simp add: run_remindKyc)

lemma run_runKycExpiry:
  "users (db (snd (runKycExpiry e b w))) = users (db (snd (expireLapsed e (snd (remindKyc e REMINDER_7D (snd (remindKyc e REMINDER_30D w)))))))"
proof -
  obtain a w1 where a: "remindKyc e REMINDER_30D w = (Inr a, w1)" using run_remindKyc [of e REMINDER_30D w] by (cases "remindKyc e REMINDER_30D w") auto
  obtain c w2 where c: "remindKyc e REMINDER_7D w1 = (Inr c, w2)" using run_remindKyc [of e REMINDER_7D w1] by (cases "remindKyc e REMINDER_7D w1") auto
  obtain d w3 where d: "expireLapsed e w2 = (Inr d, w3)" using run_expireLapsed [of e w2] by (cases "expireLapsed e w2") auto
  show ?thesis by (simp add: runKycExpiry_def sendKycReminders_def a c d Let_def attempt_def)
qed

text \<open>A verification never outlives its term by more than the interval of the job: after a run, nobody is verified whose term
  has ended, everybody whose verification has lapsed is unverified again, and nobody else's status has changed.\<close>

lemma kyc_lapse_is_enforced:
  assumes "distinct (map u_id (users (db w)))" and "w' = snd (runKycExpiry e b w)"
  shows "map u_id (users (db w')) = map u_id (users (db w)) \<and>
    map u_kycStatus (users (db w')) = map (\<lambda>u. if lapsed e u then UNVERIFIED else u_kycStatus u) (users (db w)) \<and>
    filter (lapsed e) (users (db w')) = []"
proof -
  let ?v = "snd (remindKyc e REMINDER_7D (snd (remindKyc e REMINDER_30D w)))"
  let ?key = "\<lambda>u :: user. (u_id u, u_kycStatus u, kycExpiresAt u)"
  have v: "map ?key (users (db ?v)) = map ?key (users (db w))" by (simp only: remindKyc_status)
  have ids: "map u_id (users (db ?v)) = map u_id (users (db w))" using arg_cong [OF v, of "map fst"] by (simp add: comp_def)
  have st: "map (\<lambda>u. if lapsed e u then UNVERIFIED else u_kycStatus u) (users (db ?v)) = map (\<lambda>u. if lapsed e u then UNVERIFIED else u_kycStatus u) (users (db w))"
    using arg_cong [OF v, of "map (\<lambda>(i, s, x). if s = VERIFIED \<and> (case x of None \<Rightarrow> False | Some t \<Rightarrow> t \<le> now e) then UNVERIFIED else s)"]
    by (simp add: lapsed_def comp_def)
  have uniq: "u_id u \<in> u_id ` {u \<in> set (users (db ?v)). lapsed e u} \<longleftrightarrow> lapsed e u" if "u \<in> set (users (db ?v))" for u
    using assms(1) that unfolding ids [symmetric] by (auto simp: distinct_map dest: inj_onD)
  have us: "users (db w') = map (\<lambda>u. if lapsed e u then u\<lparr>u_kycStatus := UNVERIFIED\<rparr> else u) (users (db ?v))"
    unfolding assms(2) run_runKycExpiry using run_expireLapsed [of e ?v] uniq by (auto intro: map_cong)
  have "map u_kycStatus (users (db w')) = map (\<lambda>u. if lapsed e u then UNVERIFIED else u_kycStatus u) (users (db ?v))"
    unfolding us by (simp add: comp_def if_distrib cong: if_cong)
  moreover have "map u_id (users (db w')) = map u_id (users (db ?v))" unfolding us by (auto simp: comp_def)
  moreover have "filter (lapsed e) (users (db w')) = []" unfolding us by (auto simp: filter_empty_conv lapsed_def)
  ultimately show ?thesis using ids st by simp
qed

definition lapsedWorld :: world where
  "lapsedWorld = emptyWorld\<lparr>db := emptyDb\<lparr>users := [user0 1 ''GB''\<lparr>u_kycStatus := VERIFIED, kycExpiresAt := Some 900\<rparr>,
     user0 2 ''GS''\<lparr>u_kycStatus := VERIFIED, kycExpiresAt := Some 5000\<rparr>]\<rparr>\<rparr>"

lemma kyc_lapse_is_enforced_witness:
  "map u_kycStatus (users (db (snd (runKycExpiry env0 True lapsedWorld)))) = [UNVERIFIED, VERIFIED]"
proof -
  have "distinct (map u_id (users (db lapsedWorld)))" by (simp add: lapsedWorld_def concrete_defs)
  from kyc_lapse_is_enforced [OF this refl, of env0 True] show ?thesis by (simp add: lapsedWorld_def lapsed_def concrete_defs)
qed

text \<open>A user first met within the last week gets both reminders in the same run.\<close>

lemma both_kyc_reminders_in_one_run: "fst (sendKycReminders env0 lapsedWorld) = Inr 2"
proof -
  obtain a w1 where a: "remindKyc env0 REMINDER_30D lapsedWorld = (Inr a, w1)"
    using run_remindKyc [of env0 REMINDER_30D lapsedWorld] by (cases "remindKyc env0 REMINDER_30D lapsedWorld") auto
  obtain c w2 where c: "remindKyc env0 REMINDER_7D w1 = (Inr c, w2)"
    using run_remindKyc [of env0 REMINDER_7D w1] by (cases "remindKyc env0 REMINDER_7D w1") auto
  have "a = 1" "length (filter (expiringSoon env0 REMINDER_7D) (users (db w1))) = 1"
    using run_remindKyc [of env0 REMINDER_30D lapsedWorld] a
    by (simp_all add: lapsedWorld_def expiringSoon_def DAY_MS_KYC_def concrete_defs)
  then show ?thesis using run_remindKyc [of env0 REMINDER_7D w1] a c by (simp add: sendKycReminders_def)
qed

section \<open>Clean-up in batches\<close>

lemma length_cleanupBatch: "length (cleanupBatch cutoff ns) = min CLEANUP_BATCH (length (filter (oldAndRead cutoff) ns))"
  by (simp add: cleanupBatch_def min.commute)

lemma batch_all: "length (cleanupBatch cutoff ns) < CLEANUP_BATCH \<Longrightarrow> set (cleanupBatch cutoff ns) = {n \<in> set ns. oldAndRead cutoff n}"
  by (auto simp: cleanupBatch_def)

lemma deleteByIds_batch:
  assumes "distinct (map n_id ns)"
  shows "filter (\<lambda>n. \<not> oldAndRead cutoff n) (deleteByIds (map n_id (cleanupBatch cutoff ns)) ns) = filter (\<lambda>n. \<not> oldAndRead cutoff n) ns"
proof -
  have "n_id n \<notin> n_id ` set (cleanupBatch cutoff ns)" if n: "n \<in> set ns" "\<not> oldAndRead cutoff n" for n
  proof
    assume "n_id n \<in> n_id ` set (cleanupBatch cutoff ns)"
    then obtain m where m: "m \<in> set ns" "oldAndRead cutoff m" "n_id m = n_id n" using cleanupBatch_subset [of cutoff ns] by auto
    then have "m = n" using assms n(1) by (auto simp: distinct_map dest: inj_onD)
    with m n show False by simp
  qed
  then show ?thesis unfolding deleteByIds_def filter_filter by (intro filter_cong refl) auto
qed

text \<open>
  The loop with its batches of five thousand ends and has the effect of one deletion of all old notifications that were read,
  and the number it reports is the number of rows that are gone.
\<close>

lemma cleanupLoop_deletes:
  "distinct (map n_id ns) \<Longrightarrow> cleanupLoop cutoff (k, ns) =
     (k + length (filter (oldAndRead cutoff) ns), filter (\<lambda>n. \<not> oldAndRead cutoff n) ns)"
proof (induction cutoff "(k, ns)" arbitrary: k ns rule: cleanupLoop.induct)
  case (1 cutoff k ns)
  let ?b = "cleanupBatch cutoff ns"
  let ?r = "deleteByIds (map n_id ?b) ns"
  have len: "length xs = length (filter (oldAndRead cutoff) xs) + length (filter (\<lambda>n. \<not> oldAndRead cutoff n) xs)" for xs
    by (simp add: sum_length_filter_compl)
  note kept = deleteByIds_batch [OF 1(2), of cutoff]
  have dist: "distinct (map n_id ?r)" using 1(2) by (simp add: deleteByIds_def distinct_map_filter)
  have le: "length ?r \<le> length ns" by (simp add: deleteByIds_def)
  show ?case
  proof (cases "length ?b < CLEANUP_BATCH")
    case False
    have "?b \<noteq> []" using False by (auto simp: CLEANUP_BATCH_def)
    then show ?thesis using 1(1) [OF refl refl refl _ False dist] False kept len [of ns] len [of ?r] le
      by (subst cleanupLoop.simps) (simp add: Let_def)
  next
    case True
    have all: "?r = filter (\<lambda>n. \<not> oldAndRead cutoff n) ns"
    proof -
      have "\<not> oldAndRead cutoff n" if "n \<in> set ?r" for n using that batch_all [OF True] by (auto simp: deleteByIds_def)
      then have "filter (\<lambda>n. \<not> oldAndRead cutoff n) ?r = ?r" by (simp add: filter_id_conv)
      then show ?thesis using kept by simp
    qed
    have none: "filter (oldAndRead cutoff) ns = []" if "?b = []" using that batch_all [OF True] by (auto simp: filter_empty_conv)
    show ?thesis
    proof (cases "?b = []")
      case empty: True
      then have "filter (\<lambda>n. \<not> oldAndRead cutoff n) ns = ns" using none by (simp add: filter_empty_conv filter_id_conv)
      then show ?thesis using empty none by (subst cleanupLoop.simps) (simp add: Let_def)
    next
      case False
      then show ?thesis using True len [of ns] by (subst cleanupLoop.simps) (simp add: Let_def all)
    qed
  qed
qed

text \<open>C34: the nightly clean-up deletes exactly the notifications that were read and are older than the retention period,
  whatever their number: the loop over batches of five thousand ends, no unread or recent notification is lost, and
  nothing else of the state changes but the record of the run and the lock.\<close>

theorem cleanup_deletes_exactly_old_read:
  assumes "distinct (map n_id (notifications (mail w)))"
    and "lookupKey (now e) (redis w) (jobLockKey ''notification-cleanup'') = None"
    and "w' = snd (runCleanup e days w)"
  shows "notifications (mail w') = filter (\<lambda>n. \<not> (n_read n \<and> n_createdAt n \<le> now e - days * 24 * 60 * 60 * 1000)) (notifications (mail w)) \<and>
    db w' = db w \<and> outbox (mail w') = outbox (mail w) \<and> audit w' = audit w"
proof -
  let ?work = "andThen (deleteReadNotifications e days) (\<lambda>_. ignore (warnStaleUnread e))"
  let ?v = "snd (lockCall (acquireLock (now e) (jobLockKey ''notification-cleanup'') (randomUuid e) CLEANUP_LOCK_TTL_MS) w)"
  have work: "snd (?work v) = v\<lparr>mail := (mail v)\<lparr>notifications := filter (\<lambda>n. \<not> (n_read n \<and> n_createdAt n \<le> now e - days * 24 * 60 * 60 * 1000)) (notifications (mail v))\<rparr>\<rparr>"
    if "distinct (map n_id (notifications (mail v)))" for v
    unfolding deleteReadNotifications_def warnStaleUnread_def andThen_def cleanupLoop_deletes [OF that] oldAndRead_def prod.case
    by simp
  have "(db w', mail w', audit w') = (\<lambda>v. (db v, mail v, audit v)) (snd (?work ?v))"
    unfolding assms(3) runCleanup_def run_runTrackedJob(2) [unfolded split_beta]
    using assms(2) run_runTrackedJob(2) [of e False "''notification-cleanup''"
        "withJobLock e (jobLockKey ''notification-cleanup'') (randomUuid e) CLEANUP_LOCK_TTL_MS ?work" w]
    by (simp add: withJobLock_def andThen_def acquireLock_def run_finallyDo)
  then show ?thesis using work [of ?v] assms(1) by simp
qed

definition oldNotification :: notification where
  "oldNotification = \<lparr>n_id = 1, n_userId = 1, n_type = N_SYSTEM_ALERT, n_title = ''t'', n_data = JNull, n_read = True, emailSent = False,
     deliverAfter = None, snoozedUntil = None, n_createdAt = 0\<rparr>"

theorem cleanup_deletes_exactly_old_read_witness:
  "notifications (mail (snd (runCleanup env0 0 (emptyWorld\<lparr>mail := emptyMail\<lparr>notifications := [oldNotification, oldNotification\<lparr>n_id := 2, n_read := False\<rparr>]\<rparr>\<rparr>)))) =
     [oldNotification\<lparr>n_id := 2, n_read := False\<rparr>]"
proof -
  let ?w = "emptyWorld\<lparr>mail := emptyMail\<lparr>notifications := [oldNotification, oldNotification\<lparr>n_id := 2, n_read := False\<rparr>]\<rparr>\<rparr>"
  have "distinct (map n_id (notifications (mail ?w)))" "lookupKey (now env0) (redis ?w) (jobLockKey ''notification-cleanup'') = None"
    by (simp_all add: oldNotification_def concrete_defs lookupKey_def)
  from cleanup_deletes_exactly_old_read [OF this refl, of 0] show ?thesis by (simp add: oldNotification_def concrete_defs)
qed

section \<open>Manual runs and daily alarms\<close>

text \<open>A manual run is refused while the job holds its lock, and what is accepted is recorded.\<close>

lemma triggerJob_refused:
  "isManuallyRunnableJob name \<Longrightarrow> registered name \<Longrightarrow> existsKey (now e) (jobLockKey name) (redis w) \<Longrightarrow>
   triggerJob registered e name actor w = (Inl ConflictException, w)"
  by (simp add: triggerJob_def andThen_def)

lemma triggerJob_recorded:
  assumes "triggerJob registered e name actor w = (Inr r, w')"
  shows "isManuallyRunnableJob name \<and> \<not> existsKey (now e) (jobLockKey name) (redis w) \<and>
    (\<exists>a. audit w' = audit w @ [a] \<and> au_action a = ''job.manual_run'' \<and> au_resourceId a = ByName name) \<and> db w' = db w"
  using assms by (auto simp: triggerJob_def success_iffs auditRecord_def)

text \<open>Nothing records that a late shipment was reported, so that every run reports it again.\<close>

lemma late_delivery_reported_every_day:
  "db (snd (checkOverdueShipments e w)) = db w \<and> fst (checkOverdueShipments e w) = Inr (length (filter (deliveryOverdue e) (shipments (db w))))"
proof -
  let ?xs = "filter (deliveryOverdue e) (shipments (db w))"
  let ?f = "\<lambda>s. andThen (notifyUser e (buyerAddress s) N_DELIVERY_DELAYED ''Shipment delivery overdue'' (lateData s)) (\<lambda>_.
    ignore (notifyUser e (supplierAddress s) N_DELIVERY_DELAYED ''Shipment delivery overdue'' (lateData s)))"
  have "neverFails (forEach ?xs ?f)" by (intro total_forEach) (simp add: neverFails_def)
  then obtain v w' where run: "forEach ?xs ?f w = (Inr v, w')" by (auto simp: neverFails_def)
  have "leaves db (forEach ?xs ?f)" by (intro leaves_forEach) (simp add: leaves_def)
  from leaves_run [OF this run] run show ?thesis unfolding checkOverdueShipments_def andThen_def by (simp add: andThen_def)
qed

end
