(* ===== verification/Platform.thy ===== *)
theory Platform
  imports Notifications Claims "HOL-Library.Char_ord" "HOL-Library.List_Lexorder"
begin

text \<open>
  Small services around the escrow: saved filters (\<open>src/src/modules/shipments/saved-filters.service.ts\<close>), announcements
  (\<open>src/src/modules/announcements/announcements.service.ts\<close>), feature flags with their guard
  (\<open>src/src/modules/feature-flags/feature-flags.service.ts\<close>, \<open>src/src/common/guards/feature-flag.guard.ts\<close>), suppressed e-mail
  addresses (\<open>src/src/modules/email/email-suppression.service.ts\<close>) and contacts (\<open>src/src/modules/auth/contacts.service.ts\<close>).
  The hash that assigns a subject to a bucket and the HMAC are parameters. Texts are compared by the codes of their characters.
\<close>

section \<open>Saved filters\<close>

definition SAVED_FILTER_FIELDS :: "string list" where
  "SAVED_FILTER_FIELDS = [''buyerAddress'', ''supplierAddress'', ''status'', ''referenceNumber'', ''tags'', ''search'', ''createdAfter'',
     ''createdBefore'', ''updatedAfter'', ''updatedBefore'', ''includeArchived'', ''isDraft'', ''favorite'']"

text \<open>A parsed request body holds no \<open>undefined\<close>; \<open>null\<close> criteria are dropped.\<close>

definition sanitise :: "json \<Rightarrow> (string \<times> json) list result" where
  "sanitise j = (case j of
      JObj kvs \<Rightarrow>
        if list_ex (\<lambda>k. k \<notin> set SAVED_FILTER_FIELDS) (map fst kvs) then Inl BadRequestException
        else (let clean = filter (\<lambda>kv. snd kv \<noteq> JNull) kvs in
          if clean = [] then Inl BadRequestException else Inr clean)
    | _ \<Rightarrow> Inl BadRequestException)"

definition createFilter :: "env \<Rightarrow> uuid \<Rightarrow> string \<Rightarrow> json \<Rightarrow> savedFilter act" where
  "createFilter e uid name f =
     liftResult (sanitise f) (\<lambda>criteria.
     andThen (reads (\<lambda>w. find (\<lambda>r. sf_userId r = uid \<and> sf_name r = name) (savedFilters (db w)))) (\<lambda>existing.
     require (existing = None) ConflictException (
     andThen freshId (\<lambda>i.
     let r = \<lparr>sf_id = i, sf_userId = uid, sf_name = name, sf_filter = criteria, sf_createdAt = now e\<rparr> in
     andThen (modifyDb (\<lambda>d. d\<lparr>savedFilters := savedFilters d @ [r]\<rparr>)) (\<lambda>_.
     ret r)))))"

definition findAllFilters :: "uuid \<Rightarrow> savedFilter list act" where
  "findAllFilters uid = reads (\<lambda>w. sort_key (\<lambda>r. - sf_createdAt r) (filter (\<lambda>r. sf_userId r = uid) (savedFilters (db w))))"

definition findFilter :: "uuid \<Rightarrow> uuid \<Rightarrow> savedFilter act" where
  "findFilter uid i =
     andThen (reads (\<lambda>w. find (\<lambda>r. sf_id r = i \<and> sf_userId r = uid) (savedFilters (db w)))) (\<lambda>found.
     requireSome found NotFoundException ret)"

definition updateFilter :: "uuid \<Rightarrow> uuid \<Rightarrow> string option \<Rightarrow> json option \<Rightarrow> unit act" where
  "updateFilter uid i name f =
     andThen (findFilter uid i) (\<lambda>_.
     andThen (reads (\<lambda>w. case name of None \<Rightarrow> None
        | Some n \<Rightarrow> find (\<lambda>r. sf_userId r = uid \<and> sf_name r = n \<and> sf_id r \<noteq> i) (savedFilters (db w)))) (\<lambda>clash.
     require (clash = None) ConflictException (
     liftResult (case f of None \<Rightarrow> Inr None | Some j \<Rightarrow> (case sanitise j of Inl x \<Rightarrow> Inl x | Inr c \<Rightarrow> Inr (Some c))) (\<lambda>criteria.
     modifyDb (\<lambda>d. d\<lparr>savedFilters := updateWhere (\<lambda>r. sf_id r = i)
        (\<lambda>r. r\<lparr>sf_name := given name (sf_name r), sf_filter := given criteria (sf_filter r)\<rparr>) (savedFilters d)\<rparr>)))))"

definition removeFilter :: "uuid \<Rightarrow> uuid \<Rightarrow> unit act" where
  "removeFilter uid i =
     andThen (findFilter uid i) (\<lambda>_.
     modifyDb (\<lambda>d. d\<lparr>savedFilters := filter (\<lambda>r. sf_id r \<noteq> i) (savedFilters d)\<rparr>))"

text \<open>\<open>{ ...criteria, ...explicit }\<close>: the query gives \<open>None\<close> for a field that is \<open>undefined\<close>.\<close>

definition mergeQuery :: "(string \<times> json) list \<Rightarrow> (string \<times> json option) list \<Rightarrow> (string \<times> json) list" where
  "mergeQuery criteria query =
     (let explicit = List.map_filter (\<lambda>(k, v). map_option (\<lambda>x. (k, x)) v) query in
      filter (\<lambda>kv. fst kv \<notin> fst ` set explicit) criteria @ explicit)"

definition applyTo :: "uuid \<Rightarrow> uuid \<Rightarrow> (string \<times> json option) list \<Rightarrow> (string \<times> json) list act" where
  "applyTo uid i query = andThen (findFilter uid i) (\<lambda>saved. ret (mergeQuery (sf_filter saved) query))"

section \<open>Announcements\<close>

record announcementDto =
  ad_title :: string
  ad_body :: string
  ad_severity :: "announcementSeverity option"
  ad_startsAt :: "time option"
  ad_endsAt :: "time option"
  ad_audienceRoles :: "userRole list option"

record announcementUpdate =
  au_title :: "string option"
  au_body :: "string option"
  au_severity :: "announcementSeverity option"
  au_startsAt :: "time option"
  au_endsAt :: "time option option"
  au_audienceRoles :: "userRole list option"

definition assertWindow :: "time \<Rightarrow> time option \<Rightarrow> bool" where
  "assertWindow s e \<longleftrightarrow> (case e of None \<Rightarrow> True | Some t \<Rightarrow> \<not> t \<le> s)"

definition createAnnouncement :: "env \<Rightarrow> announcementDto \<Rightarrow> uuid option \<Rightarrow> announcement act" where
  "createAnnouncement e dto creator =
     (let s = given (ad_startsAt dto) (now e) in
     require (assertWindow s (ad_endsAt dto)) BadRequestException (
     andThen freshId (\<lambda>i.
     let a = \<lparr>an_id = i, an_title = trim (ad_title dto), an_body = trim (ad_body dto), an_severity = given (ad_severity dto) INFO,
           startsAt = s, endsAt = ad_endsAt dto, audienceRoles = setOf (given (ad_audienceRoles dto) []), createdById = creator,
           an_createdAt = now e\<rparr> in
     andThen (modifyDb (\<lambda>d. d\<lparr>announcements := announcements d @ [a]\<rparr>)) (\<lambda>_.
     ret a))))"

definition findAllAnnouncements :: "nat \<Rightarrow> nat \<Rightarrow> (announcement list \<times> nat) act" where
  "findAllAnnouncements page limit = reads (\<lambda>w.
     (take limit (drop ((page - 1) * limit) (sort_key (\<lambda>a. - startsAt a) (announcements (db w)))), length (announcements (db w))))"

definition findAnnouncement :: "uuid \<Rightarrow> announcement act" where
  "findAnnouncement i =
     andThen (reads (\<lambda>w. find (\<lambda>a. an_id a = i) (announcements (db w)))) (\<lambda>found.
     requireSome found NotFoundException ret)"

definition updateAnnouncement :: "uuid \<Rightarrow> announcementUpdate \<Rightarrow> unit act" where
  "updateAnnouncement i dto =
     andThen (findAnnouncement i) (\<lambda>existing.
     require (assertWindow (given (au_startsAt dto) (startsAt existing)) (given (au_endsAt dto) (endsAt existing))) BadRequestException (
     modifyDb (\<lambda>d. d\<lparr>announcements := updateWhere (\<lambda>a. an_id a = i)
       (\<lambda>a. a\<lparr>an_title := given (map_option trim (au_title dto)) (an_title a), an_body := given (map_option trim (au_body dto)) (an_body a),
          an_severity := given (au_severity dto) (an_severity a), startsAt := given (au_startsAt dto) (startsAt a),
          endsAt := given (au_endsAt dto) (endsAt a), audienceRoles := given (map_option setOf (au_audienceRoles dto)) (audienceRoles a)\<rparr>)
       (announcements d)\<rparr>)))"

definition removeAnnouncement :: "uuid \<Rightarrow> unit act" where
  "removeAnnouncement i =
     andThen (findAnnouncement i) (\<lambda>_.
     modifyDb (\<lambda>d. d\<lparr>announcements := filter (\<lambda>a. an_id a \<noteq> i) (announcements d),
       announcementDismissals := filter (\<lambda>x. dm_announcementId x \<noteq> i) (announcementDismissals d)\<rparr>))"

fun severityRank :: "announcementSeverity \<Rightarrow> int" where
  "severityRank CRITICAL = 0"
| "severityRank WARNING = 1"
| "severityRank INFO = 2"

definition announcedTo :: "uuid \<Rightarrow> userRole \<Rightarrow> time \<Rightarrow> db \<Rightarrow> announcement \<Rightarrow> bool" where
  "announcedTo uid role t d a \<longleftrightarrow> startsAt a \<le> t \<and> (case endsAt a of None \<Rightarrow> True | Some x \<Rightarrow> x > t) \<and>
     (audienceRoles a = [] \<or> role \<in> set (audienceRoles a)) \<and>
     \<not> list_ex (\<lambda>x. dm_announcementId x = an_id a \<and> dm_userId x = uid) (announcementDismissals d)"

definition findActiveForUser :: "uuid \<Rightarrow> userRole \<Rightarrow> time \<Rightarrow> announcement list act" where
  "findActiveForUser uid role t = reads (\<lambda>w. sort_key (\<lambda>a. severityRank (an_severity a))
     (sort_key (\<lambda>a. - startsAt a) (filter (announcedTo uid role t (db w)) (announcements (db w)))))"

definition dismissAnnouncement :: "env \<Rightarrow> uuid \<Rightarrow> uuid \<Rightarrow> unit act" where
  "dismissAnnouncement e i uid =
     andThen (findAnnouncement i) (\<lambda>_.
     modifyDb (\<lambda>d. if list_ex (\<lambda>x. dm_announcementId x = i \<and> dm_userId x = uid) (announcementDismissals d) then d
       else d\<lparr>announcementDismissals := announcementDismissals d @ [\<lparr>dm_announcementId = i, dm_userId = uid, dismissedAt = now e\<rparr>]\<rparr>))"

section \<open>Feature flags\<close>

record featureFlag =
  ff_enabled :: bool
  ff_rollout :: "int option"

definition flagKey :: "string \<Rightarrow> string" where
  "flagKey name = ''feature-flag:'' @ name"

definition clampRollout :: "int \<Rightarrow> int" where
  "clampRollout r = min 100 (max 0 r)"

definition getFlag :: "(string \<Rightarrow> json option) \<Rightarrow> time \<Rightarrow> string \<Rightarrow> keyspace \<Rightarrow> featureFlag option" where
  "getFlag parse t name r = (case getJson parse t (flagKey name) r of
      None \<Rightarrow> None
    | Some j \<Rightarrow> (case jsonGet ''enabled'' j of
        Some (JBool b) \<Rightarrow> Some \<lparr>ff_enabled = b, ff_rollout = (case jsonGet ''rollout'' j of Some (JNum n) \<Rightarrow> Some (clampRollout n) | _ \<Rightarrow> None)\<rparr>
      | _ \<Rightarrow> None))"

definition flagOn :: "(string \<Rightarrow> string \<Rightarrow> int) \<Rightarrow> string \<Rightarrow> string option \<Rightarrow> featureFlag option \<Rightarrow> bool" where
  "flagOn bucket name subject flag = (case flag of
      None \<Rightarrow> False
    | Some f \<Rightarrow>
        if \<not> ff_enabled f then False
        else (case ff_rollout f of
            None \<Rightarrow> True
          | Some n \<Rightarrow>
              if n \<ge> 100 then True
              else if n \<le> 0 then False
              else if \<not> truthy subject then False
              else bucket name (the subject) < n))"

definition flagEnabled :: "(string \<Rightarrow> json option) \<Rightarrow> (string \<Rightarrow> string \<Rightarrow> int) \<Rightarrow> time \<Rightarrow> string \<Rightarrow> string option \<Rightarrow> keyspace \<Rightarrow> bool" where
  "flagEnabled parse bucket t name subject r = flagOn bucket name subject (getFlag parse t name r)"

definition setFlag :: "time \<Rightarrow> string \<Rightarrow> featureFlag \<Rightarrow> keyspace \<Rightarrow> featureFlag \<times> keyspace" where
  "setFlag t name flag r =
     (let payload = \<lparr>ff_enabled = ff_enabled flag, ff_rollout = map_option clampRollout (ff_rollout flag)\<rparr> in
      (payload, setKey t (flagKey name) (JsonText (JObj ((''enabled'', JBool (ff_enabled payload)) #
         (case ff_rollout payload of None \<Rightarrow> [] | Some n \<Rightarrow> [(''rollout'', JNum n)])))) None r))"

definition deleteFlag :: "string \<Rightarrow> keyspace \<Rightarrow> keyspace" where
  "deleteFlag name r = del (flagKey name) r"

text \<open>The guard: the flag of the route, if any, and the identity of the caller.\<close>

definition canActivateFlag :: "(string \<Rightarrow> json option) \<Rightarrow> (string \<Rightarrow> string \<Rightarrow> int) \<Rightarrow> time \<Rightarrow> string option \<Rightarrow> string option \<Rightarrow> string option
    \<Rightarrow> keyspace \<Rightarrow> bool result" where
  "canActivateFlag parse bucket t flagName userId addr r =
     (if \<not> truthy flagName then Inr True
      else if flagEnabled parse bucket t (the flagName) (case userId of None \<Rightarrow> addr | Some i \<Rightarrow> Some i) r then Inr True
      else Inl NotFoundException)"

section \<open>Suppressed addresses\<close>

record emailEvent =
  ev_type :: "string option"
  ev_event :: "string option"
  ev_email :: "string option"
  ev_recipient :: "string option"
  ev_bounceType :: "string option"

definition COMPLAINT_TYPES :: "string list" where
  "COMPLAINT_TYPES = [''complaint'', ''spamreport'', ''spam_report'', ''abuse'']"

definition HARD_BOUNCE_TYPES :: "string list" where
  "HARD_BOUNCE_TYPES = [''hard_bounce'', ''hardbounce'', ''permanent_bounce'']"

definition SOFT_BOUNCE_KINDS :: "string list" where
  "SOFT_BOUNCE_KINDS = [''soft'', ''transient'', ''temporary'']"

definition classifyEmailEvent :: "emailEvent \<Rightarrow> emailSuppressionReason option" where
  "classifyEmailEvent x =
     (let ty = toLowerCase (case ev_type x of Some t \<Rightarrow> t | None \<Rightarrow> given (ev_event x) []) in
      if ty \<in> set COMPLAINT_TYPES then Some COMPLAINT
      else if ty \<in> set HARD_BOUNCE_TYPES then Some BOUNCE
      else if ty = ''bounce'' \<or> ty = ''bounced''
      then (if toLowerCase (given (ev_bounceType x) ''hard'') \<in> set SOFT_BOUNCE_KINDS then None else Some BOUNCE)
      else None)"

text \<open>\<open>Buffer.from(text, 'hex')\<close> decodes pairs of digits up to the first that is none.\<close>

definition hexValue :: "char \<Rightarrow> nat option" where
  "hexValue c = (let n = (of_char c :: nat) in
     if 48 \<le> n \<and> n \<le> 57 then Some (n - 48) else if 97 \<le> n \<and> n \<le> 102 then Some (n - 87)
     else if 65 \<le> n \<and> n \<le> 70 then Some (n - 55) else None)"

fun hexBytes :: "string \<Rightarrow> nat list" where
  "hexBytes (a # b # cs) = (case (hexValue a, hexValue b) of (Some x, Some y) \<Rightarrow> (16 * x + y) # hexBytes cs | _ \<Rightarrow> [])"
| "hexBytes _ = []"

definition verifyEmailSignature :: "(string \<Rightarrow> string \<Rightarrow> string) \<Rightarrow> string option \<Rightarrow> string option \<Rightarrow> string option \<Rightarrow> unit result" where
  "verifyEmailSignature hmac secret rawBody signature =
     (if \<not> truthy secret then Inl UnauthorizedException
      else if rawBody = None \<or> \<not> truthy signature then Inl UnauthorizedException
      else (let s = the signature;
                sent = trim (if startsWith ''sha256='' s then drop 7 s else s)
            in if hexBytes (hmac (the secret) (the rawBody)) = hexBytes sent then Inr () else Inl UnauthorizedException))"

fun reasonText :: "emailSuppressionReason \<Rightarrow> string" where
  "reasonText BOUNCE = ''BOUNCE''"
| "reasonText COMPLAINT = ''COMPLAINT''"

definition suppress :: "env \<Rightarrow> string \<Rightarrow> emailSuppressionReason \<Rightarrow> emailSuppression act" where
  "suppress e addr reason =
     (let normalized = toLowerCase (trim addr) in
     andThen (reads (\<lambda>w. find (\<lambda>x. es_email x = normalized) (suppressions (mail w)))) (\<lambda>existing.
     case existing of Some x \<Rightarrow> ret x
     | None \<Rightarrow>
       andThen freshId (\<lambda>i.
       let entry = \<lparr>es_id = i, es_email = normalized, es_reason = reason, es_createdAt = now e\<rparr> in
       andThen (modify (\<lambda>w. w\<lparr>mail := (mail w)\<lparr>suppressions := suppressions (mail w) @ [entry]\<rparr>\<rparr>)) (\<lambda>_.
       andThen (reads (\<lambda>w. find (\<lambda>u. map_option toLowerCase (email u) = Some normalized) (users (db w)))) (\<lambda>user.
       andThen (case user of None \<Rightarrow> ret ()
         | Some u \<Rightarrow>
           andThen (modifyDb (\<lambda>d. d\<lparr>users := updateWhere (\<lambda>x. u_id x = u_id u) (\<lambda>x. x\<lparr>emailVerified := False\<rparr>) (users d)\<rparr>)) (\<lambda>_.
           modify (\<lambda>w. w\<lparr>mail := snd (createNotification (now e) (u_id u) N_SYSTEM_ALERT ''Please update your email address''
             (JObj [(''action'', JStr ''UPDATE_EMAIL''), (''reason'', JStr (reasonText reason))]) None (mail w))\<rparr>))) (\<lambda>_.
       ret entry))))))"

definition handleEvents :: "env \<Rightarrow> emailEvent list \<Rightarrow> nat act" where
  "handleEvents e evs = foldr (\<lambda>x k.
     let reason = classifyEmailEvent x;
         addr = map_option (\<lambda>a. toLowerCase (trim a)) (case ev_email x of Some a \<Rightarrow> Some a | None \<Rightarrow> ev_recipient x)
     in if reason = None \<or> \<not> truthy addr then k
        else andThen (suppress e (the addr) (the reason)) (\<lambda>_. andThen k (\<lambda>n. ret (Suc n)))) evs (ret 0)"

definition containsText :: "string \<Rightarrow> string \<Rightarrow> bool" where
  "containsText part s \<longleftrightarrow> list_ex (\<lambda>n. startsWith part (drop n s)) [0 ..< Suc (length s)]"

definition listSuppressions :: "nat option \<Rightarrow> nat option \<Rightarrow> string option \<Rightarrow> (emailSuppression list \<times> nat) act" where
  "listSuppressions page limit addr =
     (let p = max 1 (given page 1); l = min 100 (max 1 (given limit 20)) in
      reads (\<lambda>w. let rows = filter (\<lambda>x. \<not> truthy addr \<or> containsText (toLowerCase (the addr)) (es_email x)) (suppressions (mail w)) in
        (take l (drop ((p - 1) * l) (sort_key (\<lambda>x. - es_createdAt x) rows)), length rows)))"

definition removeSuppression :: "uuid \<Rightarrow> string act" where
  "removeSuppression i =
     andThen (reads (\<lambda>w. find (\<lambda>x. es_id x = i) (suppressions (mail w)))) (\<lambda>found.
     requireSome found NotFoundException (\<lambda>x.
     andThen (modify (\<lambda>w. w\<lparr>mail := (mail w)\<lparr>suppressions := filter (\<lambda>x. es_id x \<noteq> i) (suppressions (mail w))\<rparr>\<rparr>)) (\<lambda>_.
     ret (es_email x))))"

section \<open>Contacts\<close>

record contactDto =
  cn_stellarAddress :: address
  cn_label :: string
  cn_defaultRole :: "userRole option"
  cn_notes :: "string option"

record contactUpdate =
  cu_stellarAddress :: "address option"
  cu_label :: "string option"
  cu_defaultRole :: "userRole option option"
  cu_notes :: "string option option"

definition listContacts :: "uuid \<Rightarrow> string option \<Rightarrow> contact list act" where
  "listContacts owner query =
     (let q = map_option trim query in
      reads (\<lambda>w. sort_key ct_label (sort_key ct_createdAt (filter (\<lambda>c. ct_ownerId c = owner \<and>
        (\<not> truthy q \<or> containsText (toLowerCase (the q)) (toLowerCase (ct_label c)) \<or>
         startsWith (toLowerCase (the q)) (toLowerCase (ct_stellarAddress c)))) (contacts (db w))))))"

text \<open>\<open>throwOnDuplicate\<close>: the unique key of the table is a conflict of the request.\<close>

definition throwOnDuplicate :: "'a act \<Rightarrow> 'a act" where
  "throwOnDuplicate m = attempt m (\<lambda>x. throw (if x = PrismaP2002 then ConflictException else x))"

definition contactTaken :: "uuid \<Rightarrow> address \<Rightarrow> contact list \<Rightarrow> bool" where
  "contactTaken owner addr cs \<longleftrightarrow> list_ex (\<lambda>c. ct_ownerId c = owner \<and> ct_stellarAddress c = addr) cs"

definition createContact :: "env \<Rightarrow> uuid \<Rightarrow> contactDto \<Rightarrow> contact act" where
  "createContact e owner dto = throwOnDuplicate (
     andThen (reads (\<lambda>w. contactTaken owner (cn_stellarAddress dto) (contacts (db w)))) (\<lambda>taken.
     require (\<not> taken) PrismaP2002 (
     andThen freshId (\<lambda>i.
     let c = \<lparr>ct_id = i, ct_ownerId = owner, ct_stellarAddress = cn_stellarAddress dto, ct_label = cn_label dto,
           defaultRole = cn_defaultRole dto, ct_notes = cn_notes dto, ct_createdAt = now e\<rparr> in
     andThen (modifyDb (\<lambda>d. d\<lparr>contacts := contacts d @ [c]\<rparr>)) (\<lambda>_.
     ret c)))))"

definition applyContact :: "contactUpdate \<Rightarrow> contact \<Rightarrow> contact" where
  "applyContact dto c = c\<lparr>ct_stellarAddress := given (cu_stellarAddress dto) (ct_stellarAddress c), ct_label := given (cu_label dto) (ct_label c),
     defaultRole := given (cu_defaultRole dto) (defaultRole c), ct_notes := given (cu_notes dto) (ct_notes c)\<rparr>"

definition updateContact :: "uuid \<Rightarrow> uuid \<Rightarrow> contactUpdate \<Rightarrow> unit act" where
  "updateContact owner i dto =
     andThen (reads (\<lambda>w. find (\<lambda>c. ct_id c = i \<and> ct_ownerId c = owner) (contacts (db w)))) (\<lambda>existing.
     requireSome existing NotFoundException (\<lambda>c.
     throwOnDuplicate (
       andThen (reads (\<lambda>w. contactTaken owner (ct_stellarAddress (applyContact dto c)) (filter (\<lambda>x. ct_id x \<noteq> i) (contacts (db w))))) (\<lambda>taken.
       require (\<not> taken) PrismaP2002 (
       modifyDb (\<lambda>d. d\<lparr>contacts := updateWhere (\<lambda>x. ct_id x = i) (applyContact dto) (contacts d)\<rparr>))))))"

definition removeContact :: "uuid \<Rightarrow> uuid \<Rightarrow> unit act" where
  "removeContact owner i =
     andThen (reads (\<lambda>w. list_ex (\<lambda>c. ct_id c = i \<and> ct_ownerId c = owner) (contacts (db w)))) (\<lambda>hit.
     andThen (modifyDb (\<lambda>d. d\<lparr>contacts := filter (\<lambda>c. \<not> (ct_id c = i \<and> ct_ownerId c = owner)) (contacts d)\<rparr>)) (\<lambda>_.
     require hit NotFoundException (ret ())))"

definition counterpartiesOf :: "address \<Rightarrow> shipment \<Rightarrow> address list" where
  "counterpartiesOf addr s = filter (\<lambda>a. a \<noteq> addr) (setOf [buyerAddress s, supplierAddress s, logisticsAddress s, arbiterAddress s])"

text \<open>\<open>shipmentCounts.set(address, (shipmentCounts.get(address) ?? 0) + 1)\<close> on the insertion-ordered map.\<close>

fun bump :: "'k \<Rightarrow> ('k \<times> nat) list \<Rightarrow> ('k \<times> nat) list" where
  "bump k [] = [(k, 1)]"
| "bump k ((x, n) # m) = (if x = k then (x, Suc n) # m else (x, n) # bump k m)"

definition suggestions :: "uuid \<Rightarrow> address \<Rightarrow> (address \<times> nat) list act" where
  "suggestions owner addr = reads (\<lambda>w.
     let shs = filter (\<lambda>s. \<not> isDraft s \<and> addr \<in> {buyerAddress s, supplierAddress s, logisticsAddress s, arbiterAddress s}) (shipments (db w));
         saved = map ct_stellarAddress (filter (\<lambda>c. ct_ownerId c = owner) (contacts (db w)));
         counts = fold (\<lambda>s m. fold bump (counterpartiesOf addr s) m) shs []
     in sort_key (\<lambda>x. - int (snd x)) (sort_key fst (filter (\<lambda>x. fst x \<notin> set saved) counts)))"

section \<open>Filters stay private and clean\<close>

datatype filterCall =
    CreateFilter env uuid string json
  | UpdateFilter uuid uuid "string option" "json option"
  | RemoveFilter uuid uuid

fun filterStep :: "filterCall \<Rightarrow> world \<Rightarrow> world" where
  "filterStep (CreateFilter e uid name f) w = snd (createFilter e uid name f w)"
| "filterStep (UpdateFilter uid i name f) w = snd (updateFilter uid i name f w)"
| "filterStep (RemoveFilter uid i) w = snd (removeFilter uid i w)"

fun filterCaller :: "filterCall \<Rightarrow> uuid" where
  "filterCaller (CreateFilter e uid name f) = uid"
| "filterCaller (UpdateFilter uid i name f) = uid"
| "filterCaller (RemoveFilter uid i) = uid"

definition cleanCriteria :: "(string \<times> json) list \<Rightarrow> bool" where
  "cleanCriteria kvs \<longleftrightarrow> kvs \<noteq> [] \<and> (\<forall>kv \<in> set kvs. fst kv \<in> set SAVED_FILTER_FIELDS \<and> snd kv \<noteq> JNull)"

definition filterInv :: "world \<Rightarrow> bool" where
  "filterInv w \<longleftrightarrow> keysOk sf_id (savedFilters (db w)) (nextId (db w)) \<and>
     distinct (map (\<lambda>r. (sf_userId r, sf_name r)) (savedFilters (db w))) \<and>
     (\<forall>r \<in> set (savedFilters (db w)). cleanCriteria (sf_filter r))"

lemma sanitise_clean: "sanitise j = Inr kvs \<Longrightarrow> cleanCriteria kvs"
  by (auto simp: sanitise_def cleanCriteria_def list_ex_iff Let_def split: json.splits if_splits)

lemma run_findFilter: "findFilter uid i w = (case find (\<lambda>r. sf_id r = i \<and> sf_userId r = uid) (savedFilters (db w)) of
    None \<Rightarrow> (Inl NotFoundException, w) | Some r \<Rightarrow> (Inr r, w))"
  by (simp add: findFilter_def andThen_def split: option.split)

text \<open>What each call can do to the table.\<close>

lemma createFilter_cases:
  assumes "w' = snd (createFilter e uid name f w)"
  shows "w' = w \<or> (\<exists>r. sf_id r = nextId (db w) \<and> sf_userId r = uid \<and> sf_name r = name \<and> cleanCriteria (sf_filter r) \<and>
    savedFilters (db w') = savedFilters (db w) @ [r] \<and> nextId (db w') = Suc (nextId (db w)) \<and>
    (uid, name) \<notin> (\<lambda>r. (sf_userId r, sf_name r)) ` set (savedFilters (db w)))"
  unfolding assms createFilter_def
  by (cases "sanitise f") (auto simp: andThen_def require_def Let_def find_None_iff image_iff dest: sanitise_clean)

lemma updateFilter_cases:
  assumes "w' = snd (updateFilter uid i name f w)"
  shows "w' = w \<or> (\<exists>r0 c. r0 \<in> set (savedFilters (db w)) \<and> sf_id r0 = i \<and> sf_userId r0 = uid \<and> (\<forall>x. c = Some x \<longrightarrow> cleanCriteria x) \<and>
    nextId (db w') = nextId (db w) \<and>
    savedFilters (db w') = updateWhere (\<lambda>r. sf_id r = i) (\<lambda>r. r\<lparr>sf_name := given name (sf_name r), sf_filter := given c (sf_filter r)\<rparr>) (savedFilters (db w)) \<and>
    (\<forall>n. name = Some n \<longrightarrow> (\<forall>r \<in> set (savedFilters (db w)). sf_userId r = uid \<longrightarrow> sf_name r = n \<longrightarrow> sf_id r = i)))"
proof (cases "find (\<lambda>r. sf_id r = i \<and> sf_userId r = uid) (savedFilters (db w))")
  case None
  then show ?thesis by (simp add: assms updateFilter_def run_findFilter andThen_def)
next
  case (Some r0)
  note r0 = find_Some_prop [OF Some]
  show ?thesis
  proof (cases "\<exists>n. name = Some n \<and> find (\<lambda>r. sf_userId r = uid \<and> sf_name r = n \<and> sf_id r \<noteq> i) (savedFilters (db w)) \<noteq> None")
    case True
    then show ?thesis using Some by (auto simp: assms updateFilter_def run_findFilter andThen_def)
  next
    case False
    then have names: "\<forall>n. name = Some n \<longrightarrow> (\<forall>r \<in> set (savedFilters (db w)). sf_userId r = uid \<longrightarrow> sf_name r = n \<longrightarrow> sf_id r = i)"
      by (auto simp: find_None_iff)
    have free: "(case name of None \<Rightarrow> None | Some n \<Rightarrow> find (\<lambda>r. sf_userId r = uid \<and> sf_name r = n \<and> sf_id r \<noteq> i) (savedFilters (db w))) = None"
      using False by (auto split: option.split)
    show ?thesis
    proof (cases "case f of None \<Rightarrow> Inr None | Some j \<Rightarrow> (case sanitise j of Inl x \<Rightarrow> Inl x | Inr c \<Rightarrow> Inr (Some c))")
      case (Inl x)
      then show ?thesis using Some free by (simp add: assms updateFilter_def run_findFilter)
    next
      case (Inr c)
      then have "\<forall>x. c = Some x \<longrightarrow> cleanCriteria x" by (auto split: option.splits sum.splits dest: sanitise_clean)
      moreover have "w' = w\<lparr>db := (db w)\<lparr>savedFilters := updateWhere (\<lambda>r. sf_id r = i)
          (\<lambda>r. r\<lparr>sf_name := given name (sf_name r), sf_filter := given c (sf_filter r)\<rparr>) (savedFilters (db w))\<rparr>\<rparr>"
        using Inr Some free by (simp add: assms updateFilter_def run_findFilter)
      ultimately show ?thesis using r0 names by (intro disjI2 exI [of _ r0] exI [of _ c]) simp
    qed
  qed
qed

lemma removeFilter_cases:
  assumes "w' = snd (removeFilter uid i w)"
  shows "w' = w \<or> (\<exists>r0 \<in> set (savedFilters (db w)). sf_id r0 = i \<and> sf_userId r0 = uid) \<and>
    savedFilters (db w') = filter (\<lambda>r. sf_id r \<noteq> i) (savedFilters (db w)) \<and> nextId (db w') = nextId (db w)"
  unfolding assms removeFilter_def run_findFilter
  by (auto simp: andThen_def run_findFilter split: option.split dest!: find_Some_prop)

lemma filterInv_update:
  assumes inv: "filterInv w" and r0: "r0 \<in> set (savedFilters (db w))" "sf_id r0 = i" "sf_userId r0 = uid"
    and clean: "\<forall>x. c = Some x \<longrightarrow> cleanCriteria x" and nid: "nextId (db w') = nextId (db w)"
    and rows: "savedFilters (db w') = updateWhere (\<lambda>r. sf_id r = i) (\<lambda>r. r\<lparr>sf_name := given name (sf_name r), sf_filter := given c (sf_filter r)\<rparr>) (savedFilters (db w))"
    and names: "\<forall>n. name = Some n \<longrightarrow> (\<forall>r \<in> set (savedFilters (db w)). sf_userId r = uid \<longrightarrow> sf_name r = n \<longrightarrow> sf_id r = i)"
  shows "filterInv w'"
proof -
  let ?k = "\<lambda>r :: savedFilter. (sf_userId r, sf_name r)"
  let ?f = "\<lambda>r :: savedFilter. if sf_id r = i then r\<lparr>sf_name := given name (sf_name r), sf_filter := given c (sf_filter r)\<rparr> else r"
  have ids: "inj_on sf_id (set (savedFilters (db w)))" "distinct (savedFilters (db w))" "inj_on ?k (set (savedFilters (db w)))"
    using inv by (auto simp: filterInv_def keysOk_def distinct_map)
  have owner: "sf_userId r = uid" if "r \<in> set (savedFilters (db w))" "sf_id r = i" for r
    using inj_onD [OF ids(1), of r r0] r0 that by simp
  have "inj_on (?k \<circ> ?f) (set (savedFilters (db w)))"
  proof (rule inj_onI)
    fix x y assume x: "x \<in> set (savedFilters (db w))" "y \<in> set (savedFilters (db w))" and eq: "(?k \<circ> ?f) x = (?k \<circ> ?f) y"
    consider "sf_id x = i \<longleftrightarrow> sf_id y = i" | "sf_id x = i" "sf_id y \<noteq> i" | "sf_id x \<noteq> i" "sf_id y = i" by blast
    then show "x = y"
    proof cases
      case 1
      then show ?thesis using eq x inj_onD [OF ids(3), of x y] inj_onD [OF ids(1), of x y] by (auto split: if_splits)
    next
      case 2
      then show ?thesis using eq names owner [of x] x inj_onD [OF ids(3), of x y] by (cases name) auto
    next
      case 3
      then show ?thesis using eq names owner [of y] x inj_onD [OF ids(3), of x y] by (cases name) auto
    qed
  qed
  then have "distinct (map ?k (savedFilters (db w')))" using ids(2) by (simp add: rows updateWhere_def distinct_map)
  moreover have "keysOk sf_id (savedFilters (db w')) (nextId (db w'))" using inv by (simp add: rows nid filterInv_def keysOk_update)
  moreover have "\<forall>r \<in> set (savedFilters (db w')). cleanCriteria (sf_filter r)"
    using inv clean by (cases c) (auto simp: rows filterInv_def ball_updateWhere)
  ultimately show ?thesis by (simp add: filterInv_def)
qed

interpretation savedFilterTable: step_system filterStep filterInv
proof
  fix l w assume inv: "filterInv w"
  show "filterInv (filterStep l w)"
  proof (cases l)
    case (CreateFilter e uid name f)
    from createFilter_cases [OF refl, of e uid name f w] show ?thesis
    proof (elim disjE exE conjE)
      fix r assume "sf_id r = nextId (db w)" "sf_userId r = uid" "sf_name r = name" "cleanCriteria (sf_filter r)"
        "savedFilters (db (snd (createFilter e uid name f w))) = savedFilters (db w) @ [r]"
        "nextId (db (snd (createFilter e uid name f w))) = Suc (nextId (db w))"
        "(uid, name) \<notin> (\<lambda>r. (sf_userId r, sf_name r)) ` set (savedFilters (db w))"
      then show ?thesis using inv CreateFilter by (simp add: filterInv_def keysOk_append)
    qed (use inv CreateFilter in simp)
  next
    case (UpdateFilter uid i name f)
    from updateFilter_cases [OF refl, of uid i name f w] show ?thesis
      using inv UpdateFilter filterInv_update [OF inv] by (elim disjE exE conjE) simp_all
  next
    case (RemoveFilter uid i)
    from removeFilter_cases [OF refl, of uid i w] show ?thesis
      using inv RemoveFilter by (auto simp: filterInv_def keysOk_filter distinct_map_filter)
  qed
qed

text \<open>Saved filters are private and harmless. In every run of the service from a consistent state the presets hold only fields of
  the white list with a value, names are unique per user, and a call of one user leaves every preset of the others as it was.\<close>

lemma saved_filters_private_and_clean:
  assumes "filterInv w" and "w' = fold filterStep calls w"
  shows "(\<forall>r \<in> set (savedFilters (db w')). cleanCriteria (sf_filter r)) \<and>
    distinct (map (\<lambda>r. (sf_userId r, sf_name r)) (savedFilters (db w'))) \<and>
    (filterCaller call \<noteq> other \<longrightarrow>
      filter (\<lambda>r. sf_userId r = other) (savedFilters (db (filterStep call w'))) = filter (\<lambda>r. sf_userId r = other) (savedFilters (db w')))"
proof (intro conjI impI)
  have inv: "filterInv w'" unfolding assms(2) by (rule savedFilterTable.run_inv [OF assms(1)])
  then show "\<forall>r \<in> set (savedFilters (db w')). cleanCriteria (sf_filter r)"
    and "distinct (map (\<lambda>r. (sf_userId r, sf_name r)) (savedFilters (db w')))" by (simp_all add: filterInv_def)
  have one: "sf_userId r = uid" if "r0 \<in> set (savedFilters (db w'))" "sf_id r0 = i" "sf_userId r0 = uid" "r \<in> set (savedFilters (db w'))" "sf_id r = i" for r0 r i uid
    using inv that by (auto simp: filterInv_def keysOk_def distinct_map dest: inj_onD)
  assume other: "filterCaller call \<noteq> other"
  show "filter (\<lambda>r. sf_userId r = other) (savedFilters (db (filterStep call w'))) = filter (\<lambda>r. sf_userId r = other) (savedFilters (db w'))"
  proof (cases call)
    case (CreateFilter e uid name f)
    then show ?thesis using other createFilter_cases [OF refl, of e uid name f w'] by auto
  next
    case (UpdateFilter uid i name f)
    from updateFilter_cases [OF refl, of uid i name f w'] show ?thesis
    proof (elim disjE exE conjE)
      fix r0 c assume r0: "r0 \<in> set (savedFilters (db w'))" "sf_id r0 = i" "sf_userId r0 = uid"
        and rows: "savedFilters (db (snd (updateFilter uid i name f w'))) = updateWhere (\<lambda>r. sf_id r = i)
          (\<lambda>r. r\<lparr>sf_name := given name (sf_name r), sf_filter := given c (sf_filter r)\<rparr>) (savedFilters (db w'))"
      have "filter (\<lambda>r. sf_userId r = other) (updateWhere (\<lambda>r. sf_id r = i) g rs) = filter (\<lambda>r. sf_userId r = other) rs"
        if "set rs \<subseteq> set (savedFilters (db w'))" "\<And>r. sf_userId (g r) = sf_userId r" for g rs
        using that one [OF r0] other UpdateFilter by (induction rs) (auto simp: updateWhere_def)
      then show ?thesis using rows UpdateFilter by simp
    qed (use UpdateFilter in simp)
  next
    case (RemoveFilter uid i)
    from removeFilter_cases [OF refl, of uid i w'] show ?thesis
    proof (elim disjE conjE bexE)
      fix r0 assume r0: "r0 \<in> set (savedFilters (db w'))" "sf_id r0 = i" "sf_userId r0 = uid"
        and rows: "savedFilters (db (snd (removeFilter uid i w'))) = filter (\<lambda>r. sf_id r \<noteq> i) (savedFilters (db w'))"
      have "sf_id r \<noteq> i \<and> sf_userId r = other \<longleftrightarrow> sf_userId r = other" if "r \<in> set (savedFilters (db w'))" for r
        using one [OF r0 that] other RemoveFilter by auto
      then show ?thesis using RemoveFilter by (simp add: rows cong: filter_cong)
    qed (use RemoveFilter in simp)
  qed
qed

lemma saved_filters_private_and_clean_witness:
  "filterInv emptyWorld \<and>
   distinct (map (\<lambda>r. (sf_userId r, sf_name r)) (savedFilters (db (fold filterStep [CreateFilter env0 1 ''mine'' (JObj [(''status'', JStr ''ACTIVE'')])] emptyWorld))))"
proof -
  have inv: "filterInv emptyWorld" by (simp add: filterInv_def keysOk_def concrete_defs)
  with saved_filters_private_and_clean [OF inv refl] show ?thesis by blast
qed

text \<open>Explicit parameters of the query win over the preset.\<close>

lemma explicit_query_wins:
  "map_of (mergeQuery criteria query) k =
    (case map_of (List.map_filter (\<lambda>(k, v). map_option (\<lambda>x. (k, x)) v) query) k of Some v \<Rightarrow> Some v | None \<Rightarrow> map_of criteria k)"
proof -
  have drop: "map_of (filter (\<lambda>kv. fst kv \<notin> S) criteria) k = (if k \<in> S then None else map_of criteria k)" for S
    by (induction criteria) auto
  let ?ex = "List.map_filter (\<lambda>(k, v). map_option (\<lambda>x. (k, x)) v) query"
  have "map_of (mergeQuery criteria query) k = (case (if k \<in> fst ` set ?ex then None else map_of criteria k) of None \<Rightarrow> map_of ?ex k | Some v \<Rightarrow> Some v)"
    by (simp add: mergeQuery_def Let_def map_of_append map_add_def drop)
  then show ?thesis using map_of_eq_None_iff [of ?ex k] by (cases "map_of ?ex k"; cases "map_of criteria k") simp_all
qed

section \<open>A suppressed address gets no mail\<close>

text \<open>The mails that went out to an address, and the steps that may send or suppress.\<close>

definition mailed :: "string \<Rightarrow> mailbox \<Rightarrow> outgoing list" where
  "mailed addr mb = filter (\<lambda>m. case m of Mail to _ _ \<Rightarrow> toLowerCase (trim to) = addr | PlainMail to _ _ \<Rightarrow> toLowerCase (trim to) = addr | _ \<Rightarrow> False) (outbox mb)"

datatype mailStep =
    ProviderEvents env "emailEvent list"
  | NotifyUser env address notificationType string json
  | NotifyForced env address notificationType string "(string \<times> json) list"
  | NotifyWatchers env string notificationType string json
  | MailPlain string string string

fun mailAct :: "mailStep \<Rightarrow> unit act" where
  "mailAct (ProviderEvents e evs) = ignore (handleEvents e evs)"
| "mailAct (NotifyUser e addr ty title data) = ignore (notifyUser e addr ty title data)"
| "mailAct (NotifyForced e addr ty title kvs) = ignore (notifyUserWithForcedEmail e addr ty title kvs)"
| "mailAct (NotifyWatchers e sid ty title data) = notifyWatchers e sid ty title data"
| "mailAct (MailPlain to title body) = withMail (\<lambda>mb. ((), sendPlainMail to title body mb))"

definition silenced :: "string \<Rightarrow> outgoing list \<Rightarrow> mailbox \<Rightarrow> bool" where
  "silenced addr ms mb \<longleftrightarrow> addr \<in> set (map es_email (suppressions mb)) \<and> mailed addr mb = ms"

lemma silenced_sendEmail: "silenced addr ms mb \<Longrightarrow> silenced addr ms (sendEmail to ty title mb)"
  by (auto simp: silenced_def sendEmail_def isEmailSuppressed_def send_def mailed_def)

lemma silenced_sendPlainMail: "silenced addr ms mb \<Longrightarrow> silenced addr ms (sendPlainMail to title body mb)"
  by (auto simp: silenced_def sendPlainMail_def isEmailSuppressed_def send_def mailed_def)

lemma silenced_other:
  "silenced addr ms mb \<Longrightarrow> outbox mb' = outbox mb \<Longrightarrow> suppressions mb' = suppressions mb \<Longrightarrow> silenced addr ms mb'"
  by (simp add: silenced_def mailed_def)

lemma silenced_send:
  "silenced addr ms mb \<Longrightarrow> (case m of Mail _ _ _ \<Rightarrow> False | PlainMail _ _ _ \<Rightarrow> False | _ \<Rightarrow> True) \<Longrightarrow> silenced addr ms (send m mb)"
  by (cases m) (auto simp: silenced_def mailed_def send_def)

lemma silenced_preference: "silenced addr ms mb \<Longrightarrow> silenced addr ms (updatePreferenceRow uid f mb)"
  by (rule silenced_other) (simp_all add: updatePreferenceRow_def)

lemma silenced_markEmailSent: "silenced addr ms mb \<Longrightarrow> silenced addr ms (markEmailSent nid mb)"
  by (rule silenced_other) (simp_all add: markEmailSent_def)

lemma silenced_create: "silenced addr ms mb \<Longrightarrow> silenced addr ms (snd (createNotification t uid ty title data after mb))"
  by (rule silenced_other) (simp_all add: createNotification_def)

lemma silenced_getPreference: "silenced addr ms mb \<Longrightarrow> silenced addr ms (snd (getOrCreatePreferenceRecord t uid mb))"
  by (erule silenced_other) (auto simp: getOrCreatePreferenceRecord_def Let_def split: option.splits)

lemma silenced_sms: "silenced addr ms mb \<Longrightarrow> silenced addr ms (sendSmsNotification provider t uid phone ty mb)"
  by (auto simp: sendSmsNotification_def Let_def split: option.split intro!: silenced_preference silenced_send)

lemma silenced_if: "silenced addr ms mb \<Longrightarrow> silenced addr ms mb' \<Longrightarrow> silenced addr ms (if c then mb else mb')"
  by simp

lemmas silenced_intros = silenced_if silenced_sendEmail silenced_markEmailSent silenced_send silenced_sms

lemma createNotification_case:
  "(case createNotification t uid ty title data after mb of (nid, mb2) \<Rightarrow> F nid mb2) =
     F (nextNotification mb) (snd (createNotification t uid ty title data after mb))"
  by (simp add: createNotification_def)

lemma preference_case:
  "(case getOrCreatePreferenceRecord t uid mb of (pref, mb1) \<Rightarrow> F pref mb1) =
     F (fst (getOrCreatePreferenceRecord t uid mb)) (snd (getOrCreatePreferenceRecord t uid mb))"
  by (simp add: split_beta)

lemma silenced_deliver: "silenced addr ms mb \<Longrightarrow> silenced addr ms (snd (deliver e u ty title data mb))"
  unfolding deliver_def Let_def preference_case createNotification_case if_distrib [of snd] snd_conv
  by (intro silenced_intros silenced_create silenced_getPreference) simp_all

lemma silenced_deliverForced: "silenced addr ms mb \<Longrightarrow> silenced addr ms (snd (deliverForced e u ty title kvs mb))"
  unfolding deliverForced_def Let_def preference_case createNotification_case if_distrib [of snd] snd_conv
  by (intro silenced_intros silenced_create silenced_getPreference) simp_all

lemma silenced_fold: "(\<And>x mb. silenced addr ms mb \<Longrightarrow> silenced addr ms (f x mb)) \<Longrightarrow> silenced addr ms mb \<Longrightarrow> silenced addr ms (fold f xs mb)"
  by (induction xs arbitrary: mb) simp_all

lemma silenced_watchers: "silenced addr ms mb \<Longrightarrow> silenced addr ms (notifyWatchersMail t uids ty title data mb)"
  unfolding notifyWatchersMail_def createMany_def Let_def
  by (intro silenced_if silenced_fold silenced_send silenced_create) simp_all

abbreviation silent :: "string \<Rightarrow> outgoing list \<Rightarrow> world \<Rightarrow> bool" where
  "silent addr ms w \<equiv> silenced addr ms (mail w)"

lemma run_suppress:
  "fst (suppress e to reason w) \<noteq> Inl x \<and> toLowerCase (trim to) \<in> set (map es_email (suppressions (mail (snd (suppress e to reason w))))) \<and>
   set (map es_email (suppressions (mail w))) \<subseteq> set (map es_email (suppressions (mail (snd (suppress e to reason w))))) \<and>
   outbox (mail (snd (suppress e to reason w))) = outbox (mail w)"
proof (cases "find (\<lambda>x. es_email x = toLowerCase (trim to)) (suppressions (mail w))")
  case None
  then show ?thesis
    by (cases "find (\<lambda>u. map_option toLowerCase (email u) = Some (toLowerCase (trim to))) (users (db w))")
      (auto simp: suppress_def Let_def createNotification_def)
next
  case (Some y)
  then show ?thesis using find_Some_prop [OF Some] by (auto simp: suppress_def Let_def intro: rev_image_eqI)
qed

lemma keeps_silent_suppress: "keeps (silent addr ms) (suppress e to reason)"
proof (rule keepsI)
  fix w assume "silent addr ms w"
  then show "silent addr ms (snd (suppress e to reason w))"
    using run_suppress [of e to reason w] by (auto simp: silenced_def mailed_def)
qed

lemma keeps_silent_handleEvents: "keeps (silent addr ms) (handleEvents e evs)"
proof (induction evs)
  case (Cons x evs)
  then show ?case unfolding handleEvents_def foldr.simps comp_def Let_def
    by (intro keeps_if keeps_andThen keeps_silent_suppress keeps_ret)
qed (simp add: handleEvents_def keeps_def)

lemma keeps_silent_withMail: "(\<And>mb. silenced addr ms mb \<Longrightarrow> silenced addr ms (snd (f mb))) \<Longrightarrow> keeps (silent addr ms) (withMail f)"
  by (auto simp: keeps_def withMail_def split: prod.splits) (metis snd_conv)

lemma keeps_silent_step: "keeps (silent addr ms) (mailAct l)"
  by (cases l)
    (auto simp: notifyUser_def notifyUserWithForcedEmail_def notifyWatchers_def intro!: keeps_ignore keeps_silent_handleEvents keeps_andThen keeps_reads
      keeps_case_option keeps_ret keeps_silent_withMail silenced_deliver silenced_deliverForced silenced_watchers silenced_sendPlainMail)

interpretation silence: step_system "\<lambda>l. snd \<circ> mailAct l" "silent addr ms"
  by unfold_locales (simp add: keepsD [OF keeps_silent_step])

text \<open>C35: an address that bounced gets no more mail. Once an address is suppressed, no sequence of notifications, mentions, watcher
  alerts, plain mails and further provider events sends it anything, until an administrator takes it off the list.\<close>

theorem suppressed_address_gets_no_mail:
  assumes "w' = snd (suppress e to reason w)"
  shows "mailed (toLowerCase (trim to)) (mail (fold (\<lambda>l. snd \<circ> mailAct l) steps w')) = mailed (toLowerCase (trim to)) (mail w)"
proof -
  have "silent (toLowerCase (trim to)) (mailed (toLowerCase (trim to)) (mail w)) w'"
    using run_suppress [of e to reason w] by (auto simp: silenced_def mailed_def assms)
  from silence.run_inv [OF this, of steps] show ?thesis by (simp add: silenced_def)
qed

theorem suppressed_address_gets_no_mail_witness:
  "mailed ''a@b'' (mail (fold (\<lambda>l. snd \<circ> mailAct l) [MailPlain ''A@b'' ''t'' ''x''] (snd (suppress env0 ''A@b '' BOUNCE emptyWorld)))) = []"
proof -
  have "toLowerCase (trim ''A@b '') = ''a@b''" by code_simp
  with suppressed_address_gets_no_mail [OF refl, of "''A@b ''" "[MailPlain ''A@b'' ''t'' ''x'']" env0 BOUNCE emptyWorld]
  show ?thesis by (simp add: mailed_def concrete_defs)
qed

section \<open>Announcements, flags, contacts\<close>

text \<open>A user is shown exactly the announcements that run, address their role and were not dismissed, the most severe first.\<close>

lemma active_announcements:
  assumes "findActiveForUser uid role t w = (Inr as, w')"
  shows "set as = {a \<in> set (announcements (db w)). announcedTo uid role t (db w) a} \<and>
    sorted (map (\<lambda>a. severityRank (an_severity a)) as)"
  using assms by (auto simp: findActiveForUser_def)

lemma run_findAnnouncement: "findAnnouncement i w = (case find (\<lambda>a. an_id a = i) (announcements (db w)) of
    None \<Rightarrow> (Inl NotFoundException, w) | Some a \<Rightarrow> (Inr a, w))"
  by (simp add: findAnnouncement_def andThen_def split: option.split)

text \<open>Dismissing hides an announcement from its reader, and dismissing twice changes nothing.\<close>

lemma dismissed_is_hidden:
  assumes "dismissAnnouncement e i uid w = (Inr (), w')"
  shows "(\<forall>a. an_id a = i \<longrightarrow> \<not> announcedTo uid role t (db w') a) \<and> dismissAnnouncement e' i uid w' = (Inr (), w')"
proof -
  obtain a where a: "find (\<lambda>a. an_id a = i) (announcements (db w)) = Some a"
    using assms by (auto simp: dismissAnnouncement_def run_findAnnouncement andThen_def split: option.splits)
  then have w': "w' = w\<lparr>db := (if list_ex (\<lambda>x. dm_announcementId x = i \<and> dm_userId x = uid) (announcementDismissals (db w)) then db w
      else (db w)\<lparr>announcementDismissals := announcementDismissals (db w) @ [\<lparr>dm_announcementId = i, dm_userId = uid, dismissedAt = now e\<rparr>]\<rparr>)\<rparr>"
    using assms by (simp add: dismissAnnouncement_def run_findAnnouncement)
  have "list_ex (\<lambda>x. dm_announcementId x = i \<and> dm_userId x = uid) (announcementDismissals (db w'))" by (simp add: w')
  moreover have "find (\<lambda>a. an_id a = i) (announcements (db w')) = Some a" using a by (simp add: w')
  ultimately show ?thesis by (auto simp: announcedTo_def dismissAnnouncement_def run_findAnnouncement)
qed

text \<open>The window of an announcement is never empty.\<close>

lemma announcement_window:
  assumes "createAnnouncement e dto creator w = (Inr a, w')"
  shows "case endsAt a of None \<Rightarrow> True | Some t \<Rightarrow> startsAt a < t"
  using assms by (auto simp: createAnnouncement_def Let_def success_iffs assertWindow_def split: option.splits)

text \<open>What was set is read back, with the share clamped; a flag that was deleted or never set is off.\<close>

lemma flag_roundtrip:
  "getFlag parse t' name (snd (setFlag t name f r)) = Some (fst (setFlag t name f r))"
  by (auto simp: getFlag_def setFlag_def Let_def getJson_def lookupKey_def setKey_def liveEntry_def jsonGet_def clampRollout_def
      split: option.split)

lemma deleted_flag_is_off: "\<not> flagEnabled parse bucket t name subject (deleteFlag name r)"
  by (simp add: flagEnabled_def flagOn_def getFlag_def getJson_def lookupKey_def deleteFlag_def del_def)

text \<open>Raising the share of a rollout never takes the feature from a subject that has it.\<close>

lemma rollout_is_monotone:
  assumes "flagOn bucket name subject (Some \<lparr>ff_enabled = b, ff_rollout = Some m\<rparr>)" "m \<le> n"
  shows "flagOn bucket name subject (Some \<lparr>ff_enabled = b, ff_rollout = Some n\<rparr>)"
  using assms by (auto simp: flagOn_def split: if_splits)

text \<open>The guard lets a caller through exactly when the route has no flag or the flag is on, and otherwise answers as if there were no route.\<close>

lemma flag_guard:
  "canActivateFlag parse bucket t (Some name) userId addr r = (if name = [] \<or> flagEnabled parse bucket t name (case userId of None \<Rightarrow> addr | Some i \<Rightarrow> Some i) r
     then Inr True else Inl NotFoundException)"
  by (simp add: canActivateFlag_def truthy_def)

text \<open>The number shown with a suggestion is the number of shipments with that counterparty.\<close>

lemma map_of_bump: "map_of (bump k m) x = (if x = k then Some (Suc (given (map_of m k) 0)) else map_of m x)"
  by (induction k m rule: bump.induct) auto

lemma map_of_bumps:
  assumes "distinct ks"
  shows "given (map_of (fold bump ks m) x) 0 = given (map_of m x) 0 + (if x \<in> set ks then 1 else 0)"
  using assms by (induction ks arbitrary: m) (auto simp: map_of_bump)

lemma suggestion_counts:
  "given (map_of (fold (\<lambda>s m. fold bump (counterpartiesOf addr s) m) shs m) x) 0 =
     given (map_of m x) 0 + length (filter (\<lambda>s. x \<in> set (counterpartiesOf addr s)) shs)"
proof (induction shs arbitrary: m)
  case (Cons s shs)
  have "distinct (counterpartiesOf addr s)" by (simp add: counterpartiesOf_def)
  from map_of_bumps [OF this, of m x] Cons show ?case by simp
qed simp

lemma suggestions_are_new:
  assumes "suggestions owner addr w = (Inr xs, w')" "x \<in> set xs"
  shows "\<not> contactTaken owner (fst x) (contacts (db w))"
proof -
  have "fst x \<notin> set (map ct_stellarAddress (filter (\<lambda>c. ct_ownerId c = owner) (contacts (db w))))"
    using assms unfolding suggestions_def Let_def by auto
  then show ?thesis by (force simp: contactTaken_def list_ex_iff)
qed

text \<open>An owner has at most one contact per address.\<close>

lemma contact_unique:
  assumes "createContact e owner dto w = (Inr c, w')"
  shows "\<not> contactTaken owner (cn_stellarAddress dto) (contacts (db w)) \<and> contactTaken owner (cn_stellarAddress dto) (contacts (db w'))"
  using assms by (auto simp: createContact_def throwOnDuplicate_def attempt_def andThen_def require_def Let_def contactTaken_def
      split: if_splits)

lemma contact_conflict:
  "contactTaken owner (cn_stellarAddress dto) (contacts (db w)) \<Longrightarrow> createContact e owner dto w = (Inl ConflictException, w)"
  by (simp add: createContact_def throwOnDuplicate_def attempt_def)

end
