(* ===== verification/Calendar.thy ===== *)
theory Calendar
  imports Approvals
begin

text \<open>
  The iCalendar feeds of due dates (\<open>src/src/modules/milestones/calendar.service.ts\<close>): subscription tokens, the milestones of a
  feed, and the text of the calendar with its escapes and its lines of at most 75 octets. A text is the sequence of its
  UTF-8 octets. The loop that folds a line need not end on arbitrary octets, so it is a partial function; on the octets of a text
  it ends. The HMAC and the base64url codec are parameters.
\<close>

section \<open>Tokens\<close>

record feedLib =
  feedSecret :: string
  feedHmac :: "string \<Rightarrow> string \<Rightarrow> string"
  toBase64url :: "string \<Rightarrow> string"
  fromBase64url :: "string \<Rightarrow> string"

definition signFeed :: "feedLib \<Rightarrow> string \<Rightarrow> string" where
  "signFeed lib userId = feedHmac lib (feedSecret lib) userId"

definition issueToken :: "feedLib \<Rightarrow> string \<Rightarrow> string result" where
  "issueToken lib userId =
     (if feedSecret lib = [] then Inl UnauthorizedException
      else Inr (toBase64url lib userId @ ''.'' @ signFeed lib userId))"

definition verifyToken :: "feedLib \<Rightarrow> string \<Rightarrow> string result" where
  "verifyToken lib token =
     (if feedSecret lib = [] then Inl UnauthorizedException
      else if token = [] then Inl UnauthorizedException
      else (case splitOn (CHR ''.'') token of
        [encodedUserId, signature] \<Rightarrow>
          let userId = fromBase64url lib encodedUserId in
          if userId = [] then Inl UnauthorizedException
          else if signature = signFeed lib userId then Inr userId
          else Inl UnauthorizedException
      | _ \<Rightarrow> Inl UnauthorizedException))"

section \<open>Milestones of a feed\<close>

definition getShipmentMilestones :: "string \<Rightarrow> world \<Rightarrow> milestone list" where
  "getShipmentMilestones sid w = sort_key (\<lambda>m. the (dueAt m))
     (filter (\<lambda>m. m_shipmentId m = sid \<and> dueAt m \<noteq> None \<and> deletedAt m = None) (milestones (db w)))"

definition partyTo :: "address \<Rightarrow> string \<Rightarrow> world \<Rightarrow> bool" where
  "partyTo addr sid w \<longleftrightarrow> list_ex (\<lambda>s. s_id s = sid \<and>
     addr \<in> {buyerAddress s, supplierAddress s, logisticsAddress s, arbiterAddress s}) (shipments (db w))"

definition getUserMilestones :: "uuid \<Rightarrow> world \<Rightarrow> milestone list" where
  "getUserMilestones uid w = (case find (\<lambda>u. u_id u = uid) (users (db w)) of
      None \<Rightarrow> []
    | Some u \<Rightarrow> sort_key (\<lambda>m. the (dueAt m))
        (filter (\<lambda>m. dueAt m \<noteq> None \<and> deletedAt m = None \<and> partyTo (stellarAddress u) (m_shipmentId m) w) (milestones (db w))))"

section \<open>Rendering\<close>

abbreviation CR :: char where "CR \<equiv> CHR 0x0D"

abbreviation LF :: char where "LF \<equiv> CHR 0x0A"

abbreviation BSL :: char where "BSL \<equiv> CHR 0x5C"

definition PRODID :: string where
  "PRODID = ''-//ChainSettle//Milestone Due Dates//EN''"

definition EVENT_DURATION_MINUTES :: int where
  "EVENT_DURATION_MINUTES = 30"

text \<open>The four replacements one after the other.\<close>

definition replaceChar :: "char \<Rightarrow> string \<Rightarrow> string \<Rightarrow> string" where
  "replaceChar c r s = concat (map (\<lambda>x. if x = c then r else [x]) s)"

fun replaceBreaks :: "string \<Rightarrow> string" where
  "replaceBreaks [] = []"
| "replaceBreaks (c # cs) =
     (if c = CR then (case cs of d # ds \<Rightarrow> if d = LF then [BSL, CHR ''n''] @ replaceBreaks ds else [BSL, CHR ''n''] @ replaceBreaks cs
                      | [] \<Rightarrow> [BSL, CHR ''n''])
      else if c = LF then [BSL, CHR ''n''] @ replaceBreaks cs
      else c # replaceBreaks cs)"

definition escapeText :: "string \<Rightarrow> string" where
  "escapeText v = replaceBreaks (replaceChar (CHR '','') [BSL, CHR '',''] (replaceChar (CHR '';'') [BSL, CHR '';''] (replaceChar BSL [BSL, BSL] v)))"

fun dropMillis :: "string \<Rightarrow> string" where
  "dropMillis [] = []"
| "dropMillis (c # cs) = (if c = CHR ''.'' \<and> 3 \<le> length cs \<and> list_all (\<lambda>d. digitVal d \<noteq> None) (take 3 cs) then drop 3 cs else c # dropMillis cs)"

definition formatUtc :: "time \<Rightarrow> string" where
  "formatUtc t = dropMillis (filter (\<lambda>c. c \<noteq> CHR ''-'' \<and> c \<noteq> CHR '':'') (isoString t))"

text \<open>A continuation octet: its two highest bits are 10.\<close>

definition contOctet :: "char \<Rightarrow> bool" where
  "contOctet c \<longleftrightarrow> (let n = (of_char c :: nat) in 128 \<le> n \<and> n < 192)"

primrec backOff :: "string \<Rightarrow> nat \<Rightarrow> nat" where
  "backOff bs 0 = 0"
| "backOff bs (Suc e) = (if contOctet (bs ! Suc e) then backOff bs e else Suc e)"

definition cutAt :: "nat \<Rightarrow> string \<Rightarrow> nat" where
  "cutAt limit bs = (if limit < length bs then backOff bs limit else length bs)"

partial_function (option) foldParts :: "nat \<Rightarrow> string \<Rightarrow> string list option" where
  "foldParts limit bs =
     (if bs = [] then Some []
      else Option.bind (foldParts 74 (drop (cutAt limit bs) bs)) (\<lambda>ps. Some (take (cutAt limit bs) bs # ps)))"

fun joinWith :: "string \<Rightarrow> string list \<Rightarrow> string" where
  "joinWith sep [] = []"
| "joinWith sep [p] = p"
| "joinWith sep (p # q # ps) = p @ sep @ joinWith sep (q # ps)"

definition foldLine :: "string \<Rightarrow> string option" where
  "foldLine line = (if length line \<le> 75 then Some line else map_option (joinWith [CR, LF, CHR '' '']) (foldParts 75 line))"

fun milestoneStatusText :: "milestoneStatus \<Rightarrow> string" where
  "milestoneStatusText PENDING = ''PENDING''"
| "milestoneStatusText PROOF_SUBMITTED = ''PROOF_SUBMITTED''"
| "milestoneStatusText CONFIRMED = ''CONFIRMED''"
| "milestoneStatusText DISPUTED = ''DISPUTED''"
| "milestoneStatusText RESOLVED = ''RESOLVED''"

definition renderEvent :: "milestone \<Rightarrow> string \<Rightarrow> string list" where
  "renderEvent m stamp =
     (let due = the (dueAt m); end = due + EVENT_DURATION_MINUTES * 60000;
          summary = m_name m @ '' due ('' @ m_shipmentId m @ '')'';
          text = ''Milestone '' @ showInt (milestoneIndex m) @ '' on shipment '' @ m_shipmentId m @ ''. Status: '' @ milestoneStatusText (m_status m) @ ''.''
      in [''BEGIN:VEVENT'', ''UID:milestone-'' @ showInt (int (m_id m)) @ ''@chainsettle'', ''DTSTAMP:'' @ stamp,
          ''DTSTART:'' @ formatUtc due, ''DTEND:'' @ formatUtc end, ''SUMMARY:'' @ escapeText summary, ''DESCRIPTION:'' @ escapeText text,
          ''STATUS:CONFIRMED'', ''TRANSP:TRANSPARENT'', ''END:VEVENT''])"

definition calendarLines :: "milestone list \<Rightarrow> string \<Rightarrow> time \<Rightarrow> string list" where
  "calendarLines ms name t =
     [''BEGIN:VCALENDAR'', ''VERSION:2.0'', ''PRODID:'' @ PRODID, ''CALSCALE:GREGORIAN'', ''METHOD:PUBLISH'', ''X-WR-CALNAME:'' @ escapeText name] @
     concat (map (\<lambda>m. renderEvent m (formatUtc t)) (filter (\<lambda>m. dueAt m \<noteq> None) ms)) @ [''END:VCALENDAR'']"

primrec foldAll :: "string list \<Rightarrow> string list option" where
  "foldAll [] = Some []"
| "foldAll (l # ls) = (case (foldLine l, foldAll ls) of (Some x, Some xs) \<Rightarrow> Some (x # xs) | _ \<Rightarrow> None)"

definition renderCalendar :: "milestone list \<Rightarrow> string \<Rightarrow> time \<Rightarrow> string option" where
  "renderCalendar ms name t = map_option (\<lambda>ls. joinWith [CR, LF] ls @ [CR, LF]) (foldAll (calendarLines ms name t))"

definition renderShipmentCalendar :: "string \<Rightarrow> time \<Rightarrow> world \<Rightarrow> string option" where
  "renderShipmentCalendar sid t w = renderCalendar (getShipmentMilestones sid w) (''Shipment '' @ sid @ '' milestones'') t"

definition renderUserCalendar :: "uuid \<Rightarrow> time \<Rightarrow> world \<Rightarrow> string option" where
  "renderUserCalendar uid t w = renderCalendar (getUserMilestones uid w) ''ChainSettle milestone due dates'' t"

section \<open>Tokens identify their owner\<close>

text \<open>What the feeds rely on of the codecs: decoding inverts encoding, and neither part of a token contains a dot.\<close>

definition feedLibOk :: "feedLib \<Rightarrow> bool" where
  "feedLibOk lib \<longleftrightarrow> feedSecret lib \<noteq> [] \<and> (\<forall>s. fromBase64url lib (toBase64url lib s) = s) \<and>
     (\<forall>s. CHR ''.'' \<notin> set (toBase64url lib s)) \<and> (\<forall>k s. CHR ''.'' \<notin> set (feedHmac lib k s))"

lemma feed_token_roundtrip:
  assumes "feedLibOk lib" "userId \<noteq> []" "issueToken lib userId = Inr token"
  shows "verifyToken lib token = Inr userId"
  using assms by (auto simp: issueToken_def verifyToken_def feedLibOk_def splitOn_two signFeed_def)

text \<open>A token that is accepted carries the signature of the identity it names.\<close>

lemma feed_token_sound:
  assumes "verifyToken lib token = Inr userId"
  shows "\<exists>enc. splitOn (CHR ''.'') token = [enc, signFeed lib userId] \<and> fromBase64url lib enc = userId \<and> userId \<noteq> []"
  using assms by (auto simp: verifyToken_def Let_def split: if_splits list.splits)

text \<open>A feed shows only shipments its owner takes part in, in the order of their due dates.\<close>

lemma user_feed_is_own:
  assumes "m \<in> set (getUserMilestones uid w)"
  shows "\<exists>u. find (\<lambda>u. u_id u = uid) (users (db w)) = Some u \<and> partyTo (stellarAddress u) (m_shipmentId m) w \<and> dueAt m \<noteq> None \<and> deletedAt m = None"
  using assms by (cases "find (\<lambda>u. u_id u = uid) (users (db w))") (auto simp: getUserMilestones_def)

section \<open>Escapes\<close>

lemma set_replaceBreaks: "CR \<notin> set (replaceBreaks s)" "LF \<notin> set (replaceBreaks s)"
  by (induction s rule: replaceBreaks.induct) (auto split: list.splits)

lemma escaped_has_no_breaks: "CR \<notin> set (escapeText s)" "LF \<notin> set (escapeText s)"
  by (simp_all add: escapeText_def set_replaceBreaks)

text \<open>Reading an escaped text back gives the text with its line breaks made uniform.\<close>

fun unescapeText :: "string \<Rightarrow> string" where
  "unescapeText [] = []"
| "unescapeText [c] = [c]"
| "unescapeText (c # d # cs) = (if c = BSL then (if d = CHR ''n'' then LF else d) # unescapeText cs else c # unescapeText (d # cs))"

fun uniformBreaks :: "string \<Rightarrow> string" where
  "uniformBreaks [] = []"
| "uniformBreaks (c # cs) =
     (if c = CR then (case cs of d # ds \<Rightarrow> if d = LF then LF # uniformBreaks ds else LF # uniformBreaks cs | [] \<Rightarrow> [LF])
      else c # uniformBreaks cs)"

text \<open>The four replacements in one pass.\<close>

fun escapeOnce :: "string \<Rightarrow> string" where
  "escapeOnce [] = []"
| "escapeOnce (c # cs) =
     (if c \<in> {BSL, CHR '';'', CHR '',''} then [BSL, c] @ escapeOnce cs
      else if c = CR then (case cs of d # ds \<Rightarrow> if d = LF then [BSL, CHR ''n''] @ escapeOnce ds else [BSL, CHR ''n''] @ escapeOnce cs
                           | [] \<Rightarrow> [BSL, CHR ''n''])
      else if c = LF then [BSL, CHR ''n''] @ escapeOnce cs
      else c # escapeOnce cs)"

definition escapeChar :: "char \<Rightarrow> string" where
  "escapeChar c = (if c \<in> {BSL, CHR '';'', CHR '',''} then [BSL, c] else [c])"

lemma escapeText_chars: "escapeText s = replaceBreaks (concat (map escapeChar s))"
proof -
  have "replaceChar (CHR '','') [BSL, CHR '',''] (replaceChar (CHR '';'') [BSL, CHR '';''] (replaceChar BSL [BSL, BSL] s)) = concat (map escapeChar s)"
    by (induction s) (simp_all add: replaceChar_def escapeChar_def)
  then show ?thesis by (simp add: escapeText_def)
qed

lemma escapeText_once: "escapeText s = escapeOnce s"
  unfolding escapeText_chars
proof (induction s rule: escapeOnce.induct)
  case (2 c cs)
  consider "c \<in> {BSL, CHR '';'', CHR '',''}" | "c = CR" | "c = LF" | "c \<notin> {BSL, CHR '';'', CHR '','', CR, LF}" by blast
  then show ?case
  proof cases
    case 2
    show ?thesis
    proof (cases cs)
      case Nil
      then show ?thesis using 2 by (simp add: escapeChar_def)
    next
      case (Cons d ds)
      then show ?thesis using 2 "2.IH" by (cases "d = LF") (auto simp: escapeChar_def)
    qed
  qed (use "2.IH" in \<open>auto simp: escapeChar_def\<close>)
qed simp

lemma unescape_escape: "unescapeText (escapeText s) = uniformBreaks s"
proof -
  have plain: "unescapeText (c # t) = c # unescapeText t" if "c \<noteq> BSL" for c t using that by (cases t) auto
  show ?thesis unfolding escapeText_once
  proof (induction s rule: escapeOnce.induct)
    case (2 c cs)
    then show ?case by (cases cs) (auto simp: plain)
  qed simp
qed

section \<open>Folding\<close>

text \<open>The octets of a text: after a lead octet come at most three continuation octets.\<close>

fun octetsOk :: "nat \<Rightarrow> string \<Rightarrow> bool" where
  "octetsOk k [] = True"
| "octetsOk k (c # cs) = (if contOctet c then 0 < k \<and> octetsOk (k - 1) cs else octetsOk 3 cs)"

abbreviation utf8Text :: "string \<Rightarrow> bool" where
  "utf8Text \<equiv> octetsOk 0"

lemma octetsOk_mono: "octetsOk k bs \<Longrightarrow> k \<le> l \<Longrightarrow> octetsOk l bs"
  by (induction k bs arbitrary: l rule: octetsOk.induct) (auto split: if_splits)

lemma octetsOk_append: "octetsOk k xs \<Longrightarrow> utf8Text ys \<Longrightarrow> octetsOk k (xs @ ys)"
  by (induction k xs rule: octetsOk.induct) (auto intro: octetsOk_mono)

lemma octetsOk_drop: "octetsOk k bs \<Longrightarrow> n < length bs \<Longrightarrow> \<not> contOctet (bs ! n) \<Longrightarrow> utf8Text (drop n bs)"
proof (induction k bs arbitrary: n rule: octetsOk.induct)
  case (2 k c cs)
  then show ?case by (cases n) (auto split: if_splits)
qed simp

lemma lead_among_four:
  assumes "octetsOk k bs" "k \<le> 3" "i + 3 < length bs"
  shows "\<exists>j. i \<le> j \<and> j \<le> i + 3 \<and> \<not> contOctet (bs ! j)"
  using assms
proof (induction k bs arbitrary: i rule: octetsOk.induct)
  case (2 k c cs)
  show ?case
  proof (cases i)
    case (Suc i')
    have "\<exists>j. i' \<le> j \<and> j \<le> i' + 3 \<and> \<not> contOctet (cs ! j)" using 2 Suc by (cases "contOctet c") auto
    then obtain j where "i' \<le> j" "j \<le> i' + 3" "\<not> contOctet (cs ! j)" by blast
    then show ?thesis using Suc by (intro exI [of _ "Suc j"]) simp
  next
    case 0
    then obtain b d f rest where "cs = b # d # f # rest" using 2(5) by (cases cs; cases "tl cs"; cases "tl (tl cs)") auto
    then show ?thesis using 2(3,4) 0 by (force simp: nth_Cons' split: if_splits)
  qed
qed simp

lemma backOff_stops:
  "j \<le> e \<Longrightarrow> 0 < j \<Longrightarrow> \<not> contOctet (bs ! j) \<Longrightarrow> j \<le> backOff bs e \<and> backOff bs e \<le> e \<and> \<not> contOctet (bs ! backOff bs e)"
  by (induction e) (auto simp: le_Suc_eq)

lemma cutAt_text:
  assumes "utf8Text bs" "bs \<noteq> []" "4 \<le> limit"
  shows "0 < cutAt limit bs" "cutAt limit bs \<le> limit" "cutAt limit bs \<le> length bs" "utf8Text (drop (cutAt limit bs) bs)"
proof -
  have "0 < cutAt limit bs \<and> cutAt limit bs \<le> limit \<and> cutAt limit bs \<le> length bs \<and> utf8Text (drop (cutAt limit bs) bs)"
  proof (cases "limit < length bs")
    case True
    obtain j where "limit - 3 \<le> j" "j \<le> limit" "\<not> contOctet (bs ! j)"
      using lead_among_four [OF assms(1), of "limit - 3"] True assms(3) by auto
    moreover from this have "0 < j" using assms(3) by linarith
    ultimately have "j \<le> backOff bs limit" "backOff bs limit \<le> limit" "\<not> contOctet (bs ! backOff bs limit)" "0 < j"
      using backOff_stops [of j limit bs] by auto
    with True octetsOk_drop [OF assms(1), of "backOff bs limit"] show ?thesis by (auto simp: cutAt_def)
  next
    case False
    then show ?thesis using assms(2) by (simp add: cutAt_def)
  qed
  then show "0 < cutAt limit bs" "cutAt limit bs \<le> limit" "cutAt limit bs \<le> length bs" "utf8Text (drop (cutAt limit bs) bs)" by auto
qed

lemma foldParts_text:
  assumes "utf8Text bs" "4 \<le> limit"
  shows "\<exists>ps. foldParts limit bs = Some ps \<and> concat ps = bs \<and> (\<forall>p \<in> set ps. utf8Text p) \<and>
    (ps = [] \<or> length (hd ps) \<le> limit) \<and> (\<forall>p \<in> set (tl ps). length p \<le> 74)"
  using assms
proof (induction "length bs" arbitrary: bs limit rule: less_induct)
  case less
  show ?case
  proof (cases "bs = []")
    case True
    then show ?thesis by (simp add: foldParts.simps)
  next
    case False
    let ?n = "cutAt limit bs"
    note cut = cutAt_text [OF less.prems(1) False less.prems(2)]
    have "length (drop ?n bs) < length bs" using cut(1) False by (simp add: length_greater_0_conv)
    from less.hyps [OF this cut(4), of 74] obtain ps where ps: "foldParts 74 (drop ?n bs) = Some ps" "concat ps = drop ?n bs"
      "\<forall>p \<in> set ps. utf8Text p" "ps = [] \<or> length (hd ps) \<le> 74" "\<forall>p \<in> set (tl ps). length p \<le> 74" by auto
    have "octetsOk k (take n xs)" if "octetsOk k xs" for k n xs using that by (induction k xs arbitrary: n rule: octetsOk.induct) (auto simp: take_Cons' split: if_splits)
    then have "utf8Text (take ?n bs)" using less.prems(1) by blast
    moreover have "foldParts limit bs = Some (take ?n bs # ps)" using False ps(1) by (subst foldParts.simps) simp
    moreover have "\<forall>p \<in> set ps. length p \<le> 74" using ps(4,5) by (cases ps) auto
    ultimately show ?thesis using ps(2,3) cut(2) by auto
  qed
qed

section \<open>The document\<close>

text \<open>What a reader of the feed does first: it removes every line break that is followed by a space.\<close>

fun unfoldText :: "string \<Rightarrow> string" where
  "unfoldText (a # b # c # cs) = (if a = CR \<and> b = LF \<and> c = CHR '' '' then unfoldText cs else a # unfoldText (b # c # cs))"
| "unfoldText cs = cs"

definition terminated :: "string list \<Rightarrow> string" where
  "terminated ls = concat (map (\<lambda>l. l @ [CR, LF]) ls)"

definition unbroken :: "string \<Rightarrow> bool" where
  "unbroken l \<longleftrightarrow> CR \<notin> set l \<and> LF \<notin> set l"

lemma unfold_cons: "x \<noteq> CR \<Longrightarrow> unfoldText (x # t) = x # unfoldText t"
  by (cases t; cases "tl t") auto

lemma unfold_plain: "unbroken p \<Longrightarrow> unfoldText (p @ q) = p @ unfoldText q"
  by (induction p) (auto simp: unbroken_def unfold_cons)

lemma unfold_break: "q = [] \<or> hd q \<noteq> CHR '' '' \<Longrightarrow> unfoldText ([CR, LF] @ q) = [CR, LF] @ unfoldText q"
  by (cases q) (auto simp: unfold_cons)

lemma joinWith_terminated: "ls \<noteq> [] \<Longrightarrow> joinWith [CR, LF] ls @ [CR, LF] = terminated ls"
  by (induction "[CR, LF]" ls rule: joinWith.induct) (auto simp: terminated_def)

lemma joinWith_fold: "ps \<noteq> [] \<Longrightarrow> joinWith [CR, LF, CHR '' ''] ps = joinWith [CR, LF] (hd ps # map (Cons (CHR '' '')) (tl ps))"
proof (induction "[CR, LF, CHR '' '']" ps rule: joinWith.induct)
  case (3 p q ps)
  then show ?case by (cases ps) auto
qed auto

lemma unfold_join: "ps \<noteq> [] \<Longrightarrow> \<forall>p \<in> set ps. unbroken p \<Longrightarrow> unfoldText (joinWith [CR, LF, CHR '' ''] ps @ q) = concat ps @ unfoldText q"
  by (induction "[CR, LF, CHR '' '']" ps rule: joinWith.induct) (auto simp: unfold_plain)

text \<open>A folded line: it can be unfolded, and its physical lines are short.\<close>

lemma foldLine_text:
  assumes "utf8Text l" "unbroken l"
  shows "\<exists>f phys. foldLine l = Some f \<and> (\<forall>q. unfoldText (f @ q) = l @ unfoldText q) \<and> f @ [CR, LF] = terminated phys \<and>
    (\<forall>p \<in> set phys. length p \<le> 75 \<and> unbroken p)"
proof (cases "length l \<le> 75")
  case True
  then show ?thesis using assms(2) by (intro exI [of _ l] exI [of _ "[l]"]) (simp add: foldLine_def unfold_plain terminated_def)
next
  case False
  obtain ps where ps: "foldParts 75 l = Some ps" "concat ps = l" "ps = [] \<or> length (hd ps) \<le> 75" "\<forall>p \<in> set (tl ps). length p \<le> 74"
    using foldParts_text [OF assms(1), of 75] by auto
  have ne: "ps \<noteq> []" using ps(2) False by auto
  have un: "\<forall>p \<in> set ps. unbroken p" using assms(2) ps(2) by (auto simp: unbroken_def)
  let ?phys = "hd ps # map (Cons (CHR '' '')) (tl ps)"
  have "\<forall>p \<in> set ?phys. length p \<le> 75 \<and> unbroken p"
    using ps(3,4) un ne by (cases ps) (auto simp: unbroken_def)
  moreover have "foldLine l = Some (joinWith [CR, LF, CHR '' ''] ps)" using False ps(1) by (simp add: foldLine_def)
  moreover have "joinWith [CR, LF, CHR '' ''] ps @ [CR, LF] = terminated ?phys"
    unfolding joinWith_fold [OF ne] by (rule joinWith_terminated) simp
  ultimately show ?thesis using unfold_join [OF ne un] ps(2) by blast
qed

lemma foldAll_text:
  assumes "\<forall>l \<in> set ls. utf8Text l \<and> unbroken l \<and> l \<noteq> [] \<and> hd l \<noteq> CHR '' ''"
  shows "\<exists>fs phys. foldAll ls = Some fs \<and> length fs = length ls \<and> terminated fs = terminated phys \<and>
    (\<forall>p \<in> set phys. length p \<le> 75 \<and> unbroken p) \<and> unfoldText (terminated fs) = terminated ls"
  using assms
proof (induction ls)
  case (Cons l ls)
  then obtain fs phys where fs: "foldAll ls = Some fs" "length fs = length ls" "terminated fs = terminated phys"
    "\<forall>p \<in> set phys. length p \<le> 75 \<and> unbroken p" "unfoldText (terminated fs) = terminated ls" by auto
  obtain f ph where f: "foldLine l = Some f" "\<And>q. unfoldText (f @ q) = l @ unfoldText q" "f @ [CR, LF] = terminated ph"
    "\<forall>p \<in> set ph. length p \<le> 75 \<and> unbroken p" using foldLine_text [of l] Cons.prems by auto
  have "terminated fs = [] \<or> hd (terminated fs) \<noteq> CHR '' ''"
  proof (cases ls)
    case Nil
    then show ?thesis using fs(2) by (simp add: terminated_def)
  next
    case (Cons l' ls')
    then have "hd (terminated ls) \<noteq> CHR '' ''" "terminated ls \<noteq> []" using Cons.prems by (auto simp: terminated_def)
    moreover have "hd (terminated ls) = CHR '' ''" if "terminated fs = CHR '' '' # t" for t
      using fs(5) unfold_cons [of "CHR '' ''" t] by (simp add: that) (metis list.sel(1))
    ultimately show ?thesis by (cases "terminated fs") auto
  qed
  then have "unfoldText (terminated (f # fs)) = terminated (l # ls)"
    using f(2) [of "[CR, LF] @ terminated fs"] unfold_break [of "terminated fs"] fs(5) by (simp add: terminated_def)
  moreover have "terminated (f # fs) = terminated (ph @ phys)" using f(3) fs(3) by (simp add: terminated_def)
  moreover have "\<forall>p \<in> set (ph @ phys). length p \<le> 75 \<and> unbroken p" using f(4) fs(4) by auto
  ultimately show ?case using f(1) fs(1,2) by (intro exI [of _ "f # fs"] exI [of _ "ph @ phys"]) auto
qed (simp add: terminated_def)

text \<open>Texts of one octet per character without line breaks.\<close>

definition plainText :: "string \<Rightarrow> bool" where
  "plainText s \<longleftrightarrow> (\<forall>c \<in> set s. \<not> contOctet c \<and> c \<noteq> CR \<and> c \<noteq> LF)"

lemma plain_ok: "plainText s \<Longrightarrow> utf8Text s \<and> unbroken s"
proof -
  assume p: "plainText s"
  have "octetsOk k s" for k using p by (induction s arbitrary: k) (auto simp: plainText_def)
  then show ?thesis using p by (auto simp: plainText_def unbroken_def)
qed

lemma plain_append [simp]: "plainText (a @ b) \<longleftrightarrow> plainText a \<and> plainText b"
  by (auto simp: plainText_def)

lemma plain_Cons: "plainText (c # s) \<longleftrightarrow> \<not> contOctet c \<and> c \<noteq> CR \<and> c \<noteq> LF \<and> plainText s"
  by (auto simp: plainText_def)

lemma plain_Nil [simp]: "plainText []"
  by (simp add: plainText_def)

lemma single_octets [simp]: "\<not> contOctet CR" "\<not> contOctet LF" "\<not> contOctet BSL" "\<not> contOctet (CHR ''n'')" "\<not> contOctet (CHR '';'')" "\<not> contOctet (CHR '','')"
  by (simp_all add: contOctet_def Let_def)

lemmas plain_literal = plain_Cons contOctet_def Let_def

lemma plain_digits: "plainText (digits n)"
  unfolding plainText_def
proof
  fix c assume "c \<in> set (digits n)"
  then have "48 \<le> (of_char c :: nat)" "(of_char c :: nat) \<le> 57" using digit_chars by auto
  then show "\<not> contOctet c \<and> c \<noteq> CR \<and> c \<noteq> LF" by (auto simp: contOctet_def Let_def)
qed

lemma plain_showInt [simp]: "plainText (showInt i)"
  by (simp add: showInt_def plain_digits plain_literal)

lemma plain_zeroPad [simp]: "plainText (zeroPad n i)"
proof -
  have "plainText (replicate k (CHR ''0''))" for k by (simp add: plainText_def contOctet_def Let_def)
  then show ?thesis by (simp add: zeroPad_def Let_def plain_digits)
qed

lemma plain_isoString: "plainText (isoString t)"
  by (cases "civilFromDays (t div 86400000)") (simp add: isoString_def plain_literal)

lemma plain_sub: "plainText s \<Longrightarrow> set t \<subseteq> set s \<Longrightarrow> plainText t"
  by (auto simp: plainText_def)

lemma set_dropMillis: "set (dropMillis s) \<subseteq> set s"
  by (induction s rule: dropMillis.induct) (auto dest: in_set_dropD)

lemma plain_formatUtc [simp]: "plainText (formatUtc t)"
proof -
  have "set (formatUtc t) \<subseteq> set (isoString t)"
    unfolding formatUtc_def using set_dropMillis [of "filter (\<lambda>c. c \<noteq> CHR ''-'' \<and> c \<noteq> CHR '':'') (isoString t)"] by auto
  then show ?thesis by (rule plain_sub [OF plain_isoString])
qed

lemma utf8_escape: "octetsOk k s \<Longrightarrow> octetsOk k (escapeText s)"
  unfolding escapeText_once
proof (induction s arbitrary: k rule: escapeOnce.induct)
  case (2 c cs)
  consider "c \<in> {BSL, CHR '';'', CHR '',''}" | "c = CR" | "c = LF" | "c \<notin> {BSL, CHR '';'', CHR '','', CR, LF}" by blast
  then show ?case
  proof cases
    case 2
    then show ?thesis using "2.IH" "2.prems" by (cases cs) auto
  next
    case 4
    then show ?thesis using "2.IH" "2.prems" by (cases "contOctet c") auto
  qed (use "2.IH" "2.prems" in auto)
qed simp

text \<open>The lines of a calendar, whatever the names in it, as long as they are texts.\<close>

lemma text_append: "utf8Text a \<and> unbroken a \<Longrightarrow> utf8Text b \<and> unbroken b \<Longrightarrow> utf8Text (a @ b) \<and> unbroken (a @ b)"
  by (auto simp: unbroken_def intro: octetsOk_append)

lemma escaped_ok: "utf8Text s \<Longrightarrow> utf8Text (escapeText s) \<and> unbroken (escapeText s)"
  using utf8_escape escaped_has_no_breaks by (simp add: unbroken_def)

definition lineOk :: "string \<Rightarrow> bool" where
  "lineOk l \<longleftrightarrow> utf8Text l \<and> unbroken l \<and> l \<noteq> [] \<and> hd l \<noteq> CHR '' ''"

lemma lineOk_append: "plainText a \<Longrightarrow> a \<noteq> [] \<Longrightarrow> hd a \<noteq> CHR '' '' \<Longrightarrow> utf8Text b \<and> unbroken b \<Longrightarrow> lineOk (a @ b)"
  using text_append [OF plain_ok, of a b] by (simp add: lineOk_def)

lemma lineOk_plain: "plainText a \<Longrightarrow> a \<noteq> [] \<Longrightarrow> hd a \<noteq> CHR '' '' \<Longrightarrow> lineOk a"
  using plain_ok by (simp add: lineOk_def)

lemma renderEvent_ok:
  assumes "utf8Text (m_name m)" "utf8Text (m_shipmentId m)" "plainText stamp"
  shows "\<forall>l \<in> set (renderEvent m stamp). lineOk l"
proof -
  have status: "plainText (milestoneStatusText st)" for st by (cases st) (simp_all add: plain_literal)
  have "utf8Text (m_name m @ '' due ('' @ m_shipmentId m @ '')'')"
    by (intro octetsOk_append assms) (simp_all add: contOctet_def Let_def)
  moreover have "utf8Text (''Milestone '' @ showInt i @ '' on shipment '' @ m_shipmentId m @ ''. Status: '' @ milestoneStatusText st @ ''.'')" for i st
  proof (intro octetsOk_append assms)
    show "utf8Text (showInt i)" "utf8Text (milestoneStatusText st)" using plain_ok status by auto
  qed (simp_all add: contOctet_def Let_def)
  ultimately have texts: "lineOk (''SUMMARY:'' @ escapeText (m_name m @ '' due ('' @ m_shipmentId m @ '')''))"
    "lineOk (''DESCRIPTION:'' @ escapeText (''Milestone '' @ showInt i @ '' on shipment '' @ m_shipmentId m @ ''. Status: '' @ milestoneStatusText st @ ''.''))" for i st
    by (intro lineOk_append escaped_ok; (assumption | simp add: plain_literal))+
  have "list_all lineOk (renderEvent m stamp)"
    unfolding renderEvent_def Let_def list.pred_inject
    by (intro conjI list.pred_inject(1); (rule texts | (rule lineOk_plain; simp add: plain_literal assms(3))))
  then show ?thesis by (simp add: list_all_iff)
qed

lemma calendarLines_ok:
  assumes "\<forall>m \<in> set ms. utf8Text (m_name m) \<and> utf8Text (m_shipmentId m)" "utf8Text name"
  shows "\<forall>l \<in> set (calendarLines ms name t). lineOk l"
proof -
  have "lineOk (''X-WR-CALNAME:'' @ escapeText name)"
    by (intro lineOk_append escaped_ok assms(2); simp add: plain_literal)
  moreover have "lineOk ''BEGIN:VCALENDAR''" "lineOk ''VERSION:2.0''" "lineOk (''PRODID:'' @ PRODID)" "lineOk ''CALSCALE:GREGORIAN''"
    "lineOk ''METHOD:PUBLISH''" "lineOk ''END:VCALENDAR''"
    by (rule lineOk_plain; simp add: plain_literal PRODID_def)+
  moreover have "\<forall>l \<in> set (concat (map (\<lambda>m. renderEvent m (formatUtc t)) (filter (\<lambda>m. dueAt m \<noteq> None) ms))). lineOk l"
    using renderEvent_ok [OF _ _ plain_formatUtc] assms(1) by auto
  ultimately show ?thesis unfolding calendarLines_def set_append by auto
qed

text \<open>C26: the calendar is a document a reader can take apart again, whatever the names of milestones and shipments are. Rendering always
  ends with a text; its physical lines have at most 75 octets and no other line break; removing the folds gives exactly the lines
  that were meant, so no name can add, hide or break a line; and every escaped value reads back as it was, up to the form of its line breaks.\<close>

theorem calendar_reads_back:
  assumes "\<forall>m \<in> set ms. utf8Text (m_name m) \<and> utf8Text (m_shipmentId m)" and "utf8Text name"
  shows "\<exists>doc phys. renderCalendar ms name t = Some doc \<and> doc = terminated phys \<and> (\<forall>p \<in> set phys. length p \<le> 75 \<and> unbroken p) \<and>
    unfoldText doc = terminated (calendarLines ms name t) \<and> unescapeText (escapeText s) = uniformBreaks s"
proof -
  let ?ls = "calendarLines ms name t"
  have "\<forall>l \<in> set ?ls. utf8Text l \<and> unbroken l \<and> l \<noteq> [] \<and> hd l \<noteq> CHR '' ''"
    using calendarLines_ok [OF assms] by (simp add: lineOk_def)
  then obtain fs phys where fs: "foldAll ?ls = Some fs" "length fs = length ?ls" "terminated fs = terminated phys"
    "\<forall>p \<in> set phys. length p \<le> 75 \<and> unbroken p" "unfoldText (terminated fs) = terminated ?ls"
    using foldAll_text by blast
  have "fs \<noteq> []" using fs(2) by (auto simp: calendarLines_def)
  then have "renderCalendar ms name t = Some (terminated fs)" using fs(1) by (simp add: renderCalendar_def joinWith_terminated)
  then show ?thesis using fs unescape_escape by metis
qed

theorem calendar_reads_back_witness:
  "\<exists>doc phys. renderCalendar [milestone0 1 ''s'' 0 100 PENDING\<lparr>dueAt := Some 5\<rparr>] ''due, dates'' 0 = Some doc \<and> doc = terminated phys \<and>
     unfoldText doc = terminated (calendarLines [milestone0 1 ''s'' 0 100 PENDING\<lparr>dueAt := Some 5\<rparr>] ''due, dates'' 0)"
proof -
  let ?ms = "[milestone0 1 ''s'' 0 100 PENDING\<lparr>dueAt := Some 5\<rparr>]"
  have "\<forall>m \<in> set ?ms. utf8Text (m_name m) \<and> utf8Text (m_shipmentId m)" "utf8Text ''due, dates''"
    by (simp_all add: milestone0_def contOctet_def Let_def)
  from calendar_reads_back [OF this, of 0 "[]"] show ?thesis by blast
qed

text \<open>On octets that are no text the loop need not end: here it never advances.\<close>

lemma folding_garbage_stalls: "cutAt 75 (replicate 76 (CHR 0x80)) = 0"
  by code_simp

end
