(* ===== verification/Inbox.thy ===== *)
theory Inbox
  imports Job_Tracker Notifications
begin

text \<open>
  The inbox half of \<open>NotificationsService\<close> (\<open>src/src/modules/notifications/notifications.service.ts\<close>): stored preferences,
  the listing of a user's notifications (flat, or grouped by shipment), marking, snoozing, deleting, and the
  digest with its daily job (\<open>src/src/modules/notifications/notification-digest.job.ts\<close>). The codec and the HMAC of the
  unsubscribe link, the address of the API and the offset of the server's clock from UTC are parameters.
\<close>

section \<open>Preferences\<close>

definition DEFAULT_DIGEST_FREQUENCY :: digestFrequency where
  "DEFAULT_DIGEST_FREQUENCY = DF_daily"

text \<open>
  The body of an update. The keys of \<open>preferences\<close> are not checked, so besides the types it may carry the two keys
  under which the service stores its own settings.
\<close>

record preferencesDto =
  pd_types :: "(notificationType \<times> channelPrefs) list"
  pd_rawQuietHours :: "quietHours option"
  pd_rawDigest :: "digestFrequency option"
  pd_quietHours :: "quietHours option"
  pd_digest :: "digestFrequency option"
  pd_slack :: "string option option"
  pd_discord :: "string option option"

definition overlay :: "('k \<times> 'v) list \<Rightarrow> ('k \<times> 'v) list \<Rightarrow> ('k \<times> 'v) list" where
  "overlay base upd = upd @ filter (\<lambda>p. fst p \<notin> set (map fst upd)) base"

definition orOld :: "'a option \<Rightarrow> 'a option \<Rightarrow> 'a option" where
  "orOld upd old = (if upd = None then old else upd)"

definition cleanUrl :: "string option option \<Rightarrow> string option \<Rightarrow> string option" where
  "cleanUrl upd old = (case upd of None \<Rightarrow> old | Some None \<Rightarrow> None | Some (Some u) \<Rightarrow> if u = [] then None else Some u)"

definition mergePreferences :: "preferencesDto \<Rightarrow> preference \<Rightarrow> preference \<Rightarrow> preference" where
  "mergePreferences dto current p = p\<lparr>
     np_types := overlay (np_types current) (pd_types dto),
     np_quietHours := orOld (pd_quietHours dto) (orOld (pd_rawQuietHours dto) (np_quietHours current)),
     np_digest := orOld (pd_digest dto) (orOld (pd_rawDigest dto) (np_digest current)),
     slackWebhookUrl := cleanUrl (pd_slack dto) (slackWebhookUrl p),
     discordWebhookUrl := cleanUrl (pd_discord dto) (discordWebhookUrl p)\<rparr>"

record preferencesResponse =
  pr_types :: "(notificationType \<times> channelPrefs) list"
  pr_digest :: digestFrequency
  pr_quietHours :: quietHours
  pr_slack :: "string option"
  pr_discord :: "string option"

definition defaultQuietHours :: quietHours where
  "defaultQuietHours = \<lparr>qh_enabled = False, qh_start = ''22:00'', qh_end = ''08:00'', qh_timezone = ''UTC''\<rparr>"

definition digestOf :: "preference \<Rightarrow> digestFrequency" where
  "digestOf p = (case np_digest p of None \<Rightarrow> DEFAULT_DIGEST_FREQUENCY | Some d \<Rightarrow> d)"

definition getPreferencesResponse :: "env \<Rightarrow> uuid \<Rightarrow> preferencesResponse act" where
  "getPreferencesResponse e uid =
     andThen (withMail (getOrCreatePreferenceRecord (now e) uid)) (\<lambda>p.
     ret \<lparr>pr_types = np_types p, pr_digest = digestOf p,
          pr_quietHours = (case np_quietHours p of None \<Rightarrow> defaultQuietHours | Some q \<Rightarrow> q),
          pr_slack = slackWebhookUrl p, pr_discord = discordWebhookUrl p\<rparr>)"

definition updatePreferences :: "(string \<Rightarrow> bool) \<Rightarrow> env \<Rightarrow> uuid \<Rightarrow> preferencesDto \<Rightarrow> preferencesResponse act" where
  "updatePreferences validZone e uid dto =
     liftResult (case pd_quietHours dto of None \<Rightarrow> Inr () | Some q \<Rightarrow> validateQuietHours validZone q) (\<lambda>_.
     andThen (withMail (getOrCreatePreferenceRecord (now e) uid)) (\<lambda>current.
     andThen (withMail (\<lambda>mb. ((), updatePreferenceRow uid (mergePreferences dto current) mb))) (\<lambda>_.
     getPreferencesResponse e uid)))"

definition getDigestFrequency :: "env \<Rightarrow> uuid \<Rightarrow> digestFrequency act" where
  "getDigestFrequency e uid =
     andThen (withMail (getOrCreatePreferenceRecord (now e) uid)) (\<lambda>p. ret (digestOf p))"

definition isQuietHours :: "env \<Rightarrow> uuid \<Rightarrow> bool act" where
  "isQuietHours e uid =
     andThen (withMail (getOrCreatePreferenceRecord (now e) uid)) (\<lambda>p.
     ret (getQuietHoursEnd (tzOffset e) (now e) (np_quietHours p) \<noteq> None))"

section \<open>Listing\<close>

definition awake :: "time \<Rightarrow> notification \<Rightarrow> bool" where
  "awake t n \<longleftrightarrow> (case snoozedUntil n of None \<Rightarrow> True | Some s \<Rightarrow> s < t)"

definition inboxRows :: "time \<Rightarrow> uuid \<Rightarrow> bool \<Rightarrow> notification list \<Rightarrow> notification list" where
  "inboxRows t uid unreadOnly ns = sort_key (\<lambda>n. - n_createdAt n)
     (filter (\<lambda>n. n_userId n = uid \<and> (unreadOnly \<longrightarrow> \<not> n_read n) \<and> awake t n) ns)"

text \<open>\<open>String(v)\<close> of a JSON value.\<close>

fun jsonToString :: "json \<Rightarrow> string" where
  "jsonToString JNull = ''null''"
| "jsonToString (JBool b) = (if b then ''true'' else ''false'')"
| "jsonToString (JNum i) = showInt i"
| "jsonToString (JStr s) = s"
| "jsonToString (JObj kvs) = ''[object Object]''"
| "jsonToString (JArr []) = []"
| "jsonToString (JArr [v]) = (if v = JNull then [] else jsonToString v)"
| "jsonToString (JArr (v # u # vs)) = (if v = JNull then [] else jsonToString v) @ '','' @ jsonToString (JArr (u # vs))"

definition shipmentIdOf :: "notification \<Rightarrow> string option" where
  "shipmentIdOf n = map_option jsonToString (jsonGet ''shipmentId'' (n_data n))"

definition groupKey :: "notification \<Rightarrow> string" where
  "groupKey n = (case shipmentIdOf n of None \<Rightarrow> ''__general__'' | Some sid \<Rightarrow> sid)"

record notificationGroup =
  ng_key :: string
  ng_shipmentId :: "string option"
  ng_referenceNumber :: "string option"
  ng_unreadCount :: nat
  ng_latestAt :: time
  ng_notifications :: "notification list"

text \<open>An insertion-ordered map: the entry of a key is updated in place, a new key comes last.\<close>

primrec updateEntry :: "('g \<Rightarrow> bool) \<Rightarrow> 'g \<Rightarrow> ('g \<Rightarrow> 'g) \<Rightarrow> 'g list \<Rightarrow> 'g list" where
  "updateEntry p fresh f [] = [f fresh]"
| "updateEntry p fresh f (g # gs) = (if p g then f g # gs else g # updateEntry p fresh f gs)"

definition referenceOf :: "shipment list \<Rightarrow> string option \<Rightarrow> string option" where
  "referenceOf ships sid = (case sid of None \<Rightarrow> None
     | Some s \<Rightarrow> if s = [] then None else Option.bind (find (\<lambda>x. s_id x = s) ships) referenceNumber)"

definition freshGroup :: "shipment list \<Rightarrow> notification \<Rightarrow> notificationGroup" where
  "freshGroup ships n = \<lparr>ng_key = groupKey n, ng_shipmentId = shipmentIdOf n, ng_referenceNumber = referenceOf ships (shipmentIdOf n),
     ng_unreadCount = 0, ng_latestAt = n_createdAt n, ng_notifications = []\<rparr>"

definition addToGroup :: "notification \<Rightarrow> notificationGroup \<Rightarrow> notificationGroup" where
  "addToGroup n g = g\<lparr>ng_notifications := ng_notifications g @ [n], ng_latestAt := max (ng_latestAt g) (n_createdAt n),
     ng_unreadCount := ng_unreadCount g + (if n_read n then 0 else 1)\<rparr>"

definition groupNotifications :: "shipment list \<Rightarrow> notification list \<Rightarrow> notificationGroup list" where
  "groupNotifications ships ns =
     fold (\<lambda>n. updateEntry (\<lambda>g. ng_key g = groupKey n) (freshGroup ships n) (addToGroup n)) ns []"

definition newestThree :: "notificationGroup \<Rightarrow> notificationGroup" where
  "newestThree g = g\<lparr>ng_notifications := take 3 (sort_key (\<lambda>n. - n_createdAt n) (ng_notifications g))\<rparr>"

datatype inboxAnswer = FlatPage "notification list" nat | GroupedPage "notificationGroup list" nat

definition findNotifications :: "env \<Rightarrow> uuid \<Rightarrow> bool \<Rightarrow> nat \<Rightarrow> nat \<Rightarrow> bool \<Rightarrow> inboxAnswer act" where
  "findNotifications e uid unreadOnly page limit byShipment = reads (\<lambda>w.
     let rows = inboxRows (now e) uid unreadOnly (notifications (mail w)) in
     if byShipment then
       (let grouped = paged page limit (sort_key (\<lambda>g. - ng_latestAt g) (map newestThree (groupNotifications (shipments (db w)) rows)))
        in GroupedPage grouped (length grouped))
     else FlatPage (paged page limit rows) (length rows))"

section \<open>Marking, snoozing, deleting\<close>

definition updateInbox :: "(notification \<Rightarrow> bool) \<Rightarrow> (notification \<Rightarrow> notification) \<Rightarrow> nat act" where
  "updateInbox p f = withMail (\<lambda>mb. (length (filter p (notifications mb)), mb\<lparr>notifications := updateWhere p f (notifications mb)\<rparr>))"

definition markReadByShipment :: "uuid \<Rightarrow> string \<Rightarrow> nat act" where
  "markReadByShipment uid sid = updateInbox
     (\<lambda>n. n_userId n = uid \<and> \<not> n_read n \<and> jsonGet ''shipmentId'' (n_data n) = Some (JStr sid)) (\<lambda>n. n\<lparr>n_read := True\<rparr>)"

definition findNotification :: "uuid \<Rightarrow> uuid \<Rightarrow> notification option act" where
  "findNotification uid nid = reads (\<lambda>w. find (\<lambda>n. n_id n = nid \<and> n_userId n = uid) (notifications (mail w)))"

definition snooze :: "env \<Rightarrow> uuid \<Rightarrow> uuid \<Rightarrow> time \<Rightarrow> unit act" where
  "snooze e uid nid until =
     require (\<not> until \<le> now e) BadRequestException (
     andThen (updateInbox (\<lambda>n. n_id n = nid \<and> n_userId n = uid) (\<lambda>n. n\<lparr>snoozedUntil := Some until\<rparr>)) (\<lambda>count.
     require (count \<noteq> 0) NotFoundException (ret ())))"

definition unsnooze :: "uuid \<Rightarrow> uuid \<Rightarrow> unit act" where
  "unsnooze uid nid =
     andThen (updateInbox (\<lambda>n. n_id n = nid \<and> n_userId n = uid) (\<lambda>n. n\<lparr>snoozedUntil := None\<rparr>)) (\<lambda>count.
     require (count \<noteq> 0) NotFoundException (ret ()))"

definition markRead :: "uuid \<Rightarrow> uuid \<Rightarrow> nat act" where
  "markRead nid uid = updateInbox (\<lambda>n. n_id n = nid \<and> n_userId n = uid) (\<lambda>n. n\<lparr>n_read := True\<rparr>)"

definition markAllRead :: "uuid \<Rightarrow> nat act" where
  "markAllRead uid = updateInbox (\<lambda>n. n_userId n = uid \<and> \<not> n_read n) (\<lambda>n. n\<lparr>n_read := True\<rparr>)"

definition deleteAllRead :: "uuid \<Rightarrow> nat act" where
  "deleteAllRead uid = withMail (\<lambda>mb.
     (length (filter (\<lambda>n. n_userId n = uid \<and> n_read n) (notifications mb)),
      mb\<lparr>notifications := filter (\<lambda>n. \<not> (n_userId n = uid \<and> n_read n)) (notifications mb)\<rparr>))"

section \<open>Digest\<close>

record digestLib =
  encodePayload :: "unsubscribePayload \<Rightarrow> string"
  unsubscribeMac :: "string \<Rightarrow> string"
  apiBaseUrl :: string
  serverOffset :: int

definition getUnsubscribeUrl :: "digestLib \<Rightarrow> time \<Rightarrow> uuid \<Rightarrow> notificationType option \<Rightarrow> string" where
  "getUnsubscribeUrl lib t uid ty = apiBaseUrl lib @ ''/api/v1/notifications/unsubscribe?token='' @
     generateUnsubscribeToken (encodePayload lib) (unsubscribeMac lib) t uid ty"

fun notificationTypeText :: "notificationType \<Rightarrow> string" where
  "notificationTypeText N_SHIPMENT_CREATED = ''SHIPMENT_CREATED''"
| "notificationTypeText N_PROOF_SUBMITTED = ''PROOF_SUBMITTED''"
| "notificationTypeText N_MILESTONE_CONFIRMED = ''MILESTONE_CONFIRMED''"
| "notificationTypeText N_DISPUTE_RAISED = ''DISPUTE_RAISED''"
| "notificationTypeText N_DISPUTE_RESOLVED = ''DISPUTE_RESOLVED''"
| "notificationTypeText N_DISPUTE_EVIDENCE_SUBMITTED = ''DISPUTE_EVIDENCE_SUBMITTED''"
| "notificationTypeText N_SHIPMENT_CANCELLED = ''SHIPMENT_CANCELLED''"
| "notificationTypeText N_PAYMENT_RELEASED = ''PAYMENT_RELEASED''"
| "notificationTypeText N_MILESTONE_OVERDUE = ''MILESTONE_OVERDUE''"
| "notificationTypeText N_COMMENT_ADDED = ''COMMENT_ADDED''"
| "notificationTypeText N_COMMENT_MENTION = ''COMMENT_MENTION''"
| "notificationTypeText N_SYSTEM_ALERT = ''SYSTEM_ALERT''"
| "notificationTypeText N_ARBITER_INVITED = ''ARBITER_INVITED''"
| "notificationTypeText N_ARBITER_ACCEPTED = ''ARBITER_ACCEPTED''"
| "notificationTypeText N_ARBITER_DECLINED = ''ARBITER_DECLINED''"
| "notificationTypeText N_TRACKING_UPDATED = ''TRACKING_UPDATED''"
| "notificationTypeText N_PROOF_REJECTED = ''PROOF_REJECTED''"
| "notificationTypeText N_DEADLINE_EXTENSION_REQUESTED = ''DEADLINE_EXTENSION_REQUESTED''"
| "notificationTypeText N_DEADLINE_EXTENSION_DECIDED = ''DEADLINE_EXTENSION_DECIDED''"
| "notificationTypeText N_DELIVERY_DELAYED = ''DELIVERY_DELAYED''"
| "notificationTypeText N_SHIPMENT_COMMENT_CREATED = ''SHIPMENT_COMMENT_CREATED''"
| "notificationTypeText N_KYC_EXPIRING = ''KYC_EXPIRING''"
| "notificationTypeText N_KYC_EXPIRED = ''KYC_EXPIRED''"

definition groupByType :: "notification list \<Rightarrow> (notificationType \<times> notification list) list" where
  "groupByType ns = fold (\<lambda>n. updateEntry (\<lambda>g. fst g = n_type n) (n_type n, []) (\<lambda>g. (fst g, snd g @ [n]))) ns []"

definition quoted :: "string \<Rightarrow> string" where
  "quoted s = [CHR 0x22] @ s @ [CHR 0x22]"

definition digestSection :: "notificationType \<times> notification list \<Rightarrow> string" where
  "digestSection g = ''<h3 style='' @ quoted ''color:#1a1a2e;'' @ ''>'' @ map (\<lambda>c. if c = CHR ''_'' then CHR '' '' else c) (notificationTypeText (fst g)) @
     '' ('' @ showInt (int (length (snd g))) @ '')</h3><ul>'' @ concat (map (\<lambda>n. ''<li>'' @ n_title n @ ''</li>'') (snd g)) @ ''</ul>''"

text \<open>The dash of the subject, as octets.\<close>

definition emDash :: string where
  "emDash = [CHR 0xE2, CHR 0x80, CHR 0x94]"

definition unreadOf :: "uuid \<Rightarrow> notification list \<Rightarrow> notification list" where
  "unreadOf uid ns = sort_key (\<lambda>n. - n_createdAt n) (filter (\<lambda>n. n_userId n = uid \<and> \<not> n_read n) ns)"

text \<open>Subject and body; the white space between the elements of the page is left out.\<close>

definition buildDigest :: "digestLib \<Rightarrow> time \<Rightarrow> uuid \<Rightarrow> mailbox \<Rightarrow> (string \<times> string) option" where
  "buildDigest lib t uid mb = (let unread = unreadOf uid (notifications mb); count = showInt (int (length unread)) in
     if unread = [] then None
     else Some (''Daily digest '' @ emDash @ '' '' @ count @ '' unread notification(s)'',
       ''<div style='' @ quoted ''font-family:sans-serif;max-width:600px;margin:0 auto;'' @ ''>'' @
       ''<h2 style='' @ quoted ''color:#1a1a2e;'' @ ''>ChainSettle '' @ emDash @ '' Daily Notification Digest</h2>'' @
       ''<p>You have <strong>'' @ count @ ''</strong> unread notification(s):</p>'' @
       concat (map digestSection (groupByType unread)) @ ''<hr />'' @
       ''<small style='' @ quoted ''color:#888;'' @ ''>Log in to ChainSettle to view and manage your notifications.</small><br />'' @
       ''<small style='' @ quoted ''color:#888;'' @ ''><a href='' @ quoted (getUnsubscribeUrl lib t uid None) @
       '' style='' @ quoted ''color:#888;text-decoration:underline;'' @ ''>Unsubscribe</a></small></div>''))"

section \<open>The daily job\<close>

text \<open>\<open>getDay() === 1\<close> of the server's wall clock; day 0 of the epoch was a Thursday.\<close>

definition isMonday :: "int \<Rightarrow> time \<Rightarrow> bool" where
  "isMonday off t \<longleftrightarrow> ((t + off) div 86400000 + 4) mod 7 = 1"

definition allEmailDisabled :: "preference \<Rightarrow> bool" where
  "allEmailDisabled p \<longleftrightarrow> list_all (\<lambda>ty. Option.bind (map_of (np_types p) ty) emailPref \<noteq> Some True) notificationTypes"

definition usersWithUnread :: "world \<Rightarrow> user list" where
  "usersWithUnread w = filter (\<lambda>u. email u \<noteq> None \<and> emailVerified u \<and> list_ex (\<lambda>n. n_userId n = u_id u \<and> \<not> n_read n) (notifications (mail w)))
     (users (db w))"

text \<open>The body of the loop; the answer is whether the counter advances. The mail has no type and an empty text: its body is the page.\<close>

definition digestOne :: "digestLib \<Rightarrow> env \<Rightarrow> user \<Rightarrow> bool act" where
  "digestOne lib e u =
     andThen (getDigestFrequency e (u_id u)) (\<lambda>freq.
     if freq = DF_instant then ret False else
     andThen (isQuietHours e (u_id u)) (\<lambda>quiet.
     if quiet then ret False else
     if freq = DF_weekly \<and> \<not> isMonday (serverOffset lib) (now e) then ret False else
     andThen (withMail (getOrCreatePreferenceRecord (now e) (u_id u))) (\<lambda>prefs.
     if allEmailDisabled prefs then ret False else
     andThen (reads (\<lambda>w. buildDigest lib (now e) (u_id u) (mail w))) (\<lambda>digest.
     case digest of
       None \<Rightarrow> ret False
     | Some (subject, html) \<Rightarrow>
         andThen (withMail (\<lambda>mb. ((), sendPlainMail (the (email u)) subject html mb))) (\<lambda>_. ret True)))))"

primrec digestLoop :: "digestLib \<Rightarrow> env \<Rightarrow> nat \<Rightarrow> user list \<Rightarrow> nat act" where
  "digestLoop lib e sent [] = ret sent"
| "digestLoop lib e sent (u # us) =
     andThen (attempt (digestOne lib e u) (\<lambda>_. ret False)) (\<lambda>b. digestLoop lib e (if b then Suc sent else sent) us)"

definition executeDailyDigests :: "digestLib \<Rightarrow> env \<Rightarrow> nat act" where
  "executeDailyDigests lib e = andThen (reads usersWithUnread) (digestLoop lib e 0)"

definition sendDailyDigests :: "digestLib \<Rightarrow> env \<Rightarrow> nat act" where
  "sendDailyDigests lib e = runTrackedJob e False ''notification-digest-daily'' (executeDailyDigests lib e)"

text \<open>
  The job for notifications held back in quiet hours calls \<open>deliverDeferredNotifications\<close>, a method the service does not
  have; calling what is undefined is a type error of the language.
\<close>

definition deliverDeferred :: "env \<Rightarrow> unit act" where
  "deliverDeferred e = runTrackedJob e False ''notification-deferred-delivery'' (throw RuntimeError)"

section \<open>The inbox is its owner's\<close>

datatype inboxOp = MarkByShipment string | Snooze uuid time | Unsnooze uuid | MarkOne uuid | MarkAll | DeleteRead | SetPreferences preferencesDto

fun inboxStep :: "(string \<Rightarrow> bool) \<Rightarrow> env \<Rightarrow> uuid \<Rightarrow> inboxOp \<Rightarrow> world \<Rightarrow> world" where
  "inboxStep vz e uid (MarkByShipment sid) w = snd (markReadByShipment uid sid w)"
| "inboxStep vz e uid (Snooze nid until) w = snd (snooze e uid nid until w)"
| "inboxStep vz e uid (Unsnooze nid) w = snd (unsnooze uid nid w)"
| "inboxStep vz e uid (MarkOne nid) w = snd (markRead nid uid w)"
| "inboxStep vz e uid MarkAll w = snd (markAllRead uid w)"
| "inboxStep vz e uid DeleteRead w = snd (deleteAllRead uid w)"
| "inboxStep vz e uid (SetPreferences dto) w = snd (updatePreferences vz e uid dto w)"

text \<open>What a user's inbox operations must leave alone, and what they must not lose.\<close>

definition ownOnly :: "uuid \<Rightarrow> world \<Rightarrow> world \<Rightarrow> bool" where
  "ownOnly uid w w' \<longleftrightarrow> business w' = business w \<and> outbox (mail w') = outbox (mail w) \<and> suppressions (mail w') = suppressions (mail w) \<and>
     filter (\<lambda>n. n_userId n \<noteq> uid) (notifications (mail w')) = filter (\<lambda>n. n_userId n \<noteq> uid) (notifications (mail w)) \<and>
     filter (\<lambda>p. np_userId p \<noteq> uid) (preferences (mail w')) = filter (\<lambda>p. np_userId p \<noteq> uid) (preferences (mail w))"

lemma ownOnly_refl [simp]: "ownOnly uid w w"
  by (simp add: ownOnly_def)

lemma ownOnly_trans: "ownOnly uid a b \<Longrightarrow> ownOnly uid b c \<Longrightarrow> ownOnly uid a c"
  by (simp add: ownOnly_def)

lemma run_updateInbox [simp]:
  "updateInbox p f w = (Inr (length (filter p (notifications (mail w)))),
     w\<lparr>mail := (mail w)\<lparr>notifications := updateWhere p f (notifications (mail w))\<rparr>\<rparr>)"
  by (simp add: updateInbox_def)

lemma filter_foreign_update:
  "(\<And>r. p r \<Longrightarrow> \<not> q r \<and> \<not> q (f r)) \<Longrightarrow> filter q (updateWhere p f rows) = filter q rows"
  by (induction rows) auto

lemma own_update:
  assumes "\<And>n. p n \<Longrightarrow> n_userId n = uid \<and> n_userId (f n) = uid"
  shows "ownOnly uid w (w\<lparr>mail := (mail w)\<lparr>notifications := updateWhere p f (notifications (mail w))\<rparr>\<rparr>)"
  using assms by (auto simp: ownOnly_def intro: filter_foreign_update)

lemma getOrCreate_own: "ownOnly uid w (w\<lparr>mail := snd (getOrCreatePreferenceRecord t uid (mail w))\<rparr>)"
  by (simp add: ownOnly_def getOrCreatePreferenceRecord_def Let_def split: option.splits)

lemma preference_update_own: "ownOnly uid w (w\<lparr>mail := updatePreferenceRow uid (mergePreferences dto c) (mail w)\<rparr>)"
  by (simp add: ownOnly_def updatePreferenceRow_def mergePreferences_def filter_foreign_update)

lemma inboxStep_own: "ownOnly uid w (inboxStep vz e uid oper w)"
proof (cases oper)
  case (SetPreferences dto)
  show ?thesis
  proof (cases "case pd_quietHours dto of None \<Rightarrow> Inr () | Some q \<Rightarrow> validateQuietHours vz q")
    case (Inr u)
    let ?w1 = "w\<lparr>mail := snd (getOrCreatePreferenceRecord (now e) uid (mail w))\<rparr>"
    let ?w2 = "?w1\<lparr>mail := updatePreferenceRow uid (mergePreferences dto (fst (getOrCreatePreferenceRecord (now e) uid (mail w)))) (mail ?w1)\<rparr>"
    have "inboxStep vz e uid oper w = ?w2\<lparr>mail := snd (getOrCreatePreferenceRecord (now e) uid (mail ?w2))\<rparr>"
      using Inr SetPreferences by (simp add: updatePreferences_def getPreferencesResponse_def)
    then show ?thesis
      using ownOnly_trans [OF ownOnly_trans [OF getOrCreate_own preference_update_own] getOrCreate_own] by simp
  qed (simp add: SetPreferences updatePreferences_def)
next
  case DeleteRead
  then show ?thesis by (auto simp: deleteAllRead_def ownOnly_def intro!: filter_cong)
qed (auto simp: markReadByShipment_def snooze_def unsnooze_def markRead_def markAllRead_def intro: own_update)

interpretation inbox: step_system "inboxStep vz e uid" "ownOnly uid w" for vz e uid w
  by unfold_locales (rule ownOnly_trans [OF _ inboxStep_own])

text \<open>Whatever a user does with the inbox, in any order: nobody else's notifications or settings change and nothing is sent.\<close>

lemma inbox_is_private: "ownOnly uid w (fold (inboxStep vz e uid) ops w)"
  by (rule inbox.run_inv) simp

text \<open>Unread notifications survive everything but being read: only read rows are deleted, and snoozing does not touch the flag.\<close>

lemma notifications_getOrCreate [simp]: "notifications (snd (getOrCreatePreferenceRecord t uid mb)) = notifications mb"
  by (simp add: getOrCreatePreferenceRecord_def Let_def split: option.splits)

lemma notifications_updatePreferenceRow [simp]: "notifications (updatePreferenceRow uid f mb) = notifications mb"
  by (simp add: updatePreferenceRow_def)

lemma updateWhere_survivor: "n \<in> set rows \<Longrightarrow> (if p n then f n else n) \<in> set (updateWhere p f rows)"
  by (auto simp: updateWhere_def)

lemma survives_update:
  assumes "n \<in> set rows" "\<And>r. g (f r) = g r"
  shows "\<exists>n' \<in> set (updateWhere p f rows). g n' = g n"
  using updateWhere_survivor [OF assms(1), of p f] assms(2) by (metis (full_types))

lemma unread_never_deleted:
  assumes "n \<in> set (notifications (mail w))" "\<not> n_read n"
  shows "\<exists>n' \<in> set (notifications (mail (inboxStep vz e uid oper w))). (n_id n', n_title n', n_data n') = (n_id n, n_title n, n_data n)"
proof (cases oper)
  case DeleteRead
  then show ?thesis using assms by (auto simp: deleteAllRead_def intro!: bexI [of _ n])
next
  case (SetPreferences dto)
  show ?thesis
    by (cases "case pd_quietHours dto of None \<Rightarrow> Inr () | Some q \<Rightarrow> validateQuietHours vz q")
      (use assms SetPreferences in \<open>auto simp: updatePreferences_def getPreferencesResponse_def\<close>)
qed (use assms in \<open>auto simp: markReadByShipment_def snooze_def unsnooze_def markRead_def markAllRead_def
       intro!: survives_update [where g = "\<lambda>n. (n_id n, n_title n, n_data n)", simplified]\<close>)

text \<open>A snoozed notification is hidden up to and including the given instant and shown after it.\<close>

lemma snooze_hides_until:
  assumes "snooze e uid nid until w = (Inr (), w')" "n \<in> set (notifications (mail w'))" "n_id n = nid" "n_userId n = uid"
  shows "n \<in> set (inboxRows t uid False (notifications (mail w'))) \<longleftrightarrow> until < t"
proof -
  let ?p = "\<lambda>n. n_id n = nid \<and> n_userId n = uid"
  have "notifications (mail w') = updateWhere ?p (\<lambda>n. n\<lparr>snoozedUntil := Some until\<rparr>) (notifications (mail w))"
    using assms(1) by (auto simp: snooze_def split: if_splits)
  then have "n \<in> set (updateWhere ?p (\<lambda>n. n\<lparr>snoozedUntil := Some until\<rparr>) (notifications (mail w)))" using assms(2) by simp
  then obtain m where "n = (if ?p m then m\<lparr>snoozedUntil := Some until\<rparr> else m)"
    unfolding in_set_updateWhere by blast
  then have "snoozedUntil n = Some until" using assms(3,4) by (auto split: if_splits)
  then show ?thesis using assms by (simp add: inboxRows_def awake_def)
qed

section \<open>Groups\<close>

lemma updateEntry_keyed:
  assumes "distinct (map k gs)"
  shows "updateEntry (\<lambda>g. k g = x) fresh f gs =
    (if x \<in> k ` set gs then map (\<lambda>g. if k g = x then f g else g) gs else gs @ [f fresh])"
  using assms
proof (induction gs)
  case (Cons g gs)
  have "map (\<lambda>g. if k g = x then f g else g) gs = gs" if "x \<notin> k ` set gs" by (rule map_idI) (use that in auto)
  then show ?case using Cons by auto
qed simp

text \<open>The groups of some rows: one for each key, each with exactly its rows, the number of unread ones and the latest instant.\<close>

definition groupExact :: "notification list \<Rightarrow> notificationGroup \<Rightarrow> bool" where
  "groupExact ns g \<longleftrightarrow> (let own = filter (\<lambda>n. groupKey n = ng_key g) ns in
     ng_notifications g = own \<and> own \<noteq> [] \<and> ng_unreadCount g = length (filter (\<lambda>n. \<not> n_read n) own) \<and>
     ng_latestAt g = Max (n_createdAt ` set own))"

lemma groups_exact:
  "distinct (map ng_key (groupNotifications ships ns)) \<and> ng_key ` set (groupNotifications ships ns) = groupKey ` set ns \<and>
   (\<forall>g \<in> set (groupNotifications ships ns). groupExact ns g)"
proof (induction ns rule: rev_induct)
  case Nil
  show ?case by (simp add: groupNotifications_def)
next
  case (snoc n ns)
  let ?gs = "groupNotifications ships ns"
  have IH: "distinct (map ng_key ?gs)" "ng_key ` set ?gs = groupKey ` set ns" "\<And>g. g \<in> set ?gs \<Longrightarrow> groupExact ns g"
    using snoc by auto
  have keep: "ng_key (addToGroup n g) = ng_key g" for g by (simp add: addToGroup_def)
  have other: "groupExact (ns @ [n]) g" if "groupExact ns g" "ng_key g \<noteq> groupKey n" for g
    using that by (auto simp: groupExact_def Let_def)
  have hit: "groupExact (ns @ [n]) (addToGroup n g)" if "groupExact ns g" "ng_key g = groupKey n" for g
  proof -
    have "filter (\<lambda>m. groupKey m = groupKey n) ns \<noteq> []" using that by (simp add: groupExact_def Let_def)
    then have "\<exists>m. m \<in> set ns \<and> groupKey m = groupKey n" by (auto simp: filter_empty_conv)
    then show ?thesis using that by (simp add: groupExact_def Let_def addToGroup_def max.commute)
  qed
  have step: "groupNotifications ships (ns @ [n]) = (if groupKey n \<in> groupKey ` set ns then map (\<lambda>g. if ng_key g = groupKey n then addToGroup n g else g) ?gs
      else ?gs @ [addToGroup n (freshGroup ships n)])"
    using updateEntry_keyed [OF IH(1), of "groupKey n" "freshGroup ships n" "addToGroup n"] IH(2) by (simp add: groupNotifications_def)
  show ?case
  proof (cases "groupKey n \<in> groupKey ` set ns")
    case True
    have keys: "map ng_key (groupNotifications ships (ns @ [n])) = map ng_key ?gs" using True by (simp add: step keep)
    then have "ng_key ` set (groupNotifications ships (ns @ [n])) = ng_key ` set ?gs" by (metis list.set_map)
    moreover have "groupExact (ns @ [n]) g" if "g \<in> set (groupNotifications ships (ns @ [n]))" for g
      using that True IH(3) other hit by (auto simp: step split: if_splits)
    ultimately show ?thesis using IH(1,2) keys True by auto
  next
    case False
    have fresh: "groupExact (ns @ [n]) (addToGroup n (freshGroup ships n))"
    proof -
      have none: "groupKey m \<noteq> groupKey n" if "m \<in> set ns" for m using False that by (metis image_eqI)
      then have "filter (\<lambda>m. groupKey m = groupKey n) ns = []" by (simp add: filter_empty_conv)
      then show ?thesis by (simp add: groupExact_def addToGroup_def freshGroup_def)
    qed
    have "groupExact (ns @ [n]) g" if g: "g \<in> set ?gs" for g
    proof (rule other [OF IH(3) [OF g]])
      have "ng_key g \<in> groupKey ` set ns" using IH(2) g by blast
      then show "ng_key g \<noteq> groupKey n" using False by metis
    qed
    then show ?thesis using IH(1,2) False fresh by (auto simp: step keep freshGroup_def)
  qed
qed

lemma groupExact_newest:
  assumes "groupExact ns g"
  shows "length (ng_notifications (newestThree g)) \<le> 3" "set (ng_notifications (newestThree g)) \<subseteq> set ns"
    "ng_unreadCount (newestThree g) = length (filter (\<lambda>n. groupKey n = ng_key (newestThree g) \<and> \<not> n_read n) ns)"
    "ng_latestAt (newestThree g) = Max (n_createdAt ` {n \<in> set ns. groupKey n = ng_key (newestThree g)})"
proof -
  have own: "ng_notifications g = filter (\<lambda>n. groupKey n = ng_key g) ns" using assms by (simp add: groupExact_def Let_def)
  show "length (ng_notifications (newestThree g)) \<le> 3" by (simp add: newestThree_def)
  show "set (ng_notifications (newestThree g)) \<subseteq> set ns"
    using own by (auto simp: newestThree_def dest: in_set_takeD)
  show "ng_unreadCount (newestThree g) = length (filter (\<lambda>n. groupKey n = ng_key (newestThree g) \<and> \<not> n_read n) ns)"
    "ng_latestAt (newestThree g) = Max (n_createdAt ` {n \<in> set ns. groupKey n = ng_key (newestThree g)})"
    using assms by (simp_all add: groupExact_def Let_def newestThree_def conj_commute)
qed

text \<open>
  The grouped listing: there is one list of groups, a group for each shipment of the visible notifications, newest first, with
  at most three rows each but the counts of all of them; every page is a piece of it. The total a page reports is only
  the number of groups on that page.
\<close>

lemma grouped_listing_exact:
  assumes rows_def: "rows = inboxRows (now e) uid unreadOnly (notifications (mail w))"
  shows "\<exists>all. distinct (map ng_key all) \<and> ng_key ` set all = groupKey ` set rows \<and> sorted (map (\<lambda>g. - ng_latestAt g) all) \<and>
    (\<forall>g \<in> set all. length (ng_notifications g) \<le> 3 \<and> set (ng_notifications g) \<subseteq> set rows \<and>
       ng_unreadCount g = length (filter (\<lambda>n. groupKey n = ng_key g \<and> \<not> n_read n) rows) \<and>
       ng_latestAt g = Max (n_createdAt ` {n \<in> set rows. groupKey n = ng_key g})) \<and>
    (\<forall>page limit. findNotifications e uid unreadOnly page limit True w = (Inr (GroupedPage (paged page limit all) (length (paged page limit all))), w))"
proof -
  let ?gs = "groupNotifications (shipments (db w)) rows"
  let ?all = "sort_key (\<lambda>g. - ng_latestAt g) (map newestThree ?gs)"
  note ex = groups_exact [of "shipments (db w)" rows]
  have key: "ng_key (newestThree g) = ng_key g" for g by (simp add: newestThree_def)
  have "set (map ng_key ?all) = groupKey ` set rows" using ex by (simp add: image_image key)
  moreover have "distinct (map ng_key ?all)"
  proof -
    have "distinct (map ng_key (map newestThree ?gs))" using ex by (simp add: key comp_def)
    moreover have "mset (map ng_key ?all) = mset (map ng_key (map newestThree ?gs))" by (simp add: multiset.map_comp)
    ultimately show ?thesis using mset_eq_imp_distinct_iff by blast
  qed
  moreover have "findNotifications e uid unreadOnly page limit True w = (Inr (GroupedPage (paged page limit ?all) (length (paged page limit ?all))), w)" for page limit
    by (simp add: findNotifications_def rows_def Let_def)
  ultimately show ?thesis using groupExact_newest ex by (intro exI [of _ ?all]) auto
qed

section \<open>Preferences\<close>

text \<open>Quiet hours given in their own field are stored only if they are valid; under the reserved key of the preferences nothing is checked.\<close>

lemma preferences_quiet_hours_checked:
  assumes "updatePreferences vz e uid dto w = (Inr r, w')" "pd_quietHours dto = Some q"
  shows "hhmm (qh_start q) \<noteq> None \<and> hhmm (qh_end q) \<noteq> None \<and> vz (qh_timezone q)"
  using assms by (auto simp: updatePreferences_def validateQuietHours_def split: if_splits)

lemma find_hit: "find p xs = Some x \<Longrightarrow> p x"
  by (auto simp: find_Some_iff)

lemma reserved_key_unchecked:
  fixes dto :: preferencesDto
  assumes "find (\<lambda>p. np_userId p = uid) (preferences (mail w)) = Some p" "pd_quietHours dto = None" "pd_rawQuietHours dto = Some q"
  shows "\<exists>r w'. updatePreferences vz e uid dto w = (Inr r, w') \<and> pr_quietHours r = q"
  using assms find_hit [OF assms(1)] by (simp add: updatePreferences_def getPreferencesResponse_def getOrCreatePreferenceRecord_def updatePreferenceRow_def
      find_updateWhere mergePreferences_def orOld_def)

section \<open>Digests\<close>

abbreviation prefOf :: "time \<Rightarrow> uuid \<Rightarrow> mailbox \<Rightarrow> preference" where
  "prefOf t uid mb \<equiv> fst (getOrCreatePreferenceRecord t uid mb)"

text \<open>Who is due a digest, and the mail it is.\<close>

definition digestDue :: "digestLib \<Rightarrow> env \<Rightarrow> mailbox \<Rightarrow> user \<Rightarrow> bool" where
  "digestDue lib e mb u \<longleftrightarrow> (let p = prefOf (now e) (u_id u) mb in
     digestOf p \<noteq> DF_instant \<and> getQuietHoursEnd (tzOffset e) (now e) (np_quietHours p) = None \<and>
     (digestOf p = DF_weekly \<longrightarrow> isMonday (serverOffset lib) (now e)) \<and> \<not> allEmailDisabled p \<and>
     unreadOf (u_id u) (notifications mb) \<noteq> [])"

definition digestMails :: "digestLib \<Rightarrow> env \<Rightarrow> mailbox \<Rightarrow> user \<Rightarrow> outgoing list" where
  "digestMails lib e mb u =
     (if digestDue lib e mb u \<and> \<not> isEmailSuppressed (the (email u)) mb
      then (case buildDigest lib (now e) (u_id u) mb of Some (s, h) \<Rightarrow> [PlainMail (the (email u)) s h] | None \<Rightarrow> []) else [])"

text \<open>What the digests depend on.\<close>

definition sameInbox :: "time \<Rightarrow> mailbox \<Rightarrow> mailbox \<Rightarrow> bool" where
  "sameInbox t a b \<longleftrightarrow> notifications b = notifications a \<and> suppressions b = suppressions a \<and> (\<forall>uid. prefOf t uid b = prefOf t uid a)"

lemma digest_cong: "sameInbox (now e) a b \<Longrightarrow> digestDue lib e b u = digestDue lib e a u \<and> digestMails lib e b u = digestMails lib e a u"
  by (simp add: sameInbox_def digestDue_def digestMails_def buildDigest_def isEmailSuppressed_def)

lemma getOrCreate_same: "sameInbox t mb (snd (getOrCreatePreferenceRecord t uid mb))"
  by (auto simp: sameInbox_def getOrCreatePreferenceRecord_def Let_def find_append split: option.splits)

lemma getOrCreate_idem [simp]:
  "getOrCreatePreferenceRecord t uid (snd (getOrCreatePreferenceRecord t uid mb)) = getOrCreatePreferenceRecord t uid mb"
  by (auto simp: getOrCreatePreferenceRecord_def Let_def find_append split: option.splits)

lemma sendPlain_same: "sameInbox t mb (sendPlainMail to s h mb)"
  by (simp add: sameInbox_def sendPlainMail_def send_def getOrCreatePreferenceRecord_def Let_def split: option.splits)

lemma run_getDigestFrequency: "getDigestFrequency e uid w =
    (Inr (digestOf (prefOf (now e) uid (mail w))), w\<lparr>mail := snd (getOrCreatePreferenceRecord (now e) uid (mail w))\<rparr>)"
  by (simp add: getDigestFrequency_def)

lemma run_isQuietHours: "isQuietHours e uid w =
    (Inr (getQuietHoursEnd (tzOffset e) (now e) (np_quietHours (prefOf (now e) uid (mail w))) \<noteq> None),
     w\<lparr>mail := snd (getOrCreatePreferenceRecord (now e) uid (mail w))\<rparr>)"
  by (simp add: isQuietHours_def)

lemma sameInbox_trans: "sameInbox t a b \<Longrightarrow> sameInbox t b c \<Longrightarrow> sameInbox t a c"
  by (simp add: sameInbox_def)

lemma outbox_getOrCreate [simp]: "outbox (snd (getOrCreatePreferenceRecord t uid mb)) = outbox mb"
  by (simp add: getOrCreatePreferenceRecord_def Let_def split: option.splits)

lemma run_digestOne: "digestOne lib e u w =
    (Inr (digestDue lib e (mail w) u),
     w\<lparr>mail := (let mb = snd (getOrCreatePreferenceRecord (now e) (u_id u) (mail w)) in
        if digestDue lib e (mail w) u then (case buildDigest lib (now e) (u_id u) mb of
          Some (s, h) \<Rightarrow> sendPlainMail (the (email u)) s h mb | None \<Rightarrow> mb) else mb)\<rparr>)"
  by (auto simp: digestOne_def run_getDigestFrequency run_isQuietHours digestDue_def buildDigest_def Let_def)

lemma digestOne_exact:
  "\<exists>mb. digestOne lib e u w = (Inr (digestDue lib e (mail w) u), w\<lparr>mail := mb\<rparr>) \<and>
    outbox mb = outbox (mail w) @ digestMails lib e (mail w) u \<and> sameInbox (now e) (mail w) mb"
proof -
  let ?mb = "snd (getOrCreatePreferenceRecord (now e) (u_id u) (mail w))"
  have same: "sameInbox (now e) (mail w) ?mb" by (rule getOrCreate_same)
  then have digest: "buildDigest lib (now e) (u_id u) ?mb = buildDigest lib (now e) (u_id u) (mail w)"
    "isEmailSuppressed to ?mb = isEmailSuppressed to (mail w)" for to
    by (simp_all add: sameInbox_def buildDigest_def isEmailSuppressed_def)
  have sent: "outbox (sendPlainMail to s h ?mb) = outbox (mail w) @ (if isEmailSuppressed to (mail w) then [] else [PlainMail to s h])" for to s h
    by (simp add: sendPlainMail_def send_def digest(2))
  note plain = sameInbox_trans [OF same sendPlain_same]
  show ?thesis
  proof (cases "digestDue lib e (mail w) u")
    case True
    then obtain s h where "buildDigest lib (now e) (u_id u) (mail w) = Some (s, h)"
      by (auto simp: digestDue_def buildDigest_def Let_def)
    then show ?thesis using True sent plain
      by (intro exI [of _ "sendPlainMail (the (email u)) s h ?mb"]) (simp add: run_digestOne Let_def digest digestMails_def)
  next
    case False
    then show ?thesis using same by (intro exI [of _ ?mb]) (simp add: run_digestOne Let_def digestMails_def)
  qed
qed

lemma digestLoop_exact:
  "\<exists>mb. digestLoop lib e sent us w = (Inr (sent + length (filter (digestDue lib e (mail w)) us)), w\<lparr>mail := mb\<rparr>) \<and>
    outbox mb = outbox (mail w) @ concat (map (digestMails lib e (mail w)) us) \<and> sameInbox (now e) (mail w) mb"
proof (induction us arbitrary: sent w)
  case Nil
  show ?case by (intro exI [of _ "mail w"]) (simp add: sameInbox_def)
next
  case (Cons u us)
  let ?b = "digestDue lib e (mail w) u"
  obtain m1 where 1: "digestOne lib e u w = (Inr ?b, w\<lparr>mail := m1\<rparr>)" "outbox m1 = outbox (mail w) @ digestMails lib e (mail w) u"
    "sameInbox (now e) (mail w) m1" using digestOne_exact by blast
  obtain m2 where 2: "digestLoop lib e (if ?b then Suc sent else sent) us (w\<lparr>mail := m1\<rparr>) =
      (Inr ((if ?b then Suc sent else sent) + length (filter (digestDue lib e m1) us)), w\<lparr>mail := m2\<rparr>)"
    "outbox m2 = outbox m1 @ concat (map (digestMails lib e m1) us)" "sameInbox (now e) m1 m2"
    using Cons.IH [of "if ?b then Suc sent else sent" "w\<lparr>mail := m1\<rparr>"] by auto
  have "digestDue lib e m1 = digestDue lib e (mail w)" "digestMails lib e m1 = digestMails lib e (mail w)"
    using digest_cong [OF 1(3)] by auto
  then show ?case using 1 2 sameInbox_trans [OF 1(3) 2(3)] by (intro exI [of _ m2]) auto
qed


text \<open>The job for deferred notifications always fails: what quiet hours hold back stays undelivered.\<close>

lemma deferred_never_delivered:
  "fst (deliverDeferred e w) = Inl RuntimeError \<and> mail (snd (deliverDeferred e w)) = mail w"
  by (simp add: deliverDeferred_def runTrackedJob_def recordRun_def)

text \<open>A type whose entry lacks the mail flag counts as on when a notification is sent and as off when a digest is.\<close>

lemma missing_flag_differs:
  "ch_email (normalizeChannelPrefs (Some \<lparr>inApp = Some True, emailPref = None, slackPref = None, smsPref = None, discordPref = None, pushPref = None\<rparr>)) \<and>
   allEmailDisabled (p\<lparr>np_types := [(ty, \<lparr>inApp = Some True, emailPref = None, slackPref = None, smsPref = None, discordPref = None, pushPref = None\<rparr>)]\<rparr>)"
  by (simp add: normalizeChannelPrefs_def orElse_def allEmailDisabled_def list_all_iff)

end
