(* ===== verification/Live_Updates.thy ===== *)
theory Live_Updates
  imports Notifications
begin

text \<open>
  What reaches a user's devices: the socket gateway (\<open>src/src/modules/notifications/notifications.gateway.ts\<close>), the subscriptions
  for web push and device push (\<open>web-push.service.ts\<close>, \<open>push-notification.service.ts\<close>), and the relay that submits signed
  transactions and reports their fate over the gateway (\<open>src/src/modules/chain/transaction-relay.service.ts\<close>). The verification of
  tokens and signatures, the decoding of envelopes, the network and the push services are parameters.
\<close>

section \<open>The gateway\<close>

datatype room = UserRoom uuid | ShipmentRoom string

datatype emission = Connected uuid | SocketError | NotificationOut uuid | UserEvent string json | ChainEvent string string json

datatype wsError = Unauthenticated | MissingShipmentId | UserNotFound | ShipmentNotFound | NotAllowed

text \<open>\<open>joined\<close> is the server's table of rooms, in the order of joining; \<open>emitted\<close> is everything sent to a socket.\<close>

record gateway =
  socketUserMap :: "string \<rightharpoonup> uuid"
  typeFilters :: "string \<rightharpoonup> notificationType list"
  joined :: "(room \<times> string) list"
  emitted :: "(string \<times> emission) list"

definition emptyGateway :: gateway where
  "emptyGateway = \<lparr>socketUserMap = Map.empty, typeFilters = Map.empty, joined = [], emitted = []\<rparr>"

definition emit :: "string \<Rightarrow> emission \<Rightarrow> gateway \<Rightarrow> gateway" where
  "emit s x g = g\<lparr>emitted := emitted g @ [(s, x)]\<rparr>"

definition joinRoom :: "string \<Rightarrow> room \<Rightarrow> gateway \<Rightarrow> gateway" where
  "joinRoom s r g = (if (r, s) \<in> set (joined g) then g else g\<lparr>joined := joined g @ [(r, s)]\<rparr>)"

definition leaveRoom :: "string \<Rightarrow> room \<Rightarrow> gateway \<Rightarrow> gateway" where
  "leaveRoom s r g = g\<lparr>joined := filter (\<lambda>p. p \<noteq> (r, s)) (joined g)\<rparr>"

definition socketsIn :: "room \<Rightarrow> gateway \<Rightarrow> string list" where
  "socketsIn r g = map snd (filter (\<lambda>p. fst p = r) (joined g))"

text \<open>A socket that goes away has left its rooms when the handler runs.\<close>

definition handleDisconnect :: "string \<Rightarrow> gateway \<Rightarrow> gateway" where
  "handleDisconnect s g = g\<lparr>joined := filter (\<lambda>p. snd p \<noteq> s) (joined g),
     socketUserMap := (socketUserMap g)(s := None), typeFilters := (typeFilters g)(s := None)\<rparr>"

definition rejectSocket :: "string \<Rightarrow> gateway \<Rightarrow> gateway" where
  "rejectSocket s g = handleDisconnect s (emit s SocketError g)"

definition handleConnection :: "(string \<Rightarrow> uuid option) \<Rightarrow> string \<Rightarrow> string \<Rightarrow> gateway \<Rightarrow> gateway" where
  "handleConnection verify s token g =
     (if token = [] then rejectSocket s g
      else (case verify token of
        None \<Rightarrow> rejectSocket s g
      | Some uid \<Rightarrow>
          let g1 = joinRoom s (UserRoom uid) g; g2 = g1\<lparr>socketUserMap := (socketUserMap g1)(s \<mapsto> uid)\<rparr>
          in emit s (Connected uid) g2))"

definition handleSubscribe :: "string \<Rightarrow> notificationType list \<Rightarrow> gateway \<Rightarrow> (wsError + notificationType list) \<times> gateway" where
  "handleSubscribe s types g =
     (if socketUserMap g s = None then (Inl Unauthenticated, g)
      else if types \<noteq> [] then (Inr types, g\<lparr>typeFilters := (typeFilters g)(s \<mapsto> types)\<rparr>)
      else (Inr types, g\<lparr>typeFilters := (typeFilters g)(s := None)\<rparr>))"

definition handleUnsubscribe :: "string \<Rightarrow> gateway \<Rightarrow> (wsError + unit) \<times> gateway" where
  "handleUnsubscribe s g =
     (if socketUserMap g s = None then (Inl Unauthenticated, g)
      else (Inr (), g\<lparr>typeFilters := (typeFilters g)(s := None)\<rparr>))"

definition mayJoin :: "user \<Rightarrow> shipment \<Rightarrow> world \<Rightarrow> bool" where
  "mayJoin u sh w \<longleftrightarrow>
     (let isParticipant = stellarAddress u \<in> set [buyerAddress sh, supplierAddress sh, logisticsAddress sh, arbiterAddress sh];
          isWatcher = list_ex (\<lambda>x. w_shipmentId x = s_id sh \<and> w_userId x = u_id u) (watchers (db w));
          isAdmin = (u_role u = ADMIN)
      in isParticipant \<or> isWatcher \<or> isAdmin)"

definition handleJoinShipmentRoom :: "world \<Rightarrow> string \<Rightarrow> string \<Rightarrow> gateway \<Rightarrow> (wsError + string) \<times> gateway" where
  "handleJoinShipmentRoom w s sid g =
     (case socketUserMap g s of
        None \<Rightarrow> (Inl Unauthenticated, g)
      | Some uid \<Rightarrow>
          if sid = [] then (Inl MissingShipmentId, g)
          else (case find (\<lambda>u. u_id u = uid) (users (db w)) of
            None \<Rightarrow> (Inl UserNotFound, g)
          | Some u \<Rightarrow> (case find (\<lambda>x. s_id x = sid) (shipments (db w)) of
              None \<Rightarrow> (Inl ShipmentNotFound, g)
            | Some sh \<Rightarrow> if mayJoin u sh w then (Inr sid, joinRoom s (ShipmentRoom sid) g) else (Inl NotAllowed, g))))"

definition handleLeaveShipmentRoom :: "string \<Rightarrow> string \<Rightarrow> gateway \<Rightarrow> (wsError + string option) \<times> gateway" where
  "handleLeaveShipmentRoom s sid g =
     (if socketUserMap g s = None then (Inl Unauthenticated, g)
      else if sid = [] then (Inr None, g)
      else (Inr (Some sid), leaveRoom s (ShipmentRoom sid) g))"

definition admits :: "gateway \<Rightarrow> notificationType \<Rightarrow> string \<Rightarrow> bool" where
  "admits g ty s \<longleftrightarrow> (case typeFilters g s of None \<Rightarrow> True | Some types \<Rightarrow> ty \<in> set types)"

definition pushToUser :: "uuid \<Rightarrow> notification \<Rightarrow> gateway \<Rightarrow> gateway" where
  "pushToUser uid n g =
     (let inRoom = socketsIn (UserRoom uid) g in
      if inRoom = [] then g
      else fold (\<lambda>s g. if admits g (n_type n) s then emit s (NotificationOut (n_id n)) g else g) inRoom g)"

definition pushEvent :: "uuid \<Rightarrow> string \<Rightarrow> json \<Rightarrow> gateway \<Rightarrow> gateway" where
  "pushEvent uid ev payload g = fold (\<lambda>s. emit s (UserEvent ev payload)) (socketsIn (UserRoom uid) g) g"

definition pushToShipmentRoom :: "string \<Rightarrow> string \<Rightarrow> json \<Rightarrow> gateway \<Rightarrow> gateway" where
  "pushToShipmentRoom sid ev payload g = fold (\<lambda>s. emit s (ChainEvent sid ev payload)) (socketsIn (ShipmentRoom sid) g) g"

section \<open>Push subscriptions\<close>

record pushSubscription =
  ps_id :: uuid
  ps_userId :: uuid
  ps_endpoint :: string
  ps_keys :: "string \<times> string"

record deviceToken =
  dt_id :: uuid
  dt_userId :: uuid
  dt_token :: string
  dt_platform :: string

record pushStore =
  subscriptions :: "pushSubscription list"
  deviceTokens :: "deviceToken list"
  pushed :: "(string \<times> notificationType) list"
  nextPush :: uuid

definition subscribePush :: "uuid \<Rightarrow> string \<Rightarrow> string \<times> string \<Rightarrow> pushStore \<Rightarrow> pushStore" where
  "subscribePush uid ep keys st =
     (if list_ex (\<lambda>r. ps_endpoint r = ep) (subscriptions st)
      then st\<lparr>subscriptions := updateWhere (\<lambda>r. ps_endpoint r = ep) (\<lambda>r. r\<lparr>ps_userId := uid, ps_keys := keys\<rparr>) (subscriptions st)\<rparr>
      else st\<lparr>subscriptions := subscriptions st @ [\<lparr>ps_id = nextPush st, ps_userId = uid, ps_endpoint = ep, ps_keys = keys\<rparr>],
              nextPush := Suc (nextPush st)\<rparr>)"

definition unsubscribePush :: "uuid \<Rightarrow> string \<Rightarrow> pushStore \<Rightarrow> pushStore" where
  "unsubscribePush uid ep st = st\<lparr>subscriptions := filter (\<lambda>r. \<not> (ps_userId r = uid \<and> ps_endpoint r = ep)) (subscriptions st)\<rparr>"

text \<open>The answer of a push service to one message: accepted, or an HTTP status (0 when there is none).\<close>

type_synonym pushReply = "int option"

definition goneStatus :: "pushReply \<Rightarrow> bool" where
  "goneStatus r \<longleftrightarrow> r = Some 404 \<or> r = Some 410"

definition sendWebPush :: "bool \<Rightarrow> (pushSubscription \<Rightarrow> pushReply) \<Rightarrow> uuid \<Rightarrow> notificationType \<Rightarrow> pushStore \<Rightarrow> pushStore" where
  "sendWebPush enabled service uid ty st =
     (if \<not> enabled then st else
      let subs = filter (\<lambda>r. ps_userId r = uid) (subscriptions st) in
      if subs = [] then st else
      let staleIds = map ps_id (filter (\<lambda>r. goneStatus (service r)) subs);
          st1 = st\<lparr>pushed := pushed st @ map (\<lambda>r. (ps_endpoint r, ty)) (filter (\<lambda>r. service r = None) subs)\<rparr>
      in if staleIds = [] then st1 else st1\<lparr>subscriptions := filter (\<lambda>r. ps_id r \<notin> set staleIds) (subscriptions st1)\<rparr>)"

definition registerDevice :: "uuid \<Rightarrow> string \<Rightarrow> string \<Rightarrow> pushStore \<Rightarrow> pushStore" where
  "registerDevice uid tok platform st =
     (if list_ex (\<lambda>r. dt_token r = tok) (deviceTokens st)
      then st\<lparr>deviceTokens := updateWhere (\<lambda>r. dt_token r = tok) (\<lambda>r. r\<lparr>dt_userId := uid\<rparr>) (deviceTokens st)\<rparr>
      else st\<lparr>deviceTokens := deviceTokens st @ [\<lparr>dt_id = nextPush st, dt_userId = uid, dt_token = tok, dt_platform = platform\<rparr>],
              nextPush := Suc (nextPush st)\<rparr>)"

definition removeToken :: "uuid \<Rightarrow> string \<Rightarrow> pushStore \<Rightarrow> pushStore" where
  "removeToken uid tok st = st\<lparr>deviceTokens := filter (\<lambda>r. \<not> (dt_userId r = uid \<and> dt_token r = tok)) (deviceTokens st)\<rparr>"

definition listTokens :: "uuid \<Rightarrow> pushStore \<Rightarrow> deviceToken list" where
  "listTokens uid st = filter (\<lambda>r. dt_userId r = uid) (deviceTokens st)"

definition staleCode :: "string option \<Rightarrow> bool" where
  "staleCode c \<longleftrightarrow> c = Some ''messaging/registration-token-not-registered'' \<or> c = Some ''messaging/invalid-registration-token''"

definition sendDevicePush :: "bool \<Rightarrow> (deviceToken \<Rightarrow> string option) \<Rightarrow> uuid \<Rightarrow> notificationType \<Rightarrow> pushStore \<Rightarrow> pushStore" where
  "sendDevicePush configured service uid ty st =
     (if \<not> configured then st else
      let toks = filter (\<lambda>r. dt_userId r = uid) (deviceTokens st) in
      if toks = [] then st else
      let staleIds = map dt_id (filter (\<lambda>r. staleCode (service r)) toks);
          st1 = st\<lparr>pushed := pushed st @ map (\<lambda>r. (dt_token r, ty)) (filter (\<lambda>r. service r = None) toks)\<rparr>
      in if staleIds = [] then st1 else st1\<lparr>deviceTokens := filter (\<lambda>r. dt_id r \<notin> set staleIds) (deviceTokens st1)\<rparr>)"

section \<open>The relay\<close>

definition MAX_SEND_RETRIES :: nat where
  "MAX_SEND_RETRIES = 3"

definition MAX_POLLS :: nat where
  "MAX_POLLS = 30"

datatype sendStatus = SEND_PENDING | SEND_DUPLICATE | SEND_TRY_AGAIN_LATER | SEND_ERROR

record sendResponse =
  sr_hash :: string
  sr_status :: sendStatus
  sr_errorXdr :: "string option"

datatype pollReply = PollSuccess int | PollFailed "string option" int | PollNotFound | PollThrows

datatype finalStatus = TX_SUCCESS int | TX_FAILED "string option" "int option" | TX_TIMEOUT

text \<open>
  An envelope as the SDK decodes it: the source of the (inner) transaction and whether a signature of an address verifies.
  The node answers the n-th send and the n-th poll; None is a call that throws.
\<close>

record envelope =
  env_source :: address
  env_signedBy :: "address \<Rightarrow> bool"

record chainNode =
  sendTransaction :: "nat \<Rightarrow> sendResponse option"
  getTransaction :: "string \<Rightarrow> nat \<Rightarrow> pollReply"

text \<open>The answer, and how many times the node was asked.\<close>

function sendWithRetry :: "chainNode \<Rightarrow> nat \<Rightarrow> sendResponse result \<times> nat" where
  "sendWithRetry node k =
     (case sendTransaction node k of
        None \<Rightarrow> if k \<ge> MAX_SEND_RETRIES then (Inl BadGatewayException, Suc k) else sendWithRetry node (Suc k)
      | Some res \<Rightarrow> if sr_status res \<noteq> SEND_TRY_AGAIN_LATER \<or> k \<ge> MAX_SEND_RETRIES then (Inr res, Suc k)
                    else sendWithRetry node (Suc k))"
  by pat_completeness auto
termination
  by (relation "measure (\<lambda>(node, k). MAX_SEND_RETRIES - k)") auto

declare sendWithRetry.simps [simp del]

text \<open>The polls from the i-th on: the status to push.\<close>

function trackFrom :: "chainNode \<Rightarrow> string \<Rightarrow> nat \<Rightarrow> finalStatus" where
  "trackFrom node h i =
     (if i < MAX_POLLS then
        (case getTransaction node h i of
           PollSuccess ledger \<Rightarrow> TX_SUCCESS ledger
         | PollFailed xdr ledger \<Rightarrow> TX_FAILED xdr (Some ledger)
         | PollNotFound \<Rightarrow> trackFrom node h (Suc i)
         | PollThrows \<Rightarrow> trackFrom node h (Suc i))
      else TX_TIMEOUT)"
  by pat_completeness auto
termination
  by (relation "measure (\<lambda>(node, h, i). MAX_POLLS - i)") auto

declare trackFrom.simps [simp del]

fun txPayload :: "string \<Rightarrow> finalStatus \<Rightarrow> json" where
  "txPayload h (TX_SUCCESS ledger) = JObj [(''hash'', JStr h), (''status'', JStr ''SUCCESS''), (''ledger'', JNum ledger)]"
| "txPayload h (TX_FAILED xdr ledger) = JObj ([(''hash'', JStr h), (''status'', JStr ''FAILED'')] @
     (case xdr of None \<Rightarrow> [] | Some x \<Rightarrow> [(''resultXdr'', JStr x)]) @ (case ledger of None \<Rightarrow> [] | Some l \<Rightarrow> [(''ledger'', JNum l)]))"
| "txPayload h TX_TIMEOUT = JObj [(''hash'', JStr h), (''status'', JStr ''TIMEOUT'')]"

definition pushStatus :: "uuid \<Rightarrow> string \<Rightarrow> finalStatus \<Rightarrow> gateway \<Rightarrow> gateway" where
  "pushStatus uid h st g = pushEvent uid ''chain:tx'' (txPayload h st) g"

definition trackFinalStatus :: "chainNode \<Rightarrow> string \<Rightarrow> uuid \<Rightarrow> gateway \<Rightarrow> gateway" where
  "trackFinalStatus node h uid g = pushStatus uid h (trackFrom node h 0) g"

fun sendStatusText :: "sendStatus \<Rightarrow> string" where
  "sendStatusText SEND_PENDING = ''PENDING''"
| "sendStatusText SEND_DUPLICATE = ''DUPLICATE''"
| "sendStatusText SEND_TRY_AGAIN_LATER = ''TRY_AGAIN_LATER''"
| "sendStatusText SEND_ERROR = ''ERROR''"

text \<open>
  The answer to the caller, and the tracking that goes on after it: the hash to follow, or none. The gateway has what was
  pushed before the answer.
\<close>

definition submitCheck :: "(string \<Rightarrow> envelope option) \<Rightarrow> string \<Rightarrow> address \<Rightarrow> envelope result" where
  "submitCheck decode xdr caller =
     (case decode xdr of
        None \<Rightarrow> Inl BadRequestException
      | Some tx \<Rightarrow>
          if env_source tx \<noteq> caller then Inl ForbiddenException
          else if \<not> env_signedBy tx caller then Inl BadRequestException
          else Inr tx)"

definition submit :: "(string \<Rightarrow> envelope option) \<Rightarrow> chainNode \<Rightarrow> string \<Rightarrow> uuid \<Rightarrow> address \<Rightarrow> gateway
    \<Rightarrow> ((string \<times> string) \<times> string option) result \<times> gateway" where
  "submit decode node xdr uid addr g =
     (case submitCheck decode xdr addr of
        Inl x \<Rightarrow> (Inl x, g)
      | Inr tx \<Rightarrow>
          (case sendWithRetry node 0 of
             (Inl x, _) \<Rightarrow> (Inl x, g)
           | (Inr res, _) \<Rightarrow>
               if sr_status res = SEND_ERROR
               then (Inr ((sr_hash res, ''FAILED''), None), pushStatus uid (sr_hash res) (TX_FAILED (sr_errorXdr res) None) g)
               else (Inr ((sr_hash res, sendStatusText (sr_status res)), Some (sr_hash res)), g)))"

section \<open>Rooms\<close>

text \<open>What can happen at the gateway. The server gives a new socket an identifier that no connected socket has.\<close>

datatype gatewayEvent =
    Connect string string
  | Disconnect string
  | Subscribe string "notificationType list"
  | Unsubscribe string
  | JoinShipment world string string
  | LeaveShipment string string
  | PushNotification uuid notification
  | PushUserEvent uuid string json
  | PushChainEvent string string json

fun gatewayStep :: "(string \<Rightarrow> uuid option) \<Rightarrow> gatewayEvent \<Rightarrow> gateway \<Rightarrow> gateway" where
  "gatewayStep verify (Connect s token) g = (if socketUserMap g s = None then handleConnection verify s token g else g)"
| "gatewayStep verify (Disconnect s) g = handleDisconnect s g"
| "gatewayStep verify (Subscribe s types) g = snd (handleSubscribe s types g)"
| "gatewayStep verify (Unsubscribe s) g = snd (handleUnsubscribe s g)"
| "gatewayStep verify (JoinShipment w s sid) g = snd (handleJoinShipmentRoom w s sid g)"
| "gatewayStep verify (LeaveShipment s sid) g = snd (handleLeaveShipmentRoom s sid g)"
| "gatewayStep verify (PushNotification uid n) g = pushToUser uid n g"
| "gatewayStep verify (PushUserEvent uid ev payload) g = pushEvent uid ev payload g"
| "gatewayStep verify (PushChainEvent sid ev payload) g = pushToShipmentRoom sid ev payload g"

definition gatewayOk :: "gateway \<Rightarrow> bool" where
  "gatewayOk g \<longleftrightarrow> distinct (joined g) \<and> (\<forall>s u. (UserRoom u, s) \<in> set (joined g) \<longleftrightarrow> socketUserMap g s = Some u) \<and>
     (\<forall>s sid. (ShipmentRoom sid, s) \<in> set (joined g) \<longrightarrow> socketUserMap g s \<noteq> None) \<and>
     (\<forall>s. typeFilters g s \<noteq> None \<longrightarrow> socketUserMap g s \<noteq> None)"

text \<open>Everything of a gateway but what it has sent.\<close>

abbreviation membership :: "gateway \<Rightarrow> (string \<rightharpoonup> uuid) \<times> (string \<rightharpoonup> notificationType list) \<times> (room \<times> string) list" where
  "membership g \<equiv> (socketUserMap g, typeFilters g, joined g)"

lemma membership_emit [simp]: "socketUserMap (emit s x g) = socketUserMap g" "typeFilters (emit s x g) = typeFilters g" "joined (emit s x g) = joined g"
  by (simp_all add: emit_def)

lemma fold_emit: "fold (\<lambda>s. emit s x) ss g = g\<lparr>emitted := emitted g @ map (\<lambda>s. (s, x)) ss\<rparr>"
  by (induction ss arbitrary: g) (simp_all add: emit_def)

lemma fold_emit_if:
  "fold (\<lambda>s g. if admits g ty s then emit s x g else g) ss g = g\<lparr>emitted := emitted g @ map (\<lambda>s. (s, x)) (filter (admits g ty) ss)\<rparr>"
proof (induction ss arbitrary: g)
  case (Cons s ss)
  have "admits (emit s x g) ty = admits g ty" by (simp add: admits_def fun_eq_iff)
  then show ?case using Cons.IH [of "emit s x g"] Cons.IH [of g] by (simp add: emit_def)
qed simp

lemma run_pushToUser:
  "pushToUser uid n g = g\<lparr>emitted := emitted g @ map (\<lambda>s. (s, NotificationOut (n_id n))) (filter (admits g (n_type n)) (socketsIn (UserRoom uid) g))\<rparr>"
  by (simp add: pushToUser_def Let_def fold_emit_if)

lemmas run_push = run_pushToUser pushEvent_def pushToShipmentRoom_def fold_emit

lemmas gateway_defs = handleConnection_def handleSubscribe_def handleUnsubscribe_def handleLeaveShipmentRoom_def
  handleDisconnect_def rejectSocket_def joinRoom_def leaveRoom_def Let_def

lemma gatewayOk_join: "gatewayOk g \<Longrightarrow> socketUserMap g s \<noteq> None \<Longrightarrow> gatewayOk (joinRoom s (ShipmentRoom sid) g)"
  by (auto simp: gatewayOk_def joinRoom_def)

lemma gatewayOk_step: "gatewayOk g \<Longrightarrow> gatewayOk (gatewayStep verify st g)"
proof (cases st)
  case (JoinShipment w s sid)
  assume "gatewayOk g"
  then show ?thesis using JoinShipment gatewayOk_join [of g s sid] by (auto simp: handleJoinShipmentRoom_def split: option.splits)
next
  case (Connect s token)
  assume ok: "gatewayOk g"
  show ?thesis
  proof (cases "verify token")
    case None
    then show ?thesis using ok Connect by (auto simp: gatewayOk_def gateway_defs)
  next
    case (Some uid)
    then show ?thesis using ok Connect by (auto simp: gatewayOk_def gateway_defs)
  qed
qed (auto simp: gatewayOk_def gateway_defs run_push)

interpretation socketGateway: step_system "gatewayStep verify" gatewayOk for verify
  by unfold_locales (rule gatewayOk_step)

lemma gateway_reachable_ok: "gatewayOk (fold (gatewayStep verify) sts emptyGateway)"
  by (rule socketGateway.run_inv) (simp add: gatewayOk_def emptyGateway_def)

text \<open>A socket is in the room of a shipment only if its user was allowed to join when it did.\<close>

definition joinedLegally :: "gatewayEvent list \<Rightarrow> gateway \<Rightarrow> bool" where
  "joinedLegally sts g \<longleftrightarrow> (\<forall>sid s. (ShipmentRoom sid, s) \<in> set (joined g) \<longrightarrow>
     (\<exists>w u sh. JoinShipment w s sid \<in> set sts \<and> u \<in> set (users (db w)) \<and> sh \<in> set (shipments (db w)) \<and> s_id sh = sid \<and>
        mayJoin u sh w \<and> socketUserMap g s = Some (u_id u)))"

lemma joinedLegally_mono: "joinedLegally sts g \<Longrightarrow> set sts \<subseteq> set sts' \<Longrightarrow> joinedLegally sts' g"
  unfolding joinedLegally_def by blast

lemma joinedLegally_less:
  assumes "joinedLegally sts g"
    and "\<And>sid s. (ShipmentRoom sid, s) \<in> set (joined g') \<Longrightarrow> (ShipmentRoom sid, s) \<in> set (joined g) \<and> socketUserMap g' s = socketUserMap g s"
  shows "joinedLegally sts g'"
  using assms unfolding joinedLegally_def by metis

lemma joinedLegally_step:
  assumes "joinedLegally sts g" "gatewayOk g"
  shows "joinedLegally (sts @ [st]) (gatewayStep verify st g)"
proof (cases "\<exists>w s sid. st = JoinShipment w s sid")
  case False
  have "(ShipmentRoom sid, s) \<in> set (joined g) \<and> socketUserMap (gatewayStep verify st g) s = socketUserMap g s"
    if "(ShipmentRoom sid, s) \<in> set (joined (gatewayStep verify st g))" for sid s
    using that assms(2) False
    by (cases st) (auto simp: gateway_defs run_push gatewayOk_def split: if_splits option.splits)
  then have "joinedLegally sts (gatewayStep verify st g)" by (rule joinedLegally_less [OF assms(1)])
  then show ?thesis by (rule joinedLegally_mono) auto
next
  case True
  then obtain w s sid where st: "st = JoinShipment w s sid" by blast
  show ?thesis
  proof (cases "gatewayStep verify st g = g")
    case True
    have "joinedLegally (sts @ [st]) g" by (rule joinedLegally_mono [OF assms(1)]) auto
    then show ?thesis using True by simp
  next
    case False
    then obtain uid u sh where j: "socketUserMap g s = Some uid" "find (\<lambda>u. u_id u = uid) (users (db w)) = Some u"
      "find (\<lambda>x. s_id x = sid) (shipments (db w)) = Some sh" "mayJoin u sh w" "gatewayStep verify st g = joinRoom s (ShipmentRoom sid) g"
      unfolding st by (auto simp: handleJoinShipmentRoom_def split: option.splits if_splits)
    have u: "u \<in> set (users (db w))" "u_id u = uid" "sh \<in> set (shipments (db w))" "s_id sh = sid"
      using j(2,3) by (auto simp: find_Some_iff)
    have "joinedLegally (sts @ [st]) g" by (rule joinedLegally_mono [OF assms(1)]) auto
    then show ?thesis using j u unfolding joinedLegally_def j(5) st by (auto simp: joinRoom_def)
  qed
qed

lemma reachable_joinedLegally: "joinedLegally sts (fold (gatewayStep verify) sts emptyGateway)"
proof (induction sts rule: rev_induct)
  case Nil
  show ?case by (simp add: joinedLegally_def emptyGateway_def)
next
  case (snoc st sts)
  then show ?case using joinedLegally_step [OF snoc gateway_reachable_ok] by simp
qed

lemma mem_socketsIn: "s \<in> set (socketsIn r g) \<longleftrightarrow> (r, s) \<in> set (joined g)"
  by (force simp: socketsIn_def)

lemma distinct_socketsIn: "distinct (joined g) \<Longrightarrow> distinct (socketsIn r g)"
  by (auto simp: socketsIn_def distinct_map inj_on_def)


definition alertOf :: "uuid \<Rightarrow> notification" where
  "alertOf uid = \<lparr>n_id = 3, n_userId = uid, n_type = N_SYSTEM_ALERT, n_title = [], n_data = JNull, n_read = False, emailSent = False,
     deliverAfter = None, snoozedUntil = None, n_createdAt = 0\<rparr>"

definition twoSockets :: gateway where
  "twoSockets = fold (gatewayStep (\<lambda>t. Some (length t))) [Connect ''a'' ''t'', Connect ''b'' ''uu''] emptyGateway"


section \<open>Push subscriptions belong to one user\<close>

definition pushOk :: "pushStore \<Rightarrow> bool" where
  "pushOk st \<longleftrightarrow> distinct (map ps_endpoint (subscriptions st)) \<and> distinct (map dt_token (deviceTokens st)) \<and>
     distinct (map ps_id (subscriptions st)) \<and> distinct (map dt_id (deviceTokens st)) \<and>
     (\<forall>r \<in> set (subscriptions st). ps_id r < nextPush st) \<and> (\<forall>r \<in> set (deviceTokens st). dt_id r < nextPush st)"

datatype pushOp = SubscribePush uuid string "string \<times> string" | UnsubscribePush uuid string | RegisterToken uuid string string | RemoveToken uuid string
  | SendWeb bool "pushSubscription \<Rightarrow> pushReply" uuid notificationType | SendDevice bool "deviceToken \<Rightarrow> string option" uuid notificationType

fun pushStep :: "pushOp \<Rightarrow> pushStore \<Rightarrow> pushStore" where
  "pushStep (SubscribePush uid ep keys) st = subscribePush uid ep keys st"
| "pushStep (UnsubscribePush uid ep) st = unsubscribePush uid ep st"
| "pushStep (RegisterToken uid tok platform) st = registerDevice uid tok platform st"
| "pushStep (RemoveToken uid tok) st = removeToken uid tok st"
| "pushStep (SendWeb enabled service uid ty) st = sendWebPush enabled service uid ty st"
| "pushStep (SendDevice configured service uid ty) st = sendDevicePush configured service uid ty st"

lemma pushOk_step: "pushOk st \<Longrightarrow> pushOk (pushStep oper st)"
  by (cases oper) (auto simp: pushOk_def subscribePush_def unsubscribePush_def registerDevice_def removeToken_def sendWebPush_def sendDevicePush_def
      Let_def list_ex_iff map_updateWhere ball_updateWhere distinct_map_filter)

interpretation pushes: step_system pushStep pushOk
  by unfold_locales (rule pushOk_step)

text \<open>After any sequence of operations an endpoint is subscribed once, so for one user, and a push removes exactly the subscriptions
  of that user that the service reports gone.\<close>

lemma push_endpoints_unique: "pushOk (fold pushStep ops \<lparr>subscriptions = [], deviceTokens = [], pushed = [], nextPush = 0\<rparr>)"
  by (rule pushes.run_inv) (simp add: pushOk_def)

lemma web_push_prunes_exactly:
  assumes "pushOk st" "enabled"
  shows "set (subscriptions (sendWebPush enabled service uid ty st)) = {r \<in> set (subscriptions st). \<not> (ps_userId r = uid \<and> goneStatus (service r))}"
proof -
  have "r = r'" if "r \<in> set (subscriptions st)" "r' \<in> set (subscriptions st)" "ps_id r = ps_id r'" for r r'
    using assms(1) that by (auto simp: pushOk_def distinct_map inj_on_def)
  then show ?thesis using assms(2) by (auto simp: sendWebPush_def Let_def filter_empty_conv)
qed

section \<open>The relay answers\<close>

lemma sendWithRetry_bounds:
  assumes "k \<le> MAX_SEND_RETRIES"
  shows "snd (sendWithRetry node k) \<le> Suc MAX_SEND_RETRIES \<and> k < snd (sendWithRetry node k)"
  using assms
proof (induction node k rule: sendWithRetry.induct)
  case (1 node k)
  then show ?case by (subst (1 2) sendWithRetry.simps) (fastforce split: option.splits)
qed

lemma sendWithRetry_fails_iff:
  assumes "k \<le> MAX_SEND_RETRIES"
  shows "fst (sendWithRetry node k) = Inl BadGatewayException \<longleftrightarrow> sendTransaction node MAX_SEND_RETRIES = None \<and>
    (\<forall>j. k \<le> j \<and> j < MAX_SEND_RETRIES \<longrightarrow> (case sendTransaction node j of None \<Rightarrow> True | Some r \<Rightarrow> sr_status r = SEND_TRY_AGAIN_LATER))"
  using assms
proof (induction node k rule: sendWithRetry.induct)
  case (1 node k)
  show ?case
  proof (cases "k = MAX_SEND_RETRIES")
    case True
    then show ?thesis by (subst sendWithRetry.simps) (auto split: option.splits)
  next
    case False
    then have less: "k < MAX_SEND_RETRIES" using "1.prems" by simp
    have split: "(\<forall>j. k \<le> j \<and> j < MAX_SEND_RETRIES \<longrightarrow> P j) \<longleftrightarrow> P k \<and> (\<forall>j. Suc k \<le> j \<and> j < MAX_SEND_RETRIES \<longrightarrow> P j)" for P
      using less by (metis Suc_leD Suc_le_eq le_eq_less_or_eq)
    show ?thesis using "1.IH" less unfolding split by (subst sendWithRetry.simps) (auto split: option.splits)
  qed
qed

text \<open>The first poll that decides, if one of the thirty does.\<close>

definition pollDecision :: "pollReply \<Rightarrow> finalStatus option" where
  "pollDecision r = (case r of PollSuccess l \<Rightarrow> Some (TX_SUCCESS l) | PollFailed x l \<Rightarrow> Some (TX_FAILED x (Some l)) | _ \<Rightarrow> None)"

lemma trackFrom_first:
  "trackFrom node h i = (case find (\<lambda>j. pollDecision (getTransaction node h j) \<noteq> None) [i..<MAX_POLLS] of
     None \<Rightarrow> TX_TIMEOUT | Some j \<Rightarrow> the (pollDecision (getTransaction node h j)))"
proof (induction node h i rule: trackFrom.induct)
  case (1 node h i)
  show ?case
  proof (cases "i < MAX_POLLS")
    case True
    then show ?thesis using "1.IH" by (subst trackFrom.simps) (auto simp: upt_conv_Cons pollDecision_def split: pollReply.splits)
  qed (simp add: trackFrom.simps)
qed

definition finishTracking :: "chainNode \<Rightarrow> uuid \<Rightarrow> string option \<Rightarrow> gateway \<Rightarrow> gateway" where
  "finishTracking node uid follow g = (case follow of None \<Rightarrow> g | Some h \<Rightarrow> trackFinalStatus node h uid g)"


definition flakyNode :: chainNode where
  "flakyNode = \<lparr>sendTransaction = \<lambda>k. if k = 0 then None else Some \<lparr>sr_hash = ''h'', sr_status = SEND_PENDING, sr_errorXdr = None\<rparr>,
     getTransaction = \<lambda>h i. if i < 2 then PollNotFound else PollSuccess 7\<rparr>"

definition signedByA :: "string \<Rightarrow> envelope option" where
  "signedByA x = Some \<lparr>env_source = ''A'', env_signedBy = \<lambda>a. a = ''A''\<rparr>"


end
