(* ===== verification/Arbiters.thy ===== *)
theory Arbiters
  imports Platform Job_Tracker
begin

text \<open>
  Arbiters (\<open>src/src/modules/arbiters\<close>): away periods, the reputation computed from the disputes of an arbiter, its cache and the job
  that refreshes it, and the public directory. The average resolution time is an exact number of hundredths of an
  hour, where the source divides floating-point numbers before it rounds.
\<close>

section \<open>Availability\<close>

record availability =
  av_isAway :: bool
  av_awayUntil :: "string option"
  av_awayMessage :: "string option"

definition toAvailability :: "time \<Rightarrow> user option \<Rightarrow> availability" where
  "toAvailability t found =
     (let awayUntil = Option.bind found arbiterAwayUntil;
          isAway = (case awayUntil of None \<Rightarrow> False | Some a \<Rightarrow> a > t)
      in \<lparr>av_isAway = isAway, av_awayUntil = (if isAway then map_option isoString awayUntil else None),
          av_awayMessage = (if isAway then Option.bind found awayMessage else None)\<rparr>)"

definition getAvailability :: "env \<Rightarrow> address \<Rightarrow> availability act" where
  "getAvailability e addr = reads (\<lambda>w. toAvailability (now e) (findUser addr w))"

definition setAvailability :: "env \<Rightarrow> uuid \<Rightarrow> time option \<Rightarrow> string option \<Rightarrow> availability act" where
  "setAvailability e uid awayUntil message =
     require (case awayUntil of None \<Rightarrow> True | Some u \<Rightarrow> \<not> u \<le> now e) BadRequestException (
     andThen (reads (\<lambda>w. find (\<lambda>u. u_id u = uid) (users (db w)))) (\<lambda>found.
     requireSome found NotFoundException (\<lambda>u.
     let setAway = (\<lambda>u. u\<lparr>arbiterAwayUntil := awayUntil, awayMessage := (if awayUntil = None then None else message)\<rparr>) in
     andThen (modifyDb (\<lambda>d. d\<lparr>users := updateWhere (\<lambda>u. u_id u = uid) setAway (users d)\<rparr>)) (\<lambda>_.
     ret (toAvailability (now e) (Some (setAway u)))))))"

section \<open>Reputation\<close>

definition REPUTATION_PREFIX :: string where
  "REPUTATION_PREFIX = ''arbiter:reputation:''"

definition REPUTATION_TTL_SECONDS :: int where
  "REPUTATION_TTL_SECONDS = 7 * 24 * 60 * 60"

text \<open>The average is in hundredths of an hour.\<close>

record reputation =
  rp_address :: address
  rp_handled :: int
  rp_open :: int
  rp_average :: "int option"
  rp_hasHistory :: bool
  rp_computedAt :: string

definition disputesOf :: "address \<Rightarrow> world \<Rightarrow> milestone list" where
  "disputesOf addr w = filter (\<lambda>m. m_status m \<in> {DISPUTED, RESOLVED} \<and>
     list_ex (\<lambda>s. s_id s = m_shipmentId m \<and> arbiterAddress s = addr) (shipments (db w))) (milestones (db w))"

definition resolutionMs :: "milestone \<Rightarrow> int" where
  "resolutionMs m = the (confirmedAt m) - (case disputeEscalatedAt m of None \<Rightarrow> m_createdAt m | Some t \<Rightarrow> t)"

definition mathRound :: "rat \<Rightarrow> int" where
  "mathRound x = \<lfloor>x + 1 / 2\<rfloor>"

definition computeReputation :: "env \<Rightarrow> address \<Rightarrow> world \<Rightarrow> reputation" where
  "computeReputation e addr w =
     (let ms = disputesOf addr w;
          resolved = filter (\<lambda>m. m_status m = RESOLVED \<and> confirmedAt m \<noteq> None) ms;
          opened = filter (\<lambda>m. m_status m = DISPUTED) ms;
          times = filter (\<lambda>t. t \<ge> 0) (map resolutionMs resolved);
          average = (if length times > 0
            then Some (mathRound (of_int (sum_list times) / of_nat (length times) / (1000 * 60 * 60) * 100)) else None)
      in \<lparr>rp_address = addr, rp_handled = int (length resolved), rp_open = int (length opened), rp_average = average,
          rp_hasHistory = (resolved \<noteq> [] \<or> opened \<noteq> []), rp_computedAt = isoString (now e)\<rparr>)"

definition reputationJson :: "reputation \<Rightarrow> json" where
  "reputationJson r = JObj [(''arbiterAddress'', JStr (rp_address r)), (''disputesHandled'', JNum (rp_handled r)), (''disputesOpen'', JNum (rp_open r)),
     (''averageResolutionTimeHours'', case rp_average r of None \<Rightarrow> JNull | Some a \<Rightarrow> JNum a), (''hasHistory'', JBool (rp_hasHistory r)),
     (''computedAt'', JStr (rp_computedAt r))]"

definition jsonReputation :: "json \<Rightarrow> reputation" where
  "jsonReputation j =
     (let str = (\<lambda>k. case jsonGet k j of Some (JStr s) \<Rightarrow> s | _ \<Rightarrow> []); num = (\<lambda>k. case jsonGet k j of Some (JNum i) \<Rightarrow> i | _ \<Rightarrow> 0)
      in \<lparr>rp_address = str ''arbiterAddress'', rp_handled = num ''disputesHandled'', rp_open = num ''disputesOpen'',
          rp_average = (case jsonGet ''averageResolutionTimeHours'' j of Some (JNum a) \<Rightarrow> Some a | _ \<Rightarrow> None),
          rp_hasHistory = (jsonGet ''hasHistory'' j = Some (JBool True)), rp_computedAt = str ''computedAt''\<rparr>)"

definition cachedReputation :: "(string \<Rightarrow> json option) \<Rightarrow> env \<Rightarrow> address \<Rightarrow> world \<Rightarrow> reputation" where
  "cachedReputation parse e addr w = (case getJson parse (now e) (REPUTATION_PREFIX @ addr) (redis w) of
      None \<Rightarrow> computeReputation e addr w | Some j \<Rightarrow> jsonReputation j)"

definition getReputation :: "(string \<Rightarrow> json option) \<Rightarrow> env \<Rightarrow> address \<Rightarrow> (reputation \<times> availability) act" where
  "getReputation parse e addr = reads (\<lambda>w. (cachedReputation parse e addr w, toAvailability (now e) (findUser addr w)))"

definition recompute :: "env \<Rightarrow> address \<Rightarrow> reputation act" where
  "recompute e addr =
     andThen (reads (computeReputation e addr)) (\<lambda>r.
     andThen (modify (\<lambda>w. w\<lparr>redis := setJson (now e) (REPUTATION_PREFIX @ addr) (reputationJson r) (Some REPUTATION_TTL_SECONDS) (redis w)\<rparr>)) (\<lambda>_.
     ret r))"

record disputeEntry =
  de_shipmentId :: string
  de_milestoneIndex :: int
  de_status :: milestoneStatus
  de_escalatedAt :: "time option"
  de_resolvedAt :: "time option"

definition getHistory :: "address \<Rightarrow> nat \<Rightarrow> nat \<Rightarrow> (disputeEntry list \<times> nat \<times> nat) act" where
  "getHistory addr page limit = reads (\<lambda>w. let ms = disputesOf addr w in
     (map (\<lambda>m. \<lparr>de_shipmentId = m_shipmentId m, de_milestoneIndex = milestoneIndex m, de_status = m_status m, de_escalatedAt = disputeEscalatedAt m,
         de_resolvedAt = (if m_status m = RESOLVED then confirmedAt m else None)\<rparr>) (paged page limit (sort_key (\<lambda>m. - m_updatedAt m) ms)),
      length ms, (length ms + limit - 1) div limit))"

definition listKnownArbiterAddresses :: "world \<Rightarrow> address list" where
  "listKnownArbiterAddresses w = setOf (map arbiterAddress (shipments (db w)))"

definition recomputeEach :: "env \<Rightarrow> address list \<Rightarrow> unit act" where
  "recomputeEach e addrs = forEach addrs (\<lambda>a. attempt (ignore (recompute e a)) (\<lambda>_. ret ()))"

definition recomputeAll :: "env \<Rightarrow> unit act" where
  "recomputeAll e = runTrackedJob e False ''arbiter-reputation'' (andThen (reads listKnownArbiterAddresses) (recomputeEach e))"

section \<open>Directory\<close>

definition reputationScore :: "reputation \<Rightarrow> int option" where
  "reputationScore r = (let count = rp_handled r + rp_open r in
     if count = 0 then None else Some (mathRound (of_int (rp_handled r) / of_int count * 100)))"

record directoryQuery =
  dq_minScore :: "rat option"
  dq_available :: "bool option"
  dq_q :: "string option"
  dq_page :: nat
  dq_limit :: nat

record directoryEntry =
  dn_address :: address
  dn_name :: "string option"
  dn_organization :: "string option"
  dn_available :: bool
  dn_score :: "int option"
  dn_reputation :: reputation

definition matchesText :: "string \<Rightarrow> string option \<Rightarrow> bool" where
  "matchesText q v \<longleftrightarrow> (case v of None \<Rightarrow> False | Some s \<Rightarrow> containsText (toLowerCase q) (toLowerCase s))"

definition inDirectory :: "directoryQuery \<Rightarrow> user \<Rightarrow> bool" where
  "inDirectory query u \<longleftrightarrow> u_role u = ARBITER \<and> listedInDirectory u \<and> deactivatedAt u = None \<and>
     (case dq_available query of None \<Rightarrow> True | Some b \<Rightarrow> arbiterAvailable u = b) \<and>
     (case map_option trim (dq_q query) of None \<Rightarrow> True
      | Some q \<Rightarrow> q = [] \<or> matchesText q (u_name u) \<or> matchesText q (u_organization u))"

definition directoryEntryOf :: "(string \<Rightarrow> json option) \<Rightarrow> env \<Rightarrow> world \<Rightarrow> user \<Rightarrow> directoryEntry" where
  "directoryEntryOf parse e w u = (let rep = cachedReputation parse e (stellarAddress u) w in
     \<lparr>dn_address = stellarAddress u, dn_name = u_name u, dn_organization = u_organization u, dn_available = arbiterAvailable u,
      dn_score = reputationScore rep, dn_reputation = rep\<rparr>)"

definition scoreOr :: "directoryEntry \<Rightarrow> int" where
  "scoreOr en = (case dn_score en of None \<Rightarrow> - 1 | Some s \<Rightarrow> s)"

definition atLeastScore :: "rat option \<Rightarrow> directoryEntry \<Rightarrow> bool" where
  "atLeastScore m en \<longleftrightarrow> (case m of None \<Rightarrow> True | Some t \<Rightarrow> (case dn_score en of None \<Rightarrow> False | Some s \<Rightarrow> of_int s \<ge> t))"

definition directoryRanking :: "(string \<Rightarrow> json option) \<Rightarrow> env \<Rightarrow> directoryQuery \<Rightarrow> world \<Rightarrow> directoryEntry list" where
  "directoryRanking parse e query w = sort_key (\<lambda>en. - scoreOr en)
     (filter (atLeastScore (dq_minScore query)) (map (directoryEntryOf parse e w) (filter (inDirectory query) (users (db w)))))"

definition listDirectory :: "(string \<Rightarrow> json option) \<Rightarrow> env \<Rightarrow> directoryQuery \<Rightarrow> (directoryEntry list \<times> nat \<times> nat) act" where
  "listDirectory parse e query = reads (\<lambda>w. let filtered = directoryRanking parse e query w in
     (paged (dq_page query) (dq_limit query) filtered, length filtered, (length filtered + dq_limit query - 1) div dq_limit query))"

record directoryProfileDto =
  dd_listed :: "bool option"
  dd_available :: "bool option"
  dd_organization :: "string option"

definition applyDirectoryProfile :: "directoryProfileDto \<Rightarrow> user \<Rightarrow> user" where
  "applyDirectoryProfile dto u = u\<lparr>listedInDirectory := given (dd_listed dto) (listedInDirectory u), arbiterAvailable := given (dd_available dto) (arbiterAvailable u),
     u_organization := (case dd_organization dto of None \<Rightarrow> u_organization u | Some s \<Rightarrow> if trim s = [] then None else Some (trim s))\<rparr>"

definition updateOwnProfile :: "uuid \<Rightarrow> directoryProfileDto \<Rightarrow> (bool \<times> bool \<times> string option) act" where
  "updateOwnProfile uid dto =
     andThen (reads (\<lambda>w. find (\<lambda>u. u_id u = uid) (users (db w)))) (\<lambda>found.
     requireSome found NotFoundException (\<lambda>u.
     require (u_role u = ARBITER) ForbiddenException (
     andThen (modifyDb (\<lambda>d. d\<lparr>users := updateWhere (\<lambda>u. u_id u = uid) (applyDirectoryProfile dto) (users d)\<rparr>)) (\<lambda>_.
     let v = applyDirectoryProfile dto u in ret (listedInDirectory v, arbiterAvailable v, u_organization v)))))"

section \<open>Numbers\<close>

lemma mathRound_mono: "x \<le> y \<Longrightarrow> mathRound x \<le> mathRound y"
  by (simp add: mathRound_def floor_mono)

lemma mathRound_int: "mathRound (of_int i) = i"
  by (simp add: mathRound_def floor_eq_iff)

lemma reputation_counts: "0 \<le> rp_handled (computeReputation e addr w)" "0 \<le> rp_open (computeReputation e addr w)"
  by (simp_all add: computeReputation_def Let_def)

text \<open>A score is a percentage, and every arbiter with a history has one.\<close>

lemma score_is_percentage:
  assumes "0 \<le> rp_handled r" "0 \<le> rp_open r" "reputationScore r = Some s"
  shows "0 \<le> s \<and> s \<le> 100"
proof -
  let ?x = "of_int (rp_handled r) / of_int (rp_handled r + rp_open r) * 100 :: rat"
  have s: "s = mathRound ?x" and "rp_handled r + rp_open r \<noteq> 0" using assms(3) by (auto simp: reputationScore_def Let_def split: if_splits)
  then have pos: "0 < rp_handled r + rp_open r" using assms by linarith
  then have "0 \<le> ?x" using assms(1) by simp
  moreover have "?x \<le> 100"
  proof -
    have "of_int (rp_handled r) / of_int (rp_handled r + rp_open r) \<le> (1 :: rat)" using pos assms(2) by (simp add: divide_le_eq_1)
    from mult_right_mono [OF this, of 100] show ?thesis by (simp only: mult_1)
  qed
  ultimately have "mathRound (of_int 0) \<le> s" "s \<le> mathRound (of_int 100)" unfolding s by (auto intro: mathRound_mono)
  then show ?thesis by (simp only: mathRound_int)
qed

lemma average_nonneg:
  assumes "rp_average (computeReputation e addr w) = Some a"
  shows "0 \<le> a"
proof -
  let ?times = "filter (\<lambda>t. t \<ge> 0) (map resolutionMs (filter (\<lambda>m. m_status m = RESOLVED \<and> confirmedAt m \<noteq> None) (disputesOf addr w)))"
  have "a = mathRound (of_int (sum_list ?times) / of_nat (length ?times) / (1000 * 60 * 60) * 100)"
    using assms by (auto simp: computeReputation_def Let_def split: if_splits)
  moreover have "0 \<le> sum_list ?times" by (rule sum_list_nonneg) auto
  then have "(of_int 0 :: rat) \<le> of_int (sum_list ?times) / of_nat (length ?times) / (1000 * 60 * 60) * 100"
    by (simp only: of_int_0) (intro mult_nonneg_nonneg divide_nonneg_nonneg; simp)
  ultimately have "mathRound (of_int 0) \<le> a" by (simp only: mathRound_mono)
  then show ?thesis by (simp only: mathRound_int)
qed

section \<open>The cache\<close>

lemma reputation_json_roundtrip: "jsonReputation (reputationJson r) = r"
  by (cases r) (auto simp: jsonReputation_def reputationJson_def jsonGet_def Let_def split: option.splits)

lemma compute_redis [simp]: "computeReputation e addr (w\<lparr>redis := k\<rparr>) = computeReputation e addr w"
  by (simp add: computeReputation_def disputesOf_def)

lemma reputation_key_inj [simp]: "REPUTATION_PREFIX @ a = REPUTATION_PREFIX @ b \<longleftrightarrow> a = b"
  by simp

definition cacheReputations :: "env \<Rightarrow> world \<Rightarrow> address list \<Rightarrow> keyspace \<Rightarrow> keyspace" where
  "cacheReputations e w addrs k = fold (\<lambda>a. setJson (now e) (REPUTATION_PREFIX @ a) (reputationJson (computeReputation e a w)) (Some REPUTATION_TTL_SECONDS)) addrs k"

lemma run_recomputeEach: "recomputeEach e addrs w = (Inr (), w\<lparr>redis := cacheReputations e w addrs (redis w)\<rparr>)"
proof (induction addrs arbitrary: w)
  case Nil
  show ?case by (simp add: recomputeEach_def cacheReputations_def)
next
  case (Cons a addrs)
  let ?w1 = "w\<lparr>redis := setJson (now e) (REPUTATION_PREFIX @ a) (reputationJson (computeReputation e a w)) (Some REPUTATION_TTL_SECONDS) (redis w)\<rparr>"
  have "recompute e a w = (Inr (computeReputation e a w), ?w1)" by (simp add: recompute_def)
  then have "recomputeEach e (a # addrs) w = recomputeEach e addrs ?w1" by (simp add: recomputeEach_def)
  also have "\<dots> = (Inr (), ?w1\<lparr>redis := cacheReputations e ?w1 addrs (redis ?w1)\<rparr>)" by (rule Cons.IH)
  also have "\<dots> = (Inr (), w\<lparr>redis := cacheReputations e w (a # addrs) (redis w)\<rparr>)" by (simp add: cacheReputations_def)
  finally show ?case .
qed

lemma cacheReputations_other: "a \<notin> set addrs \<Longrightarrow> cacheReputations e w addrs k (REPUTATION_PREFIX @ a) = k (REPUTATION_PREFIX @ a)"
  by (induction addrs arbitrary: k) (simp_all add: cacheReputations_def setJson_def setKey_def REPUTATION_TTL_SECONDS_def)

lemma cacheReputations_hit:
  "a \<in> set addrs \<Longrightarrow> cacheReputations e w addrs k (REPUTATION_PREFIX @ a) =
    Some \<lparr>content = JsonText (reputationJson (computeReputation e a w)), expiresAt = Some (now e + REPUTATION_TTL_SECONDS * 1000)\<rparr>"
proof (induction addrs arbitrary: k)
  case (Cons b addrs)
  let ?k = "setJson (now e) (REPUTATION_PREFIX @ b) (reputationJson (computeReputation e b w)) (Some REPUTATION_TTL_SECONDS) k"
  have step: "cacheReputations e w (b # addrs) k = cacheReputations e w addrs ?k" by (simp add: cacheReputations_def)
  show ?case
  proof (cases "a \<in> set addrs")
    case True
    then show ?thesis using Cons.IH step by simp
  next
    case False
    then have "a = b" using Cons.prems by simp
    then show ?thesis using False cacheReputations_other step by (simp add: setJson_def setKey_def REPUTATION_TTL_SECONDS_def)
  qed
qed simp

text \<open>The job succeeds and touches nothing but the cache and its own record; for the seven days that follow, every arbiter of a shipment has
  the reputation of its run, with the current availability.\<close>

lemma reputation_job_refreshes:
  assumes "a \<in> arbiterAddress ` set (shipments (db w))" "now e \<le> now e'" "now e' < now e + 7 * 24 * 60 * 60 * 1000"
  shows "\<exists>w'. recomputeAll e w = (Inr (), w') \<and> w' = w\<lparr>redis := redis w'\<rparr> \<and>
    getReputation parse e' a w' = (Inr (computeReputation e a w, toAvailability (now e') (findUser a w)), w')"
proof -
  let ?k = "cacheReputations e w (listKnownArbiterAddresses w) (redis w)"
  let ?r = "setJson (now e) (getJobRedisKey ''arbiter-reputation'') (jobRunRecord ''arbiter-reputation'' (now e) ''SUCCESS'' JNull) None ?k"
  have run: "recomputeAll e w = (Inr (), w\<lparr>redis := ?r\<rparr>)" by (simp add: recomputeAll_def runTrackedJob_def run_recomputeEach)
  have "?r (REPUTATION_PREFIX @ a) = ?k (REPUTATION_PREFIX @ a)"
    by (simp add: setJson_def setKey_def getJobRedisKey_def REPUTATION_PREFIX_def)
  also have "\<dots> = Some \<lparr>content = JsonText (reputationJson (computeReputation e a w)), expiresAt = Some (now e + REPUTATION_TTL_SECONDS * 1000)\<rparr>"
    using assms(1) by (intro cacheReputations_hit) (simp add: listKnownArbiterAddresses_def)
  finally have "getReputation parse e' a (w\<lparr>redis := ?r\<rparr>) = (Inr (computeReputation e a w, toAvailability (now e') (findUser a w)), w\<lparr>redis := ?r\<rparr>)"
    using assms(3) by (simp add: getReputation_def cachedReputation_def getJson_def lookupKey_def liveEntry_def REPUTATION_TTL_SECONDS_def
        reputation_json_roundtrip findUser_def)
  with run show ?thesis by (intro exI [of _ "w\<lparr>redis := ?r\<rparr>"]) simp
qed

section \<open>The directory\<close>

text \<open>The public directory. Whatever the query, there is one ranking of which every page is a piece: it holds exactly the
  arbiters that are listed, not deactivated and match the query, as often as they have accounts, highest score
  first and those without a history last; with a minimum, everybody shown has a score, which reaches it.\<close>

lemma directory_ranks_listed_arbiters:
  fixes w :: world
  shows "\<exists>ranking. (\<forall>page limit. listDirectory parse e (query\<lparr>dq_page := page, dq_limit := limit\<rparr>) w =
      (Inr (paged page limit ranking, length ranking, (length ranking + limit - 1) div limit), w)) \<and>
    mset (map dn_address ranking) = image_mset stellarAddress (filter_mset (\<lambda>u. u_role u = ARBITER \<and> listedInDirectory u \<and> deactivatedAt u = None \<and>
       inDirectory query u \<and> atLeastScore (dq_minScore query) (directoryEntryOf parse e w u)) (mset (users (db w)))) \<and>
    sorted (map (\<lambda>en. - scoreOr en) ranking) \<and>
    (\<forall>en \<in> set ranking. \<forall>m. dq_minScore query = Some m \<longrightarrow> (\<exists>s. dn_score en = Some s \<and> m \<le> of_int s))"
proof (intro exI conjI)
  let ?rank = "directoryRanking parse e query w"
  have same: "directoryRanking parse e (query\<lparr>dq_page := page, dq_limit := limit\<rparr>) w = ?rank" for page limit
  proof -
    have "inDirectory (query\<lparr>dq_page := page, dq_limit := limit\<rparr>) = inDirectory query" by (simp add: fun_eq_iff inDirectory_def)
    then show ?thesis by (simp add: directoryRanking_def)
  qed
  show "\<forall>page limit. listDirectory parse e (query\<lparr>dq_page := page, dq_limit := limit\<rparr>) w =
      (Inr (paged page limit ?rank, length ?rank, (length ?rank + limit - 1) div limit), w)"
    by (simp add: listDirectory_def same Let_def)
  have sel: "(\<lambda>u. u_role u = ARBITER \<and> listedInDirectory u \<and> deactivatedAt u = None \<and> inDirectory query u \<and>
      atLeastScore (dq_minScore query) (directoryEntryOf parse e w u)) =
    (\<lambda>u. inDirectory query u \<and> atLeastScore (dq_minScore query) (directoryEntryOf parse e w u))"
    by (auto simp: inDirectory_def fun_eq_iff)
  have "image_mset dn_address (filter_mset P (image_mset (directoryEntryOf parse e w) M)) =
      image_mset stellarAddress (filter_mset (\<lambda>u. P (directoryEntryOf parse e w u)) M)" for P M
    by (induction M) (auto simp: directoryEntryOf_def Let_def)
  then show "mset (map dn_address ?rank) = image_mset stellarAddress (filter_mset (\<lambda>u. u_role u = ARBITER \<and> listedInDirectory u \<and> deactivatedAt u = None \<and>
       inDirectory query u \<and> atLeastScore (dq_minScore query) (directoryEntryOf parse e w u)) (mset (users (db w))))"
    unfolding sel by (simp add: directoryRanking_def filter_filter_mset conj_commute)
  show "sorted (map (\<lambda>en. - scoreOr en) ?rank)" by (simp add: directoryRanking_def)
  show "\<forall>en \<in> set ?rank. \<forall>m. dq_minScore query = Some m \<longrightarrow> (\<exists>s. dn_score en = Some s \<and> m \<le> of_int s)"
    by (auto simp: directoryRanking_def atLeastScore_def split: option.splits)
qed

definition anyArbiter :: directoryQuery where
  "anyArbiter = \<lparr>dq_minScore = None, dq_available = None, dq_q = None, dq_page = 1, dq_limit = 20\<rparr>"

definition arbiterWorld :: world where
  "arbiterWorld = emptyWorld\<lparr>db := (db emptyWorld)\<lparr>users := [user0 1 ''A'', (user0 2 ''B'')\<lparr>u_role := ARBITER, listedInDirectory := True\<rparr>,
     (user0 3 ''C'')\<lparr>u_role := ARBITER, listedInDirectory := False\<rparr>]\<rparr>\<rparr>"

lemma directory_ranks_listed_arbiters_witness:
  "\<exists>ranking. listDirectory (\<lambda>_. None) env0 (anyArbiter\<lparr>dq_page := 1, dq_limit := 5\<rparr>) arbiterWorld =
      (Inr (paged 1 5 ranking, length ranking, (length ranking + 5 - 1) div 5), arbiterWorld) \<and> mset (map dn_address ranking) = {#''B''#}"
proof -
  have "filter_mset (\<lambda>u. u_role u = ARBITER \<and> listedInDirectory u \<and> deactivatedAt u = None \<and> inDirectory anyArbiter u \<and>
      atLeastScore (dq_minScore anyArbiter) (directoryEntryOf (\<lambda>_. None) env0 arbiterWorld u)) (mset (users (db arbiterWorld))) =
    {#(user0 2 ''B'')\<lparr>u_role := ARBITER, listedInDirectory := True\<rparr>#}"
    by (simp add: arbiterWorld_def anyArbiter_def inDirectory_def atLeastScore_def concrete_defs)
  with directory_ranks_listed_arbiters [of "\<lambda>_. None" env0 anyArbiter arbiterWorld]
  show ?thesis by (fastforce simp: concrete_defs)
qed

text \<open>Only an arbiter has a profile, and an away period shows until its end.\<close>

lemma profile_needs_arbiter:
  "updateOwnProfile uid dto w = (Inr r, w') \<Longrightarrow> \<exists>u \<in> set (users (db w)). u_id u = uid \<and> u_role u = ARBITER"
  by (cases "find (\<lambda>u. u_id u = uid) (users (db w))") (auto simp: updateOwnProfile_def find_Some_iff split: if_splits)

lemma away_until:
  assumes "setAvailability e uid (Some until) msg w = (Inr r, w')"
    and "findUser addr w' = Some u" "u_id u = uid"
  shows "now e < until \<and> (getAvailability e' addr w' = (Inr (toAvailability (now e') (Some u)), w')) \<and>
    (av_isAway (toAvailability (now e') (Some u)) \<longleftrightarrow> now e' < until)"
proof -
  obtain u0 where "find (\<lambda>u. u_id u = uid) (users (db w)) = Some u0"
    using assms(1) by (cases "find (\<lambda>u. u_id u = uid) (users (db w))") (auto simp: setAvailability_def split: if_splits)
  then have users: "users (db w') = updateWhere (\<lambda>u. u_id u = uid) (\<lambda>u. u\<lparr>arbiterAwayUntil := Some until, awayMessage := msg\<rparr>) (users (db w))"
    and until: "now e < until"
    using assms(1) by (auto simp: setAvailability_def modifyDb_def split: if_splits)
  have "u \<in> set (users (db w'))" using assms(2) unfolding findUser_def by (metis find_Some_iff nth_mem)
  then obtain v where "u = (if u_id v = uid then v\<lparr>arbiterAwayUntil := Some until, awayMessage := msg\<rparr> else v)"
    unfolding users in_set_updateWhere by blast
  then have "arbiterAwayUntil u = Some until" using assms(3) by (cases "u_id v = uid") auto
  with until show ?thesis using assms(2) by (simp add: getAvailability_def toAvailability_def Let_def)
qed

end
