(* ===== verification/Spec2Isabelle.thy ===== *)
theory Spec2Isabelle
  imports Shipment_Edits Backfill Deadlines Reconciliation Service Api_Keys Webhooks Resilience Ipfs Templates Invitations
    Comments Archival Housekeeping Platform Calendar
    Inbox Live_Updates Arbiters
begin

text \<open>
  \<^bold>\<open>Verification of the ChainSettle backend\<close>

  ChainSettle mirrors escrow contracts on the Stellar network: a buyer locks the value of a shipment, milestones release
  it in parts, an arbiter settles disputes. The backend (\<open>src/src\<close>, TypeScript on NestJS, Prisma and Redis) keeps the
  off-chain state: shipments and milestone plans, proofs and disputes, the multi-signature gate, users and sessions,
  notifications and webhooks, and it follows the contract's events. This development models its services as executable
  functions on an explicit state and proves what makes them correct.

  \<^bold>\<open>How the program is modelled.\<close> The state is the record \<open>world\<close> of \<open>Domain\<close>: the database (a list of rows for each table of
  \<open>src/prisma/schema.prisma\<close>), the mailbox (notifications, preferences, suppressions, everything sent), the audit log,
  the metrics and the Redis keyspace. A service method is an action of \<open>Prelude\<close>, a function from a world to a value or
  an exception and a new world, so that whatever was written before an exception stays written, as in the code. The
  clock, the configuration and the answers of external services are the record \<open>env\<close> of a call, or a parameter
  of their own (JWT and signatures in \<open>Auth\<close>, HTTP, HMAC and cipher in \<open>Webhooks\<close>, the pinning provider in \<open>Ipfs\<close>, the nodes
  in \<open>Stellar_Rpc\<close>, the bucket function of the flags in \<open>Platform\<close>,
  the signature of the feeds in \<open>Calendar\<close>, the node and the push services in \<open>Live_Updates\<close>). Guards, early returns and the order of writes follow the
  source; a Prisma error is an exception of the model. Where calls of several clients interleave within one method, the method
  is split into the half that reads and the half that commits, and the theorems quantify over what happens between them.

  \<^bold>\<open>The theories.\<close>
  \<^item> \<open>Prelude\<close>: actions, loops, tables, the predicates \<open>keeps\<close>, \<open>leaves\<close>, \<open>atomic\<close>, \<open>neverFails\<close> with their compositional
    rules, the locales \<open>side_channel\<close> and \<open>step_system\<close>, and the string and calendar functions of the language.
    \<open>Domain\<close>: the schema, the state, the Prisma calls and the well-formedness \<open>wf_db\<close>. \<open>Claims\<close>: the locale \<open>single_claim\<close> of
    conditional updates that only one caller can win. \<open>Civil_Time\<close>: UTC dates and day numbers, inverse to each other.
  \<^item> \<open>Redis\<close> (\<open>common/redis\<close>): keys, sets, JSON and the lock (locale \<open>lock_service\<close>). \<open>Job_Tracker\<close> (\<open>common/jobs\<close>): jobs under a
    lock and the record of their runs. \<open>Resilience\<close> (\<open>common/utils/circuit-breaker.ts\<close>, \<open>common/throttler\<close>, the throttler guard).
    \<open>Stellar_Rpc\<close> (\<open>common/stellar/rpc-pool.ts\<close> and the event pages of \<open>stellar.service.ts\<close>). \<open>Token_Registry\<close>
    (\<open>common/token-registry\<close>, amounts). \<open>Ipfs\<close> (\<open>common/ipfs\<close>).
  \<^item> \<open>Shipments\<close>, \<open>Shipment_Edits\<close> (\<open>modules/shipments/shipments.service.ts\<close>): creation behind its gates, cloning, arbiters,
    cancellation, mirroring of the contract; conditional updates with entity tags, tags, notes, tracking, watchers.
    \<open>Approvals\<close> (\<open>shipment-approvals.service.ts\<close>, locale \<open>quorum_gate\<close>). \<open>Milestones\<close> (\<open>milestones.service.ts\<close>): proofs,
    confirmation one by one and in batches, disputes, the payment plan. \<open>Deadlines\<close>: extension requests, checklists, the hourly jobs.
    \<open>Calendar\<close> (\<open>calendar.service.ts\<close>): the feeds of due dates and their iCalendar text.
    \<open>Comments\<close>, \<open>Archival\<close>, \<open>Housekeeping\<close>: threads, cold storage, reminders and the other scheduled jobs.
    \<open>Templates\<close> (templates, recurring schedules and their job), \<open>Invitations\<close> (invitations, settlement proposals).
  \<^item> \<open>Events\<close> (\<open>modules/events/events.service.ts\<close>): leadership, stream, handlers, dead letter queue. \<open>Backfill\<close>,
    \<open>Reconciliation\<close>: the replay of a range of ledgers and the weekly comparison with the contract.
  \<^item> \<open>Auth\<close>, \<open>Api_Keys\<close> (\<open>modules/auth\<close>), \<open>Kyc\<close> (\<open>modules/kyc\<close>), \<open>Organizations\<close>, \<open>Webhooks\<close>, \<open>Arbiters\<close>, and \<open>Platform\<close>
    (announcements, feature flags, suppressed addresses, contacts, saved filters): the services around the escrow. \<open>Notifications\<close> (fan-out to the channels, quiet hours), \<open>Inbox\<close> (listings, marks,
    preferences, digests) and \<open>Live_Updates\<close> (the socket gateway, push subscriptions, the relay of signed transactions in
    \<open>modules/chain\<close>): what reaches a user.
  \<^item> \<open>Service\<close>: the requests, events and jobs of shipments, approvals and milestones as the steps of one system.

  \<^bold>\<open>What is proved.\<close> \<^emph>\<open>The escrow\<close>: creation stores a plan of one hundred per cent and no sequence of operations exceeds it; the
  terms of a shipment never change; a confirmation needs the buyer, a proof and the quorum, and the quorum is reached exactly
  with enough signatures; batches report exactly what they did; a stale edit is refused; the mirror agrees with the
  contract, and reconciliation refines its specification on single shipments. \<^emph>\<open>The chain\<close>: an event whose handler throws is
  queued and the queue drains, replays change nothing, at most one replica leads, the backfill handles each event once and
  ends unless a page is stuck, in which case it does not. \<^emph>\<open>Access\<close>: a nonce signs in once, a forced logout is final, a rotated
  key works for its grace period only, custom headers cannot forge a signature, an organization keeps an owner, nobody
  raises anybody above themselves, comments respect their visibility. \<^emph>\<open>Jobs\<close>: no delivery is lost and the retry queue settles,
  drafts, reminders and invitations happen once in every interleaving, deadlines never move back, the archive receives exactly
  what has rested and the loop ends under an exact condition, the clean-up in batches equals one deletion; a rendered calendar reads back line by line,
  digests go to exactly those who asked for them, live notifications to their owner's sockets only, and every relayed transaction
  reports one final status.
  Every property is a theorem of the theory that holds its component, with a witness at a concrete state.

  \<^bold>\<open>Loops and bounds.\<close> Recursion follows the source; the loops that need not end are partial functions in the option type,
  with both the condition under which they return and the one under which they do not: \<open>backfillLoop\<close> (a full page of one ledger)
  \<open>archivalLoop\<close> (fifty shipments held back) and \<open>foldParts\<close> (octets that are no text). The retries and polls of the relay, the search for the oldest ledger, the attempts to pin a file, the catching up of
  a schedule and the clean-up of notifications terminate by a measure. No fuel is used. Batch sizes, limits and intervals are the
  constants of the source. Identifiers are drawn from a counter; instants are milliseconds as integers, amounts are integers as
  the \<open>bigint\<close> of the source.

  \<^bold>\<open>Simplifications.\<close> A call happens at one instant of its environment, and calls of one service follow each other except
  where the halves of a method are separate steps. Strings are sequences of bytes, sorting is stable, and rows are read in the order
  of their insertion where the source does not ask for another. Averages are exact rational numbers
  where the source divides doubles. Message texts and log lines are left out.

  \<^bold>\<open>Not modelled.\<close> HTTP controllers, DTO decorators, GraphQL and health checks only route requests to the modelled
  services. Logging, metrics endpoints and tracing are output; configuration and translations are data. The listings, searches,
  exports, statistics and the admin dashboard are queries over the modelled tables with no effect on them. Exchange
  rates, and the amounts converted with them, are floating-point numbers from an external service. Building
  transactions is the Stellar SDK's work.
\<close>

end
